(* ===== verification/Prelude.thy ===== *)
theory Prelude
  imports Main "HOL-Library.Word" "HOL-Library.Signed_Division"
    "HOL-Library.List_Lexorder" "HOL-Library.Char_ord"
begin

text \<open>
  What every component of the model shares.

  Go's \<^verbatim>\<open>int\<close> is \<^typ>\<open>int\<close> here; the theory of the combat rules proves that the values
  the program computes stay far inside 64 bits, so the wrap-around of the machine type is
  never reached from well-formed states. Go's \<^verbatim>\<open>/\<close> truncates towards zero: it is
  \<open>sdiv\<close>. \<^verbatim>\<open>uint64\<close> is \<^typ>\<open>64 word\<close>. A Go string is a sequence of bytes and
  an Isabelle \<^typ>\<open>string\<close> a list of 8-bit characters, so the two agree, and
  \<open>\<le>\<close> on strings is Go's bytewise comparison. A Go map is a function to an option
  type; a read of a missing key yields the zero value of the element type (\<open>go_lookup\<close>).

  The hash functions of the standard library (\<^verbatim>\<open>hash/fnv\<close>), the little-endian encoder of
  \<^verbatim>\<open>encoding/binary\<close> and the decimal printer of \<^verbatim>\<open>fmt\<close> are defined here as well, because
  several components call them.
\<close>

named_theorems rule_defs
  \<open>definitions of the combat formulas, unfolded together by the arithmetic proofs\<close>

named_theorems frame_simps
  \<open>what a small state transformer leaves unchanged\<close>

named_theorems wf_intros
  \<open>preservation of well-formedness by the small state transformers\<close>

unbundle bit_operations_syntax

type_synonym byte = "8 word"
type_synonym u64 = "64 word"

section \<open>Maps, options and sums\<close>

definition go_lookup :: "('k \<rightharpoonup> 'v) \<Rightarrow> 'k \<Rightarrow> 'v \<Rightarrow> 'v" where
  "go_lookup m k zero = (case m k of None \<Rightarrow> zero | Some v \<Rightarrow> v)"

lemma go_lookup_simps [simp]:
  "m k = None \<Longrightarrow> go_lookup m k z = z"
  "m k = Some v \<Longrightarrow> go_lookup m k z = v"
  by (simp_all add: go_lookup_def)

lemma go_lookup_upd:
  "go_lookup (m(k \<mapsto> v)) k' z = (if k' = k then v else go_lookup m k' z)"
  by (simp add: go_lookup_def)

text \<open>The set of keys, read off an insertion loop that never overwrites.\<close>

lemma map_le_upd_fresh: "m k = None \<Longrightarrow> m \<subseteq>\<^sub>m m(k \<mapsto> v)"
  by (auto simp: map_le_def dom_def)

section \<open>Truncating division\<close>

lemma sdiv_nonneg_eq: "0 \<le> a \<Longrightarrow> 0 < b \<Longrightarrow> (a::int) sdiv b = a div b"
  by (cases "a = 0") (simp_all add: signed_divide_int_def)

lemma sdiv_pos_bounds:
  assumes "0 \<le> a" "a \<le> c * b" "0 < b"
  shows "0 \<le> (a::int) sdiv b" and "a sdiv b \<le> c"
proof -
  from assms show "0 \<le> a sdiv b"
    by (simp add: sdiv_nonneg_eq pos_imp_zdiv_nonneg_iff)
  have "a div b \<le> (c * b) div b"
    using assms by (intro zdiv_mono1) auto
  with assms show "a sdiv b \<le> c"
    by (simp add: sdiv_nonneg_eq)
qed

section \<open>Machine range\<close>

definition int64_ok :: "int \<Rightarrow> bool" where
  "int64_ok v \<longleftrightarrow> - (2 ^ 63) \<le> v \<and> v < 2 ^ 63"

section \<open>Decimal output\<close>

fun nat_digits :: "nat \<Rightarrow> string" where
  "nat_digits n = (if n < 10 then [char_of (48 + n)]
     else nat_digits (n div 10) @ [char_of (48 + n mod 10)])"

declare nat_digits.simps [simp del]

definition itoa :: "int \<Rightarrow> string" where
  "itoa i = (if i < 0 then CHR ''-'' # nat_digits (nat (- i)) else nat_digits (nat i))"

section \<open>Bytes and the FNV hashes of the standard library\<close>

definition string_bytes :: "string \<Rightarrow> byte list" where
  "string_bytes s = map (\<lambda>c. word_of_nat (of_char c)) s"

definition put_uint64_le :: "u64 \<Rightarrow> byte list" where
  "put_uint64_le v = map (\<lambda>i. ucast (drop_bit (8 * i) v)) [0..<8]"

definition fnv64a_offset :: u64 where
  "fnv64a_offset = 14695981039346656037"

definition fnv64a_write :: "u64 \<Rightarrow> byte list \<Rightarrow> u64" where
  "fnv64a_write h bs = fold (\<lambda>b h. (h XOR ucast b) * 1099511628211) bs h"

definition fnv32_offset :: "32 word" where
  "fnv32_offset = 2166136261"

definition fnv32a_write :: "32 word \<Rightarrow> byte list \<Rightarrow> 32 word" where
  "fnv32a_write h bs = fold (\<lambda>b h. (h XOR ucast b) * 16777619) bs h"

lemma fnv64a_write_append: "fnv64a_write h (xs @ ys) = fnv64a_write (fnv64a_write h xs) ys"
  by (simp add: fnv64a_write_def)

lemma length_put_uint64_le [simp]: "length (put_uint64_le v) = 8"
  by (simp add: put_uint64_le_def)

text \<open>The encoders lose nothing.\<close>

lemma put_uint64_le_inject: "put_uint64_le v = put_uint64_le w \<longleftrightarrow> v = w"
proof
  assume eq: "put_uint64_le v = put_uint64_le w"
  have byte: "ucast (drop_bit (8 * i) v) = (ucast (drop_bit (8 * i) w) :: byte)"
    if "i < 8" for i
    using eq that by (simp add: put_uint64_le_def)
  show "v = w"
  proof (rule bit_word_eqI)
    fix n :: nat
    assume n: "n < LENGTH(64)"
    then have "n div 8 < 8" by simp
    from byte [OF this]
    have "bit (ucast (drop_bit (8 * (n div 8)) v) :: byte) (n mod 8) =
        bit (ucast (drop_bit (8 * (n div 8)) w) :: byte) (n mod 8)" by simp
    then show "bit v n = bit w n"
      by (simp add: bit_ucast_iff bit_drop_bit_eq del: div_mult_self1)
  qed
qed simp

lemma string_bytes_inject: "string_bytes s = string_bytes t \<longleftrightarrow> s = t"
proof -
  have "inj (\<lambda>c. word_of_nat (of_char c) :: byte)"
  proof (rule injI)
    fix c d :: char
    assume "(word_of_nat (of_char c) :: byte) = word_of_nat (of_char d)"
    then have "unat (word_of_nat (of_char c) :: byte) = unat (word_of_nat (of_char d) :: byte)"
      by simp
    then have "(of_char c :: nat) mod 256 = of_char d mod 256"
      by (simp add: unat_of_nat)
    then show "c = d" by simp
  qed
  then show ?thesis by (simp add: string_bytes_def inj_map_eq_map)
qed

lemma string_bytes_append: "string_bytes (s @ t) = string_bytes s @ string_bytes t"
  by (simp add: string_bytes_def)

end
