(* ===== verification/CombatTypes.thy ===== *)
theory CombatTypes
  imports Prelude
begin

text \<open>
  The data of \<^verbatim>\<open>internal/combat/types.go\<close>: the enumerations, the fighter and match state,
  the turn inputs, the events and the turn result, with the two constructors of the package
  (\<open>NewFighter\<close>, \<open>NewMatchState\<close>).

  Each enumeration of the source is a \<^verbatim>\<open>uint8\<close>, and values outside the named constants reach
  the code (from decoded replays and from callers that bypass the parser), which is why several
  functions have a \<^verbatim>\<open>default\<close> branch. The datatypes therefore have, beside the source's
  constants, a constructor for the remaining values: \<open>StateOther k\<close> is the value \<open>6 + k\<close>,
  \<open>ActionOther k\<close> is \<open>8 + k\<close>, \<open>ZoneOther k\<close> is \<open>3 + k\<close> and \<open>ArchetypeOther k\<close> is
  \<open>4 + k\<close>, as the functions \<open>state_code\<close>, \<open>action_code\<close>, \<open>zone_code\<close> and
  \<open>archetype_code\<close> say.
\<close>

section \<open>Enumerations\<close>

datatype combat_state = StateNeutral | StateClinch | StateGround | StateDominant
  | StateStunned | StateSubmissionAttempt | StateOther nat

fun state_code :: "combat_state \<Rightarrow> int" where
  "state_code StateNeutral = 0"
| "state_code StateClinch = 1"
| "state_code StateGround = 2"
| "state_code StateDominant = 3"
| "state_code StateStunned = 4"
| "state_code StateSubmissionAttempt = 5"
| "state_code (StateOther k) = 6 + int k"

fun state_string :: "combat_state \<Rightarrow> string" where
  "state_string StateNeutral = ''Neutral''"
| "state_string StateClinch = ''Clinch''"
| "state_string StateGround = ''Ground''"
| "state_string StateDominant = ''Dominant''"
| "state_string StateStunned = ''Stunned''"
| "state_string StateSubmissionAttempt = ''SubmissionAttempt''"
| "state_string s = ''State('' @ itoa (state_code s) @ '')''"

datatype action = ActionNone | ActionStrike | ActionGrapple | ActionBlock | ActionDodge
  | ActionCounter | ActionFeint | ActionBreak | ActionOther nat

fun action_code :: "action \<Rightarrow> int" where
  "action_code ActionNone = 0"
| "action_code ActionStrike = 1"
| "action_code ActionGrapple = 2"
| "action_code ActionBlock = 3"
| "action_code ActionDodge = 4"
| "action_code ActionCounter = 5"
| "action_code ActionFeint = 6"
| "action_code ActionBreak = 7"
| "action_code (ActionOther k) = 8 + int k"

fun action_string :: "action \<Rightarrow> string" where
  "action_string ActionNone = ''None''"
| "action_string ActionStrike = ''Strike''"
| "action_string ActionGrapple = ''Grapple''"
| "action_string ActionBlock = ''Block''"
| "action_string ActionDodge = ''Dodge''"
| "action_string ActionCounter = ''Counter''"
| "action_string ActionFeint = ''Feint''"
| "action_string ActionBreak = ''Break''"
| "action_string a = ''Action('' @ itoa (action_code a) @ '')''"

datatype zone = ZoneHead | ZoneTorso | ZoneLegs | ZoneOther nat

fun zone_code :: "zone \<Rightarrow> int" where
  "zone_code ZoneHead = 0"
| "zone_code ZoneTorso = 1"
| "zone_code ZoneLegs = 2"
| "zone_code (ZoneOther k) = 3 + int k"

fun zone_string :: "zone \<Rightarrow> string" where
  "zone_string ZoneHead = ''Head''"
| "zone_string ZoneTorso = ''Torso''"
| "zone_string ZoneLegs = ''Legs''"
| "zone_string z = ''Zone('' @ itoa (zone_code z) @ '')''"

datatype archetype = ArchetypeBalanced | ArchetypePowerhouse | ArchetypeTechnician
  | ArchetypeHighFlyer | ArchetypeOther nat

fun archetype_code :: "archetype \<Rightarrow> int" where
  "archetype_code ArchetypeBalanced = 0"
| "archetype_code ArchetypePowerhouse = 1"
| "archetype_code ArchetypeTechnician = 2"
| "archetype_code ArchetypeHighFlyer = 3"
| "archetype_code (ArchetypeOther k) = 4 + int k"

fun archetype_string :: "archetype \<Rightarrow> string" where
  "archetype_string ArchetypeBalanced = ''Balanced''"
| "archetype_string ArchetypePowerhouse = ''Powerhouse''"
| "archetype_string ArchetypeTechnician = ''Technician''"
| "archetype_string ArchetypeHighFlyer = ''HighFlyer''"
| "archetype_string a = ''Archetype('' @ itoa (archetype_code a) @ '')''"

lemma state_code_inject: "state_code s = state_code t \<longleftrightarrow> s = t"
  by (cases s; cases t) auto

lemma action_code_inject: "action_code a = action_code b \<longleftrightarrow> a = b"
  by (cases a; cases b) auto

lemma archetype_code_inject: "archetype_code a = archetype_code b \<longleftrightarrow> a = b"
  by (cases a; cases b) auto

section \<open>Fighters and matches\<close>

record fighter_stats =
  Power :: int
  Technique :: int
  Agility :: int
  Endurance :: int

fun ArchetypeStats :: "archetype \<Rightarrow> fighter_stats option" where
  "ArchetypeStats ArchetypeBalanced =
     Some \<lparr>Power = 6, Technique = 6, Agility = 6, Endurance = 6\<rparr>"
| "ArchetypeStats ArchetypePowerhouse =
     Some \<lparr>Power = 9, Technique = 4, Agility = 4, Endurance = 8\<rparr>"
| "ArchetypeStats ArchetypeTechnician =
     Some \<lparr>Power = 5, Technique = 9, Agility = 5, Endurance = 6\<rparr>"
| "ArchetypeStats ArchetypeHighFlyer =
     Some \<lparr>Power = 4, Technique = 6, Agility = 9, Endurance = 5\<rparr>"
| "ArchetypeStats (ArchetypeOther k) = None"

definition HPMax :: int where "HPMax = 100"

definition StaminaMax :: int where "StaminaMax = 100"

record status_effects =
  StunnedFor :: int
  TorsoRegenPenaltyFor :: int
  LegsDodgePenaltyFor :: int

definition no_effects :: status_effects where
  "no_effects = \<lparr>StunnedFor = 0, TorsoRegenPenaltyFor = 0, LegsDodgePenaltyFor = 0\<rparr>"

record fighter_state =
  fs_PlayerID :: string
  fs_Archetype :: archetype
  fs_Stats :: fighter_stats
  fs_HP :: int
  fs_Stamina :: int
  fs_Momentum :: int
  fs_State :: combat_state
  fs_Effects :: status_effects
  fs_LastAction :: action
  fs_LastActionSuccess :: bool
  fs_LastOffensiveHitTurn :: int

record match_outcome =
  mo_Finished :: bool
  mo_WinnerID :: string
  mo_Method :: string

definition no_outcome :: match_outcome where
  "no_outcome = \<lparr>mo_Finished = False, mo_WinnerID = '''', mo_Method = ''''\<rparr>"

record match_state =
  ms_Turn :: int
  ms_P1 :: fighter_state
  ms_P2 :: fighter_state
  ms_CombatState :: combat_state
  ms_Distance :: int
  ms_RNGState :: u64
  ms_Outcome :: match_outcome

record turn_input =
  ti_PlayerID :: string
  ti_Action :: action
  ti_Target :: zone
  ti_DecisionMS :: int

section \<open>Events and results\<close>

datatype event_type = EventTurnStarted | EventActionResolved | EventDamageApplied
  | EventStatusApplied | EventStateChanged | EventMatchFinished | EventStaminaRestored

record event =
  ev_Turn :: int
  ev_Type :: event_type
  ev_PlayerID :: string
  ev_TargetID :: string
  ev_Action :: action
  ev_Zone :: zone
  ev_Value :: int
  ev_Success :: bool
  ev_Detail :: string

text \<open>
  A composite literal \<^verbatim>\<open>Event{Turn: t, Type: k, ...}\<close> gives every field it does not name its
  zero value: \<open>mk_event t k\<close> updated at the named fields.
\<close>

definition mk_event :: "int \<Rightarrow> event_type \<Rightarrow> event" where
  "mk_event t k = \<lparr>ev_Turn = t, ev_Type = k, ev_PlayerID = '''', ev_TargetID = '''',
     ev_Action = ActionNone, ev_Zone = ZoneHead, ev_Value = 0, ev_Success = False,
     ev_Detail = ''''\<rparr>"

record turn_checksum =
  StateHash :: u64
  RollHash :: u64

record turn_result =
  tr_Events :: "event list"
  tr_Next :: match_state
  tr_Checksums :: turn_checksum

text \<open>
  The package's errors, one constructor per \<^verbatim>\<open>fmt.Errorf\<close>. The message for an unknown player
  in the inputs quotes one of the unknown ids, which one depending on the order in which Go walks
  a map: the constructor does not carry it.
\<close>

datatype combat_error = ErrUnknownArchetype archetype | ErrEmptyInputID
  | ErrDuplicateInput string | ErrEmptyStateID | ErrDuplicateStateID string
  | ErrUnknownInputID | ErrMatchFinished | ErrUnknownPlayer string

text \<open>
  The interface \<^verbatim>\<open>RandomSource\<close>: the implementation's state is a value of type \<open>'r\<close>, threaded
  through the calls, and \<open>rs_NextInt\<close> returns the drawn number and the next state.
\<close>

record 'r random_source =
  rs_NextInt :: "'r \<Rightarrow> int \<Rightarrow> int \<times> 'r"
  rs_Snapshot :: "'r \<Rightarrow> u64"

text \<open>The interface \<^verbatim>\<open>Resolver\<close>. The source is advanced in place, so its state comes back too.\<close>

type_synonym 'r resolver =
  "match_state \<Rightarrow> turn_input list \<Rightarrow> 'r \<Rightarrow> (combat_error + turn_result) \<times> 'r"

section \<open>Constructors\<close>

definition NewFighter :: "string \<Rightarrow> archetype \<Rightarrow> combat_error + fighter_state" where
  "NewFighter playerID archetype = (case ArchetypeStats archetype of
     None \<Rightarrow> Inl (ErrUnknownArchetype archetype)
   | Some stats \<Rightarrow> Inr \<lparr>fs_PlayerID = playerID, fs_Archetype = archetype, fs_Stats = stats,
       fs_HP = HPMax, fs_Stamina = StaminaMax, fs_Momentum = 0, fs_State = StateNeutral,
       fs_Effects = no_effects, fs_LastAction = ActionNone, fs_LastActionSuccess = False,
       fs_LastOffensiveHitTurn = 0\<rparr>)"

definition NewMatchState :: "fighter_state \<Rightarrow> fighter_state \<Rightarrow> match_state" where
  "NewMatchState p1 p2 = \<lparr>ms_Turn = 0, ms_P1 = p1, ms_P2 = p2, ms_CombatState = StateNeutral,
     ms_Distance = 1, ms_RNGState = 0, ms_Outcome = no_outcome\<rparr>"

end
