(* ===== verification/CombatRules.thy ===== *)
theory CombatRules
  imports CombatTypes
begin

text \<open>
  The combat formulas of \<^verbatim>\<open>internal/combat/rules.go\<close>, in integer arithmetic with the source's
  truncating division, and their bounds: every chance is a number of basis points inside its
  clamp, every cost, regeneration and damage value is small, and no intermediate value leaves the
  range of Go's 64-bit \<^verbatim>\<open>int\<close>.
\<close>

section \<open>Constants and move data\<close>

definition chanceMinBPS :: int where [rule_defs]: "chanceMinBPS = 1000"
definition chanceMaxBPS :: int where [rule_defs]: "chanceMaxBPS = 9000"
definition stunMaxBPS :: int where [rule_defs]: "stunMaxBPS = 9500"
definition baseStunBPS :: int where [rule_defs]: "baseStunBPS = 1000"
definition headStunBonusBPS :: int where [rule_defs]: "headStunBonusBPS = 1000"
definition lowStaminaStunBonusBPS :: int where [rule_defs]: "lowStaminaStunBonusBPS = 500"
definition fatigueThreshold :: int where [rule_defs]: "fatigueThreshold = 20"
definition fatiguePenalty :: int where [rule_defs]: "fatiguePenalty = 1500"

record move_spec =
  mv_Range :: int
  mv_FrameActiveStart :: int
  mv_FrameActiveEnd :: int
  mv_RequiresCollision :: bool

definition IsActive :: "move_spec \<Rightarrow> int \<Rightarrow> bool" where
  "IsActive m frame \<longleftrightarrow> frame \<ge> mv_FrameActiveStart m \<and> frame \<le> mv_FrameActiveEnd m"

fun actionBaseCost :: "action \<Rightarrow> int option" where
  "actionBaseCost ActionNone = Some 0"
| "actionBaseCost ActionStrike = Some 10"
| "actionBaseCost ActionGrapple = Some 14"
| "actionBaseCost ActionDodge = Some 8"
| "actionBaseCost ActionBlock = Some 6"
| "actionBaseCost ActionCounter = Some 12"
| "actionBaseCost ActionFeint = Some 9"
| "actionBaseCost ActionBreak = Some 10"
| "actionBaseCost (ActionOther k) = None"

fun actionMoveSpec :: "action \<Rightarrow> move_spec option" where
  "actionMoveSpec ActionStrike = Some \<lparr>mv_Range = 2, mv_FrameActiveStart = 1,
     mv_FrameActiveEnd = 2, mv_RequiresCollision = True\<rparr>"
| "actionMoveSpec ActionGrapple = Some \<lparr>mv_Range = 1, mv_FrameActiveStart = 1,
     mv_FrameActiveEnd = 2, mv_RequiresCollision = True\<rparr>"
| "actionMoveSpec ActionCounter = Some \<lparr>mv_Range = 2, mv_FrameActiveStart = 1,
     mv_FrameActiveEnd = 1, mv_RequiresCollision = True\<rparr>"
| "actionMoveSpec ActionFeint = Some \<lparr>mv_Range = 2, mv_FrameActiveStart = 1,
     mv_FrameActiveEnd = 1, mv_RequiresCollision = False\<rparr>"
| "actionMoveSpec a = None"

section \<open>Formulas\<close>

definition ClampInt :: "int \<Rightarrow> int \<Rightarrow> int \<Rightarrow> int" where
  "ClampInt v minV maxV = (if v < minV then minV else if v > maxV then maxV else v)"

definition MaxInt :: "int \<Rightarrow> int \<Rightarrow> int" where
  "MaxInt a b = (if a > b then a else b)"

definition ActionStaminaCost :: "action \<Rightarrow> int \<Rightarrow> int" where
  "ActionStaminaCost action endurance =
     (let base = go_lookup actionBaseCost action 0 in
      if base \<le> 0 then 0
      else let endurance = ClampInt endurance 1 10;
               cost = (base * (100 - endurance * 3)) sdiv 100
           in if cost < 1 then 1 else cost)"

definition RegenForEndurance :: "int \<Rightarrow> int" where
  "RegenForEndurance endurance = (let endurance = ClampInt endurance 1 10 in
     (50 + endurance * 8) sdiv 10)"

definition FatiguePenaltyBPS :: "int \<Rightarrow> int" where
  "FatiguePenaltyBPS stamina = (if stamina < fatigueThreshold then fatiguePenalty else 0)"

definition SuccessChanceBPS :: "int \<Rightarrow> int \<Rightarrow> int \<Rightarrow> int \<Rightarrow> int" where
  "SuccessChanceBPS attackerAttr defenderAttr attackerMomentum attackerStamina =
     (let chance = 5000 + attackerAttr * 300 - defenderAttr * 200 + attackerMomentum * 15
        - FatiguePenaltyBPS attackerStamina
      in ClampInt chance chanceMinBPS chanceMaxBPS)"

fun ActionRelevantAttribute :: "action \<Rightarrow> fighter_stats \<Rightarrow> int" where
  "ActionRelevantAttribute ActionStrike stats = Power stats"
| "ActionRelevantAttribute ActionGrapple stats = Technique stats"
| "ActionRelevantAttribute ActionBlock stats = Technique stats"
| "ActionRelevantAttribute ActionDodge stats = Agility stats"
| "ActionRelevantAttribute ActionCounter stats = Technique stats"
| "ActionRelevantAttribute ActionFeint stats = Agility stats"
| "ActionRelevantAttribute ActionBreak stats = Power stats"
| "ActionRelevantAttribute a stats = 1"

fun BaseDamage :: "action \<Rightarrow> fighter_stats \<Rightarrow> int" where
  "BaseDamage ActionStrike stats = 12 + Power stats"
| "BaseDamage ActionGrapple stats = 10 + Technique stats"
| "BaseDamage ActionCounter stats = 8 + Technique stats"
| "BaseDamage a stats = 0"

definition DamageFinal :: "int \<Rightarrow> int \<Rightarrow> bool \<Rightarrow> int" where
  "DamageFinal baseDamage momentum comboActive =
     (let damage = (baseDamage * (100 + ClampInt momentum 0 50)) sdiv 100;
          damage = (if comboActive then (damage * 110) sdiv 100 else damage)
      in if damage < 0 then 0 else damage)"

definition StunChanceBPS :: "zone \<Rightarrow> int \<Rightarrow> int \<Rightarrow> int" where
  "StunChanceBPS zone defenderStamina momentumDiff =
     (let chance = baseStunBPS;
          chance = (if zone = ZoneHead then chance + headStunBonusBPS else chance);
          chance = (if defenderStamina < fatigueThreshold
            then chance + lowStaminaStunBonusBPS else chance);
          chance = chance + momentumDiff * 50
      in ClampInt chance 0 stunMaxBPS)"

definition SubmissionChanceBPS :: "fighter_state \<Rightarrow> fighter_state \<Rightarrow> int" where
  "SubmissionChanceBPS attacker defender =
     (let chance = 3000 + (Technique (fs_Stats attacker) - Technique (fs_Stats defender)) * 300
        + (fs_Momentum attacker - fs_Momentum defender) * 20;
          chance = (if fs_Stamina defender < fatigueThreshold then chance + 500 else chance)
      in ClampInt chance chanceMinBPS chanceMaxBPS)"

fun IsOffensive :: "action \<Rightarrow> bool" where
  "IsOffensive ActionStrike = True"
| "IsOffensive ActionGrapple = True"
| "IsOffensive ActionCounter = True"
| "IsOffensive ActionFeint = True"
| "IsOffensive a = False"

definition RequiresHitbox :: "action \<Rightarrow> bool" where
  "RequiresHitbox action = (case actionMoveSpec action of
     None \<Rightarrow> False | Some spec \<Rightarrow> mv_RequiresCollision spec)"

definition MoveForAction :: "action \<Rightarrow> move_spec" where
  "MoveForAction action = (case actionMoveSpec action of
     None \<Rightarrow> \<lparr>mv_Range = 0, mv_FrameActiveStart = 0, mv_FrameActiveEnd = 0,
       mv_RequiresCollision = False\<rparr>
   | Some spec \<Rightarrow> spec)"

section \<open>Bounds\<close>

lemma ClampInt_bounds:
  "lo \<le> hi \<Longrightarrow> lo \<le> ClampInt v lo hi" "lo \<le> hi \<Longrightarrow> ClampInt v lo hi \<le> hi"
  by (simp_all add: ClampInt_def)

lemma ClampInt_id: "lo \<le> v \<Longrightarrow> v \<le> hi \<Longrightarrow> ClampInt v lo hi = v"
  by (simp add: ClampInt_def)

lemma ClampInt_mono: "v \<le> w \<Longrightarrow> ClampInt v lo hi \<le> ClampInt w lo hi \<or> hi < lo"
  by (auto simp: ClampInt_def)

lemma MaxInt_eq_max [simp]: "MaxInt a b = max a b"
  by (simp add: MaxInt_def max_def)

definition wf_stats :: "fighter_stats \<Rightarrow> bool" where
  "wf_stats st \<longleftrightarrow> Power st \<in> {1..10} \<and> Technique st \<in> {1..10} \<and> Agility st \<in> {1..10}
     \<and> Endurance st \<in> {1..10}"

lemma ArchetypeStats_wf: "ArchetypeStats a = Some st \<Longrightarrow> wf_stats st"
  by (cases a) (auto simp: wf_stats_def)

lemma SuccessChanceBPS_range:
  "1000 \<le> SuccessChanceBPS a d m s \<and> SuccessChanceBPS a d m s \<le> 9000"
  by (simp add: SuccessChanceBPS_def Let_def ClampInt_def rule_defs)

lemma StunChanceBPS_range: "0 \<le> StunChanceBPS z s d \<and> StunChanceBPS z s d \<le> 9500"
  by (simp add: StunChanceBPS_def Let_def ClampInt_def rule_defs)

lemma SubmissionChanceBPS_range:
  "1000 \<le> SubmissionChanceBPS a d \<and> SubmissionChanceBPS a d \<le> 9000"
  by (simp add: SubmissionChanceBPS_def Let_def ClampInt_def rule_defs)

lemma RegenForEndurance_range: "5 \<le> RegenForEndurance e \<and> RegenForEndurance e \<le> 13"
proof -
  let ?e = "ClampInt e 1 10"
  have e: "1 \<le> ?e" "?e \<le> 10" by (simp_all add: ClampInt_def)
  then have "RegenForEndurance e = (50 + ?e * 8) div 10"
    by (simp add: RegenForEndurance_def Let_def sdiv_nonneg_eq)
  with e show ?thesis by linarith
qed

lemma actionBaseCost_range: "go_lookup actionBaseCost a 0 \<in> {0..14}"
  by (cases a) (simp_all add: go_lookup_def)

lemma ActionStaminaCost_range: "0 \<le> ActionStaminaCost a e \<and> ActionStaminaCost a e \<le> 13"
proof -
  let ?b = "go_lookup actionBaseCost a 0" and ?e = "ClampInt e 1 10"
  have e: "1 \<le> ?e" "?e \<le> 10" by (simp_all add: ClampInt_def)
  have b: "0 \<le> ?b" "?b \<le> 14" using actionBaseCost_range [of a] by auto
  have "?b * (100 - ?e * 3) \<le> 14 * 97" using e b by (intro mult_mono) auto
  moreover have "0 \<le> ?b * (100 - ?e * 3)" using e b by (intro mult_nonneg_nonneg) auto
  ultimately have "0 \<le> (?b * (100 - ?e * 3)) sdiv 100" "(?b * (100 - ?e * 3)) sdiv 100 \<le> 13"
    by (simp_all add: sdiv_nonneg_eq; linarith)+
  then show ?thesis by (simp add: ActionStaminaCost_def Let_def)
qed

lemma ActionStaminaCost_pos_iff: "0 < ActionStaminaCost a e \<longleftrightarrow> a \<noteq> ActionNone \<and> (\<forall>k. a \<noteq> ActionOther k)"
  by (cases a) (simp_all add: ActionStaminaCost_def Let_def go_lookup_def)

lemma ActionStaminaCost_None [simp]: "ActionStaminaCost ActionNone e = 0"
  by (simp add: ActionStaminaCost_def)

lemma BaseDamage_range: "wf_stats st \<Longrightarrow> 0 \<le> BaseDamage a st \<and> BaseDamage a st \<le> 22"
  by (cases a) (auto simp: wf_stats_def)

lemma DamageFinal_nonneg: "0 \<le> DamageFinal b m c"
  by (simp add: DamageFinal_def Let_def)

lemma DamageFinal_range:
  assumes "0 \<le> b" "b \<le> 22"
  shows "b \<le> DamageFinal b m c \<and> DamageFinal b m c \<le> 36"
proof -
  let ?m = "ClampInt m 0 50"
  have m: "0 \<le> ?m" "?m \<le> 50" by (simp_all add: ClampInt_def)
  let ?d = "(b * (100 + ?m)) sdiv 100"
  have up: "b * (100 + ?m) \<le> 22 * 150" using assms m by (intro mult_mono) auto
  have low: "b * 100 \<le> b * (100 + ?m)" using assms m by (intro mult_left_mono) auto
  then have pos: "0 \<le> b * (100 + ?m)" using assms by linarith
  have d: "b \<le> ?d" "?d \<le> 33"
    using up low pos by (simp_all add: sdiv_nonneg_eq; linarith)+
  have "?d \<le> (?d * 110) sdiv 100" "(?d * 110) sdiv 100 \<le> 36"
    using d assms by (simp_all add: sdiv_nonneg_eq; linarith)+
  with d assms show ?thesis by (simp add: DamageFinal_def Let_def)
qed

lemma DamageFinal_combo_ge: "0 \<le> b \<Longrightarrow> b \<le> 22 \<Longrightarrow> DamageFinal b m False \<le> DamageFinal b m True"
proof -
  assume b: "0 \<le> b" "b \<le> 22"
  let ?d = "(b * (100 + ClampInt m 0 50)) sdiv 100"
  have "0 \<le> ?d"
    using DamageFinal_range [OF b, of m False] b by (simp add: DamageFinal_def Let_def split: if_splits)
  then have "?d \<le> (?d * 110) sdiv 100" by (simp add: sdiv_nonneg_eq; linarith)
  with \<open>0 \<le> ?d\<close> show ?thesis by (simp add: DamageFinal_def Let_def)
qed

text \<open>A hit with a fighter's own statistics always hurts.\<close>

lemma DamageFinal_pos:
  "wf_stats st \<Longrightarrow> a \<in> {ActionStrike, ActionGrapple, ActionCounter} \<Longrightarrow>
     0 < DamageFinal (BaseDamage a st) m c"
  using DamageFinal_range [of "BaseDamage a st" m c] BaseDamage_range [of st a]
  by (auto simp: wf_stats_def)

lemma RequiresHitbox_iff:
  "RequiresHitbox a \<longleftrightarrow> a \<in> {ActionStrike, ActionGrapple, ActionCounter}"
  by (cases a) (simp_all add: RequiresHitbox_def)

text \<open>
  At the distance every match starts with, and which no operation changes, the hitbox test that
  follows a successful roll never turns it into a miss.
\<close>

lemma hitbox_never_misses:
  "d \<le> 1 \<Longrightarrow> RequiresHitbox a \<Longrightarrow>
     IsActive (MoveForAction a) 1 \<and> \<not> d > mv_Range (MoveForAction a)"
  by (auto simp: RequiresHitbox_iff MoveForAction_def IsActive_def)

end
