(* ===== verification/CombatOrder.thy ===== *)
theory CombatOrder
  imports CombatTypes "HOL-Library.Multiset"
begin

text \<open>
  The canonical order of a turn's inputs, \<^verbatim>\<open>internal/combat/order.go\<close>: exactly one input per
  fighter, sorted by player id. The lemmas say when it succeeds, that its result does not depend
  on the order in which the inputs arrived, and that canonicalising twice changes nothing (the
  match loop canonicalises before it records and steps, and the resolver canonicalises again).
\<close>

section \<open>The operation\<close>

fun inputs_by_player ::
  "(string \<rightharpoonup> turn_input) \<Rightarrow> turn_input list \<Rightarrow> combat_error + (string \<rightharpoonup> turn_input)" where
  "inputs_by_player byPlayer [] = Inr byPlayer"
| "inputs_by_player byPlayer (inp # inputs) =
     (if ti_PlayerID inp = '''' then Inl ErrEmptyInputID
      else if byPlayer (ti_PlayerID inp) \<noteq> None then Inl (ErrDuplicateInput (ti_PlayerID inp))
      else inputs_by_player (byPlayer(ti_PlayerID inp \<mapsto> inp)) inputs)"

definition canonical_input :: "(string \<rightharpoonup> turn_input) \<Rightarrow> string \<Rightarrow> turn_input" where
  "canonical_input byPlayer pid =
     (let inp = (case byPlayer pid of
        None \<Rightarrow> \<lparr>ti_PlayerID = pid, ti_Action = ActionNone, ti_Target = ZoneTorso, ti_DecisionMS = 0\<rparr>
      | Some inp \<Rightarrow> inp)
      in if ti_Target inp \<noteq> ZoneHead \<and> ti_Target inp \<noteq> ZoneTorso \<and> ti_Target inp \<noteq> ZoneLegs
         then inp\<lparr>ti_Target := ZoneTorso\<rparr> else inp)"

text \<open>The keys of the map are the ids of the inputs, so the loop over its keys is one over them.\<close>

definition CanonicalizeInputs ::
  "match_state \<Rightarrow> turn_input list \<Rightarrow> combat_error + turn_input list" where
  "CanonicalizeInputs state inputs = (case inputs_by_player Map.empty inputs of
     Inl err \<Rightarrow> Inl err
   | Inr byPlayer \<Rightarrow>
       (let id1 = fs_PlayerID (ms_P1 state); id2 = fs_PlayerID (ms_P2 state) in
        if id1 = '''' \<or> id2 = '''' then Inl ErrEmptyStateID
        else if id1 = id2 then Inl (ErrDuplicateStateID id1)
        else if list_ex (\<lambda>inp. ti_PlayerID inp \<noteq> id1 \<and> ti_PlayerID inp \<noteq> id2) inputs
          then Inl ErrUnknownInputID
        else Inr (map (canonical_input byPlayer) (sort [id1, id2]))))"

section \<open>When it succeeds\<close>

definition players_ok :: "match_state \<Rightarrow> bool" where
  "players_ok m \<longleftrightarrow> fs_PlayerID (ms_P1 m) \<noteq> '''' \<and> fs_PlayerID (ms_P2 m) \<noteq> ''''
     \<and> fs_PlayerID (ms_P1 m) \<noteq> fs_PlayerID (ms_P2 m)"

definition player_ids :: "match_state \<Rightarrow> string set" where
  "player_ids m = {fs_PlayerID (ms_P1 m), fs_PlayerID (ms_P2 m)}"

definition inputs_ok :: "match_state \<Rightarrow> turn_input list \<Rightarrow> bool" where
  "inputs_ok m ins \<longleftrightarrow> distinct (map ti_PlayerID ins) \<and> ti_PlayerID ` set ins \<subseteq> player_ids m"

lemma inputs_by_player_Inr:
  "inputs_by_player m ins = Inr m' \<Longrightarrow>
     (\<forall>inp \<in> set ins. ti_PlayerID inp \<noteq> '''' \<and> m (ti_PlayerID inp) = None)
     \<and> distinct (map ti_PlayerID ins)
     \<and> (\<forall>pid. m' pid = (case find (\<lambda>i. ti_PlayerID i = pid) ins of
          Some i \<Rightarrow> Some i | None \<Rightarrow> m pid))"
proof (induction ins arbitrary: m)
  case Nil
  then show ?case by simp
next
  case (Cons i ins)
  let ?p = "ti_PlayerID i"
  from Cons.prems have ne: "?p \<noteq> ''''" and fresh: "m ?p = None"
    and rec: "inputs_by_player (m(?p \<mapsto> i)) ins = Inr m'" by (auto split: if_splits)
  note IH = Cons.IH [OF rec]
  from IH have notin: "?p \<notin> ti_PlayerID ` set ins" by force
  have "\<forall>pid. m' pid = (case find (\<lambda>j. ti_PlayerID j = pid) (i # ins) of
      Some i \<Rightarrow> Some i | None \<Rightarrow> m pid)"
  proof
    fix pid
    show "m' pid = (case find (\<lambda>j. ti_PlayerID j = pid) (i # ins) of
      Some i \<Rightarrow> Some i | None \<Rightarrow> m pid)"
    proof (cases "?p = pid")
      case True
      with notin have "find (\<lambda>j. ti_PlayerID j = pid) ins = None"
        by (auto simp: find_None_iff image_iff)
      with True IH show ?thesis by simp
    next
      case False
      with IH show ?thesis by (auto split: option.splits)
    qed
  qed
  with ne fresh IH notin show ?case by (force split: if_splits)
qed

lemma inputs_by_player_ok:
  "(\<forall>inp \<in> set ins. ti_PlayerID inp \<noteq> '''' \<and> m (ti_PlayerID inp) = None) \<Longrightarrow>
     distinct (map ti_PlayerID ins) \<Longrightarrow> \<exists>m'. inputs_by_player m ins = Inr m'"
proof (induction ins arbitrary: m)
  case Nil
  then show ?case by simp
next
  case (Cons i ins)
  then have "\<exists>m'. inputs_by_player (m(ti_PlayerID i \<mapsto> i)) ins = Inr m'"
    by (intro Cons.IH) (auto simp: image_iff)
  with Cons.prems show ?case by auto
qed

lemma inputs_by_player_eq:
  assumes "inputs_by_player Map.empty ins = Inr m"
  shows "m pid = Some i \<longleftrightarrow> i \<in> set ins \<and> ti_PlayerID i = pid"
proof -
  note fact = inputs_by_player_Inr [OF assms]
  from fact have d: "distinct (map ti_PlayerID ins)" by simp
  from fact have m: "m pid = find (\<lambda>i. ti_PlayerID i = pid) ins"
    by (auto split: option.splits)
  show ?thesis
  proof
    assume "m pid = Some i"
    with m have "find (\<lambda>i. ti_PlayerID i = pid) ins = Some i" by simp
    then show "i \<in> set ins \<and> ti_PlayerID i = pid" by (auto simp: find_Some_iff)
  next
    assume i: "i \<in> set ins \<and> ti_PlayerID i = pid"
    then obtain j where j: "find (\<lambda>i. ti_PlayerID i = pid) ins = Some j"
      by (cases "find (\<lambda>i. ti_PlayerID i = pid) ins") (auto simp: find_None_iff)
    then have "j \<in> set ins" "ti_PlayerID j = pid" by (auto simp: find_Some_iff)
    with i d have "j = i" by (auto simp: distinct_map dest: inj_onD)
    with j m show "m pid = Some i" by simp
  qed
qed

lemma CanonicalizeInputs_ok_iff:
  "(\<exists>ord. CanonicalizeInputs m ins = Inr ord) \<longleftrightarrow> players_ok m \<and> inputs_ok m ins"
proof
  assume "\<exists>ord. CanonicalizeInputs m ins = Inr ord"
  then show "players_ok m \<and> inputs_ok m ins"
    by (auto simp: CanonicalizeInputs_def Let_def players_ok_def inputs_ok_def player_ids_def
        list_ex_iff split: sum.splits if_splits dest!: inputs_by_player_Inr)
next
  assume ok: "players_ok m \<and> inputs_ok m ins"
  then have "\<exists>m'. inputs_by_player Map.empty ins = Inr m'"
    by (intro inputs_by_player_ok) (auto simp: players_ok_def inputs_ok_def player_ids_def)
  with ok show "\<exists>ord. CanonicalizeInputs m ins = Inr ord"
    by (auto simp: CanonicalizeInputs_def Let_def players_ok_def inputs_ok_def player_ids_def
        list_ex_iff image_subset_iff)
qed

section \<open>What it returns\<close>

text \<open>The input a fighter is resolved with, read off the arrived inputs as a set.\<close>

definition valid_zone :: "zone \<Rightarrow> bool" where
  "valid_zone z \<longleftrightarrow> z = ZoneHead \<or> z = ZoneTorso \<or> z = ZoneLegs"

lemma canonical_input_id:
  "(\<And>i. m pid = Some i \<Longrightarrow> ti_PlayerID i = pid) \<Longrightarrow> ti_PlayerID (canonical_input m pid) = pid"
  by (auto simp: canonical_input_def Let_def split: option.splits)

lemma canonical_input_zone: "valid_zone (ti_Target (canonical_input m pid))"
  by (auto simp: canonical_input_def Let_def valid_zone_def split: option.splits)

lemma canonical_input_Some:
  "m pid = Some i \<Longrightarrow> valid_zone (ti_Target i) \<Longrightarrow> canonical_input m pid = i"
  by (auto simp: canonical_input_def Let_def valid_zone_def)

lemma CanonicalizeInputs_InrE:
  assumes "CanonicalizeInputs m ins = Inr ord"
  obtains byPlayer where "inputs_by_player Map.empty ins = Inr byPlayer"
    and "ord = map (canonical_input byPlayer) (sort [fs_PlayerID (ms_P1 m), fs_PlayerID (ms_P2 m)])"
    and "players_ok m" and "inputs_ok m ins"
proof -
  from assms have ok: "players_ok m \<and> inputs_ok m ins"
    using CanonicalizeInputs_ok_iff by blast
  obtain b where b: "inputs_by_player Map.empty ins = Inr b"
    using assms by (auto simp: CanonicalizeInputs_def split: sum.splits)
  moreover have "ord = map (canonical_input b) (sort [fs_PlayerID (ms_P1 m), fs_PlayerID (ms_P2 m)])"
    using assms b by (auto simp: CanonicalizeInputs_def Let_def split: if_splits)
  ultimately show thesis using ok that by blast
qed

lemma CanonicalizeInputs_ids:
  assumes "CanonicalizeInputs m ins = Inr ord"
  shows "map ti_PlayerID ord = sort [fs_PlayerID (ms_P1 m), fs_PlayerID (ms_P2 m)]"
proof -
  from assms obtain b where b: "inputs_by_player Map.empty ins = Inr b"
    and ord: "ord = map (canonical_input b) (sort [fs_PlayerID (ms_P1 m), fs_PlayerID (ms_P2 m)])"
    by (rule CanonicalizeInputs_InrE)
  have "ti_PlayerID (canonical_input b pid) = pid" for pid
    using inputs_by_player_eq [OF b] by (intro canonical_input_id) blast
  then show ?thesis by (simp add: ord o_def)
qed

lemma CanonicalizeInputs_distinct:
  assumes "CanonicalizeInputs m ins = Inr ord"
  shows "distinct (map ti_PlayerID ord)" "set (map ti_PlayerID ord) = player_ids m"
    "length ord = 2"
proof -
  from assms have "players_ok m" using CanonicalizeInputs_ok_iff by blast
  with CanonicalizeInputs_ids [OF assms] show "distinct (map ti_PlayerID ord)"
    "set (map ti_PlayerID ord) = player_ids m"
    by (auto simp: players_ok_def player_ids_def)
  have "length (map ti_PlayerID ord) = 2"
    by (simp only: CanonicalizeInputs_ids [OF assms] length_sort) simp
  then show "length ord = 2" by simp
qed

lemma CanonicalizeInputs_zones:
  "CanonicalizeInputs m ins = Inr ord \<Longrightarrow> \<forall>i \<in> set ord. valid_zone (ti_Target i)"
  by (elim CanonicalizeInputs_InrE) (auto simp: canonical_input_zone)

section \<open>Independence of the arrival order\<close>

lemma inputs_by_player_perm:
  assumes "mset ins = mset ins'"
    and "inputs_by_player Map.empty ins = Inr b" "inputs_by_player Map.empty ins' = Inr b'"
  shows "b = b'"
proof (rule ext)
  fix pid
  have s: "set ins = set ins'" using assms(1) by (rule mset_eq_setD)
  have "b pid = Some i \<longleftrightarrow> b' pid = Some i" for i
    using inputs_by_player_eq [OF assms(2)] inputs_by_player_eq [OF assms(3)] s by simp
  then show "b pid = b' pid" by (metis not_Some_eq)
qed

lemma CanonicalizeInputs_perm:
  assumes perm: "mset ins = mset ins'" and ok: "CanonicalizeInputs m ins = Inr ord"
  shows "CanonicalizeInputs m ins' = Inr ord"
proof -
  from ok obtain b where b: "inputs_by_player Map.empty ins = Inr b"
    and ord: "ord = map (canonical_input b) (sort [fs_PlayerID (ms_P1 m), fs_PlayerID (ms_P2 m)])"
    and pok: "players_ok m" and iok: "inputs_ok m ins"
    by (rule CanonicalizeInputs_InrE)
  have "mset (map ti_PlayerID ins) = mset (map ti_PlayerID ins')" using perm by simp
  then have "distinct (map ti_PlayerID ins')"
    using iok unfolding inputs_ok_def by (metis mset_eq_imp_distinct_iff)
  moreover have "set ins = set ins'" using perm by (rule mset_eq_setD)
  ultimately have iok': "inputs_ok m ins'" using iok by (simp add: inputs_ok_def)
  with pok obtain ord' where ok': "CanonicalizeInputs m ins' = Inr ord'"
    using CanonicalizeInputs_ok_iff by blast
  then obtain b' where b': "inputs_by_player Map.empty ins' = Inr b'"
    and ord': "ord' = map (canonical_input b') (sort [fs_PlayerID (ms_P1 m), fs_PlayerID (ms_P2 m)])"
    by (rule CanonicalizeInputs_InrE)
  from inputs_by_player_perm [OF perm b b'] ord ord' ok' show ?thesis by simp
qed

lemma CanonicalizeInputs_idem:
  assumes ok: "CanonicalizeInputs m ins = Inr ord"
  shows "CanonicalizeInputs m ord = Inr ord"
proof -
  note ids = CanonicalizeInputs_ids [OF ok] and dist = CanonicalizeInputs_distinct [OF ok]
  from ok have "players_ok m" using CanonicalizeInputs_ok_iff by blast
  with dist have "\<exists>o'. CanonicalizeInputs m ord = Inr o'"
    unfolding CanonicalizeInputs_ok_iff by (auto simp: inputs_ok_def)
  then obtain o' where ok': "CanonicalizeInputs m ord = Inr o'" by blast
  then obtain b where b: "inputs_by_player Map.empty ord = Inr b"
    and o': "o' = map (canonical_input b) (map ti_PlayerID ord)"
    unfolding ids by (rule CanonicalizeInputs_InrE)
  have "canonical_input b (ti_PlayerID i) = i" if "i \<in> set ord" for i
    using that inputs_by_player_eq [OF b, of "ti_PlayerID i" i] CanonicalizeInputs_zones [OF ok]
    by (intro canonical_input_Some) auto
  with o' have "o' = ord" by (simp add: map_idI)
  with ok' show ?thesis by simp
qed

end
