(* ===== verification/Resolver.thy ===== *)
theory Resolver
  imports CombatRules CombatOrder
begin

text \<open>
  The turn resolver of \<^verbatim>\<open>internal/combat/resolver.go\<close>. The body of \<^verbatim>\<open>ResolveTurn\<close> mutates one
  \<^verbatim>\<open>MatchState\<close> (\<open>next\<close>), an event log, a running FNV hash of the random rolls and the random
  source; the record \<open>turn_acc\<close> holds the four. The pointers \<open>actor\<close> and \<open>defender\<close> point into
  \<open>next\<close>: here they are a \<open>side\<close> and its \<open>opponent\<close>, and every read or write through them is a
  read or write of \<open>next\<close>, so the aliasing of the source is kept. Each block of the loop body is
  one definition over \<open>turn_acc\<close>, in the source's order, and \<open>resolve_input\<close> composes them with
  the source's early \<^verbatim>\<open>continue\<close>s.
\<close>

section \<open>Sides and state transformers\<close>

datatype side = SideP1 | SideP2

fun opponent :: "side \<Rightarrow> side" where
  "opponent SideP1 = SideP2"
| "opponent SideP2 = SideP1"

fun fighter_at :: "side \<Rightarrow> match_state \<Rightarrow> fighter_state" where
  "fighter_at SideP1 m = ms_P1 m"
| "fighter_at SideP2 m = ms_P2 m"

fun upd_fighter :: "side \<Rightarrow> (fighter_state \<Rightarrow> fighter_state) \<Rightarrow> match_state \<Rightarrow> match_state" where
  "upd_fighter SideP1 f m = m\<lparr>ms_P1 := f (ms_P1 m)\<rparr>"
| "upd_fighter SideP2 f m = m\<lparr>ms_P2 := f (ms_P2 m)\<rparr>"

record fighter_turn_context =
  stunnedAtTurnStart :: bool
  torsoPenaltyAtTurnStart :: bool
  legsPenaltyAtTurnStart :: bool
  opponentAction :: action

definition zero_context :: fighter_turn_context where
  "zero_context = \<lparr>stunnedAtTurnStart = False, torsoPenaltyAtTurnStart = False,
     legsPenaltyAtTurnStart = False, opponentAction = ActionNone\<rparr>"

record 'r turn_acc =
  ta_next :: match_state
  ta_events :: "event list"
  ta_rollHash :: u64
  ta_rng :: 'r

definition actor_of :: "side \<Rightarrow> 'r turn_acc \<Rightarrow> fighter_state" where
  "actor_of a acc = fighter_at a (ta_next acc)"

definition on_fighter ::
  "side \<Rightarrow> (fighter_state \<Rightarrow> fighter_state) \<Rightarrow> 'r turn_acc \<Rightarrow> 'r turn_acc" where
  "on_fighter a f acc = acc\<lparr>ta_next := upd_fighter a f (ta_next acc)\<rparr>"

definition emit :: "event \<Rightarrow> 'r turn_acc \<Rightarrow> 'r turn_acc" where
  "emit e acc = acc\<lparr>ta_events := ta_events acc @ [e]\<rparr>"

definition turn_event :: "'r turn_acc \<Rightarrow> event_type \<Rightarrow> event" where
  "turn_event acc k = mk_event (ms_Turn (ta_next acc)) k"

section \<open>Hashes\<close>

definition appendHashInt :: "u64 \<Rightarrow> int \<Rightarrow> u64" where
  "appendHashInt h v = fnv64a_write h (put_uint64_le (word_of_int v))"

definition writeHashInt :: "u64 \<Rightarrow> int \<Rightarrow> u64" where
  "writeHashInt h v = fnv64a_write h (put_uint64_le (word_of_int v))"

definition writeHashBool :: "u64 \<Rightarrow> bool \<Rightarrow> u64" where
  "writeHashBool h v = (if v then writeHashInt h 1 else writeHashInt h 0)"

definition writeHashString :: "u64 \<Rightarrow> string \<Rightarrow> u64" where
  "writeHashString h v = fnv64a_write (fnv64a_write h (string_bytes v)) [0]"

definition writeHashFighter :: "u64 \<Rightarrow> fighter_state \<Rightarrow> u64" where
  "writeHashFighter h f =
     (let h = writeHashString h (fs_PlayerID f);
          h = writeHashInt h (archetype_code (fs_Archetype f));
          h = writeHashInt h (Power (fs_Stats f));
          h = writeHashInt h (Technique (fs_Stats f));
          h = writeHashInt h (Agility (fs_Stats f));
          h = writeHashInt h (Endurance (fs_Stats f));
          h = writeHashInt h (fs_HP f);
          h = writeHashInt h (fs_Stamina f);
          h = writeHashInt h (fs_Momentum f);
          h = writeHashInt h (state_code (fs_State f));
          h = writeHashInt h (StunnedFor (fs_Effects f));
          h = writeHashInt h (TorsoRegenPenaltyFor (fs_Effects f));
          h = writeHashInt h (LegsDodgePenaltyFor (fs_Effects f));
          h = writeHashInt h (action_code (fs_LastAction f));
          h = writeHashBool h (fs_LastActionSuccess f);
          h = writeHashInt h (fs_LastOffensiveHitTurn f)
      in h)"

definition hashMatchState :: "match_state \<Rightarrow> u64" where
  "hashMatchState state =
     (let h = fnv64a_offset;
          h = writeHashString h (fs_PlayerID (ms_P1 state));
          h = writeHashString h (fs_PlayerID (ms_P2 state));
          h = writeHashInt h (ms_Turn state);
          h = writeHashInt h (state_code (ms_CombatState state));
          h = writeHashInt h (ms_Distance state);
          h = writeHashInt h (uint (ms_RNGState state AND 0xffffffff));
          h = writeHashFighter h (ms_P1 state);
          h = writeHashFighter h (ms_P2 state);
          h = writeHashBool h (mo_Finished (ms_Outcome state));
          h = writeHashString h (mo_WinnerID (ms_Outcome state));
          h = writeHashString h (mo_Method (ms_Outcome state))
      in h)"

section \<open>Small operations\<close>

definition prepareFighterTurn :: "fighter_state \<Rightarrow> fighter_state \<times> fighter_turn_context" where
  "prepareFighterTurn f =
     (let ctx = zero_context\<lparr>stunnedAtTurnStart := StunnedFor (fs_Effects f) > 0,
            torsoPenaltyAtTurnStart := TorsoRegenPenaltyFor (fs_Effects f) > 0,
            legsPenaltyAtTurnStart := LegsDodgePenaltyFor (fs_Effects f) > 0\<rparr>;
          e = fs_Effects f;
          e = (if stunnedAtTurnStart ctx then e\<lparr>StunnedFor := StunnedFor e - 1\<rparr> else e);
          e = (if torsoPenaltyAtTurnStart ctx
            then e\<lparr>TorsoRegenPenaltyFor := TorsoRegenPenaltyFor e - 1\<rparr> else e);
          e = (if legsPenaltyAtTurnStart ctx
            then e\<lparr>LegsDodgePenaltyFor := LegsDodgePenaltyFor e - 1\<rparr> else e)
      in (f\<lparr>fs_Effects := e\<rparr>, ctx))"

fun defenseAttribute :: "action \<Rightarrow> fighter_state \<Rightarrow> action \<Rightarrow> bool \<Rightarrow> int" where
  "defenseAttribute action defender defenderAction defenderLegsPenalty =
     (let st = fs_Stats defender in
      if defenderAction = ActionBlock then ClampInt (Technique st + 1) 1 10
      else if defenderAction = ActionDodge then
        (let ag = Agility st;
             ag = (if defenderLegsPenalty then MaxInt 1 ((ag * 80) sdiv 100) else ag)
         in ClampInt ag 1 10)
      else (case action of
          ActionStrike \<Rightarrow> ClampInt (Agility st) 1 10
        | ActionGrapple \<Rightarrow> ClampInt (Technique st) 1 10
        | ActionCounter \<Rightarrow> ClampInt (Technique st) 1 10
        | ActionFeint \<Rightarrow> ClampInt (Technique st) 1 10
        | ActionBreak \<Rightarrow> ClampInt (Power st) 1 10
        | _ \<Rightarrow> 1))"

declare defenseAttribute.simps [simp del]

definition resolveSuccessChance ::
  "fighter_state \<Rightarrow> fighter_state \<Rightarrow> action \<Rightarrow> fighter_turn_context \<Rightarrow> int" where
  "resolveSuccessChance actor defender action ctx =
     (let attackerAttr = ActionRelevantAttribute action (fs_Stats actor);
          defenderAttr = defenseAttribute action defender (opponentAction ctx)
            (legsPenaltyAtTurnStart ctx);
          chance = SuccessChanceBPS attackerAttr defenderAttr (fs_Momentum actor) (fs_Stamina actor);
          chance = (if action = ActionDodge \<and> legsPenaltyAtTurnStart ctx
            then (chance * 80) sdiv 100 else chance)
      in ClampInt chance chanceMinBPS chanceMaxBPS)"

fun normalizeAction :: "action \<Rightarrow> action" where
  "normalizeAction (ActionOther k) = ActionNone"
| "normalizeAction a = a"

fun normalizeZone :: "zone \<Rightarrow> zone" where
  "normalizeZone (ZoneOther k) = ZoneTorso"
| "normalizeZone z = z"

definition fightersByID :: "match_state \<Rightarrow> string \<Rightarrow> combat_error + side" where
  "fightersByID state actorID =
     (if actorID = fs_PlayerID (ms_P1 state) then Inr SideP1
      else if actorID = fs_PlayerID (ms_P2 state) then Inr SideP2
      else Inl (ErrUnknownPlayer actorID))"

text \<open>A draw from 10000 whose value goes into the roll hash.\<close>

definition roll_bps :: "'r random_source \<Rightarrow> 'r turn_acc \<Rightarrow> int \<times> 'r turn_acc" where
  "roll_bps rs acc = (let (roll, r') = rs_NextInt rs (ta_rng acc) 10000 in
     (roll, acc\<lparr>ta_rng := r', ta_rollHash := appendHashInt (ta_rollHash acc) roll\<rparr>))"

fun applyZoneEffects :: "side \<Rightarrow> zone \<Rightarrow> 'r turn_acc \<Rightarrow> 'r turn_acc" where
  "applyZoneEffects d ZoneTorso acc =
     emit ((turn_event acc EventStatusApplied)\<lparr>ev_PlayerID := fs_PlayerID (actor_of d acc),
         ev_Zone := ZoneTorso, ev_Success := True, ev_Detail := ''torso_regen_penalty''\<rparr>)
       (on_fighter d (\<lambda>f. f\<lparr>fs_Effects := (fs_Effects f)\<lparr>TorsoRegenPenaltyFor :=
          MaxInt (TorsoRegenPenaltyFor (fs_Effects f)) 2\<rparr>\<rparr>) acc)"
| "applyZoneEffects d ZoneLegs acc =
     emit ((turn_event acc EventStatusApplied)\<lparr>ev_PlayerID := fs_PlayerID (actor_of d acc),
         ev_Zone := ZoneLegs, ev_Success := True, ev_Detail := ''legs_dodge_penalty''\<rparr>)
       (on_fighter d (\<lambda>f. f\<lparr>fs_Effects := (fs_Effects f)\<lparr>LegsDodgePenaltyFor :=
          MaxInt (LegsDodgePenaltyFor (fs_Effects f)) 2\<rparr>\<rparr>) acc)"
| "applyZoneEffects d z acc = acc"

section \<open>The grapple ladder\<close>

fun next_grip :: "combat_state \<Rightarrow> combat_state" where
  "next_grip StateNeutral = StateClinch"
| "next_grip StateClinch = StateGround"
| "next_grip StateGround = StateDominant"
| "next_grip StateDominant = StateSubmissionAttempt"
| "next_grip s = s"

definition set_state_unless_stunned :: "combat_state \<Rightarrow> fighter_state \<Rightarrow> fighter_state" where
  "set_state_unless_stunned s f = (if fs_State f \<noteq> StateStunned then f\<lparr>fs_State := s\<rparr> else f)"

definition set_combat_state :: "combat_state \<Rightarrow> 'r turn_acc \<Rightarrow> 'r turn_acc" where
  "set_combat_state s acc = acc\<lparr>ta_next := (ta_next acc)\<lparr>ms_CombatState := s\<rparr>\<rparr>"

definition set_outcome :: "string \<Rightarrow> string \<Rightarrow> 'r turn_acc \<Rightarrow> 'r turn_acc" where
  "set_outcome winner method acc = acc\<lparr>ta_next := (ta_next acc)\<lparr>ms_Outcome :=
     \<lparr>mo_Finished = True, mo_WinnerID = winner, mo_Method = method\<rparr>\<rparr>\<rparr>"

definition change_grip :: "side \<Rightarrow> 'r turn_acc \<Rightarrow> 'r turn_acc" where
  "change_grip a acc =
     (let prev = ms_CombatState (ta_next acc); cur = next_grip prev;
          acc = set_combat_state cur acc
      in if cur \<noteq> prev then
           emit ((turn_event acc EventStateChanged)\<lparr>ev_PlayerID := fs_PlayerID (actor_of a acc),
               ev_TargetID := fs_PlayerID (actor_of (opponent a) acc), ev_Success := True,
               ev_Detail := state_string prev @ ''_to_'' @ state_string cur\<rparr>)
             (on_fighter (opponent a) (set_state_unless_stunned cur)
               (on_fighter a (set_state_unless_stunned cur) acc))
         else acc)"

definition attempt_submission :: "'r random_source \<Rightarrow> side \<Rightarrow> 'r turn_acc \<Rightarrow> 'r turn_acc" where
  "attempt_submission rs a acc =
     (if ms_CombatState (ta_next acc) = StateSubmissionAttempt
         \<and> \<not> mo_Finished (ms_Outcome (ta_next acc)) then
        (let subChance = SubmissionChanceBPS (actor_of a acc) (actor_of (opponent a) acc);
             (roll, acc) = roll_bps rs acc
         in if roll < subChance then
              emit ((turn_event acc EventMatchFinished)\<lparr>ev_PlayerID := fs_PlayerID (actor_of a acc),
                  ev_TargetID := fs_PlayerID (actor_of (opponent a) acc), ev_Value := subChance,
                  ev_Success := True, ev_Detail := ''submission''\<rparr>)
                (set_outcome (fs_PlayerID (actor_of a acc)) ''Submission'' acc)
            else acc)
      else acc)"

definition applyGrappleTransition :: "'r random_source \<Rightarrow> side \<Rightarrow> 'r turn_acc \<Rightarrow> 'r turn_acc" where
  "applyGrappleTransition rs a acc = attempt_submission rs a (change_grip a acc)"

section \<open>A successful action\<close>

definition apply_damage ::
  "side \<Rightarrow> action \<Rightarrow> zone \<Rightarrow> int \<Rightarrow> 'r turn_acc \<Rightarrow> 'r turn_acc" where
  "apply_damage a action target damage acc =
     (if damage > 0 then
        emit ((turn_event acc EventDamageApplied)\<lparr>ev_PlayerID := fs_PlayerID (actor_of a acc),
            ev_TargetID := fs_PlayerID (actor_of (opponent a) acc), ev_Action := action,
            ev_Zone := target, ev_Value := damage, ev_Success := True, ev_Detail := ''damage''\<rparr>)
          (on_fighter a (\<lambda>f. f\<lparr>fs_LastOffensiveHitTurn := ms_Turn (ta_next acc)\<rparr>)
            (on_fighter (opponent a) (\<lambda>f. f\<lparr>fs_HP := ClampInt (fs_HP f - damage) 0 HPMax,
               fs_Momentum := ClampInt (fs_Momentum f - 6) 0 50\<rparr>) acc))
      else acc)"

definition apply_stun :: "'r random_source \<Rightarrow> side \<Rightarrow> zone \<Rightarrow> 'r turn_acc \<Rightarrow> 'r turn_acc" where
  "apply_stun rs a target acc =
     (let actor = actor_of a acc; defender = actor_of (opponent a) acc;
          stunChance = StunChanceBPS target (fs_Stamina defender)
            (fs_Momentum actor - fs_Momentum defender);
          (stunRoll, acc) = roll_bps rs acc
      in if stunRoll < stunChance then
           emit ((turn_event acc EventStatusApplied)\<lparr>ev_PlayerID := fs_PlayerID defender,
               ev_TargetID := fs_PlayerID actor, ev_Zone := target, ev_Value := stunChance,
               ev_Success := True, ev_Detail := ''stunned''\<rparr>)
             (on_fighter (opponent a) (\<lambda>f. f\<lparr>fs_Effects := (fs_Effects f)\<lparr>StunnedFor :=
                MaxInt (StunnedFor (fs_Effects f)) 1\<rparr>, fs_State := StateStunned\<rparr>) acc)
         else acc)"

definition check_ko :: "side \<Rightarrow> 'r turn_acc \<Rightarrow> 'r turn_acc" where
  "check_ko a acc =
     (if fs_HP (actor_of (opponent a) acc) = 0 then
        emit ((turn_event acc EventMatchFinished)\<lparr>ev_PlayerID := fs_PlayerID (actor_of a acc),
            ev_TargetID := fs_PlayerID (actor_of (opponent a) acc), ev_Success := True,
            ev_Detail := ''ko''\<rparr>)
          (set_outcome (fs_PlayerID (actor_of a acc)) ''KO'' acc)
      else acc)"

definition resolve_hit ::
  "'r random_source \<Rightarrow> side \<Rightarrow> action \<Rightarrow> zone \<Rightarrow> int \<Rightarrow> bool \<Rightarrow> 'r turn_acc \<Rightarrow> 'r turn_acc" where
  "resolve_hit rs a action target momentumBefore comboActive acc =
     (let damage = DamageFinal (BaseDamage action (fs_Stats (actor_of a acc))) momentumBefore
            comboActive;
          acc = apply_damage a action target damage acc;
          acc = applyZoneEffects (opponent a) target acc;
          acc = apply_stun rs a target acc;
          acc = (if action = ActionGrapple then applyGrappleTransition rs a acc else acc)
      in check_ko a acc)"

definition resolve_break :: "side \<Rightarrow> 'r turn_acc \<Rightarrow> 'r turn_acc" where
  "resolve_break a acc =
     emit ((turn_event acc EventStateChanged)\<lparr>ev_PlayerID := fs_PlayerID (actor_of a acc),
         ev_Success := True, ev_Detail := ''break_to_neutral''\<rparr>)
       (on_fighter (opponent a) (set_state_unless_stunned StateNeutral)
         (on_fighter a (set_state_unless_stunned StateNeutral)
           (set_combat_state StateNeutral acc)))"

fun resolve_effect ::
  "'r random_source \<Rightarrow> side \<Rightarrow> action \<Rightarrow> zone \<Rightarrow> int \<Rightarrow> bool \<Rightarrow> 'r turn_acc \<Rightarrow> 'r turn_acc" where
  "resolve_effect rs a ActionStrike target mb combo acc = resolve_hit rs a ActionStrike target mb combo acc"
| "resolve_effect rs a ActionGrapple target mb combo acc = resolve_hit rs a ActionGrapple target mb combo acc"
| "resolve_effect rs a ActionCounter target mb combo acc = resolve_hit rs a ActionCounter target mb combo acc"
| "resolve_effect rs a ActionFeint target mb combo acc =
     on_fighter a (\<lambda>f. f\<lparr>fs_LastOffensiveHitTurn := ms_Turn (ta_next acc)\<rparr>) acc"
| "resolve_effect rs a ActionBreak target mb combo acc = resolve_break a acc"
| "resolve_effect rs a action target mb combo acc = acc"

definition combo_active :: "action \<Rightarrow> fighter_state \<Rightarrow> int \<Rightarrow> bool" where
  "combo_active action actor prevTurn \<longleftrightarrow> IsOffensive action
     \<and> fs_LastOffensiveHitTurn actor = prevTurn \<and> fs_Stamina actor > 30"

definition gain_momentum :: "side \<Rightarrow> int \<Rightarrow> 'r turn_acc \<Rightarrow> 'r turn_acc" where
  "gain_momentum a n acc =
     on_fighter a (\<lambda>f. f\<lparr>fs_Momentum := ClampInt (fs_Momentum f + n) 0 50\<rparr>) acc"

definition resolve_success ::
  "'r random_source \<Rightarrow> side \<Rightarrow> action \<Rightarrow> zone \<Rightarrow> int \<Rightarrow> 'r turn_acc \<Rightarrow> 'r turn_acc" where
  "resolve_success rs a action target prevTurn acc =
     (let comboActive = combo_active action (actor_of a acc) prevTurn;
          momentumBefore = fs_Momentum (actor_of a acc);
          acc = gain_momentum a 8 acc;
          acc = (if comboActive then
            emit ((turn_event acc EventStatusApplied)\<lparr>ev_PlayerID := fs_PlayerID (actor_of a acc),
                ev_Action := action, ev_Success := True, ev_Detail := ''combo_active''\<rparr>)
              (gain_momentum a 5 acc)
            else acc)
      in resolve_effect rs a action target momentumBefore comboActive acc)"

section \<open>One input\<close>

definition hits_target :: "action \<Rightarrow> int \<Rightarrow> bool" where
  "hits_target action distance = (let move = MoveForAction action in
     \<not> (\<not> IsActive move 1 \<or> distance > mv_Range move))"

definition resolve_attempt ::
  "'r random_source \<Rightarrow> side \<Rightarrow> action \<Rightarrow> zone \<Rightarrow> fighter_turn_context \<Rightarrow> int \<Rightarrow> 'r turn_acc
     \<Rightarrow> 'r turn_acc" where
  "resolve_attempt rs a action target ctx prevTurn acc =
     (let chance = resolveSuccessChance (actor_of a acc) (actor_of (opponent a) acc) action ctx;
          (roll, acc) = roll_bps rs acc;
          success = roll < chance;
          missed = success \<and> RequiresHitbox action
            \<and> \<not> hits_target action (ms_Distance (ta_next acc));
          detail = (if missed then ''miss_out_of_range'' else ''chance_roll'');
          success = (success \<and> \<not> missed);
          acc = on_fighter a (\<lambda>f. f\<lparr>fs_LastActionSuccess := success\<rparr>) acc;
          acc = emit ((turn_event acc EventActionResolved)\<lparr>ev_PlayerID := fs_PlayerID (actor_of a acc),
            ev_TargetID := fs_PlayerID (actor_of (opponent a) acc), ev_Action := action,
            ev_Zone := target, ev_Value := chance, ev_Success := success, ev_Detail := detail\<rparr>) acc
      in if \<not> success then acc else resolve_success rs a action target prevTurn acc)"

definition skip_stunned :: "side \<Rightarrow> 'r turn_acc \<Rightarrow> 'r turn_acc" where
  "skip_stunned a acc =
     emit ((turn_event acc EventStatusApplied)\<lparr>ev_PlayerID := fs_PlayerID (actor_of a acc),
         ev_Action := ActionNone, ev_Success := False, ev_Detail := ''stunned_skip''\<rparr>)
       (on_fighter a (\<lambda>f. f\<lparr>fs_LastAction := ActionNone, fs_LastActionSuccess := False\<rparr>) acc)"

definition skip_exhausted :: "side \<Rightarrow> action \<Rightarrow> zone \<Rightarrow> 'r turn_acc \<Rightarrow> 'r turn_acc" where
  "skip_exhausted a action target acc =
     emit ((turn_event acc EventActionResolved)\<lparr>ev_PlayerID := fs_PlayerID (actor_of a acc),
         ev_TargetID := fs_PlayerID (actor_of (opponent a) acc), ev_Action := action,
         ev_Zone := target, ev_Success := False, ev_Detail := ''insufficient_stamina''\<rparr>)
       (on_fighter a (\<lambda>f. f\<lparr>fs_LastActionSuccess := False\<rparr>) acc)"

definition act ::
  "'r random_source \<Rightarrow> side \<Rightarrow> action \<Rightarrow> zone \<Rightarrow> fighter_turn_context \<Rightarrow> int \<Rightarrow> 'r turn_acc
     \<Rightarrow> 'r turn_acc" where
  "act rs a action target ctx prevTurn acc =
     (let acc = on_fighter a (\<lambda>f. f\<lparr>fs_LastAction := action\<rparr>) acc in
      if stunnedAtTurnStart ctx then skip_stunned a acc
      else let cost = ActionStaminaCost action (Endurance (fs_Stats (actor_of a acc))) in
        if fs_Stamina (actor_of a acc) < cost then skip_exhausted a action target acc
        else let acc = on_fighter a (\<lambda>f. f\<lparr>fs_Stamina := fs_Stamina f - cost\<rparr>) acc in
          if action = ActionNone then on_fighter a (\<lambda>f. f\<lparr>fs_LastActionSuccess := False\<rparr>) acc
          else resolve_attempt rs a action target ctx prevTurn acc)"

definition resolve_input ::
  "'r random_source \<Rightarrow> (string \<rightharpoonup> fighter_turn_context) \<Rightarrow> int \<Rightarrow> turn_input \<Rightarrow> 'r turn_acc
     \<Rightarrow> combat_error + 'r turn_acc" where
  "resolve_input rs contexts prevTurn inp acc =
     (case fightersByID (ta_next acc) (ti_PlayerID inp) of
        Inl err \<Rightarrow> Inl err
      | Inr a \<Rightarrow>
          (let ctx = go_lookup contexts (fs_PlayerID (actor_of a acc)) zero_context;
               target = normalizeZone (ti_Target inp);
               action = normalizeAction (ti_Action inp)
           in Inr (act rs a action target ctx prevTurn acc)))"

text \<open>The loop over the ordered inputs, with its \<^verbatim>\<open>break\<close> once the match is finished.\<close>

fun resolve_inputs ::
  "'r random_source \<Rightarrow> (string \<rightharpoonup> fighter_turn_context) \<Rightarrow> int \<Rightarrow> turn_input list \<Rightarrow> 'r turn_acc
     \<Rightarrow> combat_error option \<times> 'r turn_acc" where
  "resolve_inputs rs contexts prevTurn [] acc = (None, acc)"
| "resolve_inputs rs contexts prevTurn (inp # ordered) acc =
     (if mo_Finished (ms_Outcome (ta_next acc)) then (None, acc)
      else case resolve_input rs contexts prevTurn inp acc of
          Inl err \<Rightarrow> (Some err, acc)
        | Inr acc' \<Rightarrow> resolve_inputs rs contexts prevTurn ordered acc')"

section \<open>The end of the turn\<close>

definition applyRegen :: "side \<Rightarrow> fighter_turn_context \<Rightarrow> 'r turn_acc \<Rightarrow> 'r turn_acc" where
  "applyRegen a ctx acc =
     (let f = actor_of a acc;
          regen = RegenForEndurance (Endurance (fs_Stats f));
          regen = (if torsoPenaltyAtTurnStart ctx then (regen * 80) sdiv 100 else regen);
          regen = (if regen < 0 then 0 else regen);
          staminaBefore = fs_Stamina f;
          stamina = ClampInt (staminaBefore + regen) 0 StaminaMax;
          delta = stamina - staminaBefore
      in emit ((turn_event acc EventStaminaRestored)\<lparr>ev_PlayerID := fs_PlayerID f,
             ev_Value := delta, ev_Success := True, ev_Detail := ''turn_regen''\<rparr>)
           (on_fighter a (\<lambda>f. f\<lparr>fs_Stamina := stamina\<rparr>) acc))"

definition recover_state :: "side \<Rightarrow> match_state \<Rightarrow> match_state" where
  "recover_state a m =
     upd_fighter a (\<lambda>f. if fs_State f = StateStunned \<and> StunnedFor (fs_Effects f) = 0
       then f\<lparr>fs_State := ms_CombatState m\<rparr> else f) m"

definition end_turn ::
  "'r random_source \<Rightarrow> (string \<rightharpoonup> fighter_turn_context) \<Rightarrow> 'r turn_acc \<Rightarrow> turn_result" where
  "end_turn rs contexts acc =
     (let acc = applyRegen SideP1
            (go_lookup contexts (fs_PlayerID (ms_P1 (ta_next acc))) zero_context) acc;
          acc = applyRegen SideP2
            (go_lookup contexts (fs_PlayerID (ms_P2 (ta_next acc))) zero_context) acc;
          next = recover_state SideP2 (recover_state SideP1 (ta_next acc));
          next = next\<lparr>ms_RNGState := rs_Snapshot rs (ta_rng acc)\<rparr>
      in \<lparr>tr_Events = ta_events acc, tr_Next = next,
          tr_Checksums = \<lparr>StateHash = hashMatchState next, RollHash = ta_rollHash acc\<rparr>\<rparr>)"

section \<open>The turn\<close>

definition begin_turn ::
  "match_state \<Rightarrow> turn_input list \<Rightarrow> 'r \<Rightarrow> (string \<rightharpoonup> fighter_turn_context) \<times> 'r turn_acc" where
  "begin_turn state ordered r =
     (let next = state\<lparr>ms_Turn := ms_Turn state + 1\<rparr>;
          actions = fold (\<lambda>inp m. m(ti_PlayerID inp \<mapsto> ti_Action inp)) ordered Map.empty;
          (f1, ctx1) = prepareFighterTurn (ms_P1 next);
          next = next\<lparr>ms_P1 := f1\<rparr>;
          ctx1 = ctx1\<lparr>opponentAction := go_lookup actions (fs_PlayerID (ms_P2 next)) ActionNone\<rparr>;
          (f2, ctx2) = prepareFighterTurn (ms_P2 next);
          next = next\<lparr>ms_P2 := f2\<rparr>;
          ctx2 = ctx2\<lparr>opponentAction := go_lookup actions (fs_PlayerID (ms_P1 next)) ActionNone\<rparr>;
          contexts = [fs_PlayerID (ms_P1 next) \<mapsto> ctx1, fs_PlayerID (ms_P2 next) \<mapsto> ctx2]
      in (contexts, \<lparr>ta_next = next,
            ta_events = [(mk_event (ms_Turn next) EventTurnStarted)\<lparr>ev_Detail := ''turn_begin''\<rparr>],
            ta_rollHash = fnv64a_offset, ta_rng = r\<rparr>))"

definition ResolveTurn :: "'r random_source \<Rightarrow> 'r resolver" where
  "ResolveTurn rs state inputs r =
     (if mo_Finished (ms_Outcome state) then (Inl ErrMatchFinished, r)
      else case CanonicalizeInputs state inputs of
          Inl err \<Rightarrow> (Inl err, r)
        | Inr ordered \<Rightarrow>
            (let (contexts, acc) = begin_turn state ordered r in
             case resolve_inputs rs contexts (ms_Turn state) ordered acc of
               (Some err, acc') \<Rightarrow> (Inl err, ta_rng acc')
             | (None, acc') \<Rightarrow> (Inr (end_turn rs contexts acc'), ta_rng acc')))"

end
