(* ===== verification/TurnSteps.thy ===== *)
theory TurnSteps
  imports Resolver
begin

text \<open>
  The resolver seen as a transition system. \<open>turn_step\<close> has one rule per elementary change that
  the body of \<^verbatim>\<open>ResolveTurn\<close> makes to its state (an event appended, a roll drawn, stamina spent,
  damage dealt, the grip changed, an outcome declared, ...), with the guard the code has at that
  point. The first half proves that resolving an input, and the whole loop over the inputs, is a
  run of such steps; the second half proves invariants of the steps by rule induction, and so of
  every turn. The properties of the resolver rest on these two halves.
\<close>

section \<open>Reading and writing through a side\<close>

lemma opponent_opponent [simp]: "opponent (opponent a) = a"
  by (cases a) simp_all

lemma opponent_neq [simp]: "opponent a \<noteq> a" "a \<noteq> opponent a"
  by (cases a; simp)+

lemma opponent_eq_iff: "b = opponent a \<longleftrightarrow> b \<noteq> a"
  by (cases a; cases b) simp_all

lemma fighter_at_upd_fighter [simp]:
  "fighter_at b (upd_fighter a f m) = (if a = b then f (fighter_at b m) else fighter_at b m)"
  by (cases a; cases b) simp_all

lemma upd_fighter_frame [simp]:
  "ms_Turn (upd_fighter a f m) = ms_Turn m"
  "ms_CombatState (upd_fighter a f m) = ms_CombatState m"
  "ms_Distance (upd_fighter a f m) = ms_Distance m"
  "ms_RNGState (upd_fighter a f m) = ms_RNGState m"
  "ms_Outcome (upd_fighter a f m) = ms_Outcome m"
  by (cases a; simp)+

lemma fighter_at_other_fields [simp]:
  "fighter_at b (m\<lparr>ms_CombatState := s\<rparr>) = fighter_at b m"
  "fighter_at b (m\<lparr>ms_Outcome := oc\<rparr>) = fighter_at b m"
  "fighter_at b (m\<lparr>ms_Turn := t\<rparr>) = fighter_at b m"
  "fighter_at b (m\<lparr>ms_RNGState := w\<rparr>) = fighter_at b m"
  by (cases b; simp)+

lemma turn_acc_frame [simp]:
  "ta_next (emit e acc) = ta_next acc"
  "ta_rng (emit e acc) = ta_rng acc"
  "ta_rollHash (emit e acc) = ta_rollHash acc"
  "ta_events (emit e acc) = ta_events acc @ [e]"
  "ta_next (on_fighter a f acc) = upd_fighter a f (ta_next acc)"
  "ta_rng (on_fighter a f acc) = ta_rng acc"
  "ta_rollHash (on_fighter a f acc) = ta_rollHash acc"
  "ta_events (on_fighter a f acc) = ta_events acc"
  "ta_next (set_combat_state s acc) = (ta_next acc)\<lparr>ms_CombatState := s\<rparr>"
  "ta_rng (set_combat_state s acc) = ta_rng acc"
  "ta_rollHash (set_combat_state s acc) = ta_rollHash acc"
  "ta_events (set_combat_state s acc) = ta_events acc"
  "ta_next (set_outcome w k acc) = (ta_next acc)\<lparr>ms_Outcome :=
     \<lparr>mo_Finished = True, mo_WinnerID = w, mo_Method = k\<rparr>\<rparr>"
  "ta_rng (set_outcome w k acc) = ta_rng acc"
  "ta_rollHash (set_outcome w k acc) = ta_rollHash acc"
  "ta_events (set_outcome w k acc) = ta_events acc"
  by (simp_all add: emit_def on_fighter_def set_combat_state_def set_outcome_def)

lemma roll_bps_frame:
  "roll_bps rs acc = (v, acc') \<Longrightarrow> ta_next acc' = ta_next acc \<and> ta_events acc' = ta_events acc"
  by (auto simp: roll_bps_def split: prod.splits)

lemma actor_of_simps [simp]:
  "actor_of b (emit e acc) = actor_of b acc"
  "actor_of b (on_fighter a f acc) = (if a = b then f (actor_of b acc) else actor_of b acc)"
  "actor_of b (set_combat_state s acc) = actor_of b acc"
  "actor_of b (set_outcome w k acc) = actor_of b acc"
  by (simp_all add: actor_of_def)

lemma actor_of_roll: "roll_bps rs acc = (v, acc') \<Longrightarrow> actor_of b acc' = actor_of b acc"
  by (simp add: actor_of_def roll_bps_frame)

section \<open>The elementary steps\<close>

definition take_damage :: "int \<Rightarrow> fighter_state \<Rightarrow> fighter_state" where
  "take_damage d f = f\<lparr>fs_HP := ClampInt (fs_HP f - d) 0 HPMax,
     fs_Momentum := ClampInt (fs_Momentum f - 6) 0 50\<rparr>"

definition set_grip :: "side \<Rightarrow> combat_state \<Rightarrow> 'r turn_acc \<Rightarrow> 'r turn_acc" where
  "set_grip a s acc = on_fighter (opponent a) (set_state_unless_stunned s)
     (on_fighter a (set_state_unless_stunned s) (set_combat_state s acc))"

definition match_over :: "'r turn_acc \<Rightarrow> bool" where
  "match_over acc \<longleftrightarrow> mo_Finished (ms_Outcome (ta_next acc))"

inductive turn_step :: "'r random_source \<Rightarrow> side \<Rightarrow> 'r turn_acc \<Rightarrow> 'r turn_acc \<Rightarrow> bool"
  for rs :: "'r random_source" and a :: side where
  event: "turn_step rs a acc (emit e acc)"
| roll: "roll_bps rs acc = (v, acc') \<Longrightarrow> turn_step rs a acc acc'"
| note_action: "turn_step rs a acc (on_fighter a (\<lambda>f. f\<lparr>fs_LastAction := x\<rparr>) acc)"
| note_success: "turn_step rs a acc (on_fighter a (\<lambda>f. f\<lparr>fs_LastActionSuccess := b\<rparr>) acc)"
| note_hit: "t = ms_Turn (ta_next acc) \<Longrightarrow>
    turn_step rs a acc (on_fighter a (\<lambda>f. f\<lparr>fs_LastOffensiveHitTurn := t\<rparr>) acc)"
| spend: "0 \<le> c \<Longrightarrow> c \<le> fs_Stamina (actor_of a acc) \<Longrightarrow>
    turn_step rs a acc (on_fighter a (\<lambda>f. f\<lparr>fs_Stamina := fs_Stamina f - c\<rparr>) acc)"
| momentum: "turn_step rs a acc (gain_momentum a n acc)"
| damage: "d = DamageFinal (BaseDamage x (fs_Stats (actor_of a acc))) mb combo \<Longrightarrow>
    turn_step rs a acc (on_fighter (opponent a) (take_damage d) acc)"
| zone_effect: "turn_step rs a acc (applyZoneEffects (opponent a) z acc)"
| stun: "turn_step rs a acc (on_fighter (opponent a) (\<lambda>f. f\<lparr>fs_Effects :=
      (fs_Effects f)\<lparr>StunnedFor := MaxInt (StunnedFor (fs_Effects f)) 1\<rparr>,
      fs_State := StateStunned\<rparr>) acc)"
| grip: "s = next_grip (ms_CombatState (ta_next acc)) \<or> s = StateNeutral \<Longrightarrow>
    \<not> match_over acc \<Longrightarrow> turn_step rs a acc (set_grip a s acc)"
| submission: "ms_CombatState (ta_next acc) = StateSubmissionAttempt \<Longrightarrow>
    turn_step rs a acc (set_outcome (fs_PlayerID (actor_of a acc)) ''Submission'' acc)"
| ko: "fs_HP (actor_of (opponent a) acc) = 0 \<Longrightarrow>
    turn_step rs a acc (set_outcome (fs_PlayerID (actor_of a acc)) ''KO'' acc)"

abbreviation turn_steps ::
  "'r random_source \<Rightarrow> side \<Rightarrow> 'r turn_acc \<Rightarrow> 'r turn_acc \<Rightarrow> bool" where
  "turn_steps rs a \<equiv> (turn_step rs a)\<^sup>*\<^sup>*"

lemma turn_steps_one: "turn_step rs a acc acc' \<Longrightarrow> turn_steps rs a acc acc'"
  by (rule r_into_rtranclp)

lemma turn_steps_then:
  "turn_steps rs a acc acc' \<Longrightarrow> turn_step rs a acc' acc'' \<Longrightarrow> turn_steps rs a acc acc''"
  by (rule rtranclp.rtrancl_into_rtrancl)

lemmas turn_steps_event = turn_steps_then [OF _ turn_step.event]
lemmas turn_steps_trans = rtranclp_trans [of "turn_step rs a" for rs a]

section \<open>The outcome is only touched at the end\<close>

lemma match_over_frame [simp]:
  "match_over (emit e acc) = match_over acc"
  "match_over (on_fighter b f acc) = match_over acc"
  "match_over (set_combat_state s acc) = match_over acc"
  "match_over (set_outcome w k acc)"
  "match_over (gain_momentum b n acc) = match_over acc"
  "match_over (applyZoneEffects b z acc) = match_over acc"
  "match_over (apply_damage b x z d acc) = match_over acc"
  by (simp_all add: match_over_def gain_momentum_def apply_damage_def)
    (cases z; simp add: match_over_def)

lemma match_over_roll: "roll_bps rs acc = (v, acc') \<Longrightarrow> match_over acc' = match_over acc"
  by (simp add: match_over_def roll_bps_frame)

lemma match_over_stun [simp]: "match_over (apply_stun rs a z acc) = match_over acc"
  by (cases "roll_bps rs acc") (simp add: apply_stun_def Let_def match_over_roll)

section \<open>Every block of the loop body is a run of steps\<close>

lemma apply_damage_steps:
  assumes "d = DamageFinal (BaseDamage x (fs_Stats (actor_of a acc))) mb combo"
  shows "turn_steps rs a acc (apply_damage a y z d acc)"
proof -
  have "turn_step rs a acc (on_fighter (opponent a) (take_damage d) acc)"
    using assms by (rule turn_step.damage)
  then have "turn_steps rs a acc (on_fighter a (\<lambda>f. f\<lparr>fs_LastOffensiveHitTurn := ms_Turn (ta_next acc)\<rparr>)
      (on_fighter (opponent a) (take_damage d) acc))"
    by (intro turn_steps_then [OF turn_steps_one turn_step.note_hit]) simp_all
  from turn_steps_event [OF this] show ?thesis
    unfolding apply_damage_def take_damage_def [abs_def] by simp
qed

lemma apply_stun_steps: "turn_steps rs a acc (apply_stun rs a z acc)"
proof -
  obtain v acc' where roll: "roll_bps rs acc = (v, acc')" by (cases "roll_bps rs acc")
  then have 1: "turn_steps rs a acc acc'" by (intro turn_steps_one turn_step.roll)
  from turn_steps_event [OF turn_steps_then [OF 1 turn_step.stun]] 1 show ?thesis
    unfolding apply_stun_def by (simp add: roll Let_def)
qed

lemma change_grip_steps: "\<not> match_over acc \<Longrightarrow> turn_steps rs a acc (change_grip a acc)"
proof -
  let ?s = "next_grip (ms_CombatState (ta_next acc))"
  assume "\<not> match_over acc"
  then have "turn_step rs a acc (set_grip a ?s acc)" by (intro turn_step.grip) simp_all
  from turn_steps_event [OF turn_steps_one [OF this]] show ?thesis
    by (simp add: change_grip_def set_grip_def Let_def set_combat_state_def)
qed

lemma attempt_submission_steps: "turn_steps rs a acc (attempt_submission rs a acc)"
proof (cases "ms_CombatState (ta_next acc) = StateSubmissionAttempt")
  case True
  obtain v acc' where roll: "roll_bps rs acc = (v, acc')" by (cases "roll_bps rs acc")
  then have 1: "turn_steps rs a acc acc'" by (intro turn_steps_one turn_step.roll)
  have "turn_step rs a acc' (set_outcome (fs_PlayerID (actor_of a acc')) ''Submission'' acc')"
    using True roll_bps_frame [OF roll] by (intro turn_step.submission) simp
  from turn_steps_event [OF turn_steps_then [OF 1 this]] 1 show ?thesis
    unfolding attempt_submission_def by (simp add: roll Let_def)
qed (simp add: attempt_submission_def)

lemma check_ko_steps: "turn_steps rs a acc (check_ko a acc)"
proof (cases "fs_HP (actor_of (opponent a) acc) = 0")
  case True
  from turn_steps_event [OF turn_steps_one [OF turn_step.ko [OF this]]] True show ?thesis
    by (simp add: check_ko_def)
qed (simp add: check_ko_def)

lemma applyGrappleTransition_steps:
  "\<not> match_over acc \<Longrightarrow> turn_steps rs a acc (applyGrappleTransition rs a acc)"
  unfolding applyGrappleTransition_def
  by (rule turn_steps_trans [OF change_grip_steps attempt_submission_steps])

lemma resolve_hit_steps:
  assumes "\<not> match_over acc"
  shows "turn_steps rs a acc (resolve_hit rs a x z mb combo acc)"
proof -
  let ?d = "DamageFinal (BaseDamage x (fs_Stats (actor_of a acc))) mb combo"
  let ?acc1 = "apply_damage a x z ?d acc"
  let ?acc2 = "apply_stun rs a z (applyZoneEffects (opponent a) z ?acc1)"
  let ?acc3 = "if x = ActionGrapple then applyGrappleTransition rs a ?acc2 else ?acc2"
  have 1: "turn_steps rs a acc ?acc1" by (rule apply_damage_steps) (rule refl)
  have 2: "turn_steps rs a ?acc1 ?acc2"
    by (rule converse_rtranclp_into_rtranclp [OF turn_step.zone_effect apply_stun_steps])
  have 3: "turn_steps rs a ?acc2 ?acc3"
    using assms by (simp add: applyGrappleTransition_steps)
  have "turn_steps rs a acc (check_ko a ?acc3)"
    by (rule turn_steps_trans [OF turn_steps_trans [OF turn_steps_trans [OF 1 2] 3] check_ko_steps])
  then show ?thesis by (simp only: resolve_hit_def Let_def)
qed

lemma resolve_break_steps:
  assumes "\<not> match_over acc"
  shows "turn_steps rs a acc (resolve_break a acc)"
proof -
  from assms have "turn_step rs a acc (set_grip a StateNeutral acc)"
    by (intro turn_step.grip) simp_all
  from turn_steps_event [OF turn_steps_one [OF this]] show ?thesis
    by (simp add: resolve_break_def set_grip_def)
qed

lemma resolve_effect_steps: "\<not> match_over acc \<Longrightarrow> turn_steps rs a acc (resolve_effect rs a x z mb combo acc)"
  by (cases x) (simp_all add: resolve_hit_steps resolve_break_steps turn_steps_one turn_step.note_hit)

lemma resolve_success_steps:
  assumes "\<not> match_over acc"
  shows "turn_steps rs a acc (resolve_success rs a x z pt acc)"
proof -
  have 1: "turn_steps rs a acc (gain_momentum a 8 acc)"
    by (intro turn_steps_one turn_step.momentum)
  note 2 = turn_steps_event [OF turn_steps_then [OF 1 turn_step.momentum]]
  show ?thesis
    unfolding resolve_success_def Let_def
    by (rule turn_steps_trans [OF _ resolve_effect_steps]) (simp_all add: 1 2 assms)
qed

lemma resolve_attempt_steps:
  assumes "\<not> match_over acc"
  shows "turn_steps rs a acc (resolve_attempt rs a x z ctx pt acc)"
proof -
  obtain v acc' where roll: "roll_bps rs acc = (v, acc')" by (cases "roll_bps rs acc")
  then have 1: "turn_steps rs a acc acc'" by (intro turn_steps_one turn_step.roll)
  note 2 = turn_steps_event [OF turn_steps_then [OF 1 turn_step.note_success]]
  show ?thesis
    unfolding resolve_attempt_def
    using assms match_over_roll [OF roll]
    by (simp add: roll Let_def 2 turn_steps_trans [OF 2 resolve_success_steps])
qed

lemma skip_stunned_steps: "turn_steps rs a acc (skip_stunned a acc)"
proof -
  have "turn_steps rs a acc (on_fighter a (\<lambda>f. f\<lparr>fs_LastActionSuccess := False\<rparr>)
      (on_fighter a (\<lambda>f. f\<lparr>fs_LastAction := ActionNone\<rparr>) acc))"
    by (rule turn_steps_then [OF turn_steps_one [OF turn_step.note_action] turn_step.note_success])
  moreover have "on_fighter a (\<lambda>f. f\<lparr>fs_LastActionSuccess := False\<rparr>)
      (on_fighter a (\<lambda>f. f\<lparr>fs_LastAction := ActionNone\<rparr>) acc) =
      on_fighter a (\<lambda>f. f\<lparr>fs_LastAction := ActionNone, fs_LastActionSuccess := False\<rparr>) acc"
    by (cases a) (simp_all add: on_fighter_def)
  ultimately show ?thesis by (simp add: skip_stunned_def turn_steps_event)
qed

lemma skip_exhausted_steps: "turn_steps rs a acc (skip_exhausted a x z acc)"
  unfolding skip_exhausted_def
  by (rule turn_steps_event [OF turn_steps_one [OF turn_step.note_success]])

lemma act_steps:
  assumes "\<not> match_over acc"
  shows "turn_steps rs a acc (act rs a x z ctx pt acc)"
proof -
  let ?acc1 = "on_fighter a (\<lambda>f. f\<lparr>fs_LastAction := x\<rparr>) acc"
  let ?c = "ActionStaminaCost x (Endurance (fs_Stats (actor_of a ?acc1)))"
  let ?acc2 = "on_fighter a (\<lambda>f. f\<lparr>fs_Stamina := fs_Stamina f - ?c\<rparr>) ?acc1"
  have 1: "turn_steps rs a acc ?acc1" by (intro turn_steps_one turn_step.note_action)
  show ?thesis
  proof (cases "stunnedAtTurnStart ctx \<or> fs_Stamina (actor_of a ?acc1) < ?c")
    case True
    then show ?thesis
      using turn_steps_trans [OF 1 skip_stunned_steps] turn_steps_trans [OF 1 skip_exhausted_steps]
      by (auto simp: act_def Let_def)
  next
    case False
    then have 2: "turn_steps rs a acc ?acc2"
      using ActionStaminaCost_range by (intro turn_steps_then [OF 1 turn_step.spend]) auto
    note 3 = turn_steps_then [OF 2 turn_step.note_success]
    from assms have "\<not> match_over ?acc2" by simp
    note 4 = turn_steps_trans [OF 2 resolve_attempt_steps [OF this]]
    from False have eq: "act rs a x z ctx pt acc = (if x = ActionNone
        then on_fighter a (\<lambda>f. f\<lparr>fs_LastActionSuccess := False\<rparr>) ?acc2
        else resolve_attempt rs a x z ctx pt ?acc2)"
      by (simp add: act_def Let_def)
    show ?thesis
      by (simp only: eq 3 4 simp_thms split: if_split)
  qed
qed

lemma resolve_input_steps:
  "resolve_input rs ctxs pt inp acc = Inr acc' \<Longrightarrow> \<not> match_over acc \<Longrightarrow>
     \<exists>a. fightersByID (ta_next acc) (ti_PlayerID inp) = Inr a \<and> turn_steps rs a acc acc'"
  by (auto simp: resolve_input_def Let_def act_steps split: sum.splits)

text \<open>
  A property that every step keeps, whichever side acts, is kept by a run and by the loop over
  the inputs.
\<close>

lemma turn_steps_induct:
  assumes "turn_steps rs a acc acc'" and "P acc"
    and "\<And>x y. turn_step rs a x y \<Longrightarrow> P x \<Longrightarrow> P y"
  shows "P acc'"
  using assms by (induction rule: rtranclp_induct) blast+

lemma resolve_inputs_induct:
  assumes "resolve_inputs rs ctxs pt inps acc = (e, acc')" and "P acc"
    and "\<And>a x y. turn_step rs a x y \<Longrightarrow> P x \<Longrightarrow> P y"
  shows "P acc'"
  using assms(1,2)
proof (induction inps arbitrary: acc)
  case Nil
  then show ?case by simp
next
  case (Cons inp inps)
  show ?case
  proof (cases "match_over acc")
    case True
    with Cons.prems show ?thesis by (simp add: match_over_def)
  next
    case False
    show ?thesis
    proof (cases "resolve_input rs ctxs pt inp acc")
      case (Inl err)
      with False Cons.prems show ?thesis by (simp add: match_over_def)
    next
      case (Inr acc1)
      from resolve_input_steps [OF this False] obtain a where "turn_steps rs a acc acc1" by blast
      then have "P acc1" using Cons.prems(2) assms(3) by (rule turn_steps_induct)
      moreover have "resolve_inputs rs ctxs pt inps acc1 = (e, acc')"
        using Inr False Cons.prems(1) by (simp add: match_over_def)
      ultimately show ?thesis by (intro Cons.IH)
    qed
  qed
qed

end
