(* ===== verification/TurnInvariants.thy ===== *)
theory TurnInvariants
  imports TurnSteps
begin

text \<open>
  The invariants of the resolver's steps: the ranges of a fighter's numbers, the agreement of the
  two fighters' states with the grip of the match, the identity of the fighters, the declared
  outcome. Each is kept by every \<open>turn_step\<close>, whichever side acts, so by every turn; the
  properties of \<open>ResolveTurn\<close> in the theory \<open>TurnTheorems\<close> are read off them.
\<close>

section \<open>Well-formed matches\<close>

definition wf_effects :: "status_effects \<Rightarrow> bool" where
  "wf_effects e \<longleftrightarrow> StunnedFor e \<in> {0..1} \<and> TorsoRegenPenaltyFor e \<in> {0..2}
     \<and> LegsDodgePenaltyFor e \<in> {0..2}"

definition wf_fighter :: "fighter_state \<Rightarrow> bool" where
  "wf_fighter f \<longleftrightarrow> wf_stats (fs_Stats f) \<and> fs_HP f \<in> {0..100} \<and> fs_Stamina f \<in> {0..100}
     \<and> fs_Momentum f \<in> {0..50} \<and> wf_effects (fs_Effects f)"

fun is_grip :: "combat_state \<Rightarrow> bool" where
  "is_grip StateStunned = False"
| "is_grip (StateOther k) = False"
| "is_grip s = True"

text \<open>
  A fighter's state repeats the grip of the match unless the fighter is stunned. While a turn is
  being resolved a stun that has run out may still show (\<open>in_step\<close>); between turns it does
  not (\<open>settled\<close>).
\<close>

definition in_step :: "combat_state \<Rightarrow> fighter_state \<Rightarrow> bool" where
  "in_step s f \<longleftrightarrow> (0 < StunnedFor (fs_Effects f) \<longrightarrow> fs_State f = StateStunned)
     \<and> (fs_State f \<noteq> StateStunned \<longrightarrow> fs_State f = s)"

definition settled :: "combat_state \<Rightarrow> fighter_state \<Rightarrow> bool" where
  "settled s f \<longleftrightarrow> fs_State f = (if 0 < StunnedFor (fs_Effects f) then StateStunned else s)"

lemma settled_in_step: "settled s f \<Longrightarrow> in_step s f"
  by (simp add: settled_def in_step_def)

text \<open>
  A finished match names one of its two fighters: by KO, and the other one has no health left, or
  by submission, and the grip is the one submissions are attempted from.
\<close>

definition ko_by :: "match_state \<Rightarrow> side \<Rightarrow> bool" where
  "ko_by m a \<longleftrightarrow> mo_Method (ms_Outcome m) = ''KO''
     \<and> mo_WinnerID (ms_Outcome m) = fs_PlayerID (fighter_at a m)
     \<and> fs_HP (fighter_at (opponent a) m) = 0"

definition submitted_by :: "match_state \<Rightarrow> side \<Rightarrow> bool" where
  "submitted_by m a \<longleftrightarrow> mo_Method (ms_Outcome m) = ''Submission''
     \<and> mo_WinnerID (ms_Outcome m) = fs_PlayerID (fighter_at a m)
     \<and> ms_CombatState m = StateSubmissionAttempt"

definition outcome_ok :: "match_state \<Rightarrow> bool" where
  "outcome_ok m \<longleftrightarrow> (if mo_Finished (ms_Outcome m)
     then ko_by m SideP1 \<or> ko_by m SideP2 \<or> submitted_by m SideP1 \<or> submitted_by m SideP2
     else ms_Outcome m = no_outcome)"

definition wf_mid :: "match_state \<Rightarrow> bool" where
  "wf_mid m \<longleftrightarrow> (\<forall>b. wf_fighter (fighter_at b m) \<and> in_step (ms_CombatState m) (fighter_at b m))
     \<and> is_grip (ms_CombatState m)"

definition wf_match :: "match_state \<Rightarrow> bool" where
  "wf_match m \<longleftrightarrow> wf_fighter (ms_P1 m) \<and> wf_fighter (ms_P2 m)
     \<and> settled (ms_CombatState m) (ms_P1 m) \<and> settled (ms_CombatState m) (ms_P2 m)
     \<and> is_grip (ms_CombatState m) \<and> outcome_ok m
     \<and> (\<not> mo_Finished (ms_Outcome m) \<longrightarrow> 0 < fs_HP (ms_P1 m) \<and> 0 < fs_HP (ms_P2 m))"

lemma all_side_iff: "(\<forall>b. P b) \<longleftrightarrow> P SideP1 \<and> P SideP2"
  using side.exhaust by metis

lemma ex_side_iff: "(\<exists>b. P b) \<longleftrightarrow> P SideP1 \<or> P SideP2"
  using side.exhaust by metis

lemma outcome_ok_alt:
  "outcome_ok m \<longleftrightarrow> (if mo_Finished (ms_Outcome m) then \<exists>a. ko_by m a \<or> submitted_by m a
     else ms_Outcome m = no_outcome)"
  unfolding ex_side_iff outcome_ok_def by auto

section \<open>Well-formedness is kept by every step\<close>

lemma zone_effects_frame [simp]:
  "ms_Turn (ta_next (applyZoneEffects d z acc)) = ms_Turn (ta_next acc)"
  "ms_Distance (ta_next (applyZoneEffects d z acc)) = ms_Distance (ta_next acc)"
  "ms_CombatState (ta_next (applyZoneEffects d z acc)) = ms_CombatState (ta_next acc)"
  "ms_Outcome (ta_next (applyZoneEffects d z acc)) = ms_Outcome (ta_next acc)"
  "fs_PlayerID (fighter_at b (ta_next (applyZoneEffects d z acc))) = fs_PlayerID (fighter_at b (ta_next acc))"
  "fs_Archetype (fighter_at b (ta_next (applyZoneEffects d z acc))) = fs_Archetype (fighter_at b (ta_next acc))"
  "fs_Stats (fighter_at b (ta_next (applyZoneEffects d z acc))) = fs_Stats (fighter_at b (ta_next acc))"
  "fs_HP (fighter_at b (ta_next (applyZoneEffects d z acc))) = fs_HP (fighter_at b (ta_next acc))"
  "fs_HP (actor_of b (applyZoneEffects d z acc)) = fs_HP (actor_of b acc)"
  by (cases z; simp add: actor_of_def)+

lemma is_grip_next_grip: "is_grip s \<Longrightarrow> is_grip (next_grip s)"
  by (cases s) simp_all

lemma in_step_set_state:
  "in_step s f \<Longrightarrow> in_step t (set_state_unless_stunned t f)"
  by (auto simp: in_step_def set_state_unless_stunned_def)

lemma set_grip_frame [simp]:
  "fighter_at b (ta_next (set_grip a s acc)) = set_state_unless_stunned s (fighter_at b (ta_next acc))"
  "ms_CombatState (ta_next (set_grip a s acc)) = s"
  "ms_Turn (ta_next (set_grip a s acc)) = ms_Turn (ta_next acc)"
  "ms_Distance (ta_next (set_grip a s acc)) = ms_Distance (ta_next acc)"
  "ms_Outcome (ta_next (set_grip a s acc)) = ms_Outcome (ta_next acc)"
  "actor_of b (set_grip a s acc) = set_state_unless_stunned s (actor_of b acc)"
  using opponent_eq_iff [of b a] by (auto simp: set_grip_def actor_of_def)

lemma wf_fighter_set_state [simp]:
  "wf_fighter (set_state_unless_stunned s f) = wf_fighter f"
  by (simp add: set_state_unless_stunned_def wf_fighter_def)

lemma wf_fighter_take_damage: "wf_fighter f \<Longrightarrow> wf_fighter (take_damage d f)"
  by (simp add: wf_fighter_def take_damage_def ClampInt_bounds HPMax_def)

lemma in_step_take_damage [simp]: "in_step s (take_damage d f) = in_step s f"
  by (simp add: in_step_def take_damage_def)

lemma wf_mid_fighter:
  "wf_mid m \<Longrightarrow> (wf_fighter (fighter_at a m) \<Longrightarrow> in_step (ms_CombatState m) (fighter_at a m)
     \<Longrightarrow> wf_fighter (f (fighter_at a m)) \<and> in_step (ms_CombatState m) (f (fighter_at a m)))
   \<Longrightarrow> wf_mid (upd_fighter a f m)"
  by (simp add: wf_mid_def)

lemma wf_mid_zone: "wf_mid (ta_next acc) \<Longrightarrow> wf_mid (ta_next (applyZoneEffects b z acc))"
  by (cases z) (auto intro!: wf_mid_fighter simp: wf_fighter_def wf_effects_def in_step_def)

lemma turn_step_wf_mid:
  "turn_step rs a acc acc' \<Longrightarrow> wf_mid (ta_next acc) \<Longrightarrow> wf_mid (ta_next acc')"
proof (induction rule: turn_step.cases)
  case roll
  then show ?case by (simp add: roll_bps_frame)
next
  case spend
  then show ?case
    by (auto intro!: wf_mid_fighter simp: wf_fighter_def in_step_def actor_of_def)
next
  case grip
  then show ?case
    by (auto simp: wf_mid_def is_grip_next_grip intro: in_step_set_state)
next
  case zone_effect
  then show ?case by (simp add: wf_mid_zone)
next
  case damage
  then show ?case by (auto intro!: wf_mid_fighter wf_fighter_take_damage)
next
  case momentum
  then show ?case
    by (auto intro!: wf_mid_fighter simp: wf_fighter_def in_step_def ClampInt_bounds gain_momentum_def)
next
  case stun
  then show ?case
    by (auto intro!: wf_mid_fighter simp: wf_fighter_def in_step_def wf_effects_def)
qed (auto intro!: wf_mid_fighter simp: wf_fighter_def in_step_def, auto simp: wf_mid_def)

section \<open>What a turn never changes\<close>

definition same_identity :: "match_state \<Rightarrow> match_state \<Rightarrow> bool" where
  "same_identity m n \<longleftrightarrow> ms_Turn n = ms_Turn m \<and> ms_Distance n = ms_Distance m
     \<and> (\<forall>b. fs_PlayerID (fighter_at b n) = fs_PlayerID (fighter_at b m)
          \<and> fs_Archetype (fighter_at b n) = fs_Archetype (fighter_at b m)
          \<and> fs_Stats (fighter_at b n) = fs_Stats (fighter_at b m))"

lemma same_identity_refl [simp]: "same_identity m m"
  by (simp add: same_identity_def)

lemma same_identity_trans: "same_identity m n \<Longrightarrow> same_identity n k \<Longrightarrow> same_identity m k"
  by (simp add: same_identity_def)

lemma same_identity_upd:
  "(fs_PlayerID (f (fighter_at a m)) = fs_PlayerID (fighter_at a m)
     \<and> fs_Archetype (f (fighter_at a m)) = fs_Archetype (fighter_at a m)
     \<and> fs_Stats (f (fighter_at a m)) = fs_Stats (fighter_at a m)) \<Longrightarrow>
   same_identity m (upd_fighter a f m)"
  by (simp add: same_identity_def)

lemma set_state_frame [simp]:
  "fs_PlayerID (set_state_unless_stunned s f) = fs_PlayerID f"
  "fs_Archetype (set_state_unless_stunned s f) = fs_Archetype f"
  "fs_Stats (set_state_unless_stunned s f) = fs_Stats f"
  "fs_HP (set_state_unless_stunned s f) = fs_HP f"
  "fs_Stamina (set_state_unless_stunned s f) = fs_Stamina f"
  "fs_Effects (set_state_unless_stunned s f) = fs_Effects f"
  by (simp_all add: set_state_unless_stunned_def)

lemma take_damage_frame [simp]:
  "fs_PlayerID (take_damage d f) = fs_PlayerID f"
  "fs_Archetype (take_damage d f) = fs_Archetype f"
  "fs_Stats (take_damage d f) = fs_Stats f"
  "fs_HP (take_damage d f) = ClampInt (fs_HP f - d) 0 HPMax"
  "fs_Stamina (take_damage d f) = fs_Stamina f"
  "fs_Effects (take_damage d f) = fs_Effects f"
  by (simp_all add: take_damage_def)

lemma turn_step_identity: "turn_step rs a acc acc' \<Longrightarrow> same_identity (ta_next acc) (ta_next acc')"
proof (induction rule: turn_step.cases)
  case roll
  then show ?case by (simp add: roll_bps_frame)
next
  case grip
  then show ?case by (simp add: same_identity_def)
next
  case zone_effect
  then show ?case by (simp add: same_identity_def)
qed (auto intro!: same_identity_upd simp: gain_momentum_def, auto simp: same_identity_def)

lemma turn_steps_identity:
  "turn_steps rs a acc acc' \<Longrightarrow> same_identity (ta_next acc) (ta_next acc')"
proof (induction rule: rtranclp_induct)
  case base
  then show ?case by simp
next
  case (step x y)
  from step.IH turn_step_identity [OF step.hyps(2)] show ?case by (rule same_identity_trans)
qed

lemma same_identityD:
  assumes "same_identity m n"
  shows "fs_PlayerID (fighter_at b n) = fs_PlayerID (fighter_at b m)"
    "fs_PlayerID (ms_P1 n) = fs_PlayerID (ms_P1 m)" "fs_PlayerID (ms_P2 n) = fs_PlayerID (ms_P2 m)"
    "fs_Stats (fighter_at b n) = fs_Stats (fighter_at b m)"
    "ms_Turn n = ms_Turn m" "ms_Distance n = ms_Distance m"
  using assms unfolding same_identity_def all_side_iff by (cases b; simp)+

section \<open>Health\<close>

text \<open>Acting never costs health: only the opponent's health moves, and only down.\<close>

lemma turn_step_HP_actor:
  "turn_step rs a acc acc' \<Longrightarrow> fs_HP (actor_of a acc') = fs_HP (actor_of a acc)"
proof (induction rule: turn_step.cases)
  case roll
  then show ?case by (simp add: actor_of_roll)
next
  case grip
  then show ?case by simp
next
  case zone_effect
  then show ?case by simp
qed (simp_all add: gain_momentum_def)

lemma turn_step_HP_mono:
  "turn_step rs a acc acc' \<Longrightarrow> 0 \<le> fs_HP (actor_of b acc) \<Longrightarrow>
     0 \<le> fs_HP (actor_of b acc') \<and> fs_HP (actor_of b acc') \<le> fs_HP (actor_of b acc)"
proof (induction rule: turn_step.cases)
  case roll
  then show ?case by (simp add: actor_of_roll)
next
  case grip
  then show ?case by simp
next
  case zone_effect
  then show ?case by simp
next
  case (damage d acc1 x mb combo)
  have "0 \<le> d" using damage(3) DamageFinal_nonneg by simp
  with damage show ?case by (simp add: ClampInt_def HPMax_def)
qed (simp_all add: gain_momentum_def)

lemma turn_steps_HP_actor:
  "turn_steps rs a acc acc' \<Longrightarrow> fs_HP (actor_of a acc') = fs_HP (actor_of a acc)"
  by (induction rule: rtranclp_induct) (auto dest: turn_step_HP_actor)

lemma turn_steps_HP_mono:
  "turn_steps rs a acc acc' \<Longrightarrow> 0 \<le> fs_HP (actor_of b acc) \<Longrightarrow>
     0 \<le> fs_HP (actor_of b acc') \<and> fs_HP (actor_of b acc') \<le> fs_HP (actor_of b acc)"
  by (induction rule: rtranclp_induct) (force dest: turn_step_HP_mono)+

section \<open>The outcome\<close>

lemma ko_by_upd:
  "fs_PlayerID (f (fighter_at b m)) = fs_PlayerID (fighter_at b m) \<Longrightarrow>
   (fs_HP (fighter_at b m) = 0 \<Longrightarrow> fs_HP (f (fighter_at b m)) = 0) \<Longrightarrow>
   ko_by m a \<Longrightarrow> ko_by (upd_fighter b f m) a"
  by (cases "b = a"; cases "b = opponent a") (auto simp: ko_by_def)

lemma submitted_by_upd:
  "fs_PlayerID (f (fighter_at b m)) = fs_PlayerID (fighter_at b m) \<Longrightarrow>
   submitted_by m a \<Longrightarrow> submitted_by (upd_fighter b f m) a"
  by (auto simp: submitted_by_def)

lemma outcome_ok_upd:
  "outcome_ok m \<Longrightarrow> fs_PlayerID (f (fighter_at b m)) = fs_PlayerID (fighter_at b m) \<Longrightarrow>
   (fs_HP (fighter_at b m) = 0 \<Longrightarrow> fs_HP (f (fighter_at b m)) = 0) \<Longrightarrow>
   outcome_ok (upd_fighter b f m)"
  unfolding outcome_ok_alt by (auto intro: ko_by_upd submitted_by_upd split: if_splits)

lemma turn_step_outcome:
  "turn_step rs a acc acc' \<Longrightarrow> outcome_ok (ta_next acc) \<Longrightarrow> outcome_ok (ta_next acc')"
proof (induction rule: turn_step.cases)
  case roll
  then show ?case by (simp add: roll_bps_frame)
next
  case grip
  then show ?case
    by (auto simp: outcome_ok_alt match_over_def)
next
  case zone_effect
  then show ?case by (simp add: outcome_ok_alt ko_by_def submitted_by_def split: if_splits)
next
  case (damage d acc1 x mb combo)
  have "0 \<le> d" using damage(3) DamageFinal_nonneg by simp
  with damage show ?case by (auto intro!: outcome_ok_upd simp: ClampInt_def HPMax_def)
next
  case submission
  then show ?case
    by (auto simp: outcome_ok_alt submitted_by_def actor_of_def)
next
  case ko
  then show ?case
    by (auto simp: outcome_ok_alt ko_by_def actor_of_def intro!: exI [of _ a])
qed (auto intro!: outcome_ok_upd simp: gain_momentum_def)

end
