(* ===== verification/TurnFlow.thy ===== *)
theory TurnFlow
  imports TurnInvariants
begin

text \<open>
  The shape of a turn. \<open>ResolveTurn_cases\<close> shows every successful turn to be: prepare both
  fighters, let one side act, let the other act unless the match is over, close the turn. The
  rest is what one act may do to the two fighters: its cost in stamina, its damage, and what an act
  that is not a hit leaves alone.
\<close>

section \<open>Opening a turn\<close>

lemma prepareFighterTurn_frame [simp]:
  "fs_PlayerID (fst (prepareFighterTurn f)) = fs_PlayerID f"
  "fs_Archetype (fst (prepareFighterTurn f)) = fs_Archetype f"
  "fs_Stats (fst (prepareFighterTurn f)) = fs_Stats f"
  "fs_HP (fst (prepareFighterTurn f)) = fs_HP f"
  "fs_Stamina (fst (prepareFighterTurn f)) = fs_Stamina f"
  "fs_Momentum (fst (prepareFighterTurn f)) = fs_Momentum f"
  "fs_State (fst (prepareFighterTurn f)) = fs_State f"
  "fs_LastOffensiveHitTurn (fst (prepareFighterTurn f)) = fs_LastOffensiveHitTurn f"
  by (simp_all add: prepareFighterTurn_def Let_def)

definition tick :: "int \<Rightarrow> int" where
  "tick n = (if n > 0 then n - 1 else n)"

lemma prepareFighterTurn_effects [simp]:
  "StunnedFor (fs_Effects (fst (prepareFighterTurn f))) = tick (StunnedFor (fs_Effects f))"
  "TorsoRegenPenaltyFor (fs_Effects (fst (prepareFighterTurn f))) =
     tick (TorsoRegenPenaltyFor (fs_Effects f))"
  "LegsDodgePenaltyFor (fs_Effects (fst (prepareFighterTurn f))) =
     tick (LegsDodgePenaltyFor (fs_Effects f))"
  by (simp_all add: prepareFighterTurn_def Let_def tick_def)

lemma prepareFighterTurn_context [simp]:
  "stunnedAtTurnStart (snd (prepareFighterTurn f)) = (StunnedFor (fs_Effects f) > 0)"
  "torsoPenaltyAtTurnStart (snd (prepareFighterTurn f)) = (TorsoRegenPenaltyFor (fs_Effects f) > 0)"
  "legsPenaltyAtTurnStart (snd (prepareFighterTurn f)) = (LegsDodgePenaltyFor (fs_Effects f) > 0)"
  by (simp_all add: prepareFighterTurn_def Let_def zero_context_def)

lemma prepareFighterTurn_wf: "wf_fighter f \<Longrightarrow> wf_fighter (fst (prepareFighterTurn f))"
  by (auto simp: wf_fighter_def wf_effects_def tick_def)

lemma prepareFighterTurn_in_step: "settled s f \<Longrightarrow> in_step s (fst (prepareFighterTurn f))"
  by (auto simp: settled_def in_step_def tick_def)

lemma begin_turn_frame:
  assumes "begin_turn m ord r = (ctxs, acc)"
  shows "fighter_at b (ta_next acc) = fst (prepareFighterTurn (fighter_at b m))"
    "ms_Turn (ta_next acc) = ms_Turn m + 1"
    "ms_CombatState (ta_next acc) = ms_CombatState m"
    "ms_Distance (ta_next acc) = ms_Distance m"
    "ms_Outcome (ta_next acc) = ms_Outcome m"
    "ta_rng acc = r" "ta_rollHash acc = fnv64a_offset"
    "ta_events acc = [(mk_event (ms_Turn m + 1) EventTurnStarted)\<lparr>ev_Detail := ''turn_begin''\<rparr>]"
  using assms by (cases b; auto simp: begin_turn_def Let_def split: prod.splits)+

lemma begin_turn_identity:
  assumes "begin_turn m ord r = (ctxs, acc)"
  shows "same_identity (m\<lparr>ms_Turn := ms_Turn m + 1\<rparr>) (ta_next acc)"
  using begin_turn_frame [OF assms] by (simp add: same_identity_def)

definition context_of ::
  "(string \<rightharpoonup> fighter_turn_context) \<Rightarrow> match_state \<Rightarrow> side \<Rightarrow> fighter_turn_context" where
  "context_of ctxs m b = go_lookup ctxs (fs_PlayerID (fighter_at b m)) zero_context"

lemma begin_turn_context:
  assumes "begin_turn m ord r = (ctxs, acc)" "players_ok m"
  shows "stunnedAtTurnStart (context_of ctxs m b) = (StunnedFor (fs_Effects (fighter_at b m)) > 0)"
    "torsoPenaltyAtTurnStart (context_of ctxs m b) =
       (TorsoRegenPenaltyFor (fs_Effects (fighter_at b m)) > 0)"
    "legsPenaltyAtTurnStart (context_of ctxs m b) =
       (LegsDodgePenaltyFor (fs_Effects (fighter_at b m)) > 0)"
  using assms prepareFighterTurn_frame(1) [of "ms_P1 m"] prepareFighterTurn_frame(1) [of "ms_P2 m"]
    prepareFighterTurn_context [of "ms_P1 m"] prepareFighterTurn_context [of "ms_P2 m"]
  by (cases b;
      auto simp: begin_turn_def context_of_def players_ok_def Let_def split: prod.splits)+

section \<open>Two acts\<close>

definition play ::
  "'r random_source \<Rightarrow> fighter_turn_context \<Rightarrow> int \<Rightarrow> side \<Rightarrow> turn_input \<Rightarrow> 'r turn_acc \<Rightarrow> 'r turn_acc" where
  "play rs ctx prevTurn b inp acc =
     act rs b (normalizeAction (ti_Action inp)) (normalizeZone (ti_Target inp)) ctx prevTurn acc"

definition play_both ::
  "'r random_source \<Rightarrow> (side \<Rightarrow> fighter_turn_context) \<Rightarrow> int \<Rightarrow> side \<Rightarrow> turn_input \<Rightarrow> turn_input
     \<Rightarrow> 'r turn_acc \<Rightarrow> 'r turn_acc" where
  "play_both rs ctx prevTurn a i j acc =
     (let acc1 = play rs (ctx a) prevTurn a i acc in
      if match_over acc1 then acc1 else play rs (ctx (opponent a)) prevTurn (opponent a) j acc1)"

lemma players_ok_identity: "same_identity m n \<Longrightarrow> players_ok n = players_ok m"
  by (simp add: players_ok_def same_identityD)

lemma fightersByID_side:
  "players_ok m \<Longrightarrow> fightersByID m (fs_PlayerID (fighter_at b m)) = Inr b"
  by (cases b) (auto simp: fightersByID_def players_ok_def)

lemma resolve_input_play:
  assumes "players_ok (ta_next acc)" "same_identity m (ta_next acc)"
    and "ti_PlayerID inp = fs_PlayerID (fighter_at b m)"
  shows "resolve_input rs ctxs pt inp acc = Inr (play rs (context_of ctxs m b) pt b inp acc)"
proof -
  have "fightersByID (ta_next acc) (ti_PlayerID inp) = Inr b"
    using assms fightersByID_side [of "ta_next acc" b] same_identityD(1) [OF assms(2)] by simp
  moreover have "fs_PlayerID (actor_of b acc) = fs_PlayerID (fighter_at b m)"
    using same_identityD(1) [OF assms(2)] by (simp add: actor_of_def)
  ultimately show ?thesis
    by (simp add: resolve_input_def play_def context_of_def Let_def)
qed

lemma play_steps: "\<not> match_over acc \<Longrightarrow> turn_steps rs b acc (play rs ctx pt b inp acc)"
  by (simp add: play_def act_steps)

lemma play_identity:
  "\<not> match_over acc \<Longrightarrow> same_identity (ta_next acc) (ta_next (play rs ctx pt b inp acc))"
  by (rule turn_steps_identity [OF play_steps])

lemma canonical_pair:
  assumes "CanonicalizeInputs m ins = Inr ord"
  obtains a i j where "ord = [i, j]" "ti_PlayerID i = fs_PlayerID (fighter_at a m)"
    "ti_PlayerID j = fs_PlayerID (fighter_at (opponent a) m)"
proof -
  obtain i j where ord: "ord = [i, j]"
    using CanonicalizeInputs_distinct(3) [OF assms]
    by (auto simp: numeral_2_eq_2 length_Suc_conv)
  have "sort [fs_PlayerID (ms_P1 m), fs_PlayerID (ms_P2 m)] =
      (if fs_PlayerID (ms_P1 m) \<le> fs_PlayerID (ms_P2 m)
       then [fs_PlayerID (ms_P1 m), fs_PlayerID (ms_P2 m)]
       else [fs_PlayerID (ms_P2 m), fs_PlayerID (ms_P1 m)])" by simp
  with CanonicalizeInputs_ids [OF assms] ord
  have "(ti_PlayerID i = fs_PlayerID (fighter_at SideP1 m)
        \<and> ti_PlayerID j = fs_PlayerID (fighter_at (opponent SideP1) m))
      \<or> (ti_PlayerID i = fs_PlayerID (fighter_at SideP2 m)
        \<and> ti_PlayerID j = fs_PlayerID (fighter_at (opponent SideP2) m))"
    by (simp split: if_splits)
  with ord that show thesis by blast
qed

lemma resolve_inputs_pair:
  assumes "begin_turn m [i, j] r = (ctxs, acc)" "players_ok m" "\<not> mo_Finished (ms_Outcome m)"
    and "ti_PlayerID i = fs_PlayerID (fighter_at a m)"
    and "ti_PlayerID j = fs_PlayerID (fighter_at (opponent a) m)"
  shows "resolve_inputs rs ctxs pt [i, j] acc =
    (None, play_both rs (context_of ctxs m) pt a i j acc)"
proof -
  have id0: "same_identity (m\<lparr>ms_Turn := ms_Turn m + 1\<rparr>) (ta_next acc)"
    by (rule begin_turn_identity [OF assms(1)])
  have go: "\<not> match_over acc"
    using begin_turn_frame(5) [OF assms(1)] assms(3) by (simp add: match_over_def)
  let ?m = "m\<lparr>ms_Turn := ms_Turn m + 1\<rparr>"
  have pok: "players_ok ?m" using assms(2) by (simp add: players_ok_def)
  have ctx: "context_of ctxs ?m b = context_of ctxs m b" for b by (simp add: context_of_def)
  let ?acc1 = "play rs (context_of ctxs m a) pt a i acc"
  have 1: "resolve_input rs ctxs pt i acc = Inr ?acc1"
    using resolve_input_play [of acc ?m i a] id0 pok assms(4)
    by (simp add: players_ok_identity ctx)
  have id1: "same_identity ?m (ta_next ?acc1)"
    by (rule same_identity_trans [OF id0 play_identity [OF go]])
  have 2: "resolve_input rs ctxs pt j ?acc1 =
      Inr (play rs (context_of ctxs m (opponent a)) pt (opponent a) j ?acc1)"
    using resolve_input_play [of ?acc1 ?m j "opponent a"] id1 pok assms(5)
    by (simp add: players_ok_identity ctx)
  show ?thesis
    using go by (simp add: 1 2 play_both_def Let_def match_over_def split: if_split)
qed

text \<open>A turn succeeds exactly when the match is running and the inputs can be canonicalised.\<close>

lemma ResolveTurn_cases:
  assumes "ResolveTurn rs m ins r = (Inr res, r')"
  obtains a i j ctxs acc where
    "\<not> mo_Finished (ms_Outcome m)" "players_ok m" "inputs_ok m ins"
    "CanonicalizeInputs m ins = Inr [i, j]"
    "ti_PlayerID i = fs_PlayerID (fighter_at a m)"
    "ti_PlayerID j = fs_PlayerID (fighter_at (opponent a) m)"
    "begin_turn m [i, j] r = (ctxs, acc)"
    "res = end_turn rs ctxs (play_both rs (context_of ctxs m) (ms_Turn m) a i j acc)"
    "r' = ta_rng (play_both rs (context_of ctxs m) (ms_Turn m) a i j acc)"
proof -
  from assms have running: "\<not> mo_Finished (ms_Outcome m)"
    by (auto simp: ResolveTurn_def split: if_splits)
  with assms obtain ord where ord: "CanonicalizeInputs m ins = Inr ord"
    by (auto simp: ResolveTurn_def split: sum.splits)
  then have ok: "players_ok m" "inputs_ok m ins" using CanonicalizeInputs_ok_iff by blast+
  from ord obtain a i j where ij: "ord = [i, j]" "ti_PlayerID i = fs_PlayerID (fighter_at a m)"
    "ti_PlayerID j = fs_PlayerID (fighter_at (opponent a) m)" by (rule canonical_pair)
  obtain ctxs acc where b: "begin_turn m [i, j] r = (ctxs, acc)"
    by (cases "begin_turn m [i, j] r")
  from assms running ord ij b resolve_inputs_pair [OF b ok(1) running ij(2,3), of rs "ms_Turn m"]
  show thesis by (intro that [OF running ok _ ij(2,3) b]) (simp_all add: ResolveTurn_def)
qed

lemma ResolveTurn_ok_iff:
  "(\<exists>res r'. ResolveTurn rs m ins r = (Inr res, r')) \<longleftrightarrow>
     \<not> mo_Finished (ms_Outcome m) \<and> players_ok m \<and> inputs_ok m ins"
proof
  assume "\<exists>res r'. ResolveTurn rs m ins r = (Inr res, r')"
  then show "\<not> mo_Finished (ms_Outcome m) \<and> players_ok m \<and> inputs_ok m ins"
    by (blast elim: ResolveTurn_cases)
next
  assume ok: "\<not> mo_Finished (ms_Outcome m) \<and> players_ok m \<and> inputs_ok m ins"
  then obtain ord where ord: "CanonicalizeInputs m ins = Inr ord"
    using CanonicalizeInputs_ok_iff by blast
  then obtain a i j where ij: "ord = [i, j]" "ti_PlayerID i = fs_PlayerID (fighter_at a m)"
    "ti_PlayerID j = fs_PlayerID (fighter_at (opponent a) m)" by (rule canonical_pair)
  obtain ctxs acc where b: "begin_turn m [i, j] r = (ctxs, acc)"
    by (cases "begin_turn m [i, j] r")
  from ok ord ij b resolve_inputs_pair [OF b _ _ ij(2,3), of rs "ms_Turn m"]
  show "\<exists>res r'. ResolveTurn rs m ins r = (Inr res, r')" by (simp add: ResolveTurn_def)
qed

section \<open>Both acts as runs of steps\<close>

lemma play_both_induct:
  assumes "\<not> match_over acc" and "P acc"
    and "\<And>b x y. turn_step rs b x y \<Longrightarrow> P x \<Longrightarrow> P y"
  shows "P (play_both rs ctx pt a i j acc)"
proof -
  let ?acc1 = "play rs (ctx a) pt a i acc"
  have run: "P y" if "turn_steps rs b x y" "P x" for b x y
    using that assms(3) by (rule turn_steps_induct)
  have 1: "P ?acc1"
    by (rule run [OF play_steps [OF assms(1)] assms(2)])
  show ?thesis
  proof (cases "match_over ?acc1")
    case True
    with 1 show ?thesis by (simp add: play_both_def)
  next
    case False
    from run [OF play_steps [OF False] 1] False show ?thesis
      by (simp add: play_both_def)
  qed
qed

lemma play_both_identity:
  "\<not> match_over acc \<Longrightarrow> same_identity (ta_next acc) (ta_next (play_both rs ctx pt a i j acc))"
  by (erule play_both_induct) (auto dest: turn_step_identity intro: same_identity_trans)

section \<open>Closing a turn\<close>

lemma applyRegen_frame [simp]:
  "ms_Turn (ta_next (applyRegen a ctx acc)) = ms_Turn (ta_next acc)"
  "ms_Distance (ta_next (applyRegen a ctx acc)) = ms_Distance (ta_next acc)"
  "ms_CombatState (ta_next (applyRegen a ctx acc)) = ms_CombatState (ta_next acc)"
  "ms_Outcome (ta_next (applyRegen a ctx acc)) = ms_Outcome (ta_next acc)"
  "ta_rng (applyRegen a ctx acc) = ta_rng acc"
  "ta_rollHash (applyRegen a ctx acc) = ta_rollHash acc"
  by (simp_all add: applyRegen_def Let_def)

definition regen_amount :: "fighter_turn_context \<Rightarrow> int \<Rightarrow> int" where
  "regen_amount ctx endurance =
     (if torsoPenaltyAtTurnStart ctx then (RegenForEndurance endurance * 80) sdiv 100
      else RegenForEndurance endurance)"

lemma regen_amount_range: "4 \<le> regen_amount ctx e \<and> regen_amount ctx e \<le> 13"
proof -
  let ?r = "RegenForEndurance e"
  have "5 \<le> ?r" "?r \<le> 13" using RegenForEndurance_range [of e] by simp_all
  then have "4 \<le> (?r * 80) sdiv 100 \<and> (?r * 80) sdiv 100 \<le> 10"
    by (simp add: sdiv_nonneg_eq; linarith)
  with \<open>5 \<le> ?r\<close> \<open>?r \<le> 13\<close> show ?thesis by (simp add: regen_amount_def)
qed

definition restore_stamina :: "fighter_turn_context \<Rightarrow> fighter_state \<Rightarrow> fighter_state" where
  "restore_stamina ctx f = f\<lparr>fs_Stamina :=
     ClampInt (fs_Stamina f + regen_amount ctx (Endurance (fs_Stats f))) 0 100\<rparr>"

lemma applyRegen_fighter:
  "fighter_at b (ta_next (applyRegen a ctx acc)) =
     (if a = b then restore_stamina ctx (fighter_at b (ta_next acc)) else fighter_at b (ta_next acc))"
proof -
  let ?e = "Endurance (fs_Stats (actor_of a acc))"
  have "(let r = RegenForEndurance ?e;
        r = (if torsoPenaltyAtTurnStart ctx then (r * 80) sdiv 100 else r)
      in if r < 0 then 0 else r) = regen_amount ctx ?e"
    using regen_amount_range [of ctx ?e] by (simp add: regen_amount_def Let_def)
  then show ?thesis
    by (simp add: applyRegen_def restore_stamina_def Let_def actor_of_def StaminaMax_def)
qed

definition recovered :: "combat_state \<Rightarrow> fighter_state \<Rightarrow> fighter_state" where
  "recovered s f = (if fs_State f = StateStunned \<and> StunnedFor (fs_Effects f) = 0
     then f\<lparr>fs_State := s\<rparr> else f)"

lemma recover_state_frame [simp]:
  "ms_Turn (recover_state a m) = ms_Turn m"
  "ms_Distance (recover_state a m) = ms_Distance m"
  "ms_CombatState (recover_state a m) = ms_CombatState m"
  "ms_Outcome (recover_state a m) = ms_Outcome m"
  "fighter_at b (recover_state a m) =
     (if a = b then recovered (ms_CombatState m) (fighter_at b m) else fighter_at b m)"
  by (simp_all add: recover_state_def recovered_def)

lemma restored_frame [simp]:
  "fs_PlayerID (recovered s (restore_stamina ctx f)) = fs_PlayerID f"
  "fs_Archetype (recovered s (restore_stamina ctx f)) = fs_Archetype f"
  "fs_Stats (recovered s (restore_stamina ctx f)) = fs_Stats f"
  "fs_HP (recovered s (restore_stamina ctx f)) = fs_HP f"
  "fs_Momentum (recovered s (restore_stamina ctx f)) = fs_Momentum f"
  "fs_Effects (recovered s (restore_stamina ctx f)) = fs_Effects f"
  "fs_Stamina (recovered s (restore_stamina ctx f)) =
     ClampInt (fs_Stamina f + regen_amount ctx (Endurance (fs_Stats f))) 0 100"
  by (simp_all add: recovered_def restore_stamina_def)

lemma end_turn_frame:
  assumes "same_identity m (ta_next acc)"
  shows "fighter_at b (tr_Next (end_turn rs ctxs acc)) = recovered (ms_CombatState (ta_next acc))
      (restore_stamina (context_of ctxs m b) (fighter_at b (ta_next acc)))"
    "ms_Turn (tr_Next (end_turn rs ctxs acc)) = ms_Turn (ta_next acc)"
    "ms_Distance (tr_Next (end_turn rs ctxs acc)) = ms_Distance (ta_next acc)"
    "ms_CombatState (tr_Next (end_turn rs ctxs acc)) = ms_CombatState (ta_next acc)"
    "ms_Outcome (tr_Next (end_turn rs ctxs acc)) = ms_Outcome (ta_next acc)"
    "RollHash (tr_Checksums (end_turn rs ctxs acc)) = ta_rollHash acc"
    "StateHash (tr_Checksums (end_turn rs ctxs acc)) = hashMatchState (tr_Next (end_turn rs ctxs acc))"
    "ms_RNGState (tr_Next (end_turn rs ctxs acc)) = rs_Snapshot rs (ta_rng acc)"
proof -
  have f: "ms_P1 n = fighter_at SideP1 n" "ms_P2 n = fighter_at SideP2 n" for n by simp_all
  show "fighter_at b (tr_Next (end_turn rs ctxs acc)) = recovered (ms_CombatState (ta_next acc))
      (restore_stamina (context_of ctxs m b) (fighter_at b (ta_next acc)))"
    unfolding end_turn_def Let_def f context_of_def
    by (cases b) (simp_all add: applyRegen_fighter same_identityD [OF assms] del: fighter_at.simps)
qed (simp_all add: end_turn_def Let_def)

lemma end_turn_wf:
  assumes "wf_mid (ta_next acc)" "same_identity m (ta_next acc)" "outcome_ok (ta_next acc)"
    and "match_over acc \<or> (\<forall>b. 0 < fs_HP (actor_of b acc))"
  shows "wf_match (tr_Next (end_turn rs ctxs acc))"
proof -
  note frame = end_turn_frame [OF assms(2), where rs = rs and ctxs = ctxs]
  have "wf_fighter (fighter_at b (tr_Next (end_turn rs ctxs acc)))
      \<and> settled (ms_CombatState (ta_next acc)) (fighter_at b (tr_Next (end_turn rs ctxs acc)))" for b
  proof -
    have "wf_fighter (fighter_at b (ta_next acc))"
      "in_step (ms_CombatState (ta_next acc)) (fighter_at b (ta_next acc))"
      using assms(1) by (simp_all add: wf_mid_def)
    then show ?thesis
      unfolding frame
      by (auto simp: wf_fighter_def wf_effects_def ClampInt_bounds settled_def in_step_def
          recovered_def restore_stamina_def)
  qed
  then have "\<forall>b. wf_fighter (fighter_at b (tr_Next (end_turn rs ctxs acc)))
      \<and> settled (ms_CombatState (ta_next acc)) (fighter_at b (tr_Next (end_turn rs ctxs acc)))"
    by simp
  then have "wf_fighter (ms_P1 (tr_Next (end_turn rs ctxs acc)))
      \<and> wf_fighter (ms_P2 (tr_Next (end_turn rs ctxs acc)))
      \<and> settled (ms_CombatState (ta_next acc)) (ms_P1 (tr_Next (end_turn rs ctxs acc)))
      \<and> settled (ms_CombatState (ta_next acc)) (ms_P2 (tr_Next (end_turn rs ctxs acc)))"
    by (simp only: all_side_iff fighter_at.simps) 
  moreover have "outcome_ok (tr_Next (end_turn rs ctxs acc))"
    using assms(3) by (simp add: outcome_ok_alt ko_by_def submitted_by_def frame split: if_splits)
  moreover have "\<not> match_over acc \<longrightarrow> (\<forall>b. 0 < fs_HP (fighter_at b (tr_Next (end_turn rs ctxs acc))))"
    using assms(4) by (auto simp: frame actor_of_def)
  ultimately show ?thesis
    using assms(1) frame(1) [of SideP1] frame(1) [of SideP2]
    by (simp add: wf_match_def wf_mid_def all_side_iff match_over_def frame(2-5))
qed

section \<open>What one act may do\<close>

text \<open>
  After an act the other fighter is out of health only if the match is over, and one act deals at
  most 36 points of damage.
\<close>

definition hurts_at_most :: "int \<Rightarrow> side \<Rightarrow> 'r turn_acc \<Rightarrow> 'r turn_acc \<Rightarrow> bool" where
  "hurts_at_most n a acc acc' \<longleftrightarrow> fs_HP (actor_of (opponent a) acc) - n
     \<le> fs_HP (actor_of (opponent a) acc')
     \<and> (fs_HP (actor_of (opponent a) acc') = 0 \<longrightarrow>
          match_over acc' \<or> fs_HP (actor_of (opponent a) acc) = 0)"

lemma roll_bps_actor: "actor_of b (snd (roll_bps rs acc)) = actor_of b acc"
  by (cases "roll_bps rs acc") (simp add: actor_of_roll)

lemma apply_stun_HP [simp]: "fs_HP (actor_of b (apply_stun rs a z acc)) = fs_HP (actor_of b acc)"
  by (cases "roll_bps rs acc") (simp add: apply_stun_def Let_def actor_of_roll)

lemma attempt_submission_actor [simp]:
  "actor_of b (attempt_submission rs a acc) = actor_of b acc"
  by (cases "roll_bps rs acc") (simp add: attempt_submission_def Let_def actor_of_roll)

lemma change_grip_HP [simp]: "fs_HP (actor_of b (change_grip a acc)) = fs_HP (actor_of b acc)"
  by (simp add: change_grip_def Let_def)

lemma check_ko_HP [simp]: "actor_of b (check_ko a acc) = actor_of b acc"
  by (simp add: check_ko_def)

lemma check_ko_over: "fs_HP (actor_of (opponent a) acc) = 0 \<Longrightarrow> match_over (check_ko a acc)"
  by (simp add: check_ko_def)

lemma apply_damage_HP:
  "0 \<le> d \<Longrightarrow> 0 \<le> fs_HP (actor_of (opponent a) acc) \<Longrightarrow>
   fs_HP (actor_of (opponent a) acc) \<le> 100 \<Longrightarrow>
   fs_HP (actor_of (opponent a) (apply_damage a x z d acc)) =
     max 0 (fs_HP (actor_of (opponent a) acc) - d)"
  by (simp add: apply_damage_def ClampInt_def HPMax_def)

lemma resolve_hit_hurts:
  assumes "wf_mid (ta_next acc)"
  shows "hurts_at_most 36 a acc (resolve_hit rs a x z mb combo acc)"
proof -
  let ?d = "DamageFinal (BaseDamage x (fs_Stats (actor_of a acc))) mb combo"
  have "wf_fighter (actor_of b acc)" for b using assms by (simp add: wf_mid_def actor_of_def)
  then have wf: "wf_stats (fs_Stats (actor_of a acc))"
    "fs_HP (actor_of (opponent a) acc) \<in> {0..100}" by (simp_all add: wf_fighter_def)
  then have d: "0 \<le> ?d" "?d \<le> 36"
    using BaseDamage_range [OF wf(1), of x] DamageFinal_range DamageFinal_nonneg by blast+
  let ?acc3 = "let acc = apply_stun rs a z (applyZoneEffects (opponent a) z (apply_damage a x z ?d acc))
    in if x = ActionGrapple then applyGrappleTransition rs a acc else acc"
  have "fs_HP (actor_of (opponent a) ?acc3) = fs_HP (actor_of (opponent a) (apply_damage a x z ?d acc))"
    by (auto simp: applyGrappleTransition_def Let_def)
  also have "\<dots> = max 0 (fs_HP (actor_of (opponent a) acc) - ?d)"
    using d wf(2) by (intro apply_damage_HP) auto
  finally have hp: "fs_HP (actor_of (opponent a) ?acc3) = max 0 (fs_HP (actor_of (opponent a) acc) - ?d)" .
  have "resolve_hit rs a x z mb combo acc = check_ko a ?acc3"
    by (simp only: resolve_hit_def Let_def)
  with hp d wf(2) check_ko_over [of a ?acc3] show ?thesis
    by (auto simp: hurts_at_most_def)
qed

lemma hurts_refl: "0 \<le> n \<Longrightarrow> hurts_at_most n a acc acc"
  by (simp add: hurts_at_most_def)

lemma hurts_after:
  "fs_HP (actor_of (opponent a) acc') = fs_HP (actor_of (opponent a) acc) \<Longrightarrow>
   hurts_at_most n a acc' acc'' \<Longrightarrow> hurts_at_most n a acc acc''"
  by (simp add: hurts_at_most_def)

lemma hurts_same:
  "fs_HP (actor_of (opponent a) acc') = fs_HP (actor_of (opponent a) acc) \<Longrightarrow> 0 \<le> n \<Longrightarrow>
   hurts_at_most n a acc acc'"
  by (simp add: hurts_at_most_def)

lemma resolve_effect_hurts:
  "wf_mid (ta_next acc) \<Longrightarrow> hurts_at_most 36 a acc (resolve_effect rs a x z mb combo acc)"
  by (cases x) (simp_all add: resolve_hit_hurts hurts_same resolve_break_def)

lemma turn_steps_wf_mid:
  "turn_steps rs a acc acc' \<Longrightarrow> wf_mid (ta_next acc) \<Longrightarrow> wf_mid (ta_next acc')"
  by (induction rule: rtranclp_induct) (auto intro: turn_step_wf_mid)

lemma gain_momentum_wf: "wf_mid (ta_next acc) \<Longrightarrow> wf_mid (ta_next (gain_momentum a n acc))"
  by (rule turn_step_wf_mid [OF turn_step.momentum])

lemma resolve_success_hurts:
  assumes "wf_mid (ta_next acc)"
  shows "hurts_at_most 36 a acc (resolve_success rs a x z pt acc)"
  unfolding resolve_success_def Let_def
  by (rule hurts_after [OF _ resolve_effect_hurts])
    (simp_all add: gain_momentum_wf assms, simp add: gain_momentum_def)

lemma resolve_attempt_hurts:
  assumes "wf_mid (ta_next acc)"
  shows "hurts_at_most 36 a acc (resolve_attempt rs a x z ctx pt acc)"
proof -
  obtain v acc1 where roll: "roll_bps rs acc = (v, acc1)" by (cases "roll_bps rs acc")
  have "wf_mid (ta_next (emit e (on_fighter a (\<lambda>f. f\<lparr>fs_LastActionSuccess := b\<rparr>) acc1)))" for e b
    using turn_step_wf_mid [OF turn_step.note_success, of acc1] assms roll_bps_frame [OF roll] by simp
  then show ?thesis
    unfolding resolve_attempt_def
    by (auto simp: roll Let_def actor_of_roll [OF roll] intro!: hurts_same
        intro!: hurts_after [OF _ resolve_success_hurts])
qed

lemma act_hurts:
  assumes "wf_mid (ta_next acc)"
  shows "hurts_at_most 36 a acc (act rs a x z ctx pt acc)"
proof -
  let ?acc1 = "on_fighter a (\<lambda>f. f\<lparr>fs_LastAction := x\<rparr>) acc"
  let ?c = "ActionStaminaCost x (Endurance (fs_Stats (actor_of a ?acc1)))"
  let ?acc2 = "on_fighter a (\<lambda>f. f\<lparr>fs_Stamina := fs_Stamina f - ?c\<rparr>) ?acc1"
  have wf1: "wf_mid (ta_next ?acc1)" by (rule turn_step_wf_mid [OF turn_step.note_action assms])
  show ?thesis
  proof (cases "stunnedAtTurnStart ctx \<or> fs_Stamina (actor_of a ?acc1) < ?c \<or> x = ActionNone")
    case True
    then show ?thesis
      by (auto simp: act_def Let_def skip_stunned_def skip_exhausted_def intro!: hurts_same)
  next
    case False
    then have wf2: "wf_mid (ta_next ?acc2)"
      using ActionStaminaCost_range
      by (intro turn_step_wf_mid [OF turn_step.spend wf1]) auto
    have "hurts_at_most 36 a acc (resolve_attempt rs a x z ctx pt ?acc2)"
      by (rule hurts_after [OF _ resolve_attempt_hurts [OF wf2]]) simp
    with False show ?thesis by (simp add: act_def Let_def)
  qed
qed

end
