(* ===== verification/Rng.thy ===== *)
theory Rng
  imports CombatTypes
begin

text \<open>
  The deterministic generator of \<^verbatim>\<open>internal/engine/rng.go\<close>, xorshift64*, as a pure function from
  its 64-bit state to the drawn number and the next state.

  The locale \<open>bounded_source\<close> is the contract the clients of the interface \<^verbatim>\<open>RandomSource\<close> rely
  on: a draw from \<open>n\<close> values is one of \<open>0 .. n-1\<close>, and a draw from none is 0 and leaves the state
  alone. The interpretation \<open>det\<close> discharges it for the generator. The state transition is a
  permutation of the 64-bit words that fixes only 0, so a generator made by
  \<^verbatim>\<open>NewDeterministicRNG\<close> never reaches the absorbing state 0, whatever the seed.
\<close>

section \<open>The generator\<close>

record deterministic_rng =
  rng_state :: u64

definition NewDeterministicRNG :: "u64 \<Rightarrow> deterministic_rng" where
  "NewDeterministicRNG seed =
     (let seed = (if seed = 0 then 0x9e3779b97f4a7c15 else seed) in \<lparr>rng_state = seed\<rparr>)"

definition xorshift :: "u64 \<Rightarrow> u64" where
  "xorshift x =
     (let x = x XOR drop_bit 12 x;
          x = x XOR push_bit 25 x;
          x = x XOR drop_bit 27 x
      in x)"

definition nextUint64 :: "deterministic_rng \<Rightarrow> u64 \<times> deterministic_rng" where
  "nextUint64 r = (let x = xorshift (rng_state r) in
     (x * 2685821657736338717, r\<lparr>rng_state := x\<rparr>))"

definition NextInt :: "deterministic_rng \<Rightarrow> int \<Rightarrow> int \<times> deterministic_rng" where
  "NextInt r n = (if n \<le> 0 then (0, r)
     else let (v, r') = nextUint64 r in (uint (v mod word_of_int n), r'))"

definition Snapshot :: "deterministic_rng \<Rightarrow> u64" where
  "Snapshot r = rng_state r"

definition det_source :: "deterministic_rng random_source" where
  "det_source = \<lparr>rs_NextInt = NextInt, rs_Snapshot = Snapshot\<rparr>"

lemma det_source_simps [simp]:
  "rs_NextInt det_source = NextInt" "rs_Snapshot det_source = Snapshot"
  by (simp_all add: det_source_def)

section \<open>The contract of a random source\<close>

locale bounded_source =
  fixes next_int :: "'r \<Rightarrow> int \<Rightarrow> int \<times> 'r"
  assumes draw_nonpos: "n \<le> 0 \<Longrightarrow> next_int r n = (0, r)"
    and draw_range: "0 < n \<Longrightarrow> int64_ok n \<Longrightarrow> fst (next_int r n) \<in> {0..<n}"
begin

lemma draw_bounds:
  assumes "next_int r n = (v, r')" "0 < n" "int64_ok n"
  shows "0 \<le> v" "v < n"
  using draw_range [OF assms(2,3), of r] assms(1) by auto

lemma draw_nonneg: "int64_ok n \<Longrightarrow> 0 \<le> fst (next_int r n)"
  using draw_nonpos [of n r] draw_range [of n r] by (cases "0 < n") auto

end

lemma uint_mod_range:
  assumes "0 < n" "int64_ok n"
  shows "uint (v mod (word_of_int n :: u64)) \<in> {0..<n}"
proof -
  have "uint (word_of_int n :: u64) = n"
    using assms by (simp add: int64_ok_def uint_word_of_int)
  then have "uint (v mod (word_of_int n :: u64)) = uint v mod n"
    by (simp add: uint_mod)
  with assms show ?thesis by simp
qed

interpretation det: bounded_source NextInt
proof unfold_locales
  fix n :: int and r :: deterministic_rng
  assume "n \<le> 0"
  then show "NextInt r n = (0, r)" by (simp add: NextInt_def)
next
  fix n :: int and r :: deterministic_rng
  assume "0 < n" "int64_ok n"
  then show "fst (NextInt r n) \<in> {0..<n}"
    using uint_mod_range by (simp add: NextInt_def split_beta)
qed

section \<open>The state transition is a permutation\<close>

lemma drop_bit_fixed_iterate: "(x::u64) = drop_bit k x \<Longrightarrow> drop_bit (n * k) x = x"
proof (induction n)
  case 0
  then show ?case by simp
next
  case (Suc n)
  have "drop_bit (Suc n * k) x = drop_bit k (drop_bit (n * k) x)"
    by (simp add: drop_bit_drop_bit)
  also have "\<dots> = drop_bit k x" using Suc by simp
  finally show ?case using Suc.prems by simp
qed

lemma push_bit_fixed_iterate: "(x::u64) = push_bit k x \<Longrightarrow> push_bit (n * k) x = x"
proof (induction n)
  case 0
  then show ?case by simp
next
  case (Suc n)
  have "push_bit (Suc n * k) x = push_bit k (push_bit (n * k) x)"
    by (simp add: push_bit_push_bit)
  also have "\<dots> = push_bit k x" using Suc by simp
  finally show ?case using Suc.prems by simp
qed

lemma drop_bit_fixed_zero:
  assumes "(x::u64) = drop_bit k x" "1 \<le> k"
  shows "x = 0"
proof (rule bit_word_eqI)
  fix n :: nat
  have "bit x n = bit x (64 * k + n)"
    using drop_bit_fixed_iterate [OF assms(1), of 64] by (metis bit_drop_bit_eq comp_apply)
  moreover have "\<not> bit x (64 * k + n)"
    using assms(2) bit_imp_le_length [of x "64 * k + n"] by auto
  ultimately show "bit x n = bit 0 n" by simp
qed

lemma push_bit_fixed_zero:
  assumes "(x::u64) = push_bit k x" "1 \<le> k"
  shows "x = 0"
proof (rule bit_word_eqI)
  fix n :: nat
  assume "n < LENGTH(64)"
  with assms(2) have "n < 64 * k" by (simp add: less_le_trans [of n 64])
  then have "\<not> bit (push_bit (64 * k) x) n" by (simp add: bit_push_bit_iff)
  then show "bit x n = bit 0 n"
    using push_bit_fixed_iterate [OF assms(1), of 64] by simp
qed

lemma xor_eq_0_iff: "(x::u64) XOR y = 0 \<longleftrightarrow> x = y"
  by (auto simp: bit_eq_iff bit_xor_iff)

lemma xor_exchange: "(a::u64) XOR b = c XOR d \<Longrightarrow> a XOR c = b XOR d"
  by (auto simp: bit_eq_iff bit_xor_iff)

lemma inj_xor_drop:
  assumes "1 \<le> k"
  shows "inj (\<lambda>x::u64. x XOR drop_bit k x)"
proof (rule injI)
  fix x y :: u64
  assume "x XOR drop_bit k x = y XOR drop_bit k y"
  then have "x XOR y = drop_bit k x XOR drop_bit k y" by (rule xor_exchange)
  then have "x XOR y = drop_bit k (x XOR y)" unfolding drop_bit_xor .
  then show "x = y" using drop_bit_fixed_zero [OF _ assms] xor_eq_0_iff by blast
qed

lemma inj_xor_push:
  assumes "1 \<le> k"
  shows "inj (\<lambda>x::u64. x XOR push_bit k x)"
proof (rule injI)
  fix x y :: u64
  assume "x XOR push_bit k x = y XOR push_bit k y"
  then have "x XOR y = push_bit k x XOR push_bit k y" by (rule xor_exchange)
  then have "x XOR y = push_bit k (x XOR y)" unfolding push_bit_xor .
  then show "x = y" using push_bit_fixed_zero [OF _ assms] xor_eq_0_iff by blast
qed

lemma xorshift_bij: "bij xorshift"
proof -
  have "xorshift = (\<lambda>x. x XOR drop_bit 27 x) \<circ> (\<lambda>x. x XOR push_bit 25 x) \<circ> (\<lambda>x. x XOR drop_bit 12 x)"
    by (simp only: fun_eq_iff xorshift_def Let_def comp_def refl simp_thms)
  moreover have "inj ((\<lambda>x::u64. x XOR drop_bit 27 x) \<circ> (\<lambda>x. x XOR push_bit 25 x)
      \<circ> (\<lambda>x. x XOR drop_bit 12 x))"
    by (intro inj_compose inj_xor_drop inj_xor_push) simp_all
  ultimately have "inj xorshift" by simp
  then show ?thesis by (simp add: bij_def finite_UNIV_inj_surj)
qed

lemma xorshift_0_iff: "xorshift x = 0 \<longleftrightarrow> x = 0"
proof -
  have "xorshift 0 = 0" by (simp add: xorshift_def)
  with xorshift_bij show ?thesis by (metis bij_is_inj injD)
qed

section \<open>Sequences of draws\<close>

text \<open>The numbers drawn, in order, by a list of calls \<open>NextInt n\<close>.\<close>

fun draws :: "deterministic_rng \<Rightarrow> int list \<Rightarrow> int list \<times> deterministic_rng" where
  "draws r [] = ([], r)"
| "draws r (n # ns) = (let (v, r') = NextInt r n; (vs, r'') = draws r' ns in (v # vs, r''))"

lemma NextInt_state: "rng_state (snd (NextInt r n)) =
    (if n \<le> 0 then rng_state r else xorshift (rng_state r))"
  by (simp add: NextInt_def nextUint64_def Let_def)

lemma NextInt_nonzero: "rng_state r \<noteq> 0 \<Longrightarrow> rng_state (snd (NextInt r n)) \<noteq> 0"
  by (simp add: NextInt_state xorshift_0_iff)

lemma draws_nonzero: "rng_state r \<noteq> 0 \<Longrightarrow> rng_state (snd (draws r ns)) \<noteq> 0"
proof (induction ns arbitrary: r)
  case Nil
  then show ?case by simp
next
  case (Cons n ns)
  then show ?case using NextInt_nonzero [of r n] by (simp add: split_beta Let_def)
qed

lemma NewDeterministicRNG_nonzero: "rng_state (NewDeterministicRNG seed) \<noteq> 0"
  by (simp add: NewDeterministicRNG_def)

lemma draws_in_range:
  "\<forall>n \<in> set ns. int64_ok n \<Longrightarrow>
     list_all2 (\<lambda>v n. 0 \<le> v \<and> (0 < n \<longrightarrow> v < n)) (fst (draws r ns)) ns"
proof (induction ns arbitrary: r)
  case Nil
  then show ?case by simp
next
  case (Cons n ns)
  then show ?case
    using det.draw_range [of n r] det.draw_nonneg [of n r] by (simp add: split_beta Let_def)
qed

text \<open>
  A generator made from any seed, the seed 0 included, yields only numbers below the bound it
  is asked for, and after any sequence of calls its state is still not the absorbing state 0 of
  xorshift (from which it would return 0 forever).
\<close>

theorem rng_never_degenerates:
  assumes "\<forall>n \<in> set ns. 0 < n \<and> int64_ok n"
    and "draws (NewDeterministicRNG seed) ns = (vs, r)"
  shows "rng_state r \<noteq> 0 \<and> length vs = length ns \<and> (\<forall>i < length ns. 0 \<le> vs ! i \<and> vs ! i < ns ! i)"
proof -
  have "list_all2 (\<lambda>v n. 0 \<le> v \<and> (0 < n \<longrightarrow> v < n)) vs ns"
    using draws_in_range [of ns "NewDeterministicRNG seed"] assms by simp
  moreover have "rng_state r \<noteq> 0"
    using draws_nonzero [OF NewDeterministicRNG_nonzero, of seed ns] assms(2) by simp
  ultimately show ?thesis
    using assms(1) by (simp add: list_all2_conv_all_nth)
qed

theorem rng_never_degenerates_witness:
  "rng_state (snd (draws (NewDeterministicRNG 0) [10000, 100])) \<noteq> 0
   \<and> length (fst (draws (NewDeterministicRNG 0) [10000, 100])) = 2"
  using rng_never_degenerates [of "[10000, 100]" 0
      "fst (draws (NewDeterministicRNG 0) [10000, 100])"
      "snd (draws (NewDeterministicRNG 0) [10000, 100])"]
  by (simp add: int64_ok_def)

end
