(* ===== verification/TurnRolls.thy ===== *)
theory TurnRolls
  imports TurnFlow Rng
begin

text \<open>
  The random numbers of a turn, and the stamina an act costs. \<open>rolled rs n acc acc'\<close> says that
  going from \<open>acc\<close> to \<open>acc'\<close> draws at most \<open>n\<close> numbers, all from 10000 values, that the
  generator is advanced by exactly these draws and that exactly these numbers, in this order, went
  into the roll hash.
\<close>

section \<open>Rolls\<close>

fun rolls :: "'r random_source \<Rightarrow> nat \<Rightarrow> 'r \<Rightarrow> int list \<times> 'r" where
  "rolls rs 0 r = ([], r)"
| "rolls rs (Suc n) r = (let (v, r1) = rs_NextInt rs r 10000; (vs, r2) = rolls rs n r1
     in (v # vs, r2))"

definition hash_rolls :: "u64 \<Rightarrow> int list \<Rightarrow> u64" where
  "hash_rolls h vs = fold (\<lambda>v h. appendHashInt h v) vs h"

definition rolled :: "'r random_source \<Rightarrow> nat \<Rightarrow> 'r turn_acc \<Rightarrow> 'r turn_acc \<Rightarrow> bool" where
  "rolled rs n acc acc' \<longleftrightarrow> (\<exists>k \<le> n. \<exists>vs. rolls rs k (ta_rng acc) = (vs, ta_rng acc')
     \<and> ta_rollHash acc' = hash_rolls (ta_rollHash acc) vs)"

lemma rolls_add:
  "rolls rs (m + n) r = (let (vs, r1) = rolls rs m r; (ws, r2) = rolls rs n r1 in (vs @ ws, r2))"
  by (induction m arbitrary: r) (auto simp: Let_def split: prod.splits)

lemma length_rolls: "length (fst (rolls rs n r)) = n"
  by (induction n arbitrary: r) (auto simp: Let_def split: prod.splits, metis fst_conv)

lemma hash_rolls_append: "hash_rolls h (vs @ ws) = hash_rolls (hash_rolls h vs) ws"
  by (simp add: hash_rolls_def)

text \<open>The roll hash is the FNV-1a hash of the 64-bit encodings of the drawn numbers.\<close>

lemma hash_rolls_bytes:
  "hash_rolls h vs = fnv64a_write h (concat (map (\<lambda>v. put_uint64_le (word_of_int v)) vs))"
  by (induction vs arbitrary: h)
    (simp_all add: hash_rolls_def appendHashInt_def fnv64a_write_append, simp add: fnv64a_write_def)

lemma rolled_same:
  "ta_rng acc' = ta_rng acc \<Longrightarrow> ta_rollHash acc' = ta_rollHash acc \<Longrightarrow> rolled rs n acc acc'"
  by (auto simp: rolled_def hash_rolls_def intro!: exI [of _ "0::nat"])

lemma rolled_one: "roll_bps rs acc = (v, acc') \<Longrightarrow> rolled rs (Suc 0) acc acc'"
  by (auto simp: rolled_def roll_bps_def hash_rolls_def intro!: exI [of _ "Suc 0"]
      split: prod.splits)

lemma rolled_trans:
  assumes "rolled rs m acc acc'" "rolled rs n acc' acc''"
  shows "rolled rs (m + n) acc acc''"
proof -
  from assms obtain j k vs ws where "j \<le> m" "k \<le> n"
    and "rolls rs j (ta_rng acc) = (vs, ta_rng acc')"
    and "rolls rs k (ta_rng acc') = (ws, ta_rng acc'')"
    and "ta_rollHash acc'' = hash_rolls (ta_rollHash acc) (vs @ ws)"
    by (auto simp: rolled_def hash_rolls_append)
  then show ?thesis
    unfolding rolled_def by (intro exI [of _ "j + k"]) (auto simp: rolls_add)
qed

lemma rolled_mono: "rolled rs m acc acc' \<Longrightarrow> m \<le> n \<Longrightarrow> rolled rs n acc acc'"
  unfolding rolled_def using le_trans by blast

lemma rolled_then:
  "rolled rs n acc acc' \<Longrightarrow> ta_rng acc'' = ta_rng acc' \<Longrightarrow> ta_rollHash acc'' = ta_rollHash acc' \<Longrightarrow>
   rolled rs n acc acc''"
  by (simp add: rolled_def)

lemma rolled_first:
  "rolled rs n acc' acc'' \<Longrightarrow> ta_rng acc' = ta_rng acc \<Longrightarrow> ta_rollHash acc' = ta_rollHash acc \<Longrightarrow>
   rolled rs n acc acc''"
  by (simp add: rolled_def)

lemma no_roll [frame_simps]:
  "ta_rng (gain_momentum a n acc) = ta_rng acc"
  "ta_rollHash (gain_momentum a n acc) = ta_rollHash acc"
  "ta_rng (applyZoneEffects d z acc) = ta_rng acc"
  "ta_rollHash (applyZoneEffects d z acc) = ta_rollHash acc"
  "ta_rng (apply_damage a x z n acc) = ta_rng acc"
  "ta_rollHash (apply_damage a x z n acc) = ta_rollHash acc"
  "ta_rng (change_grip a acc) = ta_rng acc"
  "ta_rollHash (change_grip a acc) = ta_rollHash acc"
  "ta_rng (check_ko a acc) = ta_rng acc"
  "ta_rollHash (check_ko a acc) = ta_rollHash acc"
  "ta_rng (resolve_break a acc) = ta_rng acc"
  "ta_rollHash (resolve_break a acc) = ta_rollHash acc"
  by (cases z; simp add: gain_momentum_def apply_damage_def change_grip_def check_ko_def
      resolve_break_def Let_def)+

lemma apply_stun_rolled: "rolled rs (Suc 0) acc (apply_stun rs a z acc)"
  by (cases "roll_bps rs acc")
    (auto simp: apply_stun_def Let_def intro: rolled_then [OF rolled_one] rolled_one)

lemma attempt_submission_rolled: "rolled rs (Suc 0) acc (attempt_submission rs a acc)"
  by (cases "roll_bps rs acc")
    (auto simp: attempt_submission_def Let_def
      intro: rolled_then [OF rolled_one] rolled_one rolled_same)

lemma applyGrappleTransition_rolled: "rolled rs (Suc 0) acc (applyGrappleTransition rs a acc)"
  unfolding applyGrappleTransition_def
  by (rule rolled_first [OF attempt_submission_rolled]) (simp_all add: frame_simps)

lemma resolve_hit_rolled: "rolled rs 2 acc (resolve_hit rs a x z mb combo acc)"
proof -
  let ?acc1 = "applyZoneEffects (opponent a) z (apply_damage a x z
    (DamageFinal (BaseDamage x (fs_Stats (actor_of a acc))) mb combo) acc)"
  let ?acc2 = "apply_stun rs a z ?acc1"
  let ?acc3 = "if x = ActionGrapple then applyGrappleTransition rs a ?acc2 else ?acc2"
  have 1: "rolled rs (Suc 0) acc ?acc2"
    by (rule rolled_first [OF apply_stun_rolled]) (simp_all add: frame_simps)
  have 2: "rolled rs (Suc 0) ?acc2 ?acc3"
    by (simp add: applyGrappleTransition_rolled rolled_same)
  have "rolled rs 2 acc (check_ko a ?acc3)"
    by (rule rolled_then) (use rolled_trans [OF 1 2] in \<open>simp_all add: frame_simps numeral_2_eq_2\<close>)
  then show ?thesis by (simp only: resolve_hit_def Let_def)
qed

lemma resolve_effect_rolled: "rolled rs 2 acc (resolve_effect rs a x z mb combo acc)"
  by (cases x) (simp_all add: resolve_hit_rolled rolled_same frame_simps)

lemma resolve_success_rolled: "rolled rs 2 acc (resolve_success rs a x z pt acc)"
  unfolding resolve_success_def Let_def
  by (rule rolled_first [OF resolve_effect_rolled]) (simp_all add: frame_simps)

lemma resolve_attempt_rolled: "rolled rs 3 acc (resolve_attempt rs a x z ctx pt acc)"
proof -
  obtain v acc1 where roll: "roll_bps rs acc = (v, acc1)" by (cases "roll_bps rs acc")
  note 1 = rolled_one [OF roll]
  have 2: "rolled rs 2 acc1 (if b then emit e (on_fighter a f acc1)
      else resolve_success rs a x z pt (emit e (on_fighter a f acc1)))" for b e f
    by (auto intro!: rolled_same rolled_first [OF resolve_success_rolled])
  have "rolled rs (Suc 0 + 2) acc (resolve_attempt rs a x z ctx pt acc)"
    unfolding resolve_attempt_def roll Let_def prod.case by (rule rolled_trans [OF 1 2])
  then show ?thesis by (simp add: numeral_3_eq_3)
qed

lemma act_rolled: "rolled rs 3 acc (act rs a x z ctx pt acc)"
  by (auto simp: act_def Let_def skip_stunned_def skip_exhausted_def
      intro!: rolled_same rolled_first [OF resolve_attempt_rolled])

lemma play_both_rolled: "rolled rs 6 acc (play_both rs ctx pt a i j acc)"
proof -
  let ?acc1 = "play rs (ctx a) pt a i acc"
  have 1: "rolled rs 3 acc ?acc1" unfolding play_def by (rule act_rolled)
  have 2: "rolled rs 3 ?acc1 (play rs (ctx (opponent a)) pt (opponent a) j ?acc1)"
    unfolding play_def by (rule act_rolled)
  from rolled_trans [OF 1 2] 1 show ?thesis
    by (auto simp: play_both_def Let_def intro: rolled_mono)
qed

section \<open>Stamina\<close>

lemma stamina_frame [frame_simps]:
  "fs_Stamina (actor_of b (gain_momentum a n acc)) = fs_Stamina (actor_of b acc)"
  "fs_Stamina (actor_of b (applyZoneEffects d z acc)) = fs_Stamina (actor_of b acc)"
  "fs_Stamina (actor_of b (apply_damage a x z n acc)) = fs_Stamina (actor_of b acc)"
  "fs_Stamina (actor_of b (change_grip a acc)) = fs_Stamina (actor_of b acc)"
  "fs_Stamina (actor_of b (resolve_break a acc)) = fs_Stamina (actor_of b acc)"
  by (cases z; simp add: gain_momentum_def apply_damage_def change_grip_def
      resolve_break_def Let_def)+

lemma stamina_stun [frame_simps]:
  "fs_Stamina (actor_of b (apply_stun rs a z acc)) = fs_Stamina (actor_of b acc)"
  by (cases "roll_bps rs acc") (simp add: apply_stun_def Let_def actor_of_roll)

lemma stamina_hit [frame_simps]:
  "fs_Stamina (actor_of b (resolve_hit rs a x z mb combo acc)) = fs_Stamina (actor_of b acc)"
  by (simp add: resolve_hit_def Let_def applyGrappleTransition_def frame_simps)

lemma stamina_effect [frame_simps]:
  "fs_Stamina (actor_of b (resolve_effect rs a x z mb combo acc)) = fs_Stamina (actor_of b acc)"
  by (cases x) (simp_all add: frame_simps)

lemma stamina_attempt [frame_simps]:
  "fs_Stamina (actor_of b (resolve_attempt rs a x z ctx pt acc)) = fs_Stamina (actor_of b acc)"
  by (cases "roll_bps rs acc")
    (simp add: resolve_attempt_def resolve_success_def Let_def actor_of_roll frame_simps)

definition act_cost :: "side \<Rightarrow> action \<Rightarrow> fighter_turn_context \<Rightarrow> 'r turn_acc \<Rightarrow> int" where
  "act_cost a x ctx acc = (let c = ActionStaminaCost x (Endurance (fs_Stats (actor_of a acc))) in
     if stunnedAtTurnStart ctx \<or> fs_Stamina (actor_of a acc) < c then 0 else c)"

lemma act_stamina:
  "fs_Stamina (actor_of b (act rs a x z ctx pt acc)) =
     fs_Stamina (actor_of b acc) - (if a = b then act_cost a x ctx acc else 0)"
  by (simp add: act_def act_cost_def Let_def skip_stunned_def skip_exhausted_def frame_simps)

end
