(* ===== verification/TurnTheorems.thy ===== *)
theory TurnTheorems
  imports TurnRolls
begin

text \<open>
  What a turn guarantees: the properties of \<open>ResolveTurn\<close>, each for every random source, every
  match and every list of inputs, and each applied to one concrete opening turn.
\<close>

section \<open>A concrete match\<close>

definition demo_fighter :: "string \<Rightarrow> archetype \<Rightarrow> fighter_state" where
  "demo_fighter pid arch = (case NewFighter pid arch of Inr f \<Rightarrow> f | Inl e \<Rightarrow> undefined)"

definition demo_match :: match_state where
  "demo_match = NewMatchState (demo_fighter ''ana'' ArchetypePowerhouse)
     (demo_fighter ''bo'' ArchetypeTechnician)"

definition demo_inputs :: "turn_input list" where
  "demo_inputs =
    [\<lparr>ti_PlayerID = ''bo'', ti_Action = ActionStrike, ti_Target = ZoneHead, ti_DecisionMS = 900\<rparr>,
     \<lparr>ti_PlayerID = ''ana'', ti_Action = ActionGrapple, ti_Target = ZoneLegs, ti_DecisionMS = 700\<rparr>]"

definition demo_rng :: deterministic_rng where
  "demo_rng = NewDeterministicRNG 42"

lemma demo_match_simps [simp]:
  "ms_P1 demo_match = demo_fighter ''ana'' ArchetypePowerhouse"
  "ms_P2 demo_match = demo_fighter ''bo'' ArchetypeTechnician"
  "ms_CombatState demo_match = StateNeutral" "ms_Turn demo_match = 0"
  "ms_Distance demo_match = 1" "ms_Outcome demo_match = no_outcome"
  by (simp_all add: demo_match_def NewMatchState_def)

lemma demo_fighter_simps [simp]:
  "ArchetypeStats arch = Some st \<Longrightarrow> demo_fighter pid arch = \<lparr>fs_PlayerID = pid,
     fs_Archetype = arch, fs_Stats = st, fs_HP = 100, fs_Stamina = 100, fs_Momentum = 0,
     fs_State = StateNeutral, fs_Effects = no_effects, fs_LastAction = ActionNone,
     fs_LastActionSuccess = False, fs_LastOffensiveHitTurn = 0\<rparr>"
  by (simp add: demo_fighter_def NewFighter_def HPMax_def StaminaMax_def)

lemma demo_wf: "wf_match demo_match"
  by (simp add: wf_match_def wf_fighter_def wf_stats_def wf_effects_def settled_def no_effects_def
      outcome_ok_def no_outcome_def)

lemma demo_ok: "\<not> mo_Finished (ms_Outcome demo_match)" "players_ok demo_match"
  "inputs_ok demo_match demo_inputs" "inputs_ok demo_match (rev demo_inputs)"
  by (simp_all add: no_outcome_def players_ok_def inputs_ok_def player_ids_def demo_inputs_def)

lemma demo_turn: "\<exists>res r'. ResolveTurn det_source demo_match demo_inputs demo_rng = (Inr res, r')"
  unfolding ResolveTurn_ok_iff using demo_ok by simp

section \<open>Success and failure\<close>

lemma failed_turn_draws_nothing:
  assumes fail: "ResolveTurn rs m ins r = (Inl err, r')"
  shows "r' = r" and "if mo_Finished (ms_Outcome m) then err = ErrMatchFinished
    else CanonicalizeInputs m ins = Inl err"
proof -
  from fail have "\<not> (\<not> mo_Finished (ms_Outcome m) \<and> players_ok m \<and> inputs_ok m ins)"
    using ResolveTurn_ok_iff [of rs m ins r] by auto
  then have "mo_Finished (ms_Outcome m) \<or> (\<exists>e. CanonicalizeInputs m ins = Inl e)"
    using CanonicalizeInputs_ok_iff [of m ins] by (metis sumE)
  with fail show "r' = r" and "if mo_Finished (ms_Outcome m) then err = ErrMatchFinished
      else CanonicalizeInputs m ins = Inl err"
    by (auto simp: ResolveTurn_def split: if_splits)
qed

text \<open>
  C27: A turn is resolved exactly when the match is still running, the two fighters have distinct
  non-empty ids and the inputs are at most one per fighter and only theirs. Otherwise it fails
  with the source's error and the random source is handed back untouched.
\<close>

theorem ResolveTurn_succeeds_or_draws_nothing:
  "((\<exists>res r'. ResolveTurn rs m ins r = (Inr res, r')) \<longleftrightarrow>
      \<not> mo_Finished (ms_Outcome m) \<and> players_ok m \<and> inputs_ok m ins)
   \<and> (\<forall>err r'. ResolveTurn rs m ins r = (Inl err, r') \<longrightarrow> r' = r
        \<and> (if mo_Finished (ms_Outcome m) then err = ErrMatchFinished
           else CanonicalizeInputs m ins = Inl err))"
proof (intro conjI allI impI)
  fix err r'
  assume fail: "ResolveTurn rs m ins r = (Inl err, r')"
  from failed_turn_draws_nothing [OF fail]
  show "r' = r" and "if mo_Finished (ms_Outcome m) then err = ErrMatchFinished
      else CanonicalizeInputs m ins = Inl err" by simp_all
qed (rule ResolveTurn_ok_iff)

lemma ResolveTurn_succeeds_or_draws_nothing_witness:
  "(\<exists>res r'. ResolveTurn det_source demo_match demo_inputs demo_rng = (Inr res, r'))
   \<and> ResolveTurn det_source demo_match (demo_inputs @ demo_inputs) demo_rng =
       (Inl (ErrDuplicateInput ''bo''), demo_rng)"
proof -
  have canon: "CanonicalizeInputs demo_match (demo_inputs @ demo_inputs) =
      Inl (ErrDuplicateInput ''bo'')"
    by (simp add: CanonicalizeInputs_def demo_inputs_def)
  obtain out r' where run:
    "ResolveTurn det_source demo_match (demo_inputs @ demo_inputs) demo_rng = (out, r')"
    by (cases "ResolveTurn det_source demo_match (demo_inputs @ demo_inputs) demo_rng")
  have "\<not> inputs_ok demo_match (demo_inputs @ demo_inputs)"
    by (simp add: inputs_ok_def demo_inputs_def)
  with run canon demo_ok
    ResolveTurn_succeeds_or_draws_nothing [of det_source demo_match "demo_inputs @ demo_inputs" demo_rng]
    ResolveTurn_succeeds_or_draws_nothing [of det_source demo_match demo_inputs demo_rng]
  show ?thesis by (cases out) auto
qed

section \<open>Well-formedness\<close>

lemma begin_turn_wf_mid:
  assumes "begin_turn m ord r = (ctxs, acc)" "wf_match m"
  shows "wf_mid (ta_next acc)"
  using assms(2) prepareFighterTurn_wf prepareFighterTurn_in_step
  by (simp add: wf_mid_def all_side_iff begin_turn_frame [OF assms(1)] wf_match_def
      del: prepareFighterTurn_effects)

lemma begin_turn_outcome:
  assumes "begin_turn m ord r = (ctxs, acc)" "outcome_ok m"
  shows "outcome_ok (ta_next acc)"
  using assms(2) by (simp add: outcome_ok_alt ko_by_def submitted_by_def begin_turn_frame [OF assms(1)]
      split: if_splits)

lemma begin_turn_running:
  "begin_turn m ord r = (ctxs, acc) \<Longrightarrow> \<not> mo_Finished (ms_Outcome m) \<Longrightarrow> \<not> match_over acc"
  by (simp add: match_over_def begin_turn_frame)

lemma play_wf_mid:
  "\<not> match_over acc \<Longrightarrow> wf_mid (ta_next acc) \<Longrightarrow> wf_mid (ta_next (play rs ctx pt b inp acc))"
  by (rule turn_steps_wf_mid [OF play_steps])

lemma play_hurts: "wf_mid (ta_next acc) \<Longrightarrow> hurts_at_most 36 b acc (play rs ctx pt b inp acc)"
  by (simp add: play_def act_hurts)

lemma play_both_health:
  assumes "\<not> match_over acc" "wf_mid (ta_next acc)" "\<And>b. 0 < fs_HP (actor_of b acc)"
  shows "fs_HP (actor_of b acc) - 36 \<le> fs_HP (actor_of b (play_both rs ctx pt a i j acc))"
    and "match_over (play_both rs ctx pt a i j acc)
      \<or> 0 < fs_HP (actor_of b (play_both rs ctx pt a i j acc))"
proof -
  let ?acc1 = "play rs (ctx a) pt a i acc"
  let ?acc2 = "play rs (ctx (opponent a)) pt (opponent a) j ?acc1"
  have hp: "0 \<le> fs_HP (actor_of b n)" if "wf_mid (ta_next n)" for b n
    using that by (simp add: wf_mid_def wf_fighter_def actor_of_def)
  have wf1: "wf_mid (ta_next ?acc1)" by (rule play_wf_mid [OF assms(1,2)])
  have a1: "fs_HP (actor_of a ?acc1) = fs_HP (actor_of a acc)"
    by (rule turn_steps_HP_actor [OF play_steps [OF assms(1)]])
  have o1: "hurts_at_most 36 a acc ?acc1" by (rule play_hurts [OF assms(2)])
  have *: "fs_HP (actor_of b acc) - 36 \<le> fs_HP (actor_of b (play_both rs ctx pt a i j acc))
    \<and> (match_over (play_both rs ctx pt a i j acc)
      \<or> 0 < fs_HP (actor_of b (play_both rs ctx pt a i j acc)))" for b
  proof (cases "match_over ?acc1")
    case True
    with a1 o1 hp [OF wf1] assms(3) [of a] show ?thesis
      by (cases "b = a") (auto simp: play_both_def hurts_at_most_def opponent_eq_iff [symmetric])
  next
    case False
    have wf2: "wf_mid (ta_next ?acc2)" by (rule play_wf_mid [OF False wf1])
    have o2: "fs_HP (actor_of (opponent a) ?acc2) = fs_HP (actor_of (opponent a) ?acc1)"
      by (rule turn_steps_HP_actor [OF play_steps [OF False]])
    have a2: "hurts_at_most 36 (opponent a) ?acc1 ?acc2" by (rule play_hurts [OF wf1])
    from False o1 assms(3) [of "opponent a"] have alive: "0 < fs_HP (actor_of (opponent a) ?acc1)"
      using hp [OF wf1, of "opponent a"] by (simp add: hurts_at_most_def)
    show ?thesis
    proof (cases "b = a")
      case True
      with False a1 a2 hp [OF wf2, of a] assms(3) [of a] show ?thesis
        by (auto simp: play_both_def hurts_at_most_def Let_def)
    next
      case other: False
      then have "b = opponent a" by (simp add: opponent_eq_iff)
      with False o1 o2 alive show ?thesis
        by (auto simp: play_both_def hurts_at_most_def Let_def)
    qed
  qed
  from * show "fs_HP (actor_of b acc) - 36 \<le> fs_HP (actor_of b (play_both rs ctx pt a i j acc))"
    and "match_over (play_both rs ctx pt a i j acc)
      \<or> 0 < fs_HP (actor_of b (play_both rs ctx pt a i j acc))" by blast+
qed

lemma play_both_wf_mid:
  "\<not> match_over acc \<Longrightarrow> wf_mid (ta_next acc) \<Longrightarrow> wf_mid (ta_next (play_both rs ctx pt a i j acc))"
  by (rule play_both_induct [where P = "\<lambda>acc. wf_mid (ta_next acc)"]) (auto intro: turn_step_wf_mid)

lemma play_both_outcome:
  "\<not> match_over acc \<Longrightarrow> outcome_ok (ta_next acc) \<Longrightarrow>
   outcome_ok (ta_next (play_both rs ctx pt a i j acc))"
  by (rule play_both_induct [where P = "\<lambda>acc. outcome_ok (ta_next acc)"]) (auto intro: turn_step_outcome)

lemma play_both_HP_mono:
  "\<not> match_over acc \<Longrightarrow> 0 \<le> fs_HP (actor_of b acc) \<Longrightarrow>
   fs_HP (actor_of b (play_both rs ctx pt a i j acc)) \<le> fs_HP (actor_of b acc)"
  using play_both_induct [where P = "\<lambda>acc'. 0 \<le> fs_HP (actor_of b acc')
    \<and> fs_HP (actor_of b acc') \<le> fs_HP (actor_of b acc)", of acc rs ctx pt a i j]
  by (force dest: turn_step_HP_mono)

text \<open>
  A successful turn, taken apart: the side \<open>a\<close> that acts first with its input \<open>i\<close>, the other
  side's input \<open>j\<close>, the state \<open>acc\<close> before the acts and the state \<open>acc2\<close> after them.
\<close>

definition turn_run ::
  "'r random_source \<Rightarrow> match_state \<Rightarrow> turn_input list \<Rightarrow> 'r \<Rightarrow> turn_result \<Rightarrow> side \<Rightarrow> turn_input
     \<Rightarrow> turn_input \<Rightarrow> (side \<Rightarrow> fighter_turn_context) \<Rightarrow> 'r turn_acc \<Rightarrow> 'r turn_acc \<Rightarrow> bool" where
  "turn_run rs m ins r res a i j ctx acc acc2 \<longleftrightarrow>
     CanonicalizeInputs m ins = Inr [i, j] \<and> \<not> mo_Finished (ms_Outcome m) \<and> players_ok m
     \<and> ti_PlayerID i = fs_PlayerID (fighter_at a m)
     \<and> ti_PlayerID j = fs_PlayerID (fighter_at (opponent a) m)
     \<and> (\<exists>ctxs. begin_turn m [i, j] r = (ctxs, acc) \<and> ctx = context_of ctxs m
          \<and> res = end_turn rs ctxs acc2)
     \<and> acc2 = play_both rs ctx (ms_Turn m) a i j acc"

lemma ResolveTurn_E:
  assumes "ResolveTurn rs m ins r = (Inr res, r')"
  obtains a i j ctx acc acc2 where "turn_run rs m ins r res a i j ctx acc acc2" "r' = ta_rng acc2"
  using assms by (rule ResolveTurn_cases) (auto simp: turn_run_def intro!: that)

lemma turn_run_start:
  assumes run: "turn_run rs m ins r res a i j ctx acc acc2"
  shows "fighter_at b (ta_next acc) = fst (prepareFighterTurn (fighter_at b m))"
    "actor_of b acc = fst (prepareFighterTurn (fighter_at b m))"
    "ms_CombatState (ta_next acc) = ms_CombatState m"
    "ms_Turn (ta_next acc) = ms_Turn m + 1" "ms_Distance (ta_next acc) = ms_Distance m"
    "\<not> match_over acc" "ta_rng acc = r" "ta_rollHash acc = fnv64a_offset"
    "acc2 = play_both rs ctx (ms_Turn m) a i j acc"
  using run by (auto simp: turn_run_def actor_of_def begin_turn_frame match_over_def)

lemma turn_run_identity:
  assumes run: "turn_run rs m ins r res a i j ctx acc acc2"
  shows "same_identity (m\<lparr>ms_Turn := ms_Turn m + 1\<rparr>) (ta_next acc2)"
proof -
  from run obtain ctxs where "begin_turn m [i, j] r = (ctxs, acc)" by (auto simp: turn_run_def)
  from begin_turn_identity [OF this] play_both_identity [OF turn_run_start(6) [OF run]]
  show ?thesis unfolding turn_run_start(9) [OF run] by (rule same_identity_trans)
qed

lemma turn_run_context:
  assumes run: "turn_run rs m ins r res a i j ctx acc acc2"
  shows "stunnedAtTurnStart (ctx b) = (StunnedFor (fs_Effects (fighter_at b m)) > 0)"
    "torsoPenaltyAtTurnStart (ctx b) = (TorsoRegenPenaltyFor (fs_Effects (fighter_at b m)) > 0)"
    "legsPenaltyAtTurnStart (ctx b) = (LegsDodgePenaltyFor (fs_Effects (fighter_at b m)) > 0)"
  using run by (auto simp: turn_run_def begin_turn_context)

lemma turn_run_end:
  assumes run: "turn_run rs m ins r res a i j ctx acc acc2"
  shows "fighter_at b (tr_Next res) =
      recovered (ms_CombatState (ta_next acc2)) (restore_stamina (ctx b) (fighter_at b (ta_next acc2)))"
    "ms_Turn (tr_Next res) = ms_Turn m + 1"
    "ms_Distance (tr_Next res) = ms_Distance m"
    "ms_CombatState (tr_Next res) = ms_CombatState (ta_next acc2)"
    "ms_Outcome (tr_Next res) = ms_Outcome (ta_next acc2)"
    "RollHash (tr_Checksums res) = ta_rollHash acc2"
    "StateHash (tr_Checksums res) = hashMatchState (tr_Next res)"
    "ms_RNGState (tr_Next res) = rs_Snapshot rs (ta_rng acc2)"
proof -
  obtain ctxs where ctxs: "ctx = context_of ctxs m" "res = end_turn rs ctxs acc2"
    using run unfolding turn_run_def by blast
  note frame = end_turn_frame [OF turn_run_identity [OF run], where rs = rs and ctxs = ctxs]
  have "context_of ctxs (m\<lparr>ms_Turn := ms_Turn m + 1\<rparr>) b = ctx b"
    by (simp add: ctxs context_of_def)
  then show "fighter_at b (tr_Next res) = recovered (ms_CombatState (ta_next acc2))
      (restore_stamina (ctx b) (fighter_at b (ta_next acc2)))"
    by (simp add: ctxs(2) frame)
  show "ms_Turn (tr_Next res) = ms_Turn m + 1" "ms_Distance (tr_Next res) = ms_Distance m"
    using turn_run_identity [OF run] by (simp_all add: ctxs(2) frame same_identity_def)
  show "ms_CombatState (tr_Next res) = ms_CombatState (ta_next acc2)"
    "ms_Outcome (tr_Next res) = ms_Outcome (ta_next acc2)"
    "RollHash (tr_Checksums res) = ta_rollHash acc2"
    "StateHash (tr_Checksums res) = hashMatchState (tr_Next res)"
    "ms_RNGState (tr_Next res) = rs_Snapshot rs (ta_rng acc2)"
    by (simp_all only: ctxs(2) frame)
qed

lemma turn_run_wf:
  assumes run: "turn_run rs m ins r res a i j ctx acc acc2" and wf: "wf_match m"
  shows "wf_mid (ta_next acc)" "outcome_ok (ta_next acc)" "0 < fs_HP (actor_of b acc)"
    "wf_mid (ta_next acc2)" "outcome_ok (ta_next acc2)"
    "fs_HP (actor_of b acc) - 36 \<le> fs_HP (actor_of b acc2)"
    "fs_HP (actor_of b acc2) \<le> fs_HP (actor_of b acc)"
    "match_over acc2 \<or> (\<forall>b. 0 < fs_HP (actor_of b acc2))"
proof -
  from run obtain ctxs where beg: "begin_turn m [i, j] r = (ctxs, acc)" by (auto simp: turn_run_def)
  note go = turn_run_start(6) [OF run] and acc2 = turn_run_start(9) [OF run]
  show mid: "wf_mid (ta_next acc)" by (rule begin_turn_wf_mid [OF beg wf])
  show out: "outcome_ok (ta_next acc)"
    using wf by (intro begin_turn_outcome [OF beg]) (simp add: wf_match_def)
  have alive: "0 < fs_HP (actor_of b acc)" for b
    using wf run by (cases b) (simp_all add: turn_run_start(2) [OF run] wf_match_def turn_run_def)
  show "0 < fs_HP (actor_of b acc)" by (rule alive)
  show "wf_mid (ta_next acc2)" unfolding acc2 by (rule play_both_wf_mid [OF go mid])
  show "outcome_ok (ta_next acc2)" unfolding acc2 by (rule play_both_outcome [OF go out])
  show "fs_HP (actor_of b acc) - 36 \<le> fs_HP (actor_of b acc2)"
    unfolding acc2 by (rule play_both_health(1) [OF go mid alive])
  show "fs_HP (actor_of b acc2) \<le> fs_HP (actor_of b acc)"
    unfolding acc2 using alive [of b] by (intro play_both_HP_mono [OF go]) simp
  show "match_over acc2 \<or> (\<forall>b. 0 < fs_HP (actor_of b acc2))"
    unfolding acc2 using play_both_health(2) [OF go mid alive] by blast
qed

lemma turn_keeps_wf:
  assumes "ResolveTurn rs m ins r = (Inr res, r')" and "wf_match m"
  shows "wf_match (tr_Next res)"
proof -
  from assms(1) obtain a i j ctx acc acc2 where run: "turn_run rs m ins r res a i j ctx acc acc2"
    by (rule ResolveTurn_E)
  obtain ctxs where res: "res = end_turn rs ctxs acc2" using run unfolding turn_run_def by blast
  note wf = turn_run_wf [OF run assms(2)]
  show ?thesis
    unfolding res by (rule end_turn_wf [OF wf(4) turn_run_identity [OF run] wf(5,8)])
qed

text \<open>
  C1: A turn keeps every match well-formed: health and stamina in 0..100, momentum in 0..50, the
  status counters in range, the statistics in 1..10; each fighter shows the grip of the match
  unless stunned, and shows the stun exactly while it lasts; a running match has two fighters with
  health left and no outcome, and a finished one names the fighter that knocked the other out or
  that submitted the other from the submission grip.
\<close>

theorem ResolveTurn_wf:
  assumes "ResolveTurn rs m ins r = (Inr res, r')" and "wf_match m"
  shows "wf_match (tr_Next res)"
  using assms by (rule turn_keeps_wf)

lemma ResolveTurn_wf_witness:
  "\<exists>res r'. ResolveTurn det_source demo_match demo_inputs demo_rng = (Inr res, r')
     \<and> wf_match (tr_Next res)"
  using demo_turn ResolveTurn_wf [of det_source demo_match demo_inputs demo_rng] demo_wf by blast

text \<open>
  C19: In one turn a fighter's health never rises and falls by at most 36 points, whatever the
  inputs and the rolls.
\<close>

theorem ResolveTurn_health:
  assumes "ResolveTurn rs m ins r = (Inr res, r')" and "wf_match m"
  shows "fs_HP (fighter_at b m) - 36 \<le> fs_HP (fighter_at b (tr_Next res))
    \<and> fs_HP (fighter_at b (tr_Next res)) \<le> fs_HP (fighter_at b m)"
proof -
  from assms(1) obtain a i j ctx acc acc2 where run: "turn_run rs m ins r res a i j ctx acc acc2"
    by (rule ResolveTurn_E)
  have "fs_HP (actor_of b acc) = fs_HP (fighter_at b m)"
    by (simp add: turn_run_start(2) [OF run])
  with turn_run_wf(6,7) [OF run assms(2), of b] show ?thesis
    by (simp add: turn_run_end(1) [OF run] actor_of_def)
qed

lemma ResolveTurn_health_witness:
  "\<exists>res r'. ResolveTurn det_source demo_match demo_inputs demo_rng = (Inr res, r')
     \<and> 64 \<le> fs_HP (ms_P1 (tr_Next res)) \<and> fs_HP (ms_P1 (tr_Next res)) \<le> 100"
  using demo_turn ResolveTurn_health [of det_source demo_match demo_inputs demo_rng _ _ SideP1] demo_wf
  by fastforce

section \<open>Bookkeeping\<close>

text \<open>
  A turn advances the turn counter by one and changes neither the distance nor the fighters'
  ids, archetypes and statistics; it records the random source's snapshot in the state it returns
  and publishes that state's hash.
\<close>

theorem ResolveTurn_bookkeeping:
  assumes "ResolveTurn rs m ins r = (Inr res, r')"
  shows "ms_Turn (tr_Next res) = ms_Turn m + 1 \<and> ms_Distance (tr_Next res) = ms_Distance m
    \<and> fs_PlayerID (fighter_at b (tr_Next res)) = fs_PlayerID (fighter_at b m)
    \<and> fs_Archetype (fighter_at b (tr_Next res)) = fs_Archetype (fighter_at b m)
    \<and> fs_Stats (fighter_at b (tr_Next res)) = fs_Stats (fighter_at b m)
    \<and> ms_RNGState (tr_Next res) = rs_Snapshot rs r'
    \<and> StateHash (tr_Checksums res) = hashMatchState (tr_Next res)"
proof -
  from assms obtain a i j ctx acc acc2 where run: "turn_run rs m ins r res a i j ctx acc acc2"
    and r': "r' = ta_rng acc2" by (rule ResolveTurn_E)
  from turn_run_identity [OF run] show ?thesis
    by (simp add: turn_run_end [OF run] r' same_identity_def)
qed

lemma ResolveTurn_bookkeeping_witness:
  "\<exists>res r'. ResolveTurn det_source demo_match demo_inputs demo_rng = (Inr res, r')
     \<and> ms_Turn (tr_Next res) = 1 \<and> fs_PlayerID (ms_P2 (tr_Next res)) = ''bo''"
  using demo_turn ResolveTurn_bookkeeping [of det_source demo_match demo_inputs demo_rng _ _ SideP2]
  by fastforce

text \<open>
  C18: The order in which a turn's inputs arrive does not matter: any two arrivals of the same
  inputs resolve to the same result, the same events and the same draws.
\<close>

theorem ResolveTurn_arrival_order:
  assumes "mset ins = mset ins'" and "players_ok m" and "inputs_ok m ins"
  shows "ResolveTurn rs m ins r = ResolveTurn rs m ins' r"
proof -
  from assms(2,3) obtain ord where ok: "CanonicalizeInputs m ins = Inr ord"
    using CanonicalizeInputs_ok_iff by blast
  with CanonicalizeInputs_perm [OF assms(1) this] show ?thesis by (simp add: ResolveTurn_def)
qed

lemma ResolveTurn_arrival_order_witness:
  "ResolveTurn det_source demo_match demo_inputs demo_rng
     = ResolveTurn det_source demo_match (rev demo_inputs) demo_rng"
  by (rule ResolveTurn_arrival_order) (simp_all add: demo_ok)

section \<open>Randomness\<close>

text \<open>
  C4: A turn draws at most six numbers, all from 10000 values; it hands on the source advanced by
  exactly these draws, and its roll hash is the FNV-1a hash of exactly these numbers, in the order
  they were drawn, each as eight little-endian bytes.
\<close>

theorem ResolveTurn_rolls:
  assumes "ResolveTurn rs m ins r = (Inr res, r')"
  shows "\<exists>k vs. k \<le> 6 \<and> rolls rs k r = (vs, r')
    \<and> RollHash (tr_Checksums res) = fnv64a_write fnv64a_offset
         (concat (map (\<lambda>v. put_uint64_le (word_of_int v)) vs))"
proof -
  from assms obtain a i j ctx acc acc2 where run: "turn_run rs m ins r res a i j ctx acc acc2"
    and r': "r' = ta_rng acc2" by (rule ResolveTurn_E)
  have "rolled rs 6 acc acc2"
    unfolding turn_run_start(9) [OF run] by (rule play_both_rolled)
  then show ?thesis
    unfolding rolled_def turn_run_end(6) [OF run] turn_run_start(7,8) [OF run] r' hash_rolls_bytes
    by blast
qed

lemma ResolveTurn_rolls_witness:
  "\<exists>res r' k vs. ResolveTurn det_source demo_match demo_inputs demo_rng = (Inr res, r')
     \<and> k \<le> 6 \<and> rolls det_source k demo_rng = (vs, r')"
  using demo_turn ResolveTurn_rolls [of det_source demo_match demo_inputs demo_rng] by blast

section \<open>Stamina\<close>

definition chosen_action :: "match_state \<Rightarrow> turn_input list \<Rightarrow> side \<Rightarrow> action" where
  "chosen_action m ins b = (case find (\<lambda>i. ti_PlayerID i = fs_PlayerID (fighter_at b m)) ins of
     None \<Rightarrow> ActionNone | Some i \<Rightarrow> normalizeAction (ti_Action i))"

lemma canonical_action:
  assumes ok: "CanonicalizeInputs m ins = Inr ord" and i: "i \<in> set ord"
    and id: "ti_PlayerID i = fs_PlayerID (fighter_at b m)"
  shows "normalizeAction (ti_Action i) = chosen_action m ins b"
proof -
  from ok obtain bp where byp: "inputs_by_player Map.empty ins = Inr bp"
    and ord: "ord = map (canonical_input bp) (sort [fs_PlayerID (ms_P1 m), fs_PlayerID (ms_P2 m)])"
    by (rule CanonicalizeInputs_InrE)
  have cid: "ti_PlayerID (canonical_input bp pid) = pid" for pid
    using inputs_by_player_eq [OF byp] by (intro canonical_input_id) blast
  from i ord obtain pid where "i = canonical_input bp pid" by auto
  with cid id have i_eq: "i = canonical_input bp (fs_PlayerID (fighter_at b m))" by simp
  have "bp pid = find (\<lambda>i. ti_PlayerID i = pid) ins" for pid
    using inputs_by_player_Inr [OF byp] by (auto split: option.splits)
  then show ?thesis
    by (auto simp: i_eq canonical_input_def chosen_action_def Let_def split: option.splits)
qed

lemma turn_run_actions:
  assumes run: "turn_run rs m ins r res a i j ctx acc acc2"
  shows "normalizeAction (ti_Action i) = chosen_action m ins a"
    "normalizeAction (ti_Action j) = chosen_action m ins (opponent a)"
  using run canonical_action [of m ins "[i, j]"] by (auto simp: turn_run_def)

lemma play_both_stamina:
  assumes acc1: "acc1 = play rs (ctx a) pt a i acc"
  shows "fs_Stamina (actor_of a (play_both rs ctx pt a i j acc)) = fs_Stamina (actor_of a acc)
      - act_cost a (normalizeAction (ti_Action i)) (ctx a) acc"
    and "fs_Stamina (actor_of (opponent a) (play_both rs ctx pt a i j acc)) =
      fs_Stamina (actor_of (opponent a) acc) - (if match_over acc1 then 0
        else act_cost (opponent a) (normalizeAction (ti_Action j)) (ctx (opponent a)) acc1)"
  by (simp_all add: play_both_def Let_def play_def act_stamina acc1)

text \<open>What the start of the turn says a fighter's action costs and how much it will recover.\<close>

definition own_cost :: "match_state \<Rightarrow> turn_input list \<Rightarrow> side \<Rightarrow> int" where
  "own_cost m ins b =
     ActionStaminaCost (chosen_action m ins b) (Endurance (fs_Stats (fighter_at b m)))"

definition own_regen :: "match_state \<Rightarrow> side \<Rightarrow> int" where
  "own_regen m b = (let full = RegenForEndurance (Endurance (fs_Stats (fighter_at b m)))
     in if 0 < TorsoRegenPenaltyFor (fs_Effects (fighter_at b m)) then (full * 80) sdiv 100 else full)"

definition cannot_act :: "match_state \<Rightarrow> turn_input list \<Rightarrow> side \<Rightarrow> bool" where
  "cannot_act m ins b \<longleftrightarrow> 0 < StunnedFor (fs_Effects (fighter_at b m))
     \<or> fs_Stamina (fighter_at b m) < own_cost m ins b"

text \<open>
  Stamina in a turn: the fighter pays exactly the cost of its own action, or nothing when it is
  stunned or cannot afford it (or when the match ended before its turn to act), and then recovers
  by the regeneration of its endurance, four fifths of it under the torso penalty, up to 100.
\<close>

theorem ResolveTurn_stamina:
  assumes "ResolveTurn rs m ins r = (Inr res, r')"
  shows "\<exists>spent. fs_Stamina (fighter_at b (tr_Next res)) =
      ClampInt (fs_Stamina (fighter_at b m) - spent + own_regen m b) 0 100
    \<and> (spent = (if cannot_act m ins b then 0 else own_cost m ins b)
        \<or> spent = 0 \<and> mo_Finished (ms_Outcome (tr_Next res)))"
proof -
  from assms(1) obtain a i j ctx acc acc2 where run: "turn_run rs m ins r res a i j ctx acc acc2"
    by (rule ResolveTurn_E)
  note start = turn_run_start [OF run] and fin = turn_run_end [OF run]
  define acc1 where "acc1 = play rs (ctx a) (ms_Turn m) a i acc"
  have act1: "act_cost c x (ctx c) acc' = (let k = ActionStaminaCost x (Endurance (fs_Stats (fighter_at c m)))
      in if 0 < StunnedFor (fs_Effects (fighter_at c m)) \<or> fs_Stamina (fighter_at c m) < k then 0 else k)"
    if "fs_Stats (actor_of c acc') = fs_Stats (fighter_at c m)"
      "fs_Stamina (actor_of c acc') = fs_Stamina (fighter_at c m)" for c x and acc'
    using that by (simp add: act_cost_def turn_run_context [OF run] Let_def)
  have id1: "same_identity (ta_next acc) (ta_next acc1)"
    unfolding acc1_def by (rule play_identity [OF start(6)])
  have st1: "fs_Stamina (actor_of (opponent a) acc1) = fs_Stamina (fighter_at (opponent a) m)"
    by (simp add: acc1_def play_def act_stamina start(2))
  have "fs_Stats (actor_of (opponent a) acc1) = fs_Stats (fighter_at (opponent a) m)"
    using same_identityD(4) [OF id1] by (simp add: actor_of_def start(1))
  note oppo = act1 [OF this st1]
  have own: "act_cost a x (ctx a) acc = (let k = ActionStaminaCost x (Endurance (fs_Stats (fighter_at a m)))
      in if 0 < StunnedFor (fs_Effects (fighter_at a m)) \<or> fs_Stamina (fighter_at a m) < k then 0 else k)" for x
    by (rule act1) (simp_all add: start(2))
  have over: "match_over acc1 \<Longrightarrow> mo_Finished (ms_Outcome (tr_Next res))"
    by (simp add: fin(5) start(9) play_both_def Let_def acc1_def match_over_def)
  have final: "fs_Stamina (fighter_at b (tr_Next res)) =
      ClampInt (fs_Stamina (actor_of b acc2) + own_regen m b) 0 100"
    using same_identityD(4) [OF turn_run_identity [OF run]]
    by (simp add: fin(1) actor_of_def own_regen_def regen_amount_def turn_run_context [OF run] Let_def)
  note stamina = play_both_stamina [where ctx = ctx and j = j, OF acc1_def, folded start(9)]
  show ?thesis
  proof (cases "b = a")
    case True
    with final stamina(1) show ?thesis
      by (intro exI [of _ "if cannot_act m ins b then 0 else own_cost m ins b"])
        (simp add: own start(2) cannot_act_def own_cost_def turn_run_actions [OF run] Let_def)
  next
    case False
    then have b: "b = opponent a" by (simp add: opponent_eq_iff)
    show ?thesis
    proof (cases "match_over acc1")
      case True
      with final stamina(2) over show ?thesis
        by (intro exI [of _ 0]) (simp add: b start(2))
    next
      case False
      with final stamina(2) show ?thesis
        by (intro exI [of _ "if cannot_act m ins b then 0 else own_cost m ins b"])
          (simp add: b oppo start(2) cannot_act_def own_cost_def turn_run_actions [OF run] Let_def)
    qed
  qed
qed

lemma ResolveTurn_stamina_witness:
  "\<exists>res r' spent. ResolveTurn det_source demo_match demo_inputs demo_rng = (Inr res, r')
     \<and> fs_Stamina (ms_P1 (tr_Next res)) = ClampInt (100 - spent + 11) 0 100 \<and> (spent = 10 \<or> spent = 0)"
proof -
  obtain res r' where run: "ResolveTurn det_source demo_match demo_inputs demo_rng = (Inr res, r')"
    using demo_turn by blast
  from ResolveTurn_stamina [OF this, of SideP1] run show ?thesis
    by (force simp: own_regen_def cannot_act_def own_cost_def no_effects_def chosen_action_def demo_inputs_def ActionStaminaCost_def
        RegenForEndurance_def ClampInt_def sdiv_nonneg_eq Let_def)
qed

end
