(* ===== verification/TurnEffects.thy ===== *)
theory TurnEffects
  imports TurnTheorems
begin

text \<open>
  Status effects, the grip of the match and the special cases of a turn: what a stunned fighter
  cannot do, how long a stun and a zone penalty last, how far the grip moves, and two places where
  the resolver does not do what its documentation says (the combo of the first turn and the leg
  penalty of a dodging defender).
\<close>

section \<open>One act\<close>

definition is_hit :: "action \<Rightarrow> bool" where
  "is_hit x \<longleftrightarrow> x = ActionStrike \<or> x = ActionGrapple \<or> x = ActionCounter"

fun zone_penalty :: "zone \<Rightarrow> status_effects \<Rightarrow> status_effects" where
  "zone_penalty ZoneTorso e = e\<lparr>TorsoRegenPenaltyFor := max (TorsoRegenPenaltyFor e) 2\<rparr>"
| "zone_penalty ZoneLegs e = e\<lparr>LegsDodgePenaltyFor := max (LegsDodgePenaltyFor e) 2\<rparr>"
| "zone_penalty z e = e"

definition stun_penalty :: "status_effects \<Rightarrow> status_effects" where
  "stun_penalty e = e\<lparr>StunnedFor := max (StunnedFor e) 1\<rparr>"

definition struck :: "zone \<Rightarrow> status_effects \<Rightarrow> status_effects \<Rightarrow> bool" where
  "struck z e e' \<longleftrightarrow> e' = zone_penalty z e \<or> e' = stun_penalty (zone_penalty z e)"

lemma effects_zone_other [simp]:
  "b \<noteq> d \<Longrightarrow> fs_Effects (actor_of b (applyZoneEffects d z acc)) = fs_Effects (actor_of b acc)"
  by (cases z) simp_all

lemma turn_step_effects_actor:
  "turn_step rs a acc acc' \<Longrightarrow> fs_Effects (actor_of a acc') = fs_Effects (actor_of a acc)"
proof (induction rule: turn_step.cases)
  case roll
  then show ?case by (simp add: actor_of_roll)
next
  case zone_effect
  then show ?case by simp
qed (simp_all add: gain_momentum_def)

lemma turn_steps_effects_actor:
  "turn_steps rs a acc acc' \<Longrightarrow> fs_Effects (actor_of a acc') = fs_Effects (actor_of a acc)"
  by (induction rule: rtranclp_induct) (auto dest: turn_step_effects_actor)

lemma turn_step_winner:
  "turn_step rs a acc acc' \<Longrightarrow> ms_Outcome (ta_next acc') = ms_Outcome (ta_next acc)
     \<or> mo_WinnerID (ms_Outcome (ta_next acc')) = fs_PlayerID (actor_of a acc)"
proof (induction rule: turn_step.cases)
  case roll
  then show ?case by (simp add: roll_bps_frame)
qed (simp_all add: gain_momentum_def)

lemma turn_steps_winner:
  "turn_steps rs a acc acc' \<Longrightarrow> ms_Outcome (ta_next acc') = ms_Outcome (ta_next acc)
     \<or> mo_WinnerID (ms_Outcome (ta_next acc')) = fs_PlayerID (actor_of a acc)"
proof (induction rule: rtranclp_induct)
  case (step x y)
  have "fs_PlayerID (actor_of a x) = fs_PlayerID (actor_of a acc)"
    using same_identityD(1) [OF turn_steps_identity [OF step.hyps(1)]] by (simp add: actor_of_def)
  with step.IH turn_step_winner [OF step.hyps(2)] show ?case by auto
qed simp

subsection \<open>Effects on the opponent\<close>

lemma effects_frame [frame_simps]:
  "fs_Effects (actor_of b (gain_momentum a n acc)) = fs_Effects (actor_of b acc)"
  "fs_Effects (actor_of b (apply_damage a x z n acc)) = fs_Effects (actor_of b acc)"
  "fs_Effects (actor_of b (change_grip a acc)) = fs_Effects (actor_of b acc)"
  "fs_Effects (actor_of b (resolve_break a acc)) = fs_Effects (actor_of b acc)"
  by (simp_all add: gain_momentum_def apply_damage_def change_grip_def resolve_break_def Let_def)

lemma effects_zone:
  "fs_Effects (actor_of d (applyZoneEffects d z acc)) = zone_penalty z (fs_Effects (actor_of d acc))"
  by (cases z) simp_all

lemma effects_stun:
  "fs_Effects (actor_of (opponent a) (apply_stun rs a z acc)) \<in>
     {fs_Effects (actor_of (opponent a) acc), stun_penalty (fs_Effects (actor_of (opponent a) acc))}"
  by (cases "roll_bps rs acc") (simp add: apply_stun_def Let_def actor_of_roll stun_penalty_def)

lemma effects_hit:
  "struck z (fs_Effects (actor_of (opponent a) acc))
     (fs_Effects (actor_of (opponent a) (resolve_hit rs a x z mb combo acc)))"
  using effects_stun [of a rs z "applyZoneEffects (opponent a) z (apply_damage a x z
    (DamageFinal (BaseDamage x (fs_Stats (actor_of a acc))) mb combo) acc)"]
  by (auto simp: resolve_hit_def Let_def applyGrappleTransition_def effects_zone frame_simps struck_def)

definition strikes :: "action \<Rightarrow> zone \<Rightarrow> side \<Rightarrow> 'r turn_acc \<Rightarrow> 'r turn_acc \<Rightarrow> bool" where
  "strikes x z a acc acc' \<longleftrightarrow>
     fs_Effects (actor_of (opponent a) acc') = fs_Effects (actor_of (opponent a) acc)
     \<or> is_hit x \<and> struck z (fs_Effects (actor_of (opponent a) acc))
         (fs_Effects (actor_of (opponent a) acc'))"

lemma strikes_same:
  "fs_Effects (actor_of (opponent a) acc') = fs_Effects (actor_of (opponent a) acc) \<Longrightarrow>
   strikes x z a acc acc'"
  by (simp add: strikes_def)

lemma strikes_after:
  "strikes x z a acc' acc'' \<Longrightarrow>
   fs_Effects (actor_of (opponent a) acc') = fs_Effects (actor_of (opponent a) acc) \<Longrightarrow>
   strikes x z a acc acc''"
  by (simp add: strikes_def)

lemma strikes_effect: "strikes x z a acc (resolve_effect rs a x z mb combo acc)"
  by (cases x) (simp_all add: strikes_def is_hit_def frame_simps effects_hit)

lemma strikes_success: "strikes x z a acc (resolve_success rs a x z pt acc)"
  unfolding resolve_success_def Let_def
  by (rule strikes_after [OF strikes_effect]) (simp add: frame_simps)

lemma strikes_attempt: "strikes x z a acc (resolve_attempt rs a x z ctx pt acc)"
proof -
  obtain v acc1 where roll: "roll_bps rs acc = (v, acc1)" by (cases "roll_bps rs acc")
  show ?thesis
    unfolding resolve_attempt_def
    by (auto simp: roll Let_def actor_of_roll [OF roll] intro!: strikes_same
        strikes_after [OF strikes_success])
qed

lemma strikes_act: "strikes x z a acc (act rs a x z ctx pt acc)"
  by (auto simp: act_def Let_def skip_stunned_def skip_exhausted_def
      intro!: strikes_same strikes_after [OF strikes_attempt])

lemma act_stunned:
  "stunnedAtTurnStart ctx \<Longrightarrow> ta_next (act rs a x z ctx pt acc) =
     upd_fighter a (\<lambda>f. f\<lparr>fs_LastAction := ActionNone, fs_LastActionSuccess := False\<rparr>) (ta_next acc)"
  by (cases a) (simp_all add: act_def skip_stunned_def Let_def)

section \<open>Both acts\<close>

lemma play_both_cases:
  assumes "\<not> match_over acc"
  obtains (first) "play_both rs ctx pt a i j acc = play rs (ctx a) pt a i acc"
      "match_over (play rs (ctx a) pt a i acc)"
    | (both) acc1 where "acc1 = play rs (ctx a) pt a i acc" "\<not> match_over acc1"
      "play_both rs ctx pt a i j acc = play rs (ctx (opponent a)) pt (opponent a) j acc1"
  using that by (cases "match_over (play rs (ctx a) pt a i acc)") (auto simp: play_both_def)

text \<open>The effects of a fighter at the end of both acts come from the other fighter's act.\<close>

lemma play_both_effects:
  assumes "\<not> match_over acc"
  shows "fs_Effects (actor_of b (play_both rs ctx pt a i j acc)) = fs_Effects (actor_of b acc)
    \<or> (let inp = (if b = a then j else i) in is_hit (normalizeAction (ti_Action inp))
         \<and> struck (normalizeZone (ti_Target inp)) (fs_Effects (actor_of b acc))
             (fs_Effects (actor_of b (play_both rs ctx pt a i j acc))))"
  using assms
proof (cases rule: play_both_cases [where rs = rs and ctx = ctx and pt = pt and a = a and i = i and j = j])
  case first
  show ?thesis
  proof (cases "b = a")
    case True
    then show ?thesis
      using turn_steps_effects_actor [OF play_steps [OF assms]] by (simp add: first)
  next
    case False
    then have b: "b = opponent a" by (simp add: opponent_eq_iff)
    show ?thesis
      using strikes_act [of _ _ a acc] unfolding first by (simp add: b play_def strikes_def)
  qed
next
  case (both acc1)
  show ?thesis
  proof (cases "b = a")
    case True
    have own: "fs_Effects (actor_of a acc1) = fs_Effects (actor_of a acc)"
      unfolding both(1) by (rule turn_steps_effects_actor [OF play_steps [OF assms]])
    show ?thesis
      using strikes_act [of _ _ "opponent a" acc1] own unfolding both(3)
      by (simp add: True play_def strikes_def)
  next
    case False
    then have b: "b = opponent a" by (simp add: opponent_eq_iff)
    have own: "fs_Effects (actor_of (opponent a) (play rs (ctx (opponent a)) pt (opponent a) j acc1)) =
        fs_Effects (actor_of (opponent a) acc1)"
      by (rule turn_steps_effects_actor [OF play_steps [OF both(2)]])
    show ?thesis
      using strikes_act [of _ _ a acc] own unfolding both(3)
      by (simp add: b both(1) play_def strikes_def)
  qed
qed

definition chosen_target :: "match_state \<Rightarrow> turn_input list \<Rightarrow> side \<Rightarrow> zone" where
  "chosen_target m ins b = (case find (\<lambda>i. ti_PlayerID i = fs_PlayerID (fighter_at b m)) ins of
     None \<Rightarrow> ZoneTorso | Some i \<Rightarrow> normalizeZone (ti_Target i))"

lemma canonical_target:
  assumes ok: "CanonicalizeInputs m ins = Inr ord" and i: "i \<in> set ord"
    and id: "ti_PlayerID i = fs_PlayerID (fighter_at b m)"
  shows "normalizeZone (ti_Target i) = chosen_target m ins b"
proof -
  from ok obtain bp where byp: "inputs_by_player Map.empty ins = Inr bp"
    and ord: "ord = map (canonical_input bp) (sort [fs_PlayerID (ms_P1 m), fs_PlayerID (ms_P2 m)])"
    by (rule CanonicalizeInputs_InrE)
  have cid: "ti_PlayerID (canonical_input bp pid) = pid" for pid
    using inputs_by_player_eq [OF byp] by (intro canonical_input_id) blast
  from i ord obtain pid where "i = canonical_input bp pid" by auto
  with cid id have i_eq: "i = canonical_input bp (fs_PlayerID (fighter_at b m))" by simp
  have "bp pid = find (\<lambda>i. ti_PlayerID i = pid) ins" for pid
    using inputs_by_player_Inr [OF byp] by (auto split: option.splits)
  moreover have "normalizeZone z = ZoneTorso"
    if "z \<noteq> ZoneHead" "z \<noteq> ZoneTorso" "z \<noteq> ZoneLegs" for z
    using that by (cases z) simp_all
  ultimately show ?thesis
    by (auto simp: i_eq canonical_input_def chosen_target_def Let_def split: option.splits)
qed

lemma turn_run_targets:
  assumes run: "turn_run rs m ins r res a i j ctx acc acc2"
  shows "normalizeZone (ti_Target i) = chosen_target m ins a"
    "normalizeZone (ti_Target j) = chosen_target m ins (opponent a)"
  using run canonical_target [of m ins "[i, j]"] by (auto simp: turn_run_def)

definition tick_effects :: "status_effects \<Rightarrow> status_effects" where
  "tick_effects e = \<lparr>StunnedFor = tick (StunnedFor e),
     TorsoRegenPenaltyFor = tick (TorsoRegenPenaltyFor e),
     LegsDodgePenaltyFor = tick (LegsDodgePenaltyFor e)\<rparr>"

lemma prepareFighterTurn_tick: "fs_Effects (fst (prepareFighterTurn f)) = tick_effects (fs_Effects f)"
  by (simp add: tick_effects_def)

section \<open>Status effects\<close>

text \<open>
  C28: Every status counter loses one at the start of a turn, and the only thing that can raise a
  counter is being struck: if the other fighter's action of the turn is not a strike, a grapple or
  a counter, the counters just run down (so a stun, which lasts one turn, is gone and the fighter
  again shows the grip of the match); if it is, the target zone's penalty may be renewed to two
  turns and a stun of one turn added, and nothing else.
\<close>

theorem ResolveTurn_status:
  assumes "ResolveTurn rs m ins r = (Inr res, r')" and "wf_match m"
  shows "(fs_Effects (fighter_at b (tr_Next res)) = tick_effects (fs_Effects (fighter_at b m))
      \<and> fs_State (fighter_at b (tr_Next res)) = ms_CombatState (tr_Next res))
    \<or> (is_hit (chosen_action m ins (opponent b))
      \<and> struck (chosen_target m ins (opponent b)) (tick_effects (fs_Effects (fighter_at b m)))
          (fs_Effects (fighter_at b (tr_Next res))))"
proof -
  from assms(1) obtain a i j ctx acc acc2 where run: "turn_run rs m ins r res a i j ctx acc acc2"
    by (rule ResolveTurn_E)
  have eff: "fs_Effects (fighter_at b (tr_Next res)) = fs_Effects (actor_of b acc2)" for b
    by (simp add: turn_run_end(1) [OF run] actor_of_def)
  have start: "fs_Effects (actor_of b acc) = tick_effects (fs_Effects (fighter_at b m))" for b
    by (simp only: turn_run_start(2) [OF run] prepareFighterTurn_tick)
  from turn_keeps_wf [OF assms]
  have settled: "settled (ms_CombatState (tr_Next res)) (fighter_at b (tr_Next res))"
    by (cases b) (simp_all add: wf_match_def)
  have "wf_effects (fs_Effects (fighter_at b m))"
    using assms(2) by (cases b) (simp_all add: wf_match_def wf_fighter_def)
  then have "StunnedFor (tick_effects (fs_Effects (fighter_at b m))) = 0"
    by (auto simp: wf_effects_def tick_effects_def tick_def)
  with settled have shown: "fs_Effects (fighter_at b (tr_Next res)) = tick_effects (fs_Effects (fighter_at b m))
      \<Longrightarrow> fs_State (fighter_at b (tr_Next res)) = ms_CombatState (tr_Next res)"
    by (simp add: settled_def)
  have inp: "normalizeAction (ti_Action (if b = a then j else i)) = chosen_action m ins (opponent b)"
    "normalizeZone (ti_Target (if b = a then j else i)) = chosen_target m ins (opponent b)"
    using turn_run_actions [OF run] turn_run_targets [OF run] opponent_eq_iff [of b a] by auto
  from play_both_effects [OF turn_run_start(6) [OF run], where b = b and a = a and i = i and j = j
      and rs = rs and ctx = ctx and pt = "ms_Turn m"]
  show ?thesis
    unfolding Let_def inp turn_run_start(9) [OF run, symmetric] start eff [symmetric]
    using shown by blast
qed

lemma ResolveTurn_status_witness:
  "\<exists>res r'. ResolveTurn det_source demo_match demo_inputs demo_rng = (Inr res, r')
     \<and> TorsoRegenPenaltyFor (fs_Effects (ms_P2 (tr_Next res))) = 0
     \<and> LegsDodgePenaltyFor (fs_Effects (ms_P2 (tr_Next res))) \<in> {0, 2}"
proof -
  obtain res r' where run: "ResolveTurn det_source demo_match demo_inputs demo_rng = (Inr res, r')"
    using demo_turn by blast
  have "chosen_target demo_match demo_inputs SideP1 = ZoneLegs"
    by (simp add: chosen_target_def demo_inputs_def)
  with ResolveTurn_status [OF run demo_wf, of SideP2] run show ?thesis
    by (auto simp: struck_def tick_effects_def tick_def no_effects_def stun_penalty_def)
qed

text \<open>
  C32: A fighter stunned at the start of a turn does nothing in it: the other fighter keeps its
  health and its status, and if the match ends in this turn, the stunned fighter has not won it.
\<close>

theorem stunned_fighter_is_harmless:
  assumes "ResolveTurn rs m ins r = (Inr res, r')" and "wf_match m"
    and "0 < StunnedFor (fs_Effects (fighter_at b m))"
  shows "fs_HP (fighter_at (opponent b) (tr_Next res)) = fs_HP (fighter_at (opponent b) m)
    \<and> fs_Effects (fighter_at (opponent b) (tr_Next res)) =
        tick_effects (fs_Effects (fighter_at (opponent b) m))
    \<and> (mo_Finished (ms_Outcome (tr_Next res)) \<longrightarrow>
        mo_WinnerID (ms_Outcome (tr_Next res)) = fs_PlayerID (fighter_at (opponent b) m))"
proof -
  from assms(1) obtain a i j ctx acc acc2 where run: "turn_run rs m ins r res a i j ctx acc acc2"
    by (rule ResolveTurn_E)
  note start = turn_run_start [OF run] and fin = turn_run_end [OF run]
  define acc1 where "acc1 = play rs (ctx a) (ms_Turn m) a i acc"
  let ?o = "opponent b"
  define kept where "kept x y \<longleftrightarrow> fs_HP (actor_of ?o y) = fs_HP (actor_of ?o x)
      \<and> fs_Effects (actor_of ?o y) = fs_Effects (actor_of ?o x)
      \<and> fs_PlayerID (actor_of ?o y) = fs_PlayerID (actor_of ?o x)
      \<and> (ms_Outcome (ta_next y) = ms_Outcome (ta_next x)
          \<or> mo_WinnerID (ms_Outcome (ta_next y)) = fs_PlayerID (actor_of ?o x))"
    for x y :: "'a turn_acc"
  have stunned: "kept x (play rs (ctx b) pt b inp x)" for x pt inp
    using assms(3)
    by (simp add: kept_def play_def actor_of_def act_stunned turn_run_context [OF run])
  have own: "kept x (play rs c pt ?o inp x)" if "\<not> match_over x" for x pt inp c
    using turn_steps_HP_actor [OF play_steps [OF that]] turn_steps_winner [OF play_steps [OF that]]
      turn_steps_effects_actor [OF play_steps [OF that]]
      same_identityD(1) [OF play_identity [OF that]]
    by (simp add: kept_def actor_of_def)
  have trans: "kept x z" if "kept x y" "kept y z" for x y z
    using that by (auto simp: kept_def)
  have 1: "kept acc acc1"
    unfolding acc1_def using stunned own [OF start(6)] by (cases "b = a") (auto simp: opponent_eq_iff [symmetric] dest: sym)
  have 2: "kept acc1 (play rs (ctx (opponent a)) (ms_Turn m) (opponent a) j acc1)" if "\<not> match_over acc1"
    using stunned own [OF that] by (cases "b = a") (auto simp: opponent_eq_iff [symmetric] dest: sym)
  have "kept acc acc2"
    using 1 trans [OF 1 2] unfolding start(9) play_both_def acc1_def [symmetric] Let_def by simp
  moreover have "\<not> mo_Finished (ms_Outcome (ta_next acc))"
    using start(6) by (simp add: match_over_def)
  ultimately show ?thesis
    unfolding fin(1) fin(5) kept_def
    by (auto simp: actor_of_def start(1) prepareFighterTurn_tick simp del: prepareFighterTurn_effects)
qed

definition stunned_demo :: match_state where
  "stunned_demo = demo_match\<lparr>ms_P1 := (demo_fighter ''ana'' ArchetypePowerhouse)
     \<lparr>fs_State := StateStunned, fs_Effects := no_effects\<lparr>StunnedFor := 1\<rparr>\<rparr>\<rparr>"

lemma stunned_fighter_is_harmless_witness:
  "\<exists>res r'. ResolveTurn det_source stunned_demo demo_inputs demo_rng = (Inr res, r')
     \<and> fs_HP (ms_P2 (tr_Next res)) = 100"
proof -
  have ok: "\<not> mo_Finished (ms_Outcome stunned_demo)" "players_ok stunned_demo"
    "inputs_ok stunned_demo demo_inputs"
    by (simp_all add: stunned_demo_def no_outcome_def players_ok_def inputs_ok_def player_ids_def
        demo_inputs_def)
  then obtain res r' where run: "ResolveTurn det_source stunned_demo demo_inputs demo_rng = (Inr res, r')"
    using ResolveTurn_ok_iff [of det_source stunned_demo demo_inputs demo_rng] by auto
  have "wf_match stunned_demo"
    by (simp add: stunned_demo_def wf_match_def wf_fighter_def wf_stats_def wf_effects_def
        settled_def no_effects_def outcome_ok_def no_outcome_def)
  from stunned_fighter_is_harmless [OF run this, of SideP1] run show ?thesis
    by (auto simp: stunned_demo_def no_effects_def)
qed

end
