(* ===== verification/TurnGrip.thy ===== *)
theory TurnGrip
  imports TurnEffects
begin

text \<open>
  The grip of the match and the landed hit: which states one turn can reach from which, what a
  successful strike, grapple or counter does exactly, and two places where the resolver does not
  do what its documentation says (the combo of the first turn, the leg penalty of a dodging
  defender).
\<close>

section \<open>One act and the grip\<close>

definition grip_moves :: "action \<Rightarrow> combat_state \<Rightarrow> combat_state set" where
  "grip_moves x s = (if x = ActionGrapple then {s, next_grip s}
     else if x = ActionBreak then {s, StateNeutral} else {s})"

definition regrips :: "action \<Rightarrow> 'r turn_acc \<Rightarrow> 'r turn_acc \<Rightarrow> bool" where
  "regrips x acc acc' \<longleftrightarrow> ms_CombatState (ta_next acc') \<in> grip_moves x (ms_CombatState (ta_next acc))"

lemma grip_moves_self [simp]: "s \<in> grip_moves x s"
  by (simp add: grip_moves_def)

lemma regrips_same: "ms_CombatState (ta_next acc') = ms_CombatState (ta_next acc) \<Longrightarrow> regrips x acc acc'"
  by (simp add: regrips_def)

lemma regrips_after:
  "regrips x acc' acc'' \<Longrightarrow> ms_CombatState (ta_next acc') = ms_CombatState (ta_next acc) \<Longrightarrow>
   regrips x acc acc''"
  by (simp add: regrips_def)

lemma grip_frame [frame_simps]:
  "ms_CombatState (ta_next (gain_momentum a n acc)) = ms_CombatState (ta_next acc)"
  "ms_CombatState (ta_next (apply_damage a x z n acc)) = ms_CombatState (ta_next acc)"
  "ms_CombatState (ta_next (check_ko a acc)) = ms_CombatState (ta_next acc)"
  "ms_CombatState (ta_next (change_grip a acc)) = next_grip (ms_CombatState (ta_next acc))"
  "ms_CombatState (ta_next (resolve_break a acc)) = StateNeutral"
  by (simp_all add: gain_momentum_def apply_damage_def check_ko_def change_grip_def
      resolve_break_def Let_def)

lemma grip_stun [frame_simps]:
  "ms_CombatState (ta_next (apply_stun rs a z acc)) = ms_CombatState (ta_next acc)"
  by (cases "roll_bps rs acc") (simp add: apply_stun_def Let_def roll_bps_frame)

lemma grip_submission [frame_simps]:
  "ms_CombatState (ta_next (attempt_submission rs a acc)) = ms_CombatState (ta_next acc)"
  by (cases "roll_bps rs acc") (simp add: attempt_submission_def Let_def roll_bps_frame)

lemma regrips_effect: "regrips x acc (resolve_effect rs a x z mb combo acc)"
  by (cases x) (simp_all add: regrips_def grip_moves_def resolve_hit_def applyGrappleTransition_def
      Let_def frame_simps)

lemma regrips_success: "regrips x acc (resolve_success rs a x z pt acc)"
  unfolding resolve_success_def Let_def
  by (rule regrips_after [OF regrips_effect]) (simp add: frame_simps)

lemma regrips_attempt: "regrips x acc (resolve_attempt rs a x z ctx pt acc)"
proof -
  obtain v acc1 where roll: "roll_bps rs acc = (v, acc1)" by (cases "roll_bps rs acc")
  show ?thesis
    unfolding resolve_attempt_def
    by (auto simp: roll Let_def roll_bps_frame [OF roll] intro!: regrips_same
        regrips_after [OF regrips_success])
qed

lemma regrips_act: "regrips x acc (act rs a x z ctx pt acc)"
  by (auto simp: act_def Let_def skip_stunned_def skip_exhausted_def
      intro!: regrips_same regrips_after [OF regrips_attempt])

section \<open>One turn and the grip\<close>

text \<open>
  C31: In one turn the grip of the match makes at most one move per fighter, in the order in which
  they act: a grapple may take it one rung up the ladder Neutral, Clinch, Ground, Dominant,
  SubmissionAttempt, a break may take it back to Neutral, and no other action moves it.
\<close>

theorem ResolveTurn_grip:
  assumes "ResolveTurn rs m ins r = (Inr res, r')"
  shows "\<exists>a. ms_CombatState (tr_Next res) \<in>
    (\<Union>s \<in> grip_moves (chosen_action m ins a) (ms_CombatState m).
       grip_moves (chosen_action m ins (opponent a)) s)"
proof -
  from assms obtain a i j ctx acc acc2 where run: "turn_run rs m ins r res a i j ctx acc acc2"
    by (rule ResolveTurn_E)
  note start = turn_run_start [OF run]
  let ?s = "ms_CombatState m"
  define acc1 where "acc1 = play rs (ctx a) (ms_Turn m) a i acc"
  have 1: "ms_CombatState (ta_next acc1) \<in> grip_moves (chosen_action m ins a) ?s"
    using regrips_act by (simp add: acc1_def play_def regrips_def turn_run_actions [OF run] flip: start(3))
  have 2: "ms_CombatState (ta_next (play rs (ctx (opponent a)) (ms_Turn m) (opponent a) j acc1))
      \<in> grip_moves (chosen_action m ins (opponent a)) (ms_CombatState (ta_next acc1))"
    using regrips_act by (simp add: play_def regrips_def turn_run_actions [OF run])
  have "ms_CombatState (ta_next acc2) \<in> grip_moves (chosen_action m ins (opponent a)) (ms_CombatState (ta_next acc1))"
    using 2 unfolding start(9) play_both_def acc1_def [symmetric] Let_def by simp
  with 1 show ?thesis unfolding turn_run_end(4) [OF run] by blast
qed

lemma ResolveTurn_grip_witness:
  "\<exists>res r'. ResolveTurn det_source demo_match demo_inputs demo_rng = (Inr res, r')
     \<and> ms_CombatState (tr_Next res) \<in> {StateNeutral, StateClinch}"
proof -
  obtain res r' where run: "ResolveTurn det_source demo_match demo_inputs demo_rng = (Inr res, r')"
    using demo_turn by blast
  have "chosen_action demo_match demo_inputs SideP1 = ActionGrapple"
    "chosen_action demo_match demo_inputs SideP2 = ActionStrike"
    by (simp_all add: chosen_action_def demo_inputs_def)
  with ResolveTurn_grip [OF run] run show ?thesis
    by (auto simp: ex_side_iff grip_moves_def)
qed

section \<open>A landed hit\<close>

lemma id_frame_stun:
  "fs_PlayerID (actor_of b (apply_stun rs a z acc)) = fs_PlayerID (actor_of b acc)"
  "ms_Outcome (ta_next (apply_stun rs a z acc)) = ms_Outcome (ta_next acc)"
  by (cases "roll_bps rs acc"; simp add: apply_stun_def Let_def actor_of_roll roll_bps_frame)+

lemma id_frame_ops:
  "fs_PlayerID (actor_of b (apply_damage a x z n acc)) = fs_PlayerID (actor_of b acc)"
  "fs_PlayerID (actor_of b (change_grip a acc)) = fs_PlayerID (actor_of b acc)"
  "fs_PlayerID (actor_of b (applyZoneEffects d z acc)) = fs_PlayerID (actor_of b acc)"
  "ms_Outcome (ta_next (apply_damage a x z n acc)) = ms_Outcome (ta_next acc)"
  by (simp_all add: apply_damage_def change_grip_def Let_def, simp add: actor_of_def)

lemmas id_frame = id_frame_stun id_frame_ops

text \<open>
  A strike, grapple or counter that lands takes exactly its damage from the other fighter's
  health (at least the base damage of the action, which is never zero), stopping at 0; the damage
  is computed from the momentum the attacker had before the hit; and the match is over by knockout,
  in favour of the attacker, exactly when the health reaches 0.
\<close>

theorem landed_hit:
  assumes "wf_mid (ta_next acc)" and "is_hit x"
    and n_def: "n = DamageFinal (BaseDamage x (fs_Stats (actor_of a acc))) (fs_Momentum (actor_of a acc))
      (combo_active x (actor_of a acc) prevTurn)"
  shows "fs_HP (actor_of (opponent a) (resolve_success rs a x z prevTurn acc)) =
      max 0 (fs_HP (actor_of (opponent a) acc) - n)
    \<and> BaseDamage x (fs_Stats (actor_of a acc)) \<le> n \<and> 9 \<le> n
    \<and> (fs_HP (actor_of (opponent a) acc) \<le> n \<longrightarrow>
        ms_Outcome (ta_next (resolve_success rs a x z prevTurn acc)) =
          \<lparr>mo_Finished = True, mo_WinnerID = fs_PlayerID (actor_of a acc), mo_Method = ''KO''\<rparr>)
    \<and> (n < fs_HP (actor_of (opponent a) acc) \<and> x \<noteq> ActionGrapple \<longrightarrow>
        ms_Outcome (ta_next (resolve_success rs a x z prevTurn acc)) = ms_Outcome (ta_next acc))"
proof -
  let ?combo = "combo_active x (actor_of a acc) prevTurn"
  obtain acc1 where acc1: "resolve_success rs a x z prevTurn acc =
      resolve_effect rs a x z (fs_Momentum (actor_of a acc)) ?combo acc1"
    "actor_of (opponent a) acc1 = actor_of (opponent a) acc"
    "fs_Stats (actor_of a acc1) = fs_Stats (actor_of a acc)"
    "fs_PlayerID (actor_of a acc1) = fs_PlayerID (actor_of a acc)"
    "ms_Outcome (ta_next acc1) = ms_Outcome (ta_next acc)"
    by (rule that, simp only: resolve_success_def Let_def) (simp_all add: gain_momentum_def)
  have wf: "wf_stats (fs_Stats (actor_of a acc))" "fs_HP (actor_of (opponent a) acc) \<in> {0..100}"
    using assms(1) by (simp_all add: wf_mid_def wf_fighter_def actor_of_def)
  then have base: "9 \<le> BaseDamage x (fs_Stats (actor_of a acc))"
    "BaseDamage x (fs_Stats (actor_of a acc)) \<le> 22"
    using assms(2) by (auto simp: is_hit_def wf_stats_def)
  then have n: "BaseDamage x (fs_Stats (actor_of a acc)) \<le> n"
    unfolding n_def using DamageFinal_range by simp
  let ?acc3 = "let acc = apply_stun rs a z (applyZoneEffects (opponent a) z (apply_damage a x z n acc1))
    in if x = ActionGrapple then applyGrappleTransition rs a acc else acc"
  have hit: "resolve_effect rs a x z (fs_Momentum (actor_of a acc)) ?combo acc1 = check_ko a ?acc3"
    using assms(2) unfolding is_hit_def n_def acc1(3) [symmetric]
    by (elim disjE) (simp_all only: resolve_effect.simps resolve_hit_def Let_def)
  have "fs_HP (actor_of (opponent a) ?acc3) = fs_HP (actor_of (opponent a) (apply_damage a x z n acc1))"
    by (auto simp: applyGrappleTransition_def Let_def)
  also have "\<dots> = max 0 (fs_HP (actor_of (opponent a) acc1) - n)"
    using n base wf(2) by (intro apply_damage_HP) (auto simp: acc1)
  finally have hp: "fs_HP (actor_of (opponent a) ?acc3) = max 0 (fs_HP (actor_of (opponent a) acc) - n)"
    by (simp add: acc1)
  have "fs_PlayerID (actor_of a ?acc3) = fs_PlayerID (actor_of a acc)"
    by (simp add: applyGrappleTransition_def Let_def id_frame acc1(4))
  then have ko: "fs_HP (actor_of (opponent a) acc) \<le> n \<Longrightarrow> ms_Outcome (ta_next (check_ko a ?acc3)) =
      \<lparr>mo_Finished = True, mo_WinnerID = fs_PlayerID (actor_of a acc), mo_Method = ''KO''\<rparr>"
    using hp by (simp add: check_ko_def max_def)
  have "n < fs_HP (actor_of (opponent a) acc) \<and> x \<noteq> ActionGrapple \<Longrightarrow>
      ms_Outcome (ta_next (check_ko a ?acc3)) = ms_Outcome (ta_next acc)"
    using hp by (simp add: check_ko_def id_frame acc1(5))
  with ko show ?thesis
    unfolding acc1(1) hit using hp n base by simp
qed

definition demo_acc :: "deterministic_rng turn_acc" where
  "demo_acc = \<lparr>ta_next = demo_match, ta_events = [], ta_rollHash = fnv64a_offset, ta_rng = demo_rng\<rparr>"

lemma landed_hit_witness:
  "fs_HP (actor_of SideP2 (resolve_success det_source SideP1 ActionStrike ZoneHead 5 demo_acc)) = 79"
proof -
  have "wf_mid (ta_next demo_acc)"
    by (simp add: demo_acc_def wf_mid_def all_side_iff wf_fighter_def wf_stats_def wf_effects_def
        in_step_def no_effects_def)
  from landed_hit [OF this, of ActionStrike _ SideP1 5 det_source ZoneHead, OF _ refl] show ?thesis
    by (simp add: is_hit_def actor_of_def demo_acc_def DamageFinal_def combo_active_def
        ClampInt_def sdiv_nonneg_eq)
qed

section \<open>Two places where the resolver departs from its documentation\<close>

text \<open>
  The combo bonus, documented as a reward for a hit in the previous turn, applies to the very
  first offensive action of every new fighter: the turn of the last hit starts at 0, which is also
  the number of the turn before the first.
\<close>

theorem first_turn_combo:
  assumes "NewFighter pid arch = Inr f" and "IsOffensive x"
  shows "combo_active x (f\<lparr>fs_Stamina := fs_Stamina f - ActionStaminaCost x (Endurance (fs_Stats f))\<rparr>)
    (ms_Turn (NewMatchState f g))"
proof -
  have "f = \<lparr>fs_PlayerID = pid, fs_Archetype = arch, fs_Stats = fs_Stats f,
      fs_HP = HPMax, fs_Stamina = StaminaMax, fs_Momentum = 0, fs_State = StateNeutral,
      fs_Effects = no_effects, fs_LastAction = ActionNone, fs_LastActionSuccess = False,
      fs_LastOffensiveHitTurn = 0\<rparr>"
    using assms(1) by (auto simp: NewFighter_def split: option.splits)
  then have "fs_Stamina f = 100" "fs_LastOffensiveHitTurn f = 0"
    by (metis StaminaMax_def fighter_state.select_convs(5), metis fighter_state.select_convs(11))
  with assms(2) ActionStaminaCost_range [of x "Endurance (fs_Stats f)"] show ?thesis
    by (simp add: combo_active_def NewMatchState_def)
qed

lemma first_turn_combo_witness:
  "combo_active ActionStrike ((demo_fighter ''ana'' ArchetypePowerhouse)\<lparr>fs_Stamina := 93\<rparr>) 0"
proof -
  have "NewFighter ''ana'' ArchetypePowerhouse = Inr (demo_fighter ''ana'' ArchetypePowerhouse)"
    by (simp add: demo_fighter_def NewFighter_def)
  from first_turn_combo [OF this, of ActionStrike "demo_fighter ''bo'' ArchetypeTechnician"]
  show ?thesis
    by (simp add: NewMatchState_def ActionStaminaCost_def ClampInt_def sdiv_nonneg_eq Let_def)
qed

text \<open>
  A defender's own leg penalty never makes it easier to hit: the chance does not depend on the
  defender's status at all. It is the attacker's leg penalty that weakens a dodging defender, so
  an attacker hit in the legs succeeds at least as often against a dodge as one that was not.
\<close>

theorem dodge_penalty_comes_from_attacker:
  assumes "wf_stats (fs_Stats defender)" and "opponentAction ctx = ActionDodge" and "x \<noteq> ActionDodge"
  shows "resolveSuccessChance actor (defender\<lparr>fs_Effects := e\<rparr>) x ctx = resolveSuccessChance actor defender x ctx
    \<and> resolveSuccessChance actor defender x (ctx\<lparr>legsPenaltyAtTurnStart := False\<rparr>)
      \<le> resolveSuccessChance actor defender x (ctx\<lparr>legsPenaltyAtTurnStart := True\<rparr>)"
proof -
  let ?ag = "Agility (fs_Stats defender)"
  have ag: "1 \<le> ?ag" "?ag \<le> 10" using assms(1) by (auto simp: wf_stats_def)
  then have "(?ag * 80) sdiv 100 \<le> ?ag" by (simp add: sdiv_nonneg_eq; linarith)
  with ag have def_le: "defenseAttribute x defender ActionDodge True
      \<le> defenseAttribute x defender ActionDodge False"
    by (auto simp: defenseAttribute.simps ClampInt_def Let_def max_def)
  have mono: "SuccessChanceBPS p d m s \<le> SuccessChanceBPS p d' m s" if "d' \<le> d" for p d d' m s
    using that by (simp add: SuccessChanceBPS_def Let_def ClampInt_def rule_defs)
  have "ClampInt (SuccessChanceBPS p d m s) chanceMinBPS chanceMaxBPS = SuccessChanceBPS p d m s"
    for p d m s
    using SuccessChanceBPS_range [of p d m s] by (simp add: ClampInt_def rule_defs)
  with mono [OF def_le] assms(2,3) show ?thesis
    by (simp add: resolveSuccessChance_def defenseAttribute.simps Let_def)
qed

lemma dodge_penalty_comes_from_attacker_witness:
  "resolveSuccessChance (demo_fighter ''ana'' ArchetypePowerhouse) (demo_fighter ''bo'' ArchetypeHighFlyer)
      ActionStrike (zero_context\<lparr>opponentAction := ActionDodge, legsPenaltyAtTurnStart := False\<rparr>)
   \<le> resolveSuccessChance (demo_fighter ''ana'' ArchetypePowerhouse) (demo_fighter ''bo'' ArchetypeHighFlyer)
      ActionStrike (zero_context\<lparr>opponentAction := ActionDodge, legsPenaltyAtTurnStart := True\<rparr>)"
  using dodge_penalty_comes_from_attacker [of "demo_fighter ''bo'' ArchetypeHighFlyer"
      "zero_context\<lparr>opponentAction := ActionDodge\<rparr>" ActionStrike]
  by (simp add: wf_stats_def zero_context_def)

end
