(* ===== verification/StateHash.thy ===== *)
theory StateHash
  imports TurnTheorems
begin

text \<open>
  What the state hash of a turn commits to. \<open>hashMatchState\<close> is the FNV-1a hash of a byte string,
  \<open>state_bytes\<close>; for states whose names contain no NUL byte and whose numbers are in the range of
  the machine type that byte string determines every field of the match, except for the upper half
  of the random source's state, which the source masks away.
\<close>

section \<open>The bytes that are hashed\<close>

definition int_bytes :: "int \<Rightarrow> byte list" where
  "int_bytes v = put_uint64_le (word_of_int v)"

definition bool_bytes :: "bool \<Rightarrow> byte list" where
  "bool_bytes b = int_bytes (if b then 1 else 0)"

definition text_bytes :: "string \<Rightarrow> byte list" where
  "text_bytes s = string_bytes s @ [0]"

definition fighter_bytes :: "fighter_state \<Rightarrow> byte list" where
  "fighter_bytes f = text_bytes (fs_PlayerID f) @ concat (map int_bytes
     [archetype_code (fs_Archetype f), Power (fs_Stats f), Technique (fs_Stats f),
      Agility (fs_Stats f), Endurance (fs_Stats f), fs_HP f, fs_Stamina f, fs_Momentum f,
      state_code (fs_State f), StunnedFor (fs_Effects f), TorsoRegenPenaltyFor (fs_Effects f),
      LegsDodgePenaltyFor (fs_Effects f), action_code (fs_LastAction f)])
     @ bool_bytes (fs_LastActionSuccess f) @ int_bytes (fs_LastOffensiveHitTurn f)"

definition low_half :: "u64 \<Rightarrow> u64" where
  "low_half w = w AND 0xffffffff"

definition state_bytes :: "match_state \<Rightarrow> byte list" where
  "state_bytes m = text_bytes (fs_PlayerID (ms_P1 m)) @ text_bytes (fs_PlayerID (ms_P2 m))
     @ int_bytes (ms_Turn m) @ int_bytes (state_code (ms_CombatState m)) @ int_bytes (ms_Distance m)
     @ int_bytes (uint (low_half (ms_RNGState m)))
     @ fighter_bytes (ms_P1 m) @ fighter_bytes (ms_P2 m)
     @ bool_bytes (mo_Finished (ms_Outcome m)) @ text_bytes (mo_WinnerID (ms_Outcome m))
     @ text_bytes (mo_Method (ms_Outcome m))"

lemma write_bytes:
  "writeHashInt h v = fnv64a_write h (int_bytes v)"
  "writeHashBool h b = fnv64a_write h (bool_bytes b)"
  "writeHashString h s = fnv64a_write h (text_bytes s)"
  by (simp_all add: writeHashInt_def writeHashBool_def writeHashString_def int_bytes_def
      bool_bytes_def text_bytes_def fnv64a_write_append)

lemma writeHashFighter_bytes: "writeHashFighter h f = fnv64a_write h (fighter_bytes f)"
  by (simp add: writeHashFighter_def fighter_bytes_def write_bytes Let_def fnv64a_write_append)

lemma hashMatchState_bytes: "hashMatchState m = fnv64a_write fnv64a_offset (state_bytes m)"
  by (simp add: hashMatchState_def state_bytes_def write_bytes writeHashFighter_bytes Let_def
      low_half_def fnv64a_write_append)

section \<open>The encoding loses nothing\<close>

definition nul_free :: "string \<Rightarrow> bool" where
  "nul_free s \<longleftrightarrow> CHR 0x00 \<notin> set s"

definition hashable_fighter :: "fighter_state \<Rightarrow> bool" where
  "hashable_fighter f \<longleftrightarrow> nul_free (fs_PlayerID f) \<and> list_all int64_ok
     [archetype_code (fs_Archetype f), Power (fs_Stats f), Technique (fs_Stats f),
      Agility (fs_Stats f), Endurance (fs_Stats f), fs_HP f, fs_Stamina f, fs_Momentum f,
      state_code (fs_State f), StunnedFor (fs_Effects f), TorsoRegenPenaltyFor (fs_Effects f),
      LegsDodgePenaltyFor (fs_Effects f), action_code (fs_LastAction f), fs_LastOffensiveHitTurn f]"

definition hashable :: "match_state \<Rightarrow> bool" where
  "hashable m \<longleftrightarrow> hashable_fighter (ms_P1 m) \<and> hashable_fighter (ms_P2 m)
     \<and> int64_ok (ms_Turn m) \<and> int64_ok (state_code (ms_CombatState m)) \<and> int64_ok (ms_Distance m)
     \<and> nul_free (mo_WinnerID (ms_Outcome m)) \<and> nul_free (mo_Method (ms_Outcome m))"

lemma int64_word_inject:
  assumes "int64_ok v" "int64_ok w" "(word_of_int v :: u64) = word_of_int w"
  shows "v = w"
proof -
  have "sint (word_of_int k :: u64) = k" if "int64_ok k" for k
    using that by (simp add: int64_ok_def sint_sbintrunc' signed_take_bit_int_eq_self)
  with assms show ?thesis by metis
qed

lemma int_bytes_append:
  assumes "int64_ok v" "int64_ok w"
  shows "int_bytes v @ xs = int_bytes w @ ys \<longleftrightarrow> v = w \<and> xs = ys"
  using int64_word_inject [OF assms] by (auto simp: int_bytes_def put_uint64_le_inject)

lemma bool_bytes_append: "bool_bytes b @ xs = bool_bytes c @ ys \<longleftrightarrow> b = c \<and> xs = ys"
  by (simp add: bool_bytes_def int_bytes_append int64_ok_def)

lemma nul_byte: "(word_of_nat (of_char c) :: byte) = 0 \<longleftrightarrow> c = CHR 0x00"
proof -
  have "string_bytes [c] = string_bytes [CHR 0x00] \<longleftrightarrow> c = CHR 0x00"
    by (simp only: string_bytes_inject list.inject simp_thms)
  then show ?thesis by (simp add: string_bytes_def)
qed

lemma text_bytes_append:
  "nul_free s \<Longrightarrow> nul_free t \<Longrightarrow> text_bytes s @ xs = text_bytes t @ ys \<longleftrightarrow> s = t \<and> xs = ys"
proof (induction s arbitrary: t)
  case Nil
  then show ?case
    using nul_byte by (cases t) (auto simp: text_bytes_def string_bytes_def nul_free_def)
next
  case (Cons c s)
  show ?case
  proof (cases t)
    case Nil
    with Cons.prems show ?thesis
      using nul_byte [of c] by (auto simp: text_bytes_def string_bytes_def nul_free_def)
  next
    case (Cons d t')
    have "string_bytes [c] = string_bytes [d] \<longleftrightarrow> c = d" by (simp only: string_bytes_inject list.inject simp_thms)
    then have cd: "(word_of_nat (of_char c) :: byte) = word_of_nat (of_char d) \<longleftrightarrow> c = d"
      by (simp add: string_bytes_def)
    from Cons.prems Cons have "nul_free s" "nul_free t'" by (simp_all add: nul_free_def)
    from Cons.IH [OF this] show ?thesis
      unfolding Cons by (auto simp: text_bytes_def string_bytes_def cd)
  qed
qed

lemma text_bytes_inject:
  "nul_free s \<Longrightarrow> nul_free t \<Longrightarrow> text_bytes s = text_bytes t \<longleftrightarrow> s = t"
  using text_bytes_append [of s t "[]" "[]"] by simp

lemma low_half_ok: "int64_ok (uint (low_half w))"
proof -
  have "uint (low_half w) \<le> 0xffffffff"
    using word_and_le1 [of "w" "0xffffffff"] unfolding low_half_def by (simp add: word_le_def)
  moreover have "0 \<le> uint (low_half w)" by simp
  ultimately show ?thesis
    unfolding int64_ok_def by (intro conjI order_trans [OF _ \<open>0 \<le> uint (low_half w)\<close>]) simp_all
qed

lemma hashable_name: "hashable_fighter f \<Longrightarrow> nul_free (fs_PlayerID f)"
  by (simp add: hashable_fighter_def)

lemma fighter_bytes_append:
  assumes "hashable_fighter f" "hashable_fighter g"
  shows "fighter_bytes f @ xs = fighter_bytes g @ ys \<longleftrightarrow> f = g \<and> xs = ys"
proof
  assume eq: "fighter_bytes f @ xs = fighter_bytes g @ ys"
  have "fs_PlayerID f = fs_PlayerID g \<and> fs_Archetype f = fs_Archetype g \<and> Power (fs_Stats f) = Power (fs_Stats g)
    \<and> Technique (fs_Stats f) = Technique (fs_Stats g) \<and> Agility (fs_Stats f) = Agility (fs_Stats g)
    \<and> Endurance (fs_Stats f) = Endurance (fs_Stats g) \<and> fs_HP f = fs_HP g \<and> fs_Stamina f = fs_Stamina g
    \<and> fs_Momentum f = fs_Momentum g \<and> fs_State f = fs_State g
    \<and> StunnedFor (fs_Effects f) = StunnedFor (fs_Effects g)
    \<and> TorsoRegenPenaltyFor (fs_Effects f) = TorsoRegenPenaltyFor (fs_Effects g)
    \<and> LegsDodgePenaltyFor (fs_Effects f) = LegsDodgePenaltyFor (fs_Effects g)
    \<and> fs_LastAction f = fs_LastAction g \<and> fs_LastActionSuccess f = fs_LastActionSuccess g
    \<and> fs_LastOffensiveHitTurn f = fs_LastOffensiveHitTurn g \<and> xs = ys"
    using eq assms
    by (simp add: fighter_bytes_def hashable_fighter_def text_bytes_append int_bytes_append
        bool_bytes_append archetype_code_inject state_code_inject action_code_inject)
  then show "f = g \<and> xs = ys"
    by simp
qed simp

text \<open>
  C40: The state hash is the FNV-1a hash of a byte string that determines the whole match state but
  the upper 32 bits of the random source's state: two states hash the same bytes exactly when they
  differ at most in those bits. (The states are any two whose names contain no NUL byte and whose
  numbers fit the machine type.)
\<close>

theorem state_hash_commits:
  assumes "hashable m" and "hashable n"
  shows "hashMatchState m = fnv64a_write fnv64a_offset (state_bytes m)
    \<and> (state_bytes m = state_bytes n \<longleftrightarrow>
        m\<lparr>ms_RNGState := low_half (ms_RNGState m)\<rparr> = n\<lparr>ms_RNGState := low_half (ms_RNGState n)\<rparr>)"
proof (intro conjI iffI)
  show "hashMatchState m = fnv64a_write fnv64a_offset (state_bytes m)" by (rule hashMatchState_bytes)
next
  assume eq: "state_bytes m = state_bytes n"
  have "ms_Turn m = ms_Turn n \<and> ms_CombatState m = ms_CombatState n \<and> ms_Distance m = ms_Distance n
    \<and> low_half (ms_RNGState m) = low_half (ms_RNGState n) \<and> ms_P1 m = ms_P1 n \<and> ms_P2 m = ms_P2 n
    \<and> mo_Finished (ms_Outcome m) = mo_Finished (ms_Outcome n)
    \<and> mo_WinnerID (ms_Outcome m) = mo_WinnerID (ms_Outcome n)
    \<and> mo_Method (ms_Outcome m) = mo_Method (ms_Outcome n)"
    using eq assms assms [unfolded hashable_def, THEN conjunct1, THEN hashable_name]
      assms [unfolded hashable_def, THEN conjunct2, THEN conjunct1, THEN hashable_name]
    by (simp add: state_bytes_def hashable_def text_bytes_inject
        text_bytes_append int_bytes_append bool_bytes_append fighter_bytes_append
        low_half_ok state_code_inject word_uint_eq_iff [symmetric])
  then show "m\<lparr>ms_RNGState := low_half (ms_RNGState m)\<rparr> = n\<lparr>ms_RNGState := low_half (ms_RNGState n)\<rparr>"
    by simp
next
  assume "m\<lparr>ms_RNGState := low_half (ms_RNGState m)\<rparr> = n\<lparr>ms_RNGState := low_half (ms_RNGState n)\<rparr>"
  then have "state_bytes (m\<lparr>ms_RNGState := low_half (ms_RNGState m)\<rparr>) =
      state_bytes (n\<lparr>ms_RNGState := low_half (ms_RNGState n)\<rparr>)" by simp
  moreover have "low_half (low_half w) = low_half w" for w by (simp add: low_half_def and.assoc)
  ultimately show "state_bytes m = state_bytes n" by (simp add: state_bytes_def)
qed

lemma state_hash_commits_witness:
  "state_bytes demo_match \<noteq> state_bytes (demo_match\<lparr>ms_Turn := 1\<rparr>)
   \<and> state_bytes demo_match = state_bytes (demo_match\<lparr>ms_RNGState := 0x100000000\<rparr>)"
proof -
  have ok: "hashable demo_match" "hashable (demo_match\<lparr>ms_Turn := 1\<rparr>)"
    "hashable (demo_match\<lparr>ms_RNGState := 0x100000000\<rparr>)"
    by (simp_all add: hashable_def hashable_fighter_def nul_free_def int64_ok_def no_effects_def
        no_outcome_def)
  have "demo_match\<lparr>ms_RNGState := 0\<rparr> \<noteq> demo_match\<lparr>ms_RNGState := 0, ms_Turn := 1\<rparr>"
    by (simp add: demo_match_def NewMatchState_def)
  moreover have "ms_RNGState demo_match = 0" by (simp add: demo_match_def NewMatchState_def)
  ultimately show ?thesis
    using state_hash_commits [OF ok(1,2)] state_hash_commits [OF ok(1,3)]
    by (simp add: low_half_def demo_match_def NewMatchState_def)
qed

end
