(* ===== verification/Simulator.thy ===== *)
theory Simulator
  imports TurnTheorems
begin

text \<open>
  The match simulator (\<^verbatim>\<open>internal/engine/simulator.go\<close>) and the replay runner
  (\<^verbatim>\<open>internal/replay/replay.go\<close>). Both are written against the interface \<^verbatim>\<open>combat.Resolver\<close>: here
  the locale \<open>turn_resolver\<close>, whose laws are what they rely on, interpreted on the program's
  resolver. A replay is a fresh simulator fed the recorded inputs; the theorems say that it
  reproduces the match it was recorded from, also when the record holds the canonical order of the
  inputs instead of the order in which they arrived.
\<close>

section \<open>The simulator\<close>

record combat_simulator =
  sim_state :: match_state
  sim_rng :: deterministic_rng

definition NewCombatSimulator :: "match_state \<Rightarrow> u64 \<Rightarrow> combat_simulator" where
  "NewCombatSimulator initial seed = (let rng = NewDeterministicRNG seed in
     \<lparr>sim_state = initial\<lparr>ms_RNGState := Snapshot rng\<rparr>, sim_rng = rng\<rparr>)"

definition Step :: "deterministic_rng resolver \<Rightarrow> combat_simulator \<Rightarrow> turn_input list
    \<Rightarrow> (combat_error + turn_result) \<times> combat_simulator" where
  "Step resolver s inputs = (case resolver (sim_state s) inputs (sim_rng s) of
     (Inl err, rng) \<Rightarrow> (Inl err, s\<lparr>sim_rng := rng\<rparr>)
   | (Inr result, rng) \<Rightarrow>
       (let result = result\<lparr>tr_Next := (tr_Next result)\<lparr>ms_RNGState := Snapshot rng\<rparr>\<rparr>
        in (Inr result, \<lparr>sim_state = tr_Next result, sim_rng = rng\<rparr>)))"

definition State :: "combat_simulator \<Rightarrow> match_state" where
  "State s = sim_state s"

section \<open>Replays\<close>

record input_event =
  ie_Turn :: int
  ie_RelativeMS :: int
  ie_Inputs :: "turn_input list"

record replay_record =
  rr_Seed :: u64
  rr_Archetypes :: "string \<rightharpoonup> archetype"
  rr_Initial :: match_state
  rr_Inputs :: "input_event list"

datatype replay_error = ErrNilResolver | ErrMissingPlayerIDs
  | ErrTurnMismatch nat int int | ErrResolveTurn int combat_error

fun replay_loop :: "deterministic_rng resolver \<Rightarrow> nat \<Rightarrow> input_event list \<Rightarrow> combat_simulator
    \<Rightarrow> turn_result list \<Rightarrow> replay_error + turn_result list" where
  "replay_loop resolver i [] sim results = Inr results"
| "replay_loop resolver i (ev # evs) sim results =
     (let expectedTurn = ms_Turn (State sim) + 1 in
      if ie_Turn ev \<noteq> 0 \<and> ie_Turn ev \<noteq> expectedTurn
      then Inl (ErrTurnMismatch i (ie_Turn ev) expectedTurn)
      else case Step resolver sim (ie_Inputs ev) of
          (Inl err, sim') \<Rightarrow> Inl (ErrResolveTurn expectedTurn err)
        | (Inr res, sim') \<Rightarrow> replay_loop resolver (i + 1) evs sim' (results @ [res]))"

definition Replay :: "deterministic_rng resolver option \<Rightarrow> replay_record
    \<Rightarrow> replay_error + turn_result list" where
  "Replay resolver r = (case resolver of
     None \<Rightarrow> Inl ErrNilResolver
   | Some resolver \<Rightarrow>
       if fs_PlayerID (ms_P1 (rr_Initial r)) = '''' \<or> fs_PlayerID (ms_P2 (rr_Initial r)) = ''''
       then Inl ErrMissingPlayerIDs
       else replay_loop resolver 0 (rr_Inputs r) (NewCombatSimulator (rr_Initial r) (rr_Seed r)) [])"

section \<open>The contract of a resolver\<close>

text \<open>
  A match played live: a simulator stepped through the inputs of its turns, up to the first error.
\<close>

fun play_live :: "deterministic_rng resolver \<Rightarrow> combat_simulator \<Rightarrow> turn_input list list
    \<Rightarrow> combat_error + turn_result list" where
  "play_live resolver sim [] = Inr []"
| "play_live resolver sim (ins # rest) = (case Step resolver sim ins of
     (Inl err, sim') \<Rightarrow> Inl err
   | (Inr res, sim') \<Rightarrow> (case play_live resolver sim' rest of
        Inl err \<Rightarrow> Inl err | Inr results \<Rightarrow> Inr (res # results)))"

text \<open>The turns a record's events may claim: the right one, or 0 for none.\<close>

fun turns_from :: "int \<Rightarrow> input_event list \<Rightarrow> bool" where
  "turns_from t [] = True"
| "turns_from t (ev # evs) = ((ie_Turn ev = 0 \<or> ie_Turn ev = t) \<and> turns_from (t + 1) evs)"

definition sim_ok :: "combat_simulator \<Rightarrow> bool" where
  "sim_ok s \<longleftrightarrow> ms_RNGState (sim_state s) = Snapshot (sim_rng s)"

locale turn_resolver =
  fixes resolve :: "deterministic_rng resolver"
    and valid :: "match_state \<Rightarrow> bool"
    and canonical :: "match_state \<Rightarrow> turn_input list \<Rightarrow> turn_input list option"
  assumes resolve_turn: "resolve m ins r = (Inr res, r') \<Longrightarrow> ms_Turn (tr_Next res) = ms_Turn m + 1"
    and resolve_ids: "resolve m ins r = (Inr res, r') \<Longrightarrow>
      fs_PlayerID (fighter_at b (tr_Next res)) = fs_PlayerID (fighter_at b m)"
    and resolve_valid: "resolve m ins r = (Inr res, r') \<Longrightarrow> valid m \<Longrightarrow> valid (tr_Next res)"
    and resolve_failed: "resolve m ins r = (Inl err, r') \<Longrightarrow> r' = r"
    and valid_rng: "valid m \<Longrightarrow> valid (m\<lparr>ms_RNGState := w\<rparr>)"
    and resolve_canonical: "canonical m ins = Some ord \<Longrightarrow> resolve m ord r = resolve m ins r"
    and canonical_ids: "(\<And>b. fs_PlayerID (fighter_at b n) = fs_PlayerID (fighter_at b m)) \<Longrightarrow>
      canonical n ins = canonical m ins"
begin

lemma step_cases:
  obtains (fail) err where "Step resolve s ins = (Inl err, s)"
  | (ok) res s' where "Step resolve s ins = (Inr res, s')"
    "ms_Turn (State s') = ms_Turn (State s) + 1" "tr_Next res = State s'" "sim_ok s'"
    "valid (State s) \<Longrightarrow> valid (State s')"
    "\<And>b. fs_PlayerID (fighter_at b (State s')) = fs_PlayerID (fighter_at b (State s))"
proof (cases "resolve (sim_state s) ins (sim_rng s)")
  case (Pair out r')
  show thesis
  proof (cases out)
    case (Inl err)
    with Pair resolve_failed have "r' = sim_rng s" by blast
    with Inl Pair show thesis by (intro fail [of err]) (simp add: Step_def)
  next
    case (Inr res)
    with Pair show thesis
      using resolve_turn resolve_ids resolve_valid valid_rng
      by (intro ok [of "res\<lparr>tr_Next := (tr_Next res)\<lparr>ms_RNGState := Snapshot r'\<rparr>\<rparr>"
            "\<lparr>sim_state = (tr_Next res)\<lparr>ms_RNGState := Snapshot r'\<rparr>, sim_rng = r'\<rparr>"])
        (auto simp: Step_def State_def sim_ok_def)
  qed
qed

lemma replay_loop_iff:
  "replay_loop resolve i evs sim acc = Inr rs \<longleftrightarrow> turns_from (ms_Turn (State sim) + 1) evs
     \<and> (\<exists>results. play_live resolve sim (map ie_Inputs evs) = Inr results \<and> rs = acc @ results)"
proof (induction evs arbitrary: i sim acc)
  case (Cons ev evs)
  show ?case
  proof (cases rule: step_cases [of sim "ie_Inputs ev"])
    case (ok res s')
    then show ?thesis
      using Cons.IH [of "Suc i" s' "acc @ [res]"] by (auto simp: Let_def split: sum.splits)
  qed (simp add: Let_def)
qed auto

lemma play_live_turns:
  "play_live resolve sim inss = Inr results \<Longrightarrow> length results = length inss
   \<and> (\<forall>k < length results. ms_Turn (tr_Next (results ! k)) = ms_Turn (State sim) + int k + 1
       \<and> (\<forall>b. fs_PlayerID (fighter_at b (tr_Next (results ! k))) = fs_PlayerID (fighter_at b (State sim)))
       \<and> (valid (State sim) \<longrightarrow> valid (tr_Next (results ! k))))"
proof (induction inss arbitrary: sim results)
  case (Cons ins inss)
  show ?case
  proof (cases rule: step_cases [of sim ins])
    case (fail err)
    with Cons.prems show ?thesis by simp
  next
    case (ok res s')
    with Cons.prems obtain rest where rest: "play_live resolve s' inss = Inr rest"
      "results = res # rest" by (auto split: sum.splits)
    from Cons.IH [OF rest(1)] ok show ?thesis
      unfolding rest(2) by (auto simp: nth_Cons split: nat.split)
  qed
qed simp

lemma play_live_canonical:
  "list_all2 (\<lambda>ins ord. canonical (State sim) ins = Some ord) inss ords \<Longrightarrow>
   play_live resolve sim ords = play_live resolve sim inss"
proof (induction inss arbitrary: sim ords)
  case (Cons ins inss)
  then obtain ord ords' where ords: "ords = ord # ords'" "canonical (State sim) ins = Some ord"
    "list_all2 (\<lambda>ins ord. canonical (State sim) ins = Some ord) inss ords'"
    by (auto simp: list_all2_Cons1)
  then have same: "Step resolve sim ord = Step resolve sim ins"
    using resolve_canonical by (simp add: Step_def State_def)
  show ?case
  proof (cases rule: step_cases [of sim ins])
    case (fail err)
    with same show ?thesis by (simp add: ords(1))
  next
    case (ok res s')
    then have "canonical (State s') i = canonical (State sim) i" for i
      by (intro canonical_ids)
    with ords(3) have "play_live resolve s' ords' = play_live resolve s' inss"
      by (intro Cons.IH) simp
    with ok same show ?thesis by (simp add: ords(1))
  qed
qed simp

end

section \<open>The program's resolver meets the contract\<close>

abbreviation det_resolver :: "deterministic_rng resolver" where
  "det_resolver \<equiv> ResolveTurn det_source"

definition recorded_order :: "match_state \<Rightarrow> turn_input list \<Rightarrow> turn_input list option" where
  "recorded_order m ins = (case CanonicalizeInputs m ins of Inl err \<Rightarrow> None | Inr ord \<Rightarrow> Some ord)"

lemma wf_match_rng: "wf_match (m\<lparr>ms_RNGState := w\<rparr>) = wf_match m"
  by (simp add: wf_match_def outcome_ok_def ko_by_def submitted_by_def)

interpretation go: turn_resolver det_resolver wf_match recorded_order
proof unfold_locales
  fix m ins r res r' b
  assume "det_resolver m ins r = (Inr res, r')"
  then obtain a i j ctx acc acc2
    where run: "turn_run det_source m ins r res a i j ctx acc acc2" by (rule ResolveTurn_E)
  show "ms_Turn (tr_Next res) = ms_Turn m + 1" by (rule turn_run_end(2) [OF run])
  show "fs_PlayerID (fighter_at b (tr_Next res)) = fs_PlayerID (fighter_at b m)"
    using turn_run_identity [OF run] by (simp add: turn_run_end(1) [OF run] same_identity_def)
next
  fix m ins r res r'
  assume "det_resolver m ins r = (Inr res, r')" "wf_match m"
  then show "wf_match (tr_Next res)" by (rule turn_keeps_wf)
next
  fix m ins r err r'
  assume "det_resolver m ins r = (Inl err, r')"
  then show "r' = r" by (rule failed_turn_draws_nothing)
next
  fix m w
  assume "wf_match m"
  then show "wf_match (m\<lparr>ms_RNGState := w\<rparr>)" by (simp only: wf_match_rng)
next
  fix m ins ord r
  assume "recorded_order m ins = Some ord"
  then have ok: "CanonicalizeInputs m ins = Inr ord"
    by (simp add: recorded_order_def split: sum.splits)
  with CanonicalizeInputs_idem [OF ok] show "det_resolver m ord r = det_resolver m ins r"
    by (simp add: ResolveTurn_def)
next
  fix m n ins
  assume same: "\<And>b. fs_PlayerID (fighter_at b n) = fs_PlayerID (fighter_at b m)"
  have id: "fs_PlayerID (ms_P1 n) = fs_PlayerID (ms_P1 m)" "fs_PlayerID (ms_P2 n) = fs_PlayerID (ms_P2 m)"
    using same [of SideP1] same [of SideP2] by simp_all
  show "recorded_order n ins = recorded_order m ins"
    unfolding recorded_order_def CanonicalizeInputs_def id ..
qed

section \<open>Replays reproduce matches\<close>

text \<open>
  A replay is the match: with the program's resolver it succeeds exactly when both fighters
  have ids, every event is labelled with its turn (or not at all), and the inputs can be played
  live from the same seed; its results are then those of the live match, turn for turn.
\<close>

theorem Replay_is_live_match:
  "Replay (Some det_resolver) r = Inr results \<longleftrightarrow>
     fs_PlayerID (ms_P1 (rr_Initial r)) \<noteq> [] \<and> fs_PlayerID (ms_P2 (rr_Initial r)) \<noteq> []
     \<and> turns_from (ms_Turn (rr_Initial r) + 1) (rr_Inputs r)
     \<and> play_live det_resolver (NewCombatSimulator (rr_Initial r) (rr_Seed r))
         (map ie_Inputs (rr_Inputs r)) = Inr results"
  by (auto simp: Replay_def go.replay_loop_iff NewCombatSimulator_def State_def Let_def)

text \<open>
  C5: A match recorded in the canonical order of each turn's inputs replays to the results of the
  match that was played with the inputs as they arrived.
\<close>

theorem Replay_of_recorded_match:
  assumes "play_live det_resolver (NewCombatSimulator initial seed) arrived = Inr results"
    and "list_all2 (\<lambda>ins ord. recorded_order initial ins = Some ord) arrived (map ie_Inputs events)"
    and "turns_from (ms_Turn initial + 1) events" and "players_ok initial"
  shows "Replay (Some det_resolver) \<lparr>rr_Seed = seed, rr_Archetypes = archs, rr_Initial = initial,
    rr_Inputs = events\<rparr> = Inr results"
proof -
  have "recorded_order (State (NewCombatSimulator initial seed)) ins = recorded_order initial ins" for ins
    by (rule go.canonical_ids) (simp add: NewCombatSimulator_def State_def Let_def)
  with assms(2) have "play_live det_resolver (NewCombatSimulator initial seed) (map ie_Inputs events)
      = play_live det_resolver (NewCombatSimulator initial seed) arrived"
    by (intro go.play_live_canonical) simp
  with assms(1,3,4) show ?thesis
    by (auto simp: Replay_def go.replay_loop_iff NewCombatSimulator_def State_def Let_def players_ok_def)
qed

text \<open>
  The results of a replay are consecutive turns of one match: one per event, numbered on from
  the initial state, between the same two fighters, and well-formed if the initial state is.
\<close>

theorem Replay_results:
  assumes "Replay (Some det_resolver) r = Inr results" and "wf_match (rr_Initial r)"
    and "k < length results"
  shows "length results = length (rr_Inputs r)
    \<and> ms_Turn (tr_Next (results ! k)) = ms_Turn (rr_Initial r) + int k + 1
    \<and> fs_PlayerID (fighter_at b (tr_Next (results ! k))) = fs_PlayerID (fighter_at b (rr_Initial r))
    \<and> wf_match (tr_Next (results ! k))"
proof -
  have "play_live det_resolver (NewCombatSimulator (rr_Initial r) (rr_Seed r))
      (map ie_Inputs (rr_Inputs r)) = Inr results"
    using assms(1) by (auto simp: Replay_def go.replay_loop_iff split: if_splits)
  from go.play_live_turns [OF this] assms(2,3) show ?thesis
    by (simp add: NewCombatSimulator_def State_def Let_def wf_match_rng)
qed

definition demo_events :: "input_event list" where
  "demo_events = [\<lparr>ie_Turn = 1, ie_RelativeMS = 0,
     ie_Inputs = [demo_inputs ! 1, demo_inputs ! 0]\<rparr>]"

definition demo_record :: replay_record where
  "demo_record = \<lparr>rr_Seed = 42, rr_Archetypes = Map.empty, rr_Initial = demo_match,
     rr_Inputs = demo_events\<rparr>"

lemma demo_live: "\<exists>res. play_live det_resolver (NewCombatSimulator demo_match 42) [demo_inputs] = Inr [res]"
proof -
  let ?sim = "NewCombatSimulator demo_match 42"
  have "\<not> mo_Finished (ms_Outcome (sim_state ?sim))" "players_ok (sim_state ?sim)"
    "inputs_ok (sim_state ?sim) demo_inputs"
    using demo_ok by (simp_all add: NewCombatSimulator_def Let_def players_ok_def inputs_ok_def player_ids_def)
  then obtain res r' where "det_resolver (sim_state ?sim) demo_inputs (sim_rng ?sim) = (Inr res, r')"
    using ResolveTurn_ok_iff [of det_source "sim_state ?sim" demo_inputs "sim_rng ?sim"] by auto
  then show ?thesis by (simp add: Step_def Let_def)
qed

lemma demo_recorded: "recorded_order demo_match demo_inputs = Some [demo_inputs ! 1, demo_inputs ! 0]"
  by (simp add: recorded_order_def CanonicalizeInputs_def demo_inputs_def canonical_input_def)

lemma Replay_of_recorded_match_witness:
  "\<exists>res. Replay (Some det_resolver) demo_record = Inr [res]"
proof -
  obtain res where "play_live det_resolver (NewCombatSimulator demo_match 42) [demo_inputs] = Inr [res]"
    using demo_live by blast
  from Replay_of_recorded_match [OF this, of demo_events Map.empty] demo_ok demo_recorded
  have "Replay (Some det_resolver) demo_record = Inr [res]"
    by (simp add: demo_record_def demo_events_def)
  then show ?thesis by blast
qed

lemma demo_replay: "\<exists>res. Replay (Some det_resolver) demo_record = Inr [res]"
proof -
  obtain res where live: "play_live det_resolver (NewCombatSimulator demo_match 42) [demo_inputs] = Inr [res]"
    using demo_live by blast
  have "recorded_order (State (NewCombatSimulator demo_match 42)) ins = recorded_order demo_match ins" for ins
    by (rule go.canonical_ids) (simp add: NewCombatSimulator_def State_def Let_def)
  then have "play_live det_resolver (NewCombatSimulator demo_match 42) (map ie_Inputs demo_events) =
      play_live det_resolver (NewCombatSimulator demo_match 42) [demo_inputs]"
    using demo_recorded by (intro go.play_live_canonical) (simp add: demo_events_def)
  with live show ?thesis
    by (simp add: Replay_def go.replay_loop_iff demo_record_def)
      (simp add: demo_events_def NewCombatSimulator_def State_def Let_def)
qed

lemma Replay_results_witness:
  "\<exists>res. Replay (Some det_resolver) demo_record = Inr [res] \<and> ms_Turn (tr_Next res) = 1"
proof -
  obtain res where run: "Replay (Some det_resolver) demo_record = Inr [res]"
    using demo_replay by blast
  from Replay_results [OF this, of 0] demo_wf run show ?thesis
    by (simp add: demo_record_def)
qed

section \<open>One step\<close>

text \<open>
  A failed step leaves the simulator as it was, random source included; a successful one keeps
  the state's random snapshot equal to the source's, returns the state it stores, and moves one turn
  on between the same fighters.
\<close>

theorem Step_transaction:
  assumes "Step det_resolver s ins = (out, s')"
  shows "case out of
      Inl err \<Rightarrow> s' = s
    | Inr res \<Rightarrow> tr_Next res = State s' \<and> ms_RNGState (State s') = Snapshot (sim_rng s')
        \<and> ms_Turn (State s') = ms_Turn (State s) + 1
        \<and> fs_PlayerID (fighter_at b (State s')) = fs_PlayerID (fighter_at b (State s))"
proof (cases rule: go.step_cases [of s ins])
  case (fail err)
  with assms show ?thesis by auto
next
  case (ok res s'')
  with assms show ?thesis by (auto simp: sim_ok_def State_def)
qed

lemma Step_transaction_witness:
  "snd (Step det_resolver (NewCombatSimulator demo_match 7) (demo_inputs @ demo_inputs)) =
     NewCombatSimulator demo_match 7"
proof -
  let ?s = "NewCombatSimulator demo_match 7"
  obtain out s' where step: "Step det_resolver ?s (demo_inputs @ demo_inputs) = (out, s')"
    by (cases "Step det_resolver ?s (demo_inputs @ demo_inputs)")
  have "out = Inl (ErrDuplicateInput ''bo'')"
    using step by (simp add: Step_def ResolveTurn_def CanonicalizeInputs_def demo_inputs_def
        NewCombatSimulator_def Let_def no_outcome_def)
  with Step_transaction [OF step] step show ?thesis by simp
qed

end
