(* ===== verification/GoStrings.thy ===== *)
theory GoStrings
  imports Prelude
begin

text \<open>
  The string functions of Go's standard library that the renderer, the session front end and the
  match service call: the packages \<^verbatim>\<open>strings\<close>, \<^verbatim>\<open>strconv\<close>, \<^verbatim>\<open>unicode/utf8\<close> and the
  verbs of \<^verbatim>\<open>fmt\<close>. A string is a list of bytes. The case mappings are those of ASCII: a caller
  that may pass other runes says so where it is modelled.
\<close>

section \<open>Characters\<close>

definition char_lower :: "char \<Rightarrow> char" where
  "char_lower c = (if CHR ''A'' \<le> c \<and> c \<le> CHR ''Z'' then char_of ((of_char c :: nat) + 32) else c)"

definition char_upper :: "char \<Rightarrow> char" where
  "char_upper c = (if CHR ''a'' \<le> c \<and> c \<le> CHR ''z'' then char_of ((of_char c :: nat) - 32) else c)"

definition ToLower :: "string \<Rightarrow> string" where
  "ToLower s = map char_lower s"

definition ToUpper :: "string \<Rightarrow> string" where
  "ToUpper s = map char_upper s"

definition char_space :: "char \<Rightarrow> bool" where
  "char_space c \<longleftrightarrow> c = CHR '' '' \<or> (9 \<le> (of_char c :: nat) \<and> (of_char c :: nat) \<le> 13)"

definition TrimSpace :: "string \<Rightarrow> string" where
  "TrimSpace s = rev (dropWhile char_space (rev (dropWhile char_space s)))"

text \<open>
  \<^verbatim>\<open>strings.EqualFold(s, t)\<close> for an ASCII constant \<open>t\<close>: besides the letters themselves, the
  only runes that fold to an ASCII letter are U+017F (to s) and U+212A (to k).
\<close>

fun fold_to_ascii :: "nat list \<Rightarrow> nat list" where
  "fold_to_ascii [] = []"
| "fold_to_ascii [a] = [a]"
| "fold_to_ascii [a, b] = (if a = 197 \<and> b = 191 then [115] else [a, b])"
| "fold_to_ascii (a # b # c # bs) =
     (if a = 197 \<and> b = 191 then 115 # fold_to_ascii (c # bs)
      else if a = 226 \<and> b = 132 \<and> c = 170 then 107 # fold_to_ascii bs
      else a # fold_to_ascii (b # c # bs))"

definition EqualFold :: "string \<Rightarrow> string \<Rightarrow> bool" where
  "EqualFold s t \<longleftrightarrow> ToLower (map char_of (fold_to_ascii (map of_char s))) = ToLower t"

section \<open>Formatting\<close>

text \<open>
  \<^verbatim>\<open>utf8.RuneCountInString\<close>: the number of bytes of the first rune, an invalid byte being one
  rune of its own.
\<close>

definition cont :: "nat \<Rightarrow> bool" where
  "cont b \<longleftrightarrow> 128 \<le> b \<and> b \<le> 191"

fun rune_size :: "nat list \<Rightarrow> nat" where
  "rune_size (b0 # b1 # b2 # b3 # bs) =
     (if 194 \<le> b0 \<and> b0 \<le> 223 \<and> cont b1 then 2
      else if 224 \<le> b0 \<and> b0 \<le> 239 \<and> cont b1 \<and> cont b2
        \<and> (b0 = 224 \<longrightarrow> 160 \<le> b1) \<and> (b0 = 237 \<longrightarrow> b1 \<le> 159) then 3
      else if 240 \<le> b0 \<and> b0 \<le> 244 \<and> cont b1 \<and> cont b2 \<and> cont b3
        \<and> (b0 = 240 \<longrightarrow> 144 \<le> b1) \<and> (b0 = 244 \<longrightarrow> b1 \<le> 143) then 4
      else 1)"
| "rune_size [b0, b1, b2] =
     (if 194 \<le> b0 \<and> b0 \<le> 223 \<and> cont b1 then 2
      else if 224 \<le> b0 \<and> b0 \<le> 239 \<and> cont b1 \<and> cont b2
        \<and> (b0 = 224 \<longrightarrow> 160 \<le> b1) \<and> (b0 = 237 \<longrightarrow> b1 \<le> 159) then 3
      else 1)"
| "rune_size [b0, b1] = (if 194 \<le> b0 \<and> b0 \<le> 223 \<and> cont b1 then 2 else 1)"
| "rune_size _ = 1"

lemma rune_size_pos: "0 < rune_size bs"
  by (induction bs rule: rune_size.induct) auto

function rune_count_bytes :: "nat list \<Rightarrow> nat" where
  "rune_count_bytes bs = (if bs = [] then 0 else 1 + rune_count_bytes (drop (rune_size bs) bs))"
  by pat_completeness auto
termination
  by (relation "measure length") (auto simp: rune_size_pos)

declare rune_count_bytes.simps [simp del]

definition RuneCount :: "string \<Rightarrow> nat" where
  "RuneCount s = rune_count_bytes (map of_char s)"

text \<open>\<^verbatim>\<open>%-<w>s\<close> and \<^verbatim>\<open>%<w>d\<close>.\<close>

definition pad_right :: "nat \<Rightarrow> string \<Rightarrow> string" where
  "pad_right w s = s @ replicate (w - RuneCount s) (CHR '' '')"

definition fmt_d :: "nat \<Rightarrow> int \<Rightarrow> string" where
  "fmt_d w i = replicate (w - length (itoa i)) (CHR '' '') @ itoa i"

text \<open>\<^verbatim>\<open>strings.Repeat\<close>; its panic on a negative count is out of reach where it is called.\<close>

definition Repeat :: "string \<Rightarrow> int \<Rightarrow> string" where
  "Repeat s n = concat (replicate (nat n) s)"

lemma length_Repeat: "length s = 1 \<Longrightarrow> length (Repeat s n) = nat n"
  by (simp add: Repeat_def length_concat sum_list_replicate map_replicate_const)

lemma TrimSpace_Nil [simp]: "TrimSpace [] = []"
  by (simp add: TrimSpace_def)

lemma TrimSpace_idem: "TrimSpace (TrimSpace s) = TrimSpace s"
proof -
  define t where "t = dropWhile char_space s"
  define u where "u = dropWhile char_space (rev t)"
  have hd_u: "u \<noteq> [] \<Longrightarrow> \<not> char_space (hd u)"
    unfolding u_def by (rule hd_dropWhile)
  have last_u: "u \<noteq> [] \<Longrightarrow> \<not> char_space (last u)"
  proof -
    assume u: "u \<noteq> []"
    obtain v where v: "rev t = v @ u"
      unfolding u_def by (metis takeWhile_dropWhile_id)
    with u have "t \<noteq> []" "last u = hd t"
      by (auto simp: last_rev[symmetric] last_append)
    moreover have "t \<noteq> [] \<Longrightarrow> \<not> char_space (hd t)"
      unfolding t_def by (rule hd_dropWhile)
    ultimately show ?thesis by simp
  qed
  have "dropWhile char_space (rev u) = rev u"
    using last_u by (cases "u = []") (simp_all add: dropWhile_eq_self_iff hd_rev)
  moreover have "dropWhile char_space u = u"
    using hd_u by (cases "u = []") (simp_all add: dropWhile_eq_self_iff)
  ultimately show ?thesis
    by (simp add: TrimSpace_def u_def [symmetric] t_def [symmetric])
qed

section \<open>Details\<close>

text \<open>The values an event carries: \<^verbatim>\<open>map[string]any\<close> with texts, numbers and truth values.\<close>

datatype detail_value = DetailText string | DetailInt int | DetailBool bool

type_synonym detail = "(string \<times> detail_value) list"

end
