(* ===== verification/Renderer.thy ===== *)
theory Renderer
  imports GoStrings TurnTheorems
begin

text \<open>
  The ASCII renderer, \<^verbatim>\<open>internal/animation/renderer.go\<close>: from the result of a turn to the
  keyframes a client shows. The poses and labels are tables; \<open>renderKeyframe\<close> lays two
  three-column figures into an arena of 58 columns, \<open>buildCinematicKeyframes\<close> strings the
  phases of a turn together. The lemmas say that the layout never leaves the arena, that the
  figures never cover each other and that every frame has the same shape.
\<close>

section \<open>Types\<close>

datatype effect = EffectHitstop | EffectShake | EffectKnockback | EffectSlowmo

record frame =
  fr_Full :: "string list"
  fr_Delta :: "string list"
  fr_Keyframes :: "string list list"
  fr_Summary :: string
  fr_Effects :: "effect list"

definition arenaWidth :: int where "arenaWidth = 58"
definition hpBarSize :: int where "hpBarSize = 14"

record stick_pose =
  sp_Head :: string
  sp_Torso :: string
  sp_Legs :: string

record cinematic_phase =
  cp_Name :: string
  cp_LeftAdvance :: int
  cp_RightAdvance :: int
  cp_Shake :: bool
  cp_LeftPose :: stick_pose
  cp_RightPose :: stick_pose

record turn_vfx =
  vx_HitCount :: int
  vx_TotalDamage :: int
  vx_HeavyHit :: bool
  vx_LeftHit :: bool
  vx_RightHit :: bool
  vx_Stunned :: bool
  vx_ComboActive :: bool
  vx_KnockbackHit :: bool

definition no_vfx :: turn_vfx where
  "no_vfx = \<lparr>vx_HitCount = 0, vx_TotalDamage = 0, vx_HeavyHit = False, vx_LeftHit = False,
     vx_RightHit = False, vx_Stunned = False, vx_ComboActive = False, vx_KnockbackHit = False\<rparr>"

text \<open>The backslash, which the sprites use.\<close>

abbreviation bsl :: char where "bsl \<equiv> CHR 0x5C"

section \<open>Effects, damage and captions\<close>

definition hasEffect :: "effect list \<Rightarrow> effect \<Rightarrow> bool" where
  "hasEffect effects want = list_ex (\<lambda>effect. effect = want) effects"

definition clampInt :: "int \<Rightarrow> int \<Rightarrow> int \<Rightarrow> int" where
  "clampInt v minV maxV = (if v < minV then minV else if v > maxV then maxV else v)"

definition maxInt :: "int \<Rightarrow> int \<Rightarrow> int" where
  "maxInt a b = (if a > b then a else b)"

text \<open>The four flags of the loop of \<open>inferEffects\<close>: damage, match finished, shake, knockback.\<close>

fun effect_flags :: "event list \<Rightarrow> bool \<times> bool \<times> bool \<times> bool \<Rightarrow> bool \<times> bool \<times> bool \<times> bool" where
  "effect_flags [] flags = flags"
| "effect_flags (e # es) (dmg, fin, shake, knock) =
     (if ev_Type e = EventDamageApplied
      then effect_flags es (True, fin, shake \<or> ev_Value e \<ge> 15,
        knock \<or> (ev_Success e \<and> (ev_Action e = ActionGrapple \<or> ev_Action e = ActionCounter)))
      else if ev_Type e = EventMatchFinished then effect_flags es (dmg, True, True, knock)
      else effect_flags es (dmg, fin, shake, knock))"

definition inferEffects :: "turn_result \<Rightarrow> effect list" where
  "inferEffects result =
     (let (hasDamage, hasMatchFinished, hasShake, hasKnockback) =
        effect_flags (tr_Events result) (False, False, False, False)
      in (if hasDamage then [EffectHitstop] else []) @ (if hasShake then [EffectShake] else [])
         @ (if hasKnockback then [EffectKnockback] else [])
         @ (if hasMatchFinished then [EffectSlowmo] else []))"

fun count_hits :: "event list \<Rightarrow> int \<times> int \<Rightarrow> int \<times> int" where
  "count_hits [] acc = acc"
| "count_hits (e # es) (hits, totalDamage) =
     (if ev_Type e \<noteq> EventDamageApplied \<or> \<not> ev_Success e then count_hits es (hits, totalDamage)
      else count_hits es (hits + 1, if ev_Value e > 0 then totalDamage + ev_Value e else totalDamage))"

definition summarizeTurn :: "turn_result \<Rightarrow> string" where
  "summarizeTurn result = (let state = tr_Next result in
     if mo_Finished (ms_Outcome state)
     then (if mo_Method (ms_Outcome state) = '''' then ''Outcome: finished''
       else ''Outcome: '' @ mo_Method (ms_Outcome state))
     else let (hits, totalDamage) = count_hits (tr_Events result) (0, 0) in
       if hits = 0 then ''Exchange: no clean hit''
       else if hits = 1 then ''Exchange: clean hit ('' @ itoa totalDamage @ '' dmg)''
       else ''Exchange: traded blows ('' @ itoa totalDamage @ '' dmg total)'')"

definition mark_target :: "match_state \<Rightarrow> event \<Rightarrow> turn_vfx \<Rightarrow> turn_vfx" where
  "mark_target state e v =
     (let v = (if ev_TargetID e = fs_PlayerID (ms_P1 state) then v\<lparr>vx_LeftHit := True\<rparr> else v)
      in if ev_TargetID e = fs_PlayerID (ms_P2 state) then v\<lparr>vx_RightHit := True\<rparr> else v)"

definition vfx_event :: "match_state \<Rightarrow> event \<Rightarrow> turn_vfx \<Rightarrow> turn_vfx" where
  "vfx_event state e v =
     (if ev_Type e = EventDamageApplied then
        if \<not> ev_Success e \<or> ev_Value e \<le> 0 then v
        else mark_target state e (v\<lparr>vx_HitCount := vx_HitCount v + 1,
          vx_TotalDamage := vx_TotalDamage v + ev_Value e\<rparr>)
      else if ev_Type e = EventStatusApplied then
        let v = (if EqualFold (ev_Detail e) ''stunned''
            then mark_target state e (v\<lparr>vx_Stunned := True\<rparr>) else v)
        in if EqualFold (ev_Detail e) ''combo_active'' then v\<lparr>vx_ComboActive := True\<rparr> else v
      else v)"

definition deriveTurnVFX :: "turn_result \<Rightarrow> effect list \<Rightarrow> turn_vfx" where
  "deriveTurnVFX result effects =
     (let v = fold (vfx_event (tr_Next result)) (tr_Events result) no_vfx;
          v = v\<lparr>vx_HeavyHit := vx_TotalDamage v \<ge> 22, vx_KnockbackHit := hasEffect effects EffectKnockback\<rparr>
      in if \<not> vx_LeftHit v \<and> \<not> vx_RightHit v \<and> vx_HitCount v > 0 then v\<lparr>vx_RightHit := True\<rparr> else v)"

definition impactWord :: "int \<Rightarrow> string" where
  "impactWord totalDamage =
     (if totalDamage \<ge> 28 then ''!!! KRAK !!!'' else if totalDamage \<ge> 18 then ''!! BOOM !!''
      else if totalDamage \<ge> 10 then ''! THUD !'' else ''* TAP *'')"

definition phaseEffectCaption :: "string \<Rightarrow> turn_vfx \<Rightarrow> string" where
  "phaseEffectCaption phaseName vfx = (let phase = ToLower (TrimSpace phaseName) in
     if phase = ''impact'' then
       if vx_HitCount vfx = 0 then ''FX: whiff''
       else if vx_ComboActive vfx then ''FX: combo chain ('' @ itoa (vx_HitCount vfx) @ '' hits)''
       else ''FX: impact x'' @ itoa (vx_HitCount vfx) @ '' ('' @ itoa (vx_TotalDamage vfx) @ '' dmg)''
     else if phase = ''hitstop'' then ''FX: freeze frame''
     else if phase = ''knockback'' then ''FX: knockback push''
     else if phase = ''stunned'' then ''FX: dizzy state''
     else '''')"

section \<open>Poses and labels\<close>

definition pose :: "string \<Rightarrow> string \<Rightarrow> string \<Rightarrow> stick_pose" where
  "pose h t l = \<lparr>sp_Head = h, sp_Torso = t, sp_Legs = l\<rparr>"

abbreviation head0 :: string where "head0 \<equiv> '' o ''"
abbreviation legs0 :: string where "legs0 \<equiv> [CHR ''/'', CHR '' '', bsl]"
abbreviation torso0 :: string where "torso0 \<equiv> [CHR ''/'', CHR ''|'', bsl]"

definition windupPose :: "action \<Rightarrow> bool \<Rightarrow> stick_pose" where
  "windupPose action mirror =
     (case action of
        ActionStrike \<Rightarrow> if mirror then pose head0 ''<| '' legs0 else pose head0 '' |>'' legs0
      | ActionCounter \<Rightarrow> if mirror then pose head0 ''<| '' legs0 else pose head0 '' |>'' legs0
      | ActionGrapple \<Rightarrow> pose head0 ''/| '' legs0
      | ActionBreak \<Rightarrow> pose head0 ''/| '' legs0
      | ActionBlock \<Rightarrow> pose head0 ''[|]'' legs0
      | ActionFeint \<Rightarrow> pose head0 ''~| '' legs0
      | ActionDodge \<Rightarrow> if mirror then pose head0 ''<| '' [CHR ''<'', CHR '' '', bsl]
          else pose head0 '' |>'' ''/ >''
      | _ \<Rightarrow> pose head0 torso0 legs0)"

definition recoverPose :: "action \<Rightarrow> bool \<Rightarrow> stick_pose" where
  "recoverPose action mirror =
     (case action of
        ActionStrike \<Rightarrow> if mirror then pose head0 [bsl, CHR ''|'', CHR '' ''] legs0
          else pose head0 '' |/'' legs0
      | ActionDodge \<Rightarrow> if mirror then pose head0 '' |<'' ''< /''
          else pose head0 ''>| '' [bsl, CHR '' '', CHR ''>'']
      | _ \<Rightarrow> pose head0 torso0 legs0)"

definition poseForAction :: "action \<Rightarrow> bool \<Rightarrow> stick_pose" where
  "poseForAction action mirror =
     (case action of
        ActionStrike \<Rightarrow> if mirror then pose head0 ''<|-'' legs0 else pose head0 ''-|>'' legs0
      | ActionBlock \<Rightarrow> pose head0 ''[|]'' legs0
      | ActionDodge \<Rightarrow> if mirror then pose head0 ''<| '' legs0 else pose head0 '' |>'' legs0
      | ActionCounter \<Rightarrow> pose head0 ''<|>'' legs0
      | ActionGrapple \<Rightarrow> pose head0 [bsl, CHR ''|'', CHR ''/''] legs0
      | ActionBreak \<Rightarrow> pose head0 [bsl, CHR ''|'', CHR ''/''] legs0
      | ActionFeint \<Rightarrow> pose head0 ''~|~'' legs0
      | _ \<Rightarrow> pose head0 torso0 legs0)"

definition poseForPhase :: "action \<Rightarrow> bool \<Rightarrow> string \<Rightarrow> stick_pose" where
  "poseForPhase action mirror phase = (let phase = ToLower phase in
     if phase = ''guard'' then pose head0 torso0 legs0
     else if phase = ''windup'' then windupPose action mirror
     else if phase = ''recover'' then recoverPose action mirror
     else if phase = ''stunned'' then pose '' * '' ''x|x'' legs0
     else poseForAction action mirror)"

fun actionLabel :: "action \<Rightarrow> string" where
  "actionLabel ActionStrike = ''STRIKE''"
| "actionLabel ActionGrapple = ''GRAPPLE''"
| "actionLabel ActionBlock = ''BLOCK''"
| "actionLabel ActionDodge = ''DODGE''"
| "actionLabel ActionCounter = ''COUNTER''"
| "actionLabel ActionFeint = ''FEINT''"
| "actionLabel ActionBreak = ''BREAK''"
| "actionLabel _ = ''IDLE''"

definition stanceLabel :: "string \<Rightarrow> action \<Rightarrow> string" where
  "stanceLabel handle action = handle @ '' ['' @ actionLabel action @ '']''"

fun approachDistance :: "action \<Rightarrow> int" where
  "approachDistance ActionStrike = 7"
| "approachDistance ActionGrapple = 8"
| "approachDistance ActionCounter = 6"
| "approachDistance ActionFeint = 5"
| "approachDistance ActionBreak = 4"
| "approachDistance ActionDodge = 3"
| "approachDistance ActionBlock = 2"
| "approachDistance _ = 1"

definition healthBar :: "int \<Rightarrow> string" where
  "healthBar hp = (let hp = clampInt hp 0 HPMax; fill = (hp * hpBarSize) sdiv HPMax
     in ''['' @ Repeat ''#'' fill @ Repeat ''.'' (hpBarSize - fill) @ '']'')"

definition fitHandle :: "string \<Rightarrow> int \<Rightarrow> string" where
  "fitHandle handle limit = (if limit \<le> 0 then ''''
     else if int (length handle) \<le> limit then handle
     else if limit = 1 then take 1 handle
     else take (nat (limit - 1)) handle @ ''~'')"

section \<open>Lines\<close>

definition blank_row :: "int \<Rightarrow> string" where
  "blank_row width = (let row = replicate (nat width) (CHR '' '') in
     if width > 0 then row[nat (width sdiv 2) := CHR '':''] else row)"

fun stamp :: "int \<Rightarrow> int \<Rightarrow> string \<Rightarrow> string \<Rightarrow> string" where
  "stamp width idx [] row = row"
| "stamp width idx (r # rs) row =
     stamp width (idx + 1) rs (if idx < 0 \<or> idx \<ge> width then row else row[nat idx := r])"

definition composeArenaLine :: "int \<Rightarrow> int \<Rightarrow> string \<Rightarrow> int \<Rightarrow> string \<Rightarrow> string" where
  "composeArenaLine width leftX left rightX right =
     stamp width rightX right (stamp width leftX left (blank_row width))"

fun overlay :: "int \<Rightarrow> string \<Rightarrow> string \<Rightarrow> string" where
  "overlay idx [] row = row"
| "overlay idx (r # rs) row = (if idx \<ge> int (length row) then row
     else overlay (idx + 1) rs (row[nat idx := r]))"

definition overlayCenter :: "string \<Rightarrow> string \<Rightarrow> string" where
  "overlayCenter base marker =
     (if length marker = 0 \<or> length base = 0 then base
      else let start = (int (length base) - int (length marker)) sdiv 2;
               start = (if start < 0 then 0 else start)
        in overlay start marker base)"

definition fx_marker :: "string \<Rightarrow> turn_vfx \<Rightarrow> string" where
  "fx_marker phaseName vfx = (let phase = ToLower (TrimSpace phaseName) in
     if phase = ''impact'' then if vx_HitCount vfx > 0 then impactWord (vx_TotalDamage vfx) else ''''
     else if phase = ''hitstop'' then ''<<< HITSTOP >>>''
     else if phase = ''knockback'' then
       if vx_LeftHit vfx \<or> vx_RightHit vfx \<or> vx_KnockbackHit vfx then ''<< KNOCKBACK >>'' else ''''
     else if phase = ''stunned'' then if vx_Stunned vfx then ''** STUN **'' else ''''
     else '''')"

definition composeFXOverlayLine :: "int \<Rightarrow> string \<Rightarrow> turn_vfx \<Rightarrow> string" where
  "composeFXOverlayLine width phaseName vfx = (let marker = fx_marker phaseName vfx in
     if marker = '''' then blank_row width else overlayCenter (blank_row width) marker)"

section \<open>Keyframes\<close>

text \<open>The columns of the two figures, the first half of \<open>renderKeyframe\<close>.\<close>

definition figure_columns :: "match_state \<Rightarrow> cinematic_phase \<Rightarrow> turn_vfx \<Rightarrow> int \<times> int" where
  "figure_columns state phase vfx =
     (let leftX = 7 + cp_LeftAdvance phase;
          rightX = arenaWidth - 10 - cp_RightAdvance phase;
          (leftX, rightX) = (if \<not> cp_Shake phase then (leftX, rightX)
            else if ms_Turn state smod 2 = 0 then (leftX + 1, rightX - 1) else (leftX - 1, rightX + 1));
          (leftX, rightX) = (if leftX + 4 \<ge> rightX
            then (arenaWidth sdiv 2 - 3, arenaWidth sdiv 2 + 1) else (leftX, rightX));
          (leftX, rightX) = (if EqualFold (cp_Name phase) ''knockback''
            then (if vx_LeftHit vfx then leftX - 2 else leftX,
              if vx_RightHit vfx \<or> vx_KnockbackHit vfx then rightX + 2 else rightX)
            else (leftX, rightX))
      in (clampInt leftX 1 (arenaWidth - 4), clampInt rightX 1 (arenaWidth - 4)))"

definition fighter_line :: "string \<Rightarrow> fighter_state \<Rightarrow> string" where
  "fighter_line handle f = pad_right 18 (fitHandle handle 18) @ '' HP:'' @ fmt_d 3 (fs_HP f)
     @ '' ST:'' @ fmt_d 3 (fs_Stamina f) @ '' MO:'' @ fmt_d 3 (fs_Momentum f) @ '' '' @ healthBar (fs_HP f)"

definition arena_rows :: "match_state \<Rightarrow> cinematic_phase \<Rightarrow> turn_vfx \<Rightarrow> string list" where
  "arena_rows state phase vfx =
     (let (leftX, rightX) = figure_columns state phase vfx;
          l = cp_LeftPose phase; r = cp_RightPose phase
      in [''+'' @ Repeat ''-'' arenaWidth @ ''+'',
          ''|'' @ composeArenaLine arenaWidth leftX (sp_Head l) rightX (sp_Head r) @ ''|'',
          ''|'' @ composeArenaLine arenaWidth leftX (sp_Torso l) rightX (sp_Torso r) @ ''|'',
          ''|'' @ composeFXOverlayLine arenaWidth (cp_Name phase) vfx @ ''|'',
          ''|'' @ composeArenaLine arenaWidth leftX (sp_Legs l) rightX (sp_Legs r) @ ''|'',
          ''|'' @ Repeat ''_'' arenaWidth @ ''|'',
          ''+'' @ Repeat ''-'' arenaWidth @ ''+''])"

definition renderKeyframe :: "string \<Rightarrow> string \<Rightarrow> match_state \<Rightarrow> cinematic_phase \<Rightarrow> string
    \<Rightarrow> turn_vfx \<Rightarrow> bool \<Rightarrow> string list" where
  "renderKeyframe handle1 handle2 state phase summary vfx final =
     (let lines =
        [''Turn '' @ itoa (ms_Turn state) @ '' | '' @ ToUpper (cp_Name phase),
         fighter_line handle1 (ms_P1 state),
         fighter_line handle2 (ms_P2 state),
         pad_right 32 (stanceLabel handle1 (fs_LastAction (ms_P1 state)))
           @ pad_right 32 (stanceLabel handle2 (fs_LastAction (ms_P2 state)))]
        @ arena_rows state phase vfx;
          fxCaption = phaseEffectCaption (cp_Name phase) vfx;
          fxCaption = (if fxCaption = '''' then '' '' else fxCaption)
      in if final then lines @ [fxCaption, summary] else lines @ [fxCaption])"

definition mk_phase :: "string \<Rightarrow> int \<Rightarrow> int \<Rightarrow> bool \<Rightarrow> stick_pose \<Rightarrow> stick_pose \<Rightarrow> cinematic_phase" where
  "mk_phase name la ra shake l r = \<lparr>cp_Name = name, cp_LeftAdvance = la, cp_RightAdvance = ra,
     cp_Shake = shake, cp_LeftPose = l, cp_RightPose = r\<rparr>"

definition cinematic_phases :: "turn_result \<Rightarrow> effect list \<Rightarrow> cinematic_phase list" where
  "cinematic_phases result effects =
     (let state = tr_Next result;
          a1 = fs_LastAction (ms_P1 state); a2 = fs_LastAction (ms_P2 state);
          leftAdvance = approachDistance a1;
          rightAdvance = approachDistance a2;
          impactShake = (hasEffect effects EffectShake \<or> hasEffect effects EffectHitstop);
          vfx = deriveTurnVFX result effects;
          recoverName = (if hasEffect effects EffectKnockback
              \<and> (vx_LeftHit vfx \<or> vx_RightHit vfx \<or> vx_KnockbackHit vfx)
            then ''Knockback'' else ''Recover'')
      in [mk_phase ''Guard'' 0 0 False (poseForPhase ActionNone False ''guard'')
            (poseForPhase ActionNone True ''guard''),
          mk_phase ''Windup'' (leftAdvance sdiv 2) (rightAdvance sdiv 2) False
            (poseForPhase a1 False ''windup'') (poseForPhase a2 True ''windup''),
          mk_phase ''Impact'' leftAdvance rightAdvance impactShake
            (poseForPhase a1 False ''impact'') (poseForPhase a2 True ''impact'')]
         @ (if hasEffect effects EffectHitstop \<and> vx_HitCount vfx > 0
            then [mk_phase ''Hitstop'' leftAdvance rightAdvance True
              (poseForPhase a1 False ''impact'') (poseForPhase a2 True ''impact'')] else [])
         @ [mk_phase recoverName (maxInt 1 (leftAdvance sdiv 3)) (maxInt 1 (rightAdvance sdiv 3)) False
              (poseForPhase a1 False ''recover'') (poseForPhase a2 True ''recover'')]
         @ (if vx_Stunned vfx
            then [mk_phase ''Stunned'' (maxInt 1 (leftAdvance sdiv 4)) (maxInt 1 (rightAdvance sdiv 4)) True
              (poseForPhase a1 False ''stunned'') (poseForPhase a2 True ''stunned'')] else []))"

definition buildCinematicKeyframes :: "string \<Rightarrow> string \<Rightarrow> turn_result \<Rightarrow> string \<Rightarrow> effect list
    \<Rightarrow> string list list" where
  "buildCinematicKeyframes handle1 handle2 result summary effects =
     (let state = tr_Next result;
          vfx = deriveTurnVFX result effects;
          phases = cinematic_phases result effects;
          keyframes = map (\<lambda>i. renderKeyframe handle1 handle2 state (phases ! i) summary vfx
            (i = length phases - 1)) [0..<length phases]
      in if hasEffect effects EffectSlowmo \<or> mo_Finished (ms_Outcome state)
         then let final = last keyframes in
           keyframes @ [if length final > 0 then final[0 := final ! 0 @ '' | SLOWMO''] else final]
         else keyframes)"

definition Render :: "string \<Rightarrow> string \<Rightarrow> turn_result \<Rightarrow> frame" where
  "Render handle1 handle2 result =
     (let effects = inferEffects result;
          summary = summarizeTurn result;
          keyframes = buildCinematicKeyframes handle1 handle2 result summary effects
      in \<lparr>fr_Full = (if length keyframes > 0 then last keyframes else []), fr_Delta = [],
          fr_Keyframes = keyframes, fr_Summary = summary, fr_Effects = effects\<rparr>)"

section \<open>Rows\<close>

named_theorems row_length \<open>lengths of the rows of the arena\<close>

lemma length_blank_row [row_length]: "length (blank_row width) = nat width"
  by (simp add: blank_row_def Let_def)

lemma length_stamp [row_length]: "length (stamp width idx sprite row) = length row"
  by (induction width idx sprite row rule: stamp.induct) simp_all

lemma length_overlay [row_length]: "length (overlay idx sprite row) = length row"
  by (induction idx sprite row rule: overlay.induct) simp_all

lemma length_overlayCenter [row_length]: "length (overlayCenter base marker) = length base"
  by (simp add: overlayCenter_def Let_def length_overlay)

lemma length_composeArenaLine [row_length]:
  "length (composeArenaLine width leftX left rightX right) = nat width"
  by (simp add: composeArenaLine_def row_length)

lemma length_composeFXOverlayLine [row_length]:
  "length (composeFXOverlayLine width phase vfx) = nat width"
  by (simp add: composeFXOverlayLine_def Let_def row_length)

lemma length_arena_row:
  "line \<in> set (arena_rows state phase vfx) \<Longrightarrow> length line = nat arenaWidth + 2"
  by (auto simp: arena_rows_def Let_def row_length length_Repeat split: prod.splits)

text \<open>A sprite that fits is written whole, and nothing else changes.\<close>

lemma stamp_inside:
  "0 \<le> idx \<Longrightarrow> idx + int (length sprite) \<le> width \<Longrightarrow> length row = nat width \<Longrightarrow>
   stamp width idx sprite row = take (nat idx) row @ sprite @ drop (nat idx + length sprite) row"
proof (induction sprite arbitrary: idx row)
  case (Cons r rs)
  let ?row = "row[nat idx := r]"
  from Cons.prems have idx: "nat idx < length row" "nat (idx + 1) = Suc (nat idx)" by auto
  from Cons.prems have "stamp width idx (r # rs) row = stamp width (idx + 1) rs ?row" by simp
  also have "\<dots> = take (nat (idx + 1)) ?row @ rs @ drop (nat (idx + 1) + length rs) ?row"
    using Cons.prems by (intro Cons.IH) simp_all
  also have "take (nat (idx + 1)) ?row = take (nat idx) row @ [r]"
    using idx by (simp add: take_Suc_conv_app_nth)
  finally show ?case using idx by (simp add: drop_update_cancel)
qed simp

lemma composeArenaLine_inside:
  assumes "0 \<le> leftX" "leftX + 3 \<le> rightX" "rightX + 3 \<le> width"
    and "length left = 3" "length right = 3"
  shows "take 3 (drop (nat leftX) (composeArenaLine width leftX left rightX right)) = left"
    and "take 3 (drop (nat rightX) (composeArenaLine width leftX left rightX right)) = right"
proof -
  let ?b = "blank_row width"
  have b: "length ?b = nat width" by (simp add: row_length)
  have l: "nat leftX + 3 \<le> nat rightX" "nat rightX + 3 \<le> nat width" using assms by auto
  define row where "row = take (nat leftX) ?b @ left @ drop (nat leftX + 3) ?b"
  have row: "stamp width leftX left ?b = row"
    using assms b unfolding row_def by (subst stamp_inside) simp_all
  have lr: "length row = nat width" using l b assms by (simp add: row_def)
  have line: "composeArenaLine width leftX left rightX right =
      take (nat rightX) row @ right @ drop (nat rightX + 3) row"
    using assms lr unfolding composeArenaLine_def row by (subst stamp_inside) simp_all
  show "take 3 (drop (nat rightX) (composeArenaLine width leftX left rightX right)) = right"
    using l lr assms by (simp add: line)
  have "take 3 (drop (nat leftX) (take (nat rightX) row)) = take 3 (drop (nat leftX) row)"
    using l by (simp add: take_drop)
  also have "\<dots> = left"
    using l b assms by (simp add: row_def)
  finally show "take 3 (drop (nat leftX) (composeArenaLine width leftX left rightX right)) = left"
    using l lr by (simp add: line)
qed

section \<open>Phases\<close>

lemma approach_bounds [simp]:
  "0 \<le> approachDistance a" "approachDistance a \<le> 8"
  "0 \<le> approachDistance a sdiv 2" "approachDistance a sdiv 2 \<le> 8"
  "0 \<le> approachDistance a sdiv 3" "approachDistance a sdiv 3 \<le> 8"
  "0 \<le> approachDistance a sdiv 4" "approachDistance a sdiv 4 \<le> 8"
  by (cases a; simp add: sdiv_nonneg_eq)+

lemma pose_width:
  "sp \<in> {sp_Head, sp_Torso, sp_Legs} \<Longrightarrow> length (sp (poseForPhase a mirror phase)) = 3"
  by (cases a) (auto simp: poseForPhase_def windupPose_def recoverPose_def poseForAction_def
      pose_def Let_def)

definition phase_ok :: "cinematic_phase \<Rightarrow> bool" where
  "phase_ok p \<longleftrightarrow> 0 \<le> cp_LeftAdvance p \<and> cp_LeftAdvance p \<le> 8
     \<and> 0 \<le> cp_RightAdvance p \<and> cp_RightAdvance p \<le> 8
     \<and> (\<forall>sp \<in> {sp_Head, sp_Torso, sp_Legs}.
          length (sp (cp_LeftPose p)) = 3 \<and> length (sp (cp_RightPose p)) = 3)"

lemma phase_ok_mk:
  "0 \<le> la \<Longrightarrow> la \<le> 8 \<Longrightarrow> 0 \<le> ra \<Longrightarrow> ra \<le> 8 \<Longrightarrow>
   phase_ok (mk_phase name la ra shake (poseForPhase a m x) (poseForPhase b n y))"
  using pose_width by (simp add: phase_ok_def mk_phase_def)

lemma cinematic_phases_ok: "p \<in> set (cinematic_phases result effects) \<Longrightarrow> phase_ok p"
  by (auto simp: cinematic_phases_def Let_def maxInt_def intro!: phase_ok_mk)

lemma length_cinematic_phases:
  "4 \<le> length (cinematic_phases result effects) \<and> length (cinematic_phases result effects) \<le> 6"
  by (simp add: cinematic_phases_def Let_def)

lemma figure_columns_inside:
  assumes "phase_ok p" "figure_columns state p vfx = (leftX, rightX)"
  shows "1 \<le> leftX" "leftX + 3 \<le> rightX" "rightX + 3 < arenaWidth"
  using assms
  by (auto simp: figure_columns_def phase_ok_def arenaWidth_def clampInt_def Let_def
      split: if_splits)


lemma renderKeyframe_arena:
  "take 7 (drop 4 (renderKeyframe h1 h2 state p summary vfx final)) = arena_rows state p vfx"
  by (simp add: renderKeyframe_def arena_rows_def Let_def split: prod.split)

lemma arena_of_update: "take 7 (drop 4 (xs[0 := l])) = take 7 (drop 4 xs)"
  by (cases xs) simp_all

lemma renderKeyframe_last: "last (renderKeyframe h1 h2 state p summary vfx True) = summary"
  "2 \<le> length (renderKeyframe h1 h2 state p summary vfx final)"
  by (simp_all add: renderKeyframe_def Let_def)


text \<open>The keyframes as a list, with the closing copy of a finished match.\<close>

definition keyframe_of :: "string \<Rightarrow> string \<Rightarrow> turn_result \<Rightarrow> string \<Rightarrow> effect list \<Rightarrow> nat \<Rightarrow> string list" where
  "keyframe_of h1 h2 result summary effects i =
     (let phases = cinematic_phases result effects in
      renderKeyframe h1 h2 (tr_Next result) (phases ! i) summary (deriveTurnVFX result effects)
        (i = length phases - 1))"

definition shows_slowmo :: "turn_result \<Rightarrow> effect list \<Rightarrow> bool" where
  "shows_slowmo result effects \<longleftrightarrow>
     hasEffect effects EffectSlowmo \<or> mo_Finished (ms_Outcome (tr_Next result))"

lemma buildCinematicKeyframes_eq:
  "buildCinematicKeyframes h1 h2 result summary effects =
     map (keyframe_of h1 h2 result summary effects) [0..<length (cinematic_phases result effects)]
     @ (if shows_slowmo result effects
        then let final = keyframe_of h1 h2 result summary effects
            (length (cinematic_phases result effects) - 1)
          in [final[0 := final ! 0 @ '' | SLOWMO'']] else [])"
proof -
  have n: "[0..<length (cinematic_phases result effects)] \<noteq> []"
    and m: "length (cinematic_phases result effects) \<noteq> 0"
    using length_cinematic_phases [of result effects] by auto
  have "last (map (keyframe_of h1 h2 result summary effects) [0..<length (cinematic_phases result effects)])
      = keyframe_of h1 h2 result summary effects (length (cinematic_phases result effects) - 1)"
    using n m by (subst last_map) (simp_all add: last_upt)
  moreover have "0 < length (keyframe_of h1 h2 result summary effects i)" for i
    using renderKeyframe_last(2) by (simp add: keyframe_of_def Let_def)
      (metis length_greater_0_conv list.size(3) not_numeral_le_zero)
  moreover have "buildCinematicKeyframes h1 h2 result summary effects =
      (let ks = map (keyframe_of h1 h2 result summary effects) [0..<length (cinematic_phases result effects)]
       in if shows_slowmo result effects
          then ks @ [if length (last ks) > 0 then (last ks)[0 := last ks ! 0 @ '' | SLOWMO''] else last ks]
          else ks)"
    by (simp add: buildCinematicKeyframes_def keyframe_of_def [abs_def] shows_slowmo_def Let_def)
  ultimately show ?thesis by (simp add: Let_def)
qed

lemma last_keyframe: "last (keyframe_of h1 h2 result summary effects
    (length (cinematic_phases result effects) - 1)) = summary"
  by (simp add: keyframe_of_def Let_def renderKeyframe_last)

lemma last_list_update: "2 \<le> length xs \<Longrightarrow> last (xs[0 := x]) = last xs"
  by (cases xs) auto

definition arena_shape :: "string list \<Rightarrow> bool" where
  "arena_shape frame \<longleftrightarrow> length (take 7 (drop 4 frame)) = 7
     \<and> list_all (\<lambda>line. length line = 60) (take 7 (drop 4 frame))"

lemma arena_shape_keyframe: "arena_shape (keyframe_of h1 h2 result summary effects i)"
proof -
  have "length (arena_rows state p vfx) = 7" for state p vfx
    by (simp add: arena_rows_def Let_def split: prod.split)
  then show ?thesis
    unfolding arena_shape_def keyframe_of_def Let_def renderKeyframe_arena
    by (auto simp: list_all_iff arenaWidth_def dest: length_arena_row)
qed

lemma arena_shape_update: "arena_shape (xs[0 := l]) = arena_shape xs"
  by (simp only: arena_shape_def arena_of_update)

section \<open>Properties\<close>

text \<open>
  Every turn is rendered as four to seven keyframes whose arena is always seven rows of sixty
  columns; the full frame is the last keyframe and closes with the summary of the turn.
\<close>

theorem Render_frames:
  "4 \<le> length (fr_Keyframes (Render h1 h2 result)) \<and> length (fr_Keyframes (Render h1 h2 result)) \<le> 7
   \<and> list_all arena_shape (fr_Keyframes (Render h1 h2 result))
   \<and> fr_Full (Render h1 h2 result) = last (fr_Keyframes (Render h1 h2 result))
   \<and> last (fr_Full (Render h1 h2 result)) = summarizeTurn result"
proof -
  let ?e = "inferEffects result" and ?s = "summarizeTurn result"
  let ?n = "length (cinematic_phases result ?e)"
  note n = length_cinematic_phases [of result ?e]
  then have up: "[0..<?n] = [0..<?n - 1] @ [?n - 1]"
    by (metis Suc_diff_1 le_trans not_gr_zero not_numeral_le_zero upt_Suc_append zero_le)
  have len: "2 \<le> length (keyframe_of h1 h2 result ?s ?e i)" for i
    using renderKeyframe_last(2) by (simp add: keyframe_of_def Let_def)
  have k: "fr_Keyframes (Render h1 h2 result) = buildCinematicKeyframes h1 h2 result ?s ?e"
    by (simp add: Render_def Let_def)
  have full: "fr_Full (Render h1 h2 result) = last (fr_Keyframes (Render h1 h2 result))"
    using n by (auto simp: Render_def Let_def buildCinematicKeyframes_eq)
  have "last (last (buildCinematicKeyframes h1 h2 result ?s ?e)) = ?s"
    by (simp add: buildCinematicKeyframes_eq Let_def up last_list_update len
        last_keyframe [unfolded One_nat_def])
  moreover have "list_all arena_shape (buildCinematicKeyframes h1 h2 result ?s ?e)"
    by (auto simp: buildCinematicKeyframes_eq list_all_iff Let_def arena_shape_update
        arena_shape_keyframe)
  ultimately show ?thesis
    using n full by (simp add: k buildCinematicKeyframes_eq Let_def)
qed

text \<open>
  C39: In every phase of every turn both figures stand whole inside the arena, the left one left of
  the right one, so that each of their rows shows all three columns of both sprites.
\<close>

theorem figures_never_overlap:
  "list_all (\<lambda>p. case figure_columns (tr_Next result) p vfx of (leftX, rightX) \<Rightarrow>
      1 \<le> leftX \<and> leftX + 3 \<le> rightX \<and> rightX + 3 < arenaWidth
      \<and> list_all (\<lambda>part.
          take 3 (drop (nat leftX) (composeArenaLine arenaWidth leftX (part (cp_LeftPose p))
            rightX (part (cp_RightPose p)))) = part (cp_LeftPose p)
          \<and> take 3 (drop (nat rightX) (composeArenaLine arenaWidth leftX (part (cp_LeftPose p))
            rightX (part (cp_RightPose p)))) = part (cp_RightPose p))
        [sp_Head, sp_Torso, sp_Legs])
    (cinematic_phases result effects)"
proof (unfold list_all_iff, intro ballI)
  fix p assume p: "p \<in> set (cinematic_phases result effects)"
  obtain leftX rightX where cols: "figure_columns (tr_Next result) p vfx = (leftX, rightX)" by force
  note inside = figure_columns_inside [OF cinematic_phases_ok [OF p] cols]
  have w: "length (part (cp_LeftPose p)) = 3 \<and> length (part (cp_RightPose p)) = 3"
    if "part \<in> {sp_Head, sp_Torso, sp_Legs}" for part
    using cinematic_phases_ok [OF p] that unfolding phase_ok_def by blast
  show "case figure_columns (tr_Next result) p vfx of (leftX, rightX) \<Rightarrow>
      1 \<le> leftX \<and> leftX + 3 \<le> rightX \<and> rightX + 3 < arenaWidth
      \<and> (\<forall>part \<in> set [sp_Head, sp_Torso, sp_Legs].
          take 3 (drop (nat leftX) (composeArenaLine arenaWidth leftX (part (cp_LeftPose p))
            rightX (part (cp_RightPose p)))) = part (cp_LeftPose p)
          \<and> take 3 (drop (nat rightX) (composeArenaLine arenaWidth leftX (part (cp_LeftPose p))
            rightX (part (cp_RightPose p)))) = part (cp_RightPose p))"
    using inside w unfolding cols prod.case list.set
    by (intro conjI ballI composeArenaLine_inside) auto
qed

end
