(* ===== verification/Npc.thy ===== *)
theory Npc
  imports TurnTheorems
begin

text \<open>
  The opponent that plays by itself, \<^verbatim>\<open>internal/npc/engine.go\<close>: a weight for every action and
  every zone, adjusted to the state of the match, and one draw for each. The random source is any
  function that keeps the contract \<open>bounded_source\<close>, which the program's generator does
  (\<open>det\<close>). The central fact is \<open>pick_weight_count\<close>: among the rolls a draw can give, exactly
  as many choose an entry as its weight says.
\<close>

section \<open>Weights\<close>

type_synonym action_weight = "action \<times> int"
type_synonym zone_weight = "zone \<times> int"

fun baseActionWeights :: "combat_state \<Rightarrow> action_weight list" where
  "baseActionWeights StateClinch = [(ActionStrike, 20), (ActionGrapple, 30), (ActionBlock, 10),
     (ActionDodge, 8), (ActionCounter, 8), (ActionFeint, 4), (ActionBreak, 20)]"
| "baseActionWeights StateGround = [(ActionStrike, 12), (ActionGrapple, 32), (ActionBlock, 10),
     (ActionDodge, 8), (ActionCounter, 8), (ActionFeint, 6), (ActionBreak, 24)]"
| "baseActionWeights StateDominant = [(ActionStrike, 22), (ActionGrapple, 30), (ActionBlock, 10),
     (ActionDodge, 8), (ActionCounter, 10), (ActionFeint, 14), (ActionBreak, 6)]"
| "baseActionWeights StateSubmissionAttempt = [(ActionStrike, 12), (ActionGrapple, 20),
     (ActionBlock, 12), (ActionDodge, 8), (ActionCounter, 8), (ActionFeint, 10), (ActionBreak, 30)]"
| "baseActionWeights s = [(ActionStrike, 34), (ActionGrapple, 20), (ActionBlock, 14),
     (ActionDodge, 14), (ActionCounter, 8), (ActionFeint, 8), (ActionBreak, 2)]"

definition adjustActionWeight :: "fighter_state \<Rightarrow> fighter_state \<Rightarrow> action \<Rightarrow> int \<Rightarrow> int" where
  "adjustActionWeight self opp action weight =
     (let momentumDelta = fs_Momentum self - fs_Momentum opp;
          weight =
            (if action = ActionStrike \<or> action = ActionGrapple then
               weight - (if fs_Stamina self < 30 then 8 else 0)
                 + (if momentumDelta \<ge> 20 then 8 else 0) + (if fs_Stamina opp < 25 then 6 else 0)
             else if action = ActionBlock \<or> action = ActionDodge then
               weight + (if fs_Stamina self < 30 then 10 else 0)
                 + (if momentumDelta \<le> - 15 then 8 else 0)
             else if action = ActionCounter then weight + (if momentumDelta \<le> - 10 then 6 else 0)
             else if action = ActionBreak then
               weight + (if fs_Stamina self < 30 then 6 else 0)
                 + (if fs_State self = StateSubmissionAttempt \<or> fs_State self = StateGround
                       \<or> fs_State self = StateClinch then 6 else 0)
             else weight)
      in if weight < 1 then 1 else weight)"

definition adjustActionWeights ::
  "action_weight list \<Rightarrow> fighter_state \<Rightarrow> fighter_state \<Rightarrow> action_weight list" where
  "adjustActionWeights weights self opp =
     map (\<lambda>(action, weight). (action, adjustActionWeight self opp action weight)) weights"

fun baseZoneWeights :: "action \<Rightarrow> zone_weight list" where
  "baseZoneWeights ActionGrapple = [(ZoneHead, 15), (ZoneTorso, 65), (ZoneLegs, 20)]"
| "baseZoneWeights ActionCounter = [(ZoneHead, 35), (ZoneTorso, 45), (ZoneLegs, 20)]"
| "baseZoneWeights a = [(ZoneHead, 30), (ZoneTorso, 45), (ZoneLegs, 25)]"

definition adjustZoneWeight ::
  "action \<Rightarrow> fighter_state \<Rightarrow> fighter_state \<Rightarrow> zone \<Rightarrow> int \<Rightarrow> int" where
  "adjustZoneWeight action self opp zone weight =
     (let momentumDelta = fs_Momentum self - fs_Momentum opp;
          weight = (case zone of
              ZoneHead \<Rightarrow> weight + (if momentumDelta \<ge> 15 then 8 else 0)
                + (if fs_Stamina opp < 25 then 8 else 0)
            | ZoneTorso \<Rightarrow> weight + (if action = ActionGrapple then 10 else 0)
            | ZoneLegs \<Rightarrow> weight + (if LegsDodgePenaltyFor (fs_Effects opp) > 0 then 10 else 0)
                + (if Agility (fs_Stats opp) \<ge> 8 then 6 else 0)
            | _ \<Rightarrow> weight)
      in if weight < 1 then 1 else weight)"

definition adjustZoneWeights ::
  "zone_weight list \<Rightarrow> action \<Rightarrow> fighter_state \<Rightarrow> fighter_state \<Rightarrow> zone_weight list" where
  "adjustZoneWeights weights action self opp =
     map (\<lambda>(zone, weight). (zone, adjustZoneWeight action self opp zone weight)) weights"

section \<open>Choices\<close>

text \<open>
  The loop of \<^verbatim>\<open>chooseAction\<close> and \<^verbatim>\<open>chooseZone\<close>: the first entry whose weight the roll does not
  reach, the roll being lowered by the weights passed over, or else the last entry.
\<close>

fun pick_weight :: "('a \<times> int) list \<Rightarrow> int \<Rightarrow> 'a \<Rightarrow> 'a" where
  "pick_weight [] roll final = final"
| "pick_weight ((x, w) # ws) roll final = (if roll < w then x else pick_weight ws (roll - w) final)"

definition total_weight :: "('a \<times> int) list \<Rightarrow> int" where
  "total_weight weights = sum_list (map snd weights)"

definition chooseAction ::
  "('r \<Rightarrow> int \<Rightarrow> int \<times> 'r) \<Rightarrow> action_weight list \<Rightarrow> 'r \<Rightarrow> action \<times> 'r" where
  "chooseAction next_int weights r =
     (let total = total_weight weights in
      if total \<le> 0 then (ActionNone, r)
      else let (roll, r') = next_int r total; roll = (if roll < 0 then 0 else roll)
        in (pick_weight weights roll (fst (last weights)), r'))"

definition chooseZone ::
  "('r \<Rightarrow> int \<Rightarrow> int \<times> 'r) \<Rightarrow> zone_weight list \<Rightarrow> 'r \<Rightarrow> zone \<times> 'r" where
  "chooseZone next_int weights r =
     (let total = total_weight weights in
      if total \<le> 0 then (ZoneTorso, r)
      else let (roll, r') = next_int r total; roll = (if roll < 0 then 0 else roll)
        in (pick_weight weights roll (fst (last weights)), r'))"

section \<open>The decision\<close>

datatype npc_error = ErrSelfIDRequired | ErrRngRequired | ErrSelfNotInMatch string

text \<open>The package has its own \<^verbatim>\<open>fightersByID\<close>, with its own error.\<close>

definition npcFightersByID :: "match_state \<Rightarrow> string \<Rightarrow> npc_error + side" where
  "npcFightersByID state selfID =
     (if selfID = fs_PlayerID (ms_P1 state) then Inr SideP1
      else if selfID = fs_PlayerID (ms_P2 state) then Inr SideP2
      else Inl (ErrSelfNotInMatch selfID))"

definition decide_awake ::
  "('r \<Rightarrow> int \<Rightarrow> int \<times> 'r) \<Rightarrow> match_state \<Rightarrow> side \<Rightarrow> 'r \<Rightarrow> turn_input \<times> 'r" where
  "decide_awake next_int state a r =
     (let self = fighter_at a state; opp = fighter_at (opponent a) state;
          actionWeights = adjustActionWeights (baseActionWeights (ms_CombatState state)) self opp;
          (action, r) = chooseAction next_int actionWeights r;
          action = (if action = ActionNone then ActionBlock else action);
          zoneWeights = adjustZoneWeights (baseZoneWeights action) action self opp;
          (zone, r) = chooseZone next_int zoneWeights r
      in (\<lparr>ti_PlayerID = fs_PlayerID self, ti_Action = action, ti_Target = zone, ti_DecisionMS = 0\<rparr>, r))"

definition Decide :: "('r \<Rightarrow> int \<Rightarrow> int \<times> 'r) \<Rightarrow> match_state \<Rightarrow> string \<Rightarrow> 'r option
    \<Rightarrow> (npc_error + turn_input) \<times> 'r option" where
  "Decide next_int state selfID rng =
     (if selfID = '''' then (Inl ErrSelfIDRequired, rng)
      else case rng of
        None \<Rightarrow> (Inl ErrRngRequired, rng)
      | Some r \<Rightarrow> (case npcFightersByID state selfID of
          Inl err \<Rightarrow> (Inl err, rng)
        | Inr a \<Rightarrow>
            let self = fighter_at a state in
            if fs_State self = StateStunned \<or> StunnedFor (fs_Effects self) > 0
            then (Inr \<lparr>ti_PlayerID = fs_PlayerID self, ti_Action = ActionNone,
                ti_Target = ZoneTorso, ti_DecisionMS = 0\<rparr>, rng)
            else let (inp, r') = decide_awake next_int state a r in (Inr inp, Some r')))"

section \<open>Weighted choice\<close>

lemma total_weight_simps [simp]:
  "total_weight [] = 0" "total_weight ((x, w) # ws) = w + total_weight ws"
  by (simp_all add: total_weight_def)

lemma total_weight_nonneg: "\<forall>(x, w) \<in> set ws. 0 \<le> w \<Longrightarrow> 0 \<le> total_weight ws"
  by (induction ws) auto

lemma pick_weight_mem:
  "0 \<le> roll \<Longrightarrow> roll < total_weight ws \<Longrightarrow> pick_weight ws roll d \<in> fst ` set ws"
  by (induction ws arbitrary: roll) auto

text \<open>
  The rolls that choose an entry form an interval as long as its weight.
\<close>

lemma pick_weight_interval:
  assumes "\<forall>(x, w) \<in> set ws. 0 \<le> w" "distinct (map fst ws)" "(x, w) \<in> set ws"
  shows "\<exists>lo. 0 \<le> lo \<and> {roll. 0 \<le> roll \<and> roll < total_weight ws \<and> pick_weight ws roll d = x} = {lo..<lo + w}"
  using assms
proof (induction ws)
  case (Cons yv ws)
  obtain y v where yv: "yv = (y, v)" by (cases yv)
  from Cons.prems yv have v: "0 \<le> v" and nonneg: "\<forall>(x, w) \<in> set ws. 0 \<le> w" by auto
  note tot = total_weight_nonneg [OF nonneg]
  show ?case
  proof (cases "x = y")
    case True
    have "(x, w) \<notin> set ws"
      using Cons.prems(2) True yv by (force simp: image_iff)
    with Cons.prems(3) yv have w: "w = v" by simp
    have no: "pick_weight ws r d \<noteq> x" if "0 \<le> r" "r < total_weight ws" for r
      using pick_weight_mem [OF that, of d] Cons.prems(2) True yv by auto
    have "{roll. 0 \<le> roll \<and> roll < total_weight (yv # ws) \<and> pick_weight (yv # ws) roll d = x} = {0..<0 + w}"
    proof (rule set_eqI)
      fix roll
      show "roll \<in> {roll. 0 \<le> roll \<and> roll < total_weight (yv # ws) \<and> pick_weight (yv # ws) roll d = x}
          \<longleftrightarrow> roll \<in> {0..<0 + w}"
        using True yv w tot no [of "roll - v"] by auto
    qed
    then show ?thesis by blast
  next
    case False
    with Cons.prems yv have mem: "(x, w) \<in> set ws" by simp
    from Cons.IH [OF nonneg _ mem] Cons.prems obtain lo where lo: "0 \<le> lo"
      "{roll. 0 \<le> roll \<and> roll < total_weight ws \<and> pick_weight ws roll d = x} = {lo..<lo + w}" by auto
    have iff: "0 \<le> roll \<and> roll < total_weight ws \<and> pick_weight ws roll d = x \<longleftrightarrow> lo \<le> roll \<and> roll < lo + w" for roll
      using lo(2) by (auto simp: set_eq_iff)
    have "{roll. 0 \<le> roll \<and> roll < total_weight (yv # ws) \<and> pick_weight (yv # ws) roll d = x}
        = {(v + lo)..<(v + lo) + w}"
    proof (rule set_eqI)
      fix roll
      show "roll \<in> {roll. 0 \<le> roll \<and> roll < total_weight (yv # ws) \<and> pick_weight (yv # ws) roll d = x}
          \<longleftrightarrow> roll \<in> {(v + lo)..<(v + lo) + w}"
        using iff [of "roll - v"] False yv v lo(1) by auto
    qed
    with v lo(1) show ?thesis by (intro exI [of _ "v + lo"]) simp
  qed
qed simp

lemma pick_weight_count:
  assumes "\<forall>(x, w) \<in> set ws. 0 \<le> w" "distinct (map fst ws)" "(x, w) \<in> set ws"
  shows "int (card {roll. 0 \<le> roll \<and> roll < total_weight ws \<and> pick_weight ws roll d = x}) = w"
  using pick_weight_interval [OF assms, of d] assms(1,3) by force

lemma set_adjustActionWeights:
  "(x, w) \<in> set (adjustActionWeights ws self opp) \<longleftrightarrow>
     (\<exists>v. (x, v) \<in> set ws \<and> w = adjustActionWeight self opp x v)"
  by (auto simp: adjustActionWeights_def)

lemma set_adjustZoneWeights:
  "(x, w) \<in> set (adjustZoneWeights ws action self opp) \<longleftrightarrow>
     (\<exists>v. (x, v) \<in> set ws \<and> w = adjustZoneWeight action self opp x v)"
  by (auto simp: adjustZoneWeights_def)

lemma map_fst_adjust [simp]:
  "map fst (adjustActionWeights ws self opp) = map fst ws"
  "map fst (adjustZoneWeights zs action self opp) = map fst zs"
  by (auto simp: adjustActionWeights_def adjustZoneWeights_def)

definition npc_actions :: "action list" where
  "npc_actions = [ActionStrike, ActionGrapple, ActionBlock, ActionDodge, ActionCounter, ActionFeint,
     ActionBreak]"

lemma map_fst_base:
  "map fst (baseActionWeights s) = npc_actions"
  "map fst (baseZoneWeights a) = [ZoneHead, ZoneTorso, ZoneLegs]"
  by (cases s; simp add: npc_actions_def) (cases a; simp)

lemma adjustActionWeight_pos: "1 \<le> adjustActionWeight self opp a w"
  by (simp add: adjustActionWeight_def Let_def)

lemma adjustZoneWeight_pos: "1 \<le> adjustZoneWeight a self opp z w"
  by (simp add: adjustZoneWeight_def Let_def)

lemma adjustActionWeight_le: "adjustActionWeight self opp a w \<le> max 1 (w + 18)"
  by (simp add: adjustActionWeight_def Let_def)

lemma baseActionWeights_le: "(x, v) \<in> set (baseActionWeights s) \<Longrightarrow> 2 \<le> v \<and> v \<le> 34"
  by (cases s) auto

lemma baseZoneWeights_le: "(x, v) \<in> set (baseZoneWeights a) \<Longrightarrow> 15 \<le> v \<and> v \<le> 65"
  by (cases a) auto

lemma adjustZoneWeight_le: "1 \<le> w \<Longrightarrow> adjustZoneWeight a self opp z w \<le> w + 16"
  by (simp add: adjustZoneWeight_def Let_def split: zone.split)

lemma action_weight_bounds:
  assumes "(x, w) \<in> set (adjustActionWeights (baseActionWeights s) self opp)"
  shows "1 \<le> w \<and> w \<le> 52"
proof -
  from assms obtain v where v: "(x, v) \<in> set (baseActionWeights s)" "w = adjustActionWeight self opp x v"
    by (auto simp: set_adjustActionWeights)
  with baseActionWeights_le [OF v(1)] adjustActionWeight_pos [of self opp x v]
    adjustActionWeight_le [of self opp x v]
  show ?thesis by simp
qed

lemma zone_weight_bounds:
  assumes "(z, w) \<in> set (adjustZoneWeights (baseZoneWeights x) x self opp)"
  shows "1 \<le> w \<and> w \<le> 81"
proof -
  from assms obtain v where v: "(z, v) \<in> set (baseZoneWeights x)" "w = adjustZoneWeight x self opp z v"
    by (auto simp: set_adjustZoneWeights)
  with baseZoneWeights_le [OF v(1)] adjustZoneWeight_pos [of x self opp z v]
    adjustZoneWeight_le [of v x self opp z]
  show ?thesis by simp
qed

lemma total_weight_bounds:
  "\<forall>(x, w) \<in> set ws. 1 \<le> w \<and> w \<le> b \<Longrightarrow>
     int (length ws) \<le> total_weight ws \<and> total_weight ws \<le> b * int (length ws)"
  by (induction ws) (auto simp: algebra_simps)

abbreviation action_weights :: "match_state \<Rightarrow> side \<Rightarrow> action_weight list" where
  "action_weights m a \<equiv> adjustActionWeights (baseActionWeights (ms_CombatState m))
     (fighter_at a m) (fighter_at (opponent a) m)"

abbreviation zone_weights :: "action \<Rightarrow> match_state \<Rightarrow> side \<Rightarrow> zone_weight list" where
  "zone_weights x m a \<equiv> adjustZoneWeights (baseZoneWeights x) x
     (fighter_at a m) (fighter_at (opponent a) m)"

lemma total_action_weights: "7 \<le> total_weight (action_weights m a) \<and> total_weight (action_weights m a) \<le> 364"
proof -
  have "\<forall>(x, w) \<in> set (action_weights m a). 1 \<le> w \<and> w \<le> 52"
    using action_weight_bounds by blast
  moreover have "length (action_weights m a) = 7"
    using arg_cong [OF map_fst_base(1), of length] by (simp add: adjustActionWeights_def npc_actions_def)
  ultimately show ?thesis using total_weight_bounds [of "action_weights m a" 52] by simp
qed

lemma total_zone_weights: "3 \<le> total_weight (zone_weights x m a) \<and> total_weight (zone_weights x m a) \<le> 243"
proof -
  have "\<forall>(z, w) \<in> set (zone_weights x m a). 1 \<le> w \<and> w \<le> 81"
    using zone_weight_bounds by blast
  moreover have "length (zone_weights x m a) = 3"
    using arg_cong [OF map_fst_base(2), of length] by (simp add: adjustZoneWeights_def)
  ultimately show ?thesis using total_weight_bounds [of "zone_weights x m a" 81] by simp
qed

section \<open>What a bounded source makes of it\<close>

context bounded_source
begin

lemma chooseAction_active:
  assumes "chooseAction next_int (action_weights m a) r = (x, r')"
  shows "x \<in> set npc_actions"
proof -
  let ?ws = "action_weights m a"
  obtain v r1 where draw: "next_int r (total_weight ?ws) = (v, r1)" by (cases "next_int r (total_weight ?ws)")
  have "0 \<le> v" "v < total_weight ?ws"
    using draw_bounds [OF draw] total_action_weights [of m a] by (simp_all add: int64_ok_def)
  moreover from this have "x = pick_weight ?ws v (fst (last ?ws))"
    using assms draw by (simp add: chooseAction_def Let_def)
  ultimately have "x \<in> fst ` set ?ws" using pick_weight_mem by simp
  then show ?thesis using map_fst_base(1) [of "ms_CombatState m"] map_fst_adjust(1)
    by (metis list.set_map)
qed

lemma chooseZone_valid:
  assumes "chooseZone next_int (zone_weights x m a) r = (z, r')"
  shows "valid_zone z"
proof -
  let ?ws = "zone_weights x m a"
  obtain v r1 where draw: "next_int r (total_weight ?ws) = (v, r1)" by (cases "next_int r (total_weight ?ws)")
  have "0 \<le> v" "v < total_weight ?ws"
    using draw_bounds [OF draw] total_zone_weights [of x a m] by (simp_all add: int64_ok_def)
  moreover from this have "z = pick_weight ?ws v (fst (last ?ws))"
    using assms draw by (simp add: chooseZone_def Let_def)
  ultimately have "z \<in> fst ` set ?ws" using pick_weight_mem by simp
  then have "z \<in> set [ZoneHead, ZoneTorso, ZoneLegs]"
    using map_fst_base(2) [of x] map_fst_adjust(2) by (metis list.set_map)
  then show ?thesis by (auto simp: valid_zone_def)
qed

lemma decide_awake_result:
  assumes "decide_awake next_int m a r = (inp, r')"
  shows "ti_PlayerID inp = fs_PlayerID (fighter_at a m) \<and> ti_Action inp \<in> set npc_actions
    \<and> valid_zone (ti_Target inp) \<and> ti_DecisionMS inp = 0"
proof -
  obtain x r1 where x: "chooseAction next_int (action_weights m a) r = (x, r1)"
    by (cases "chooseAction next_int (action_weights m a) r")
  note act = chooseAction_active [OF x]
  then have "x \<noteq> ActionNone" by (auto simp: npc_actions_def)
  moreover obtain z r2 where z: "chooseZone next_int (zone_weights x m a) r1 = (z, r2)"
    by (cases "chooseZone next_int (zone_weights x m a) r1")
  ultimately show ?thesis
    using assms x act chooseZone_valid [OF z] by (auto simp: decide_awake_def Let_def)
qed

end

section \<open>Properties\<close>

definition is_stunned :: "fighter_state \<Rightarrow> bool" where
  "is_stunned f \<longleftrightarrow> fs_State f = StateStunned \<or> StunnedFor (fs_Effects f) > 0"

lemma Decide_cases:
  assumes "players_ok m"
  shows "Decide next_int m (fs_PlayerID (fighter_at a m)) (Some r) =
    (if is_stunned (fighter_at a m)
     then (Inr \<lparr>ti_PlayerID = fs_PlayerID (fighter_at a m), ti_Action = ActionNone,
         ti_Target = ZoneTorso, ti_DecisionMS = 0\<rparr>, Some r)
     else (Inr (fst (decide_awake next_int m a r)), Some (snd (decide_awake next_int m a r))))"
proof -
  have "npcFightersByID m (fs_PlayerID (fighter_at a m)) = Inr a"
    using assms by (cases a) (auto simp: npcFightersByID_def players_ok_def)
  moreover have "fs_PlayerID (fighter_at a m) \<noteq> ''''"
    using assms by (cases a) (auto simp: players_ok_def)
  ultimately show ?thesis
    by (simp add: Decide_def Let_def is_stunned_def split_beta)
qed

text \<open>
  For a fighter of the match the engine always decides, and decides something the resolver
  accepts as it is: an input under the fighter's own id, aimed at a real zone. A stunned fighter
  does nothing, and draws nothing; any other one takes one of the seven actions.
\<close>

theorem Decide_valid_input:
  assumes "players_ok m"
  shows "\<exists>inp r'. Decide NextInt m (fs_PlayerID (fighter_at a m)) (Some r) = (Inr inp, Some r')
    \<and> ti_PlayerID inp = fs_PlayerID (fighter_at a m) \<and> valid_zone (ti_Target inp)
    \<and> (if is_stunned (fighter_at a m) then ti_Action inp = ActionNone \<and> r' = r
       else ti_Action inp \<in> set npc_actions)"
proof -
  obtain inp r' where d: "decide_awake NextInt m a r = (inp, r')" by (cases "decide_awake NextInt m a r")
  show ?thesis
    using Decide_cases [OF assms, of NextInt a r] det.decide_awake_result [OF d]
    by (auto simp: d valid_zone_def)
qed

lemma Decide_valid_input_witness:
  "\<exists>inp r'. Decide NextInt demo_match ''bo'' (Some demo_rng) = (Inr inp, Some r')
     \<and> ti_PlayerID inp = ''bo'' \<and> ti_Action inp \<in> set npc_actions"
  using Decide_valid_input [OF demo_ok(2), of SideP2 demo_rng]
  by (auto simp: is_stunned_def no_effects_def)

text \<open>
  The draw is fair to the weights. In every position and for every action of the engine's
  table, the number of rolls that choose the action is exactly its adjusted weight, which is at
  least 1 and at most 52; so every action keeps a chance of being chosen.
\<close>

theorem action_choice_follows_weights:
  assumes "(x, w) \<in> set (adjustActionWeights (baseActionWeights s) self opp)"
  defines "weights \<equiv> adjustActionWeights (baseActionWeights s) self opp"
  shows "1 \<le> w \<and> w \<le> 52
    \<and> int (card {roll. 0 \<le> roll \<and> roll < total_weight weights
        \<and> pick_weight weights roll (fst (last weights)) = x}) = w"
proof -
  have mem: "(x, w) \<in> set weights" and bounds: "1 \<le> w \<and> w \<le> 52"
    using assms(1) action_weight_bounds [OF assms(1)] by (simp_all add: weights_def)
  have "\<forall>(x, w) \<in> set weights. 0 \<le> w"
    unfolding weights_def using action_weight_bounds by fastforce
  moreover have "distinct (map fst weights)"
    unfolding weights_def map_fst_adjust map_fst_base by (simp add: npc_actions_def)
  ultimately show ?thesis using bounds pick_weight_count [OF _ _ mem] by simp
qed

lemma action_choice_follows_weights_witness:
  "int (card {roll. 0 \<le> roll \<and> roll < total_weight (action_weights demo_match SideP1)
      \<and> pick_weight (action_weights demo_match SideP1) roll ActionBreak = ActionStrike}) = 34"
  using action_choice_follows_weights [of ActionStrike 34 StateNeutral
      "ms_P1 demo_match" "ms_P2 demo_match"]
  by (simp add: adjustActionWeights_def adjustActionWeight_def)

text \<open>
  Two engines always give the resolver a turn it can play: in a running match between two
  distinct players their two decisions are resolved without an error.
\<close>

theorem two_npcs_make_a_turn:
  assumes "players_ok m" and "\<not> mo_Finished (ms_Outcome m)"
    and "Decide NextInt m (fs_PlayerID (ms_P1 m)) (Some r1) = (Inr i1, r1')"
    and "Decide NextInt m (fs_PlayerID (ms_P2 m)) (Some r2) = (Inr i2, r2')"
  shows "\<exists>res r'. ResolveTurn det_source m [i1, i2] r = (Inr res, r')"
proof -
  have "ti_PlayerID i1 = fs_PlayerID (ms_P1 m)" "ti_PlayerID i2 = fs_PlayerID (ms_P2 m)"
    using assms(3,4) Decide_cases [OF assms(1), of NextInt SideP1 r1]
      Decide_cases [OF assms(1), of NextInt SideP2 r2]
      det.decide_awake_result [OF prod.collapse [symmetric], of m SideP1 r1]
      det.decide_awake_result [OF prod.collapse [symmetric], of m SideP2 r2]
    by (auto split: if_splits)
  with assms(1,2) show ?thesis
    unfolding ResolveTurn_ok_iff by (auto simp: inputs_ok_def player_ids_def players_ok_def)
qed

lemma two_npcs_make_a_turn_witness:
  "\<exists>i1 i2 res r'. ResolveTurn det_source demo_match [i1, i2] demo_rng = (Inr res, r')"
proof -
  obtain i1 r1 i2 r2 where "Decide NextInt demo_match ''ana'' (Some demo_rng) = (Inr i1, r1)"
    "Decide NextInt demo_match ''bo'' (Some demo_rng) = (Inr i2, r2)"
    using Decide_cases [OF demo_ok(2), of NextInt SideP1 demo_rng]
      Decide_cases [OF demo_ok(2), of NextInt SideP2 demo_rng]
    by (auto split: if_splits)
  with two_npcs_make_a_turn [OF demo_ok(2,1), of demo_rng i1 r1 demo_rng i2 r2 demo_rng]
  show ?thesis by auto
qed

end
