(* ===== verification/Lobby.thy ===== *)
theory Lobby
  imports Prelude CombatTypes "HOL-Library.AList" "HOL-Library.Multiset" "HOL-Library.Sublist"
begin

text \<open>
  The lobby of \<^verbatim>\<open>internal/lobby/service.go\<close>: registered sessions and the queue of players waiting
  for an opponent, with the time each joined. Every operation runs under the service's lock, so an
  operation is one atomic step of the state \<open>lobby_state\<close>. The two Go maps whose sizes and values
  \<^verbatim>\<open>Snapshot\<close> reads are association lists with distinct keys.

  The abstract view of the lobby is the list of waiting players with their joining times, oldest
  first (\<open>waiting\<close>); \<open>Lobby_refines\<close> says what every operation does to it. The locale
  \<open>pairing_queue\<close> is the interface \<^verbatim>\<open>queueLobby\<close> the matchmaker is written against.

  A \<^verbatim>\<open>time.Time\<close> is a number of nanoseconds, the zero time is 0, and the clock reading of an
  operation that calls \<^verbatim>\<open>time.Now\<close> is its argument \<open>clock\<close>. \<^verbatim>\<open>Time.Sub\<close> saturates.
\<close>

section \<open>Time and sessions\<close>

type_synonym time = int
type_synonym duration = int

definition IsZero :: "time \<Rightarrow> bool" where
  "IsZero t \<longleftrightarrow> t = 0"

definition time_sub :: "time \<Rightarrow> time \<Rightarrow> duration" where
  "time_sub t u = max (- (2 ^ 63)) (min (2 ^ 63 - 1) (t - u))"

text \<open>The data of a session; its two channels belong to the models of the code that uses them.\<close>

record session =
  se_PlayerID :: string
  se_Handle :: string
  se_RemoteAddr :: string

record lobby_snapshot =
  Online :: int
  InQueue :: int
  Players :: "string list"

datatype lobby_error = ErrPlayerIDRequired | ErrHandleRequired
  | ErrAlreadyRegistered string | ErrNotRegistered string

section \<open>The service\<close>

record lobby_state =
  lo_sessions :: "(string \<times> session) list"
  lo_queuedAt :: "(string \<times> time) list"
  lo_queue :: "string list"

definition NewLobby :: lobby_state where
  "NewLobby = \<lparr>lo_sessions = [], lo_queuedAt = [], lo_queue = []\<rparr>"

definition Register :: "session \<Rightarrow> lobby_state \<Rightarrow> lobby_error option \<times> lobby_state" where
  "Register sess s =
     (if se_PlayerID sess = '''' then (Some ErrPlayerIDRequired, s)
      else if se_Handle sess = '''' then (Some ErrHandleRequired, s)
      else if map_of (lo_sessions s) (se_PlayerID sess) \<noteq> None
        then (Some (ErrAlreadyRegistered (se_PlayerID sess)), s)
      else (None, s\<lparr>lo_sessions := AList.update (se_PlayerID sess) sess (lo_sessions s)\<rparr>))"

definition removeQueueLocked :: "string \<Rightarrow> lobby_state \<Rightarrow> lobby_state" where
  "removeQueueLocked playerID s =
     (if map_of (lo_queuedAt s) playerID = None then s
      else s\<lparr>lo_queuedAt := AList.delete playerID (lo_queuedAt s),
        lo_queue := filter (\<lambda>queuedID. queuedID \<noteq> playerID) (lo_queue s)\<rparr>)"

definition Unregister :: "string \<Rightarrow> lobby_state \<Rightarrow> lobby_state" where
  "Unregister playerID s =
     removeQueueLocked playerID (s\<lparr>lo_sessions := AList.delete playerID (lo_sessions s)\<rparr>)"

definition JoinQueue :: "time \<Rightarrow> string \<Rightarrow> lobby_state \<Rightarrow> lobby_error option \<times> lobby_state" where
  "JoinQueue clock playerID s =
     (if map_of (lo_sessions s) playerID = None then (Some (ErrNotRegistered playerID), s)
      else if map_of (lo_queuedAt s) playerID \<noteq> None then (None, s)
      else (None, s\<lparr>lo_queue := lo_queue s @ [playerID],
        lo_queuedAt := AList.update playerID clock (lo_queuedAt s)\<rparr>))"

definition LeaveQueue :: "string \<Rightarrow> lobby_state \<Rightarrow> lobby_error option \<times> lobby_state" where
  "LeaveQueue playerID s =
     (if map_of (lo_sessions s) playerID = None then (Some (ErrNotRegistered playerID), s)
      else (None, removeQueueLocked playerID s))"

definition LobbySnapshot :: "lobby_state \<Rightarrow> lobby_snapshot" where
  "LobbySnapshot s = \<lparr>Online = int (length (lo_sessions s)), InQueue = int (length (lo_queuedAt s)),
     Players = sort (map (\<lambda>(pid, sess). se_Handle sess) (lo_sessions s))\<rparr>"

text \<open>The loop of \<^verbatim>\<open>PopNextPair\<close> that drops the timed-out entries.\<close>

fun drop_timed_out :: "time \<Rightarrow> duration \<Rightarrow> string list \<Rightarrow> (string \<times> time) list
    \<Rightarrow> string list \<times> (string \<times> time) list \<times> string list" where
  "drop_timed_out now queueTimeout [] queuedAt = ([], queuedAt, [])"
| "drop_timed_out now queueTimeout (playerID # queue) queuedAt =
     (case map_of queuedAt playerID of
        None \<Rightarrow> drop_timed_out now queueTimeout queue queuedAt
      | Some enqueuedAt \<Rightarrow>
          if time_sub now enqueuedAt \<ge> queueTimeout
          then let (filtered, queuedAt, timedOut) =
              drop_timed_out now queueTimeout queue (AList.delete playerID queuedAt)
            in (filtered, queuedAt, playerID # timedOut)
          else let (filtered, queuedAt, timedOut) = drop_timed_out now queueTimeout queue queuedAt
            in (playerID # filtered, queuedAt, timedOut))"

definition PopNextPair :: "time \<Rightarrow> time \<Rightarrow> duration \<Rightarrow> lobby_state
    \<Rightarrow> ((string \<times> string) option \<times> string list) \<times> lobby_state" where
  "PopNextPair clock now queueTimeout s =
     (let now = (if IsZero now then clock else now);
          (s, timedOut) = (if queueTimeout > 0
            then let (filtered, queuedAt, timedOut) =
                drop_timed_out now queueTimeout (lo_queue s) (lo_queuedAt s)
              in (s\<lparr>lo_queue := filtered, lo_queuedAt := queuedAt\<rparr>, timedOut)
            else (s, []))
      in case lo_queue s of
          a # b # rest \<Rightarrow> ((Some (a, b), timedOut),
            s\<lparr>lo_queue := rest, lo_queuedAt := AList.delete b (AList.delete a (lo_queuedAt s))\<rparr>)
        | _ \<Rightarrow> ((None, timedOut), s))"

definition GetSession :: "string \<Rightarrow> lobby_state \<Rightarrow> session option" where
  "GetSession playerID s = map_of (lo_sessions s) playerID"

fun queue_index :: "string \<Rightarrow> string list \<Rightarrow> int \<Rightarrow> int" where
  "queue_index playerID [] idx = 0"
| "queue_index playerID (queuedID # queue) idx =
     (if queuedID = playerID then idx + 1 else queue_index playerID queue (idx + 1))"

definition QueueStatus :: "time \<Rightarrow> string \<Rightarrow> time \<Rightarrow> lobby_state \<Rightarrow> bool \<times> int \<times> duration" where
  "QueueStatus clock playerID now s = (case map_of (lo_queuedAt s) playerID of
     None \<Rightarrow> (False, 0, 0)
   | Some joinedAt \<Rightarrow>
       (let now = (if IsZero now then clock else now);
            wait = time_sub now joinedAt
        in (True, queue_index playerID (lo_queue s) 0, if wait < 0 then 0 else wait)))"

section \<open>Well-formed lobbies and the waiting list\<close>

definition wf_lobby :: "lobby_state \<Rightarrow> bool" where
  "wf_lobby s \<longleftrightarrow> distinct (map fst (lo_sessions s)) \<and> distinct (map fst (lo_queuedAt s))
     \<and> distinct (lo_queue s) \<and> set (lo_queue s) = fst ` set (lo_queuedAt s)
     \<and> set (lo_queue s) \<subseteq> fst ` set (lo_sessions s)
     \<and> (\<forall>(pid, sess) \<in> set (lo_sessions s). pid = se_PlayerID sess \<and> pid \<noteq> '''' \<and> se_Handle sess \<noteq> '''')"

definition joined :: "lobby_state \<Rightarrow> string \<Rightarrow> time" where
  "joined s pid = go_lookup (map_of (lo_queuedAt s)) pid 0"

definition waiting :: "lobby_state \<Rightarrow> (string \<times> time) list" where
  "waiting s = map (\<lambda>pid. (pid, joined s pid)) (lo_queue s)"

definition expired :: "time \<Rightarrow> duration \<Rightarrow> string \<times> time \<Rightarrow> bool" where
  "expired now limit e \<longleftrightarrow> 0 < limit \<and> limit \<le> time_sub now (snd e)"

lemma map_fst_waiting [simp]: "map fst (waiting s) = lo_queue s"
  by (simp add: waiting_def o_def)

lemma wf_lobby_mem:
  assumes "wf_lobby s"
  shows "map_of (lo_queuedAt s) pid = None \<longleftrightarrow> pid \<notin> set (lo_queue s)"
    "map_of (lo_sessions s) pid = None \<Longrightarrow> pid \<notin> set (lo_queue s)"
  using assms by (auto simp: wf_lobby_def map_of_eq_None_iff)

lemma keys_dom: "fst ` set al = dom (map_of al)"
  by (simp add: dom_map_of_conv_image_fst)

section \<open>Dropping the timed-out entries\<close>

lemma drop_timed_out_eq:
  assumes "distinct q" and "set q \<subseteq> dom (map_of qa)" and "distinct (map fst qa)"
    and late: "late = (\<lambda>pid. limit \<le> time_sub now (go_lookup (map_of qa) pid 0))"
  shows "\<exists>qa'. drop_timed_out now limit q qa = (filter (\<lambda>pid. \<not> late pid) q, qa', filter late q)
    \<and> map_of qa' = (\<lambda>pid. if pid \<in> set q \<and> late pid then None else map_of qa pid)
    \<and> distinct (map fst qa')"
  using assms(1-3) unfolding late
proof (induction q arbitrary: qa)
  case Nil
  then show ?case by simp
next
  case (Cons p q)
  then obtain t where t: "map_of qa p = Some t" by auto
  show ?case
  proof (cases "limit \<le> time_sub now t")
    case True
    let ?qa = "AList.delete p qa"
    have same: "go_lookup (map_of ?qa) pid 0 = go_lookup (map_of qa) pid 0" if "pid \<in> set q" for pid
      using that Cons.prems(1) by (auto simp: go_lookup_def AList.delete_conv')
    have prems: "distinct q" "set q \<subseteq> dom (map_of ?qa)" "distinct (map fst ?qa)"
      using Cons.prems by (auto simp: AList.delete_conv' distinct_delete)
    from Cons.IH [OF this] obtain qa' where
      "drop_timed_out now limit q ?qa = (filter (\<lambda>pid. \<not> limit \<le> time_sub now (go_lookup (map_of qa) pid 0)) q,
         qa', filter (\<lambda>pid. limit \<le> time_sub now (go_lookup (map_of qa) pid 0)) q)"
      "map_of qa' = (\<lambda>pid. if pid \<in> set q \<and> limit \<le> time_sub now (go_lookup (map_of ?qa) pid 0)
         then None else map_of ?qa pid)" "distinct (map fst qa')"
      using same by (auto cong: filter_cong)
    with True t same Cons.prems(1) show ?thesis
      by (auto simp: AList.delete_conv' fun_eq_iff)
  next
    case False
    from Cons.prems have "distinct q" "set q \<subseteq> dom (map_of qa)" "distinct (map fst qa)" by auto
    from Cons.IH [OF this] False t show ?thesis
      by (auto simp: fun_eq_iff)
  qed
qed

section \<open>The abstract queue\<close>

text \<open>
  What each operation does to the list of waiting players: joining appends, leaving filters,
  popping drops the expired entries and takes the two oldest of the rest.
\<close>

definition spec_pop :: "time \<Rightarrow> duration \<Rightarrow> (string \<times> time) list
    \<Rightarrow> ((string \<times> string) option \<times> string list) \<times> (string \<times> time) list" where
  "spec_pop now limit w =
     (let live = filter (\<lambda>e. \<not> expired now limit e) w;
          out = map fst (filter (expired now limit) w)
      in case live of
          a # b # rest \<Rightarrow> ((Some (fst a, fst b), out), rest)
        | _ \<Rightarrow> ((None, out), live))"

lemma waiting_removeQueueLocked:
  assumes "wf_lobby s"
  shows "waiting (removeQueueLocked pid s) = filter (\<lambda>e. fst e \<noteq> pid) (waiting s)"
proof (cases "map_of (lo_queuedAt s) pid")
  case None
  then have "pid \<notin> set (lo_queue s)" using wf_lobby_mem [OF assms] by simp
  then have "filter (\<lambda>e. fst e \<noteq> pid) (waiting s) = waiting s"
    by (auto simp: waiting_def filter_id_conv)
  with None show ?thesis by (simp add: removeQueueLocked_def)
next
  case (Some t)
  then show ?thesis
    by (auto simp: removeQueueLocked_def waiting_def joined_def go_lookup_def AList.delete_conv'
        filter_map o_def)
qed

lemma wf_removeQueueLocked:
  assumes "wf_lobby s"
  shows "wf_lobby (removeQueueLocked pid s)"
  using assms unfolding wf_lobby_def keys_dom
  by (auto simp: removeQueueLocked_def AList.delete_conv' distinct_delete)

lemma set_delete_subset: "e \<in> set (AList.delete k al) \<Longrightarrow> e \<in> set al"
  by (simp add: AList.delete_eq)

lemma wf_Unregister:
  assumes "wf_lobby s"
  shows "wf_lobby (Unregister pid s)"
proof -
  let ?s = "removeQueueLocked pid s"
  have "wf_lobby ?s" by (rule wf_removeQueueLocked [OF assms])
  moreover have "pid \<notin> set (lo_queue ?s)"
    using wf_lobby_mem(1) [OF assms] by (auto simp: removeQueueLocked_def)
  moreover have "Unregister pid s = ?s\<lparr>lo_sessions := AList.delete pid (lo_sessions ?s)\<rparr>"
    by (simp add: Unregister_def removeQueueLocked_def)
  ultimately show ?thesis
    unfolding wf_lobby_def keys_dom
    by (auto simp: AList.delete_conv' distinct_delete dest!: set_delete_subset)
qed

lemma waiting_Unregister:
  "wf_lobby s \<Longrightarrow> waiting (Unregister pid s) = filter (\<lambda>e. fst e \<noteq> pid) (waiting s)"
  using waiting_removeQueueLocked [of s pid]
  by (cases "map_of (lo_queuedAt s) pid")
    (simp_all add: Unregister_def removeQueueLocked_def waiting_def joined_def)

lemma set_update_subset: "e \<in> set (AList.update k v al) \<Longrightarrow> e = (k, v) \<or> e \<in> set al"
  by (induction al) (auto split: if_splits)

lemma wf_Register: "wf_lobby s \<Longrightarrow> wf_lobby (snd (Register sess s))"
  unfolding wf_lobby_def keys_dom
  by (auto simp: Register_def AList.update_conv' distinct_update dest!: set_update_subset)

lemma waiting_Register: "waiting (snd (Register sess s)) = waiting s"
  by (simp add: Register_def waiting_def joined_def)

lemma wf_JoinQueue: "wf_lobby s \<Longrightarrow> wf_lobby (snd (JoinQueue clock pid s))"
  unfolding wf_lobby_def keys_dom
  by (auto simp: JoinQueue_def AList.update_conv' distinct_update)

lemma waiting_JoinQueue:
  assumes "wf_lobby s"
  shows "waiting (snd (JoinQueue clock pid s)) =
    (if GetSession pid s \<noteq> None \<and> pid \<notin> fst ` set (waiting s) then waiting s @ [(pid, clock)] else waiting s)"
proof -
  have queued: "fst ` set (waiting s) = set (lo_queue s)" by (metis list.set_map map_fst_waiting)
  show ?thesis
  proof (cases "map_of (lo_queuedAt s) pid = None")
    case True
    then have "pid \<notin> set (lo_queue s)" using wf_lobby_mem(1) [OF assms] by simp
    then have "map (\<lambda>p. (p, joined (s\<lparr>lo_queue := lo_queue s @ [pid],
        lo_queuedAt := AList.update pid clock (lo_queuedAt s)\<rparr>) p)) (lo_queue s) = waiting s"
      by (auto simp: waiting_def joined_def AList.update_conv' go_lookup_def)
    with True queued \<open>pid \<notin> set (lo_queue s)\<close> show ?thesis
      by (auto simp: JoinQueue_def GetSession_def waiting_def joined_def AList.update_conv' go_lookup_def)
  next
    case False
    then have "pid \<in> set (lo_queue s)" using wf_lobby_mem(1) [OF assms, of pid] by simp
    with False queued show ?thesis by (simp add: JoinQueue_def)
  qed
qed

lemma wf_LeaveQueue: "wf_lobby s \<Longrightarrow> wf_lobby (snd (LeaveQueue pid s))"
  by (simp add: LeaveQueue_def wf_removeQueueLocked)

lemma waiting_LeaveQueue:
  "wf_lobby s \<Longrightarrow> waiting (snd (LeaveQueue pid s)) = filter (\<lambda>e. fst e \<noteq> pid) (waiting s)"
proof (cases "map_of (lo_sessions s) pid = None")
  case True
  assume wf: "wf_lobby s"
  with True have "pid \<notin> set (lo_queue s)" using wf_lobby_mem(2) by blast
  then have "filter (\<lambda>e. fst e \<noteq> pid) (waiting s) = waiting s"
    by (auto simp: waiting_def filter_id_conv)
  with True show ?thesis by (simp add: LeaveQueue_def)
qed (auto simp: LeaveQueue_def waiting_removeQueueLocked)

text \<open>The first half of \<^verbatim>\<open>PopNextPair\<close>: the lobby after the timed-out entries are dropped.\<close>

lemma pop_prune:
  assumes "wf_lobby s" "0 < limit"
  obtains qa' where "drop_timed_out now limit (lo_queue s) (lo_queuedAt s) =
      (map fst (filter (\<lambda>e. \<not> expired now limit e) (waiting s)), qa',
       map fst (filter (expired now limit) (waiting s)))"
    "wf_lobby (s\<lparr>lo_queue := map fst (filter (\<lambda>e. \<not> expired now limit e) (waiting s)), lo_queuedAt := qa'\<rparr>)"
    "waiting (s\<lparr>lo_queue := map fst (filter (\<lambda>e. \<not> expired now limit e) (waiting s)), lo_queuedAt := qa'\<rparr>)
      = filter (\<lambda>e. \<not> expired now limit e) (waiting s)"
proof -
  let ?late = "\<lambda>pid. limit \<le> time_sub now (go_lookup (map_of (lo_queuedAt s)) pid 0)"
  have dom: "set (lo_queue s) = dom (map_of (lo_queuedAt s))" "distinct (lo_queue s)"
    "distinct (map fst (lo_queuedAt s))"
    using assms(1) by (simp_all add: wf_lobby_def keys_dom)
  obtain qa' where qa': "drop_timed_out now limit (lo_queue s) (lo_queuedAt s) =
      (filter (\<lambda>pid. \<not> ?late pid) (lo_queue s), qa', filter ?late (lo_queue s))"
    "map_of qa' = (\<lambda>pid. if pid \<in> set (lo_queue s) \<and> ?late pid then None else map_of (lo_queuedAt s) pid)"
    "distinct (map fst qa')"
    using drop_timed_out_eq [OF dom(2) _ dom(3) refl, of now limit] dom(1) by auto
  have late: "map fst (filter (expired now limit) (waiting s)) = filter ?late (lo_queue s)"
    "map fst (filter (\<lambda>e. \<not> expired now limit e) (waiting s)) = filter (\<lambda>pid. \<not> ?late pid) (lo_queue s)"
    using assms(2) by (simp_all add: waiting_def filter_map o_def expired_def joined_def)
  let ?s' = "s\<lparr>lo_queue := filter (\<lambda>pid. \<not> ?late pid) (lo_queue s), lo_queuedAt := qa'\<rparr>"
  have wf: "wf_lobby ?s'"
    using assms(1) dom qa'(2,3) unfolding wf_lobby_def keys_dom by (auto split: if_splits)
  have wait: "waiting ?s' = filter (\<lambda>e. \<not> expired now limit e) (waiting s)"
    using assms(2) dom(1) qa'(2)
    by (auto simp: waiting_def filter_map o_def expired_def joined_def go_lookup_def intro!: map_cong)
  from that [of qa'] qa'(1) wf wait show thesis unfolding late by blast
qed

lemma pop_front:
  assumes "wf_lobby s" "lo_queue s = a # b # rest"
  defines "s' \<equiv> s\<lparr>lo_queue := rest, lo_queuedAt := AList.delete b (AList.delete a (lo_queuedAt s))\<rparr>"
  shows "wf_lobby s'" "\<exists>ta tb. waiting s = (a, ta) # (b, tb) # waiting s'" "a \<noteq> b"
proof -
  have fresh: "a \<noteq> b" "a \<notin> set rest" "b \<notin> set rest"
    using assms(1,2) by (auto simp: wf_lobby_def)
  then show "a \<noteq> b" by simp
  show "wf_lobby s'"
    using assms(1,2) fresh unfolding wf_lobby_def keys_dom s'_def
    by (auto simp: AList.delete_conv' distinct_delete)
  have "map (\<lambda>pid. (pid, joined s pid)) rest = map (\<lambda>pid. (pid, joined s' pid)) rest"
    using fresh by (auto simp: s'_def joined_def go_lookup_def AList.delete_conv')
  with assms(2) show "\<exists>ta tb. waiting s = (a, ta) # (b, tb) # waiting s'"
    by (simp add: waiting_def) (simp add: s'_def)
qed

lemma PopNextPair_spec:
  assumes "wf_lobby s" "PopNextPair clock now limit s = (res, s')"
  shows "wf_lobby s'" "spec_pop (if IsZero now then clock else now) limit (waiting s) = (res, waiting s')"
    "lo_sessions s' = lo_sessions s"
proof -
  let ?now = "if IsZero now then clock else now"
  let ?live = "filter (\<lambda>e. \<not> expired ?now limit e) (waiting s)"
  let ?out = "map fst (filter (expired ?now limit) (waiting s))"
  obtain s1 where s1: "wf_lobby s1" "waiting s1 = ?live" "lo_sessions s1 = lo_sessions s"
    "PopNextPair clock now limit s = (case lo_queue s1 of
          a # b # rest \<Rightarrow> ((Some (a, b), ?out),
            s1\<lparr>lo_queue := rest, lo_queuedAt := AList.delete b (AList.delete a (lo_queuedAt s1))\<rparr>)
        | _ \<Rightarrow> ((None, ?out), s1))"
  proof (cases "0 < limit")
    case True
    then obtain qa' where qa': "drop_timed_out ?now limit (lo_queue s) (lo_queuedAt s) = (map fst ?live, qa', ?out)"
      "wf_lobby (s\<lparr>lo_queue := map fst ?live, lo_queuedAt := qa'\<rparr>)"
      "waiting (s\<lparr>lo_queue := map fst ?live, lo_queuedAt := qa'\<rparr>) = ?live"
      by (rule pop_prune [OF assms(1)])
    from qa' True show thesis
      by (intro that [of "s\<lparr>lo_queue := map fst ?live, lo_queuedAt := qa'\<rparr>"]) (simp_all add: PopNextPair_def Let_def)
  next
    case False
    then have none: "expired (if IsZero now then clock else now) limit = (\<lambda>e. False)"
      by (auto simp: expired_def fun_eq_iff)
    have empty: "?out = []" "?live = waiting s" unfolding none by simp_all
    show thesis
    proof (rule that [of s])
      show "wf_lobby s" "lo_sessions s = lo_sessions s" using assms(1) by simp_all
      show "waiting s = ?live" by (simp only: empty)
      show "PopNextPair clock now limit s = (case lo_queue s of
          a # b # rest \<Rightarrow> ((Some (a, b), ?out),
            s\<lparr>lo_queue := rest, lo_queuedAt := AList.delete b (AList.delete a (lo_queuedAt s))\<rparr>)
        | _ \<Rightarrow> ((None, ?out), s))"
        unfolding empty using False by (simp add: PopNextPair_def Let_def)
    qed
  qed
  have q: "lo_queue s1 = map fst ?live" by (simp flip: s1(2))
  show "wf_lobby s'" "spec_pop ?now limit (waiting s) = (res, waiting s')" "lo_sessions s' = lo_sessions s"
  proof -
    consider "length (lo_queue s1) < 2" | a b rest where "lo_queue s1 = a # b # rest"
      by (metis One_nat_def Suc_1 length_Cons less_Suc_eq list.exhaust list.size(3) zero_less_Suc)
    then have "wf_lobby s' \<and> spec_pop ?now limit (waiting s) = (res, waiting s') \<and> lo_sessions s' = lo_sessions s"
    proof cases
      case 1
      then have run: "PopNextPair clock now limit s = ((None, ?out), s1)"
        unfolding s1(4) by (cases "lo_queue s1" rule: remdups_adj.cases) simp_all
      have "length ?live < 2" using 1 arg_cong [OF q, of length] by simp
      then have "spec_pop ?now limit (waiting s) = ((None, ?out), ?live)"
        unfolding spec_pop_def Let_def by (cases ?live rule: remdups_adj.cases) simp_all
      with run assms(2) s1(1-3) show ?thesis by simp
    next
      case (2 a b rest)
      from pop_front [OF s1(1) 2] obtain ta tb where
        "?live = (a, ta) # (b, tb) # waiting (s1\<lparr>lo_queue := rest,
           lo_queuedAt := AList.delete b (AList.delete a (lo_queuedAt s1))\<rparr>)"
        unfolding s1(2) by blast
      with pop_front(1) [OF s1(1) 2] assms(2) s1(3,4) 2 show ?thesis
        by (auto simp: spec_pop_def Let_def)
    qed
    then show "wf_lobby s'" "spec_pop ?now limit (waiting s) = (res, waiting s')" "lo_sessions s' = lo_sessions s"
      by blast+
  qed
qed

section \<open>The interface of the matchmaker\<close>

text \<open>
  What the matchmaker relies on (the interface \<^verbatim>\<open>queueLobby\<close>): \<open>line\<close> reads the waiting ids off the
  state, oldest first.
\<close>

locale pairing_queue =
  fixes join :: "time \<Rightarrow> string \<Rightarrow> 's \<Rightarrow> lobby_error option \<times> 's"
    and leave :: "string \<Rightarrow> 's \<Rightarrow> lobby_error option \<times> 's"
    and pop :: "time \<Rightarrow> time \<Rightarrow> duration \<Rightarrow> 's \<Rightarrow> ((string \<times> string) option \<times> string list) \<times> 's"
    and session :: "string \<Rightarrow> 's \<Rightarrow> session option"
    and inv :: "'s \<Rightarrow> bool"
    and line :: "'s \<Rightarrow> string list"
  assumes join_inv: "inv s \<Longrightarrow> inv (snd (join t p s))"
    and join_line: "inv s \<Longrightarrow> line (snd (join t p s)) =
      (if session p s \<noteq> None \<and> p \<notin> set (line s) then line s @ [p] else line s)"
    and join_ok: "fst (join t p s) = None \<longleftrightarrow> session p s \<noteq> None"
    and leave_inv: "inv s \<Longrightarrow> inv (snd (leave p s))"
    and leave_line: "inv s \<Longrightarrow> line (snd (leave p s)) = filter (\<lambda>q. q \<noteq> p) (line s)"
    and pop_inv: "inv s \<Longrightarrow> inv (snd (pop t n l s))"
    and pop_line: "inv s \<Longrightarrow> pop t n l s = ((pair, out), s') \<Longrightarrow> \<exists>live. mset (line s) = mset out + mset live
      \<and> subseq live (line s) \<and> subseq out (line s)
      \<and> (case pair of None \<Rightarrow> line s' = live \<and> length live < 2 | Some (a, b) \<Rightarrow> live = a # b # line s')"
    and sessions_kept: "session p (snd (join t q s)) = session p s"
      "session p (snd (leave q s)) = session p s" "session p (snd (pop t n l s)) = session p s"
    and line_distinct: "inv s \<Longrightarrow> distinct (line s)"
    and line_named: "inv s \<Longrightarrow> p \<in> set (line s) \<Longrightarrow> p \<noteq> '''' \<and> session p s \<noteq> None"
begin

lemma pair_ok:
  assumes "inv s" "pop t n l s = ((Some (a, b), out), s')"
  shows "a \<noteq> b \<and> a \<noteq> '''' \<and> b \<noteq> '''' \<and> a \<in> set (line s) \<and> b \<in> set (line s)
    \<and> a \<notin> set (line s') \<and> b \<notin> set (line s') \<and> session a s \<noteq> None \<and> session b s \<noteq> None"
proof -
  from pop_line [OF assms] have m: "mset (line s) = mset out + mset (a # b # line s')" by auto
  have "distinct (out @ a # b # line s')"
    using line_distinct [OF assms(1)] mset_eq_imp_distinct_iff [of "line s" "out @ a # b # line s'"] m by simp
  moreover have "set (line s) = set (out @ a # b # line s')"
    using m by (metis mset_append mset_eq_setD)
  ultimately show ?thesis using line_named [OF assms(1)] by auto
qed

lemma pop_conserves:
  assumes "inv s" "pop t n l s = ((pair, out), s')"
  shows "mset (line s) = mset out + (case pair of None \<Rightarrow> {#} | Some (a, b) \<Rightarrow> {#a, b#}) + mset (line s')"
  using pop_line [OF assms] by (auto split: option.splits)

lemma pop_keeps_order:
  assumes "inv s" "pop t n l s = ((pair, out), s')"
  shows "subseq (line s') (line s)"
proof -
  from pop_line [OF assms] obtain live where live: "subseq live (line s)"
    "case pair of None \<Rightarrow> line s' = live \<and> length live < 2 | Some (a, b) \<Rightarrow> live = a # b # line s'" by blast
  then have "subseq (line s') live" by (auto split: option.splits intro: subseq_Cons')
  with live(1) show ?thesis by (rule subseq_order.trans [rotated])
qed

lemma pop_idle: "inv s \<Longrightarrow> pop t n l s = ((None, out), s') \<Longrightarrow> length (line s') < 2"
  by (drule (1) pop_line) auto

end

lemma PopNextPair_line:
  assumes "wf_lobby s" "PopNextPair t n l s = ((pair, out), s')"
  shows "\<exists>live. mset (lo_queue s) = mset out + mset live
    \<and> subseq live (lo_queue s) \<and> subseq out (lo_queue s)
    \<and> (case pair of None \<Rightarrow> lo_queue s' = live \<and> length live < 2 | Some (a, b) \<Rightarrow> live = a # b # lo_queue s')"
proof -
  let ?exp = "expired (if IsZero n then t else n) l"
  let ?live = "filter (\<lambda>e. \<not> ?exp e) (waiting s)"
  note spec = PopNextPair_spec(2) [OF assms]
  have out: "out = map fst (filter ?exp (waiting s))"
    using spec by (auto simp: spec_pop_def Let_def split: list.splits)
  have m: "mset (lo_queue s) = mset out + mset (map fst ?live)"
    unfolding out map_fst_waiting [symmetric, of s] mset_map
    by (metis image_mset_union mset_filter multiset_partition)
  have "subseq (map fst ?live) (lo_queue s)" "subseq out (lo_queue s)"
    unfolding out map_fst_waiting [symmetric, of s] by (rule subseq_map, rule subseq_filter_left)+
  moreover have "case pair of None \<Rightarrow> lo_queue s' = map fst ?live \<and> length (map fst ?live) < 2
      | Some (a, b) \<Rightarrow> map fst ?live = a # b # lo_queue s'"
    using spec unfolding map_fst_waiting [symmetric, of s']
    by (cases ?live rule: remdups_adj.cases)
      (auto simp: spec_pop_def Let_def simp del: map_fst_waiting dest: sym)
  ultimately show ?thesis using m by blast
qed

interpretation lobby: pairing_queue JoinQueue LeaveQueue PopNextPair GetSession wf_lobby lo_queue
proof unfold_locales
  fix s t p
  assume wf: "wf_lobby s"
  show "wf_lobby (snd (JoinQueue t p s))" by (rule wf_JoinQueue [OF wf])
  show "lo_queue (snd (JoinQueue t p s)) =
      (if GetSession p s \<noteq> None \<and> p \<notin> set (lo_queue s) then lo_queue s @ [p] else lo_queue s)"
    using arg_cong [OF waiting_JoinQueue [OF wf, of t p], of "map fst"]
    by (simp split: if_splits) (metis list.set_map map_fst_waiting)+
  show "wf_lobby (snd (LeaveQueue p s))" by (rule wf_LeaveQueue [OF wf])
  show "lo_queue (snd (LeaveQueue p s)) = filter (\<lambda>q. q \<noteq> p) (lo_queue s)"
    using arg_cong [OF waiting_LeaveQueue [OF wf, of p], of "map fst"]
    by (simp add: waiting_def filter_map o_def)
  show "distinct (lo_queue s)" using wf by (simp add: wf_lobby_def)
next
  fix s t n l
  assume "wf_lobby s"
  then show "wf_lobby (snd (PopNextPair t n l s))"
    using PopNextPair_spec(1) by (cases "PopNextPair t n l s") simp
next
  fix s p
  assume wf: "wf_lobby s" and p: "p \<in> set (lo_queue s)"
  from wf p have "p \<in> fst ` set (lo_sessions s)" by (auto simp: wf_lobby_def)
  then obtain sess where "(p, sess) \<in> set (lo_sessions s)" by force
  with wf show "p \<noteq> '''' \<and> GetSession p s \<noteq> None"
    unfolding wf_lobby_def GetSession_def by (auto simp: map_of_eq_None_iff image_iff)
next
  fix s t n l pair out s'
  assume "wf_lobby s" "PopNextPair t n l s = ((pair, out), s')"
  then show "\<exists>live. mset (lo_queue s) = mset out + mset live
      \<and> subseq live (lo_queue s) \<and> subseq out (lo_queue s)
      \<and> (case pair of None \<Rightarrow> lo_queue s' = live \<and> length live < 2 | Some (a, b) \<Rightarrow> live = a # b # lo_queue s')"
    by (rule PopNextPair_line)
next
  fix p q t n l s
  show "GetSession p (snd (JoinQueue t q s)) = GetSession p s"
    by (simp add: JoinQueue_def GetSession_def)
  show "GetSession p (snd (LeaveQueue q s)) = GetSession p s"
    by (simp add: LeaveQueue_def removeQueueLocked_def GetSession_def)
  show "GetSession p (snd (PopNextPair t n l s)) = GetSession p s"
    by (simp add: PopNextPair_def GetSession_def Let_def split: prod.split list.split)
  show "fst (JoinQueue t q s) = None \<longleftrightarrow> GetSession q s \<noteq> None"
    by (simp add: JoinQueue_def GetSession_def)
qed

section \<open>Properties\<close>

text \<open>
  Every operation of the lobby keeps it consistent: one session per id, one queue entry per
  waiting player, the queue and the joining times about the same players, and only registered
  players waiting.
\<close>

theorem lobby_stays_consistent:
  assumes "wf_lobby s"
  shows "wf_lobby (snd (Register sess s)) \<and> wf_lobby (Unregister pid s)
    \<and> wf_lobby (snd (JoinQueue clock pid s)) \<and> wf_lobby (snd (LeaveQueue pid s))
    \<and> wf_lobby (snd (PopNextPair clock now limit s))"
  using assms by (simp add: wf_Register wf_Unregister wf_JoinQueue wf_LeaveQueue lobby.pop_inv)

text \<open>
  C17: On the list of waiting players with their joining times, the operations are these:
  registering changes nothing, joining appends a registered player that is not waiting yet, with
  the current time, leaving and unregistering remove the player, and popping first drops the
  entries that have waited at least the limit and then takes the two that have waited longest.
\<close>

theorem lobby_refines_waiting_list:
  assumes "wf_lobby s"
  shows "waiting (snd (Register sess s)) = waiting s
    \<and> waiting (Unregister pid s) = filter (\<lambda>e. fst e \<noteq> pid) (waiting s)
    \<and> waiting (snd (JoinQueue clock pid s)) =
        (if GetSession pid s \<noteq> None \<and> pid \<notin> fst ` set (waiting s) then waiting s @ [(pid, clock)] else waiting s)
    \<and> waiting (snd (LeaveQueue pid s)) = filter (\<lambda>e. fst e \<noteq> pid) (waiting s)
    \<and> (fst (PopNextPair clock now limit s), waiting (snd (PopNextPair clock now limit s))) =
        spec_pop (if IsZero now then clock else now) limit (waiting s)"
proof -
  have "(fst (PopNextPair clock now limit s), waiting (snd (PopNextPair clock now limit s))) =
        spec_pop (if IsZero now then clock else now) limit (waiting s)"
    using PopNextPair_spec(2) [OF assms prod.collapse [symmetric]] by simp
  with assms show ?thesis
    by (simp only: waiting_Register waiting_Unregister waiting_JoinQueue waiting_LeaveQueue simp_thms)
qed

text \<open>
  Pairing loses nobody, duplicates nobody and lets nobody overtake: the players that timed
  out, the pair and the players still waiting are together exactly the players that were waiting;
  those still waiting keep their order; the two of a pair are different, named, registered players
  and no longer wait; and when no pair is returned fewer than two players are left.
\<close>

theorem PopNextPair_partitions_queue:
  assumes "wf_lobby s" and "PopNextPair clock now limit s = ((pair, out), s')"
  shows "mset (lo_queue s) = mset out + (case pair of None \<Rightarrow> {#} | Some (a, b) \<Rightarrow> {#a, b#}) + mset (lo_queue s')
    \<and> subseq (lo_queue s') (lo_queue s)
    \<and> (case pair of
        None \<Rightarrow> length (lo_queue s') < 2
      | Some (a, b) \<Rightarrow> a \<noteq> b \<and> a \<noteq> '''' \<and> b \<noteq> '''' \<and> GetSession a s \<noteq> None \<and> GetSession b s \<noteq> None
          \<and> a \<notin> set (lo_queue s') \<and> b \<notin> set (lo_queue s'))"
proof (cases pair)
  case None
  then show ?thesis
    using lobby.pop_conserves [OF assms] lobby.pop_keeps_order [OF assms] assms(2)
      lobby.pop_idle [OF assms(1)] by auto
next
  case (Some ab)
  obtain a b where ab: "ab = (a, b)" by (cases ab)
  with Some assms(2) have "PopNextPair clock now limit s = ((Some (a, b), out), s')" by simp
  from lobby.pair_ok [OF assms(1) this] lobby.pop_conserves [OF assms] lobby.pop_keeps_order [OF assms]
  show ?thesis by (simp add: Some ab)
qed

lemma queue_index_eq:
  "queue_index p q i = (if p \<in> set q then i + int (length (takeWhile (\<lambda>x. x \<noteq> p) q)) + 1 else 0)"
  by (induction q arbitrary: i) auto

text \<open>
  The queue status of a player is its place in the queue, counted from 1, and the time since it
  joined, never negative; a player that does not wait has place 0.
\<close>

theorem QueueStatus_position:
  assumes "wf_lobby s"
  shows "QueueStatus clock pid now s =
    (if pid \<in> set (lo_queue s)
     then (True, int (length (takeWhile (\<lambda>x. x \<noteq> pid) (lo_queue s))) + 1,
       max 0 (time_sub (if IsZero now then clock else now) (joined s pid)))
     else (False, 0, 0))"
proof (cases "map_of (lo_queuedAt s) pid")
  case None
  then show ?thesis using wf_lobby_mem(1) [OF assms, of pid] by (simp add: QueueStatus_def)
next
  case (Some t)
  then have "pid \<in> set (lo_queue s)" using wf_lobby_mem(1) [OF assms, of pid] by auto
  with Some show ?thesis
    by (simp add: QueueStatus_def queue_index_eq joined_def Let_def max_def)
qed

section \<open>A concrete lobby\<close>

definition demo_session :: "string \<Rightarrow> session" where
  "demo_session pid = \<lparr>se_PlayerID = pid, se_Handle = pid, se_RemoteAddr = ''10.0.0.1''\<rparr>"

definition demo_lobby :: lobby_state where
  "demo_lobby = \<lparr>lo_sessions = [(''a'', demo_session ''a''), (''b'', demo_session ''b''),
       (''c'', demo_session ''c''), (''d'', demo_session ''d'')],
     lo_queuedAt = [(''a'', 10), (''b'', 50), (''c'', 60)], lo_queue = [''a'', ''b'', ''c'']\<rparr>"

lemma demo_lobby_wf: "wf_lobby demo_lobby"
  by (auto simp: demo_lobby_def wf_lobby_def demo_session_def)

lemma lobby_stays_consistent_witness: "wf_lobby (snd (JoinQueue 70 ''d'' demo_lobby))"
  using lobby_stays_consistent [OF demo_lobby_wf, of _ _ 70] by blast

lemma lobby_refines_waiting_list_witness:
  "waiting (snd (JoinQueue 70 ''d'' demo_lobby)) = [(''a'', 10), (''b'', 50), (''c'', 60), (''d'', 70)]"
  using lobby_refines_waiting_list [OF demo_lobby_wf, of undefined "''d''" 70]
  by (simp add: demo_lobby_def waiting_def joined_def GetSession_def go_lookup_def)

lemma demo_pop:
  "PopNextPair 0 100 60 demo_lobby = ((Some (''b'', ''c''), [''a'']),
     demo_lobby\<lparr>lo_queue := [], lo_queuedAt := []\<rparr>)"
  by (simp add: PopNextPair_def demo_lobby_def IsZero_def time_sub_def Let_def)

lemma PopNextPair_partitions_queue_witness:
  "mset [''a'', ''b'', ''c''] = mset [''a''] + {#''b'', ''c''#}"
  using PopNextPair_partitions_queue [OF demo_lobby_wf demo_pop] by (simp add: demo_lobby_def)

lemma QueueStatus_position_witness: "QueueStatus 0 ''b'' 80 demo_lobby = (True, 2, 30)"
  using QueueStatus_position [OF demo_lobby_wf, of 0 "''b''" 80]
  by (simp add: demo_lobby_def joined_def go_lookup_def IsZero_def time_sub_def)

end
