(* ===== verification/TurnInputs.thy ===== *)
theory TurnInputs
  imports Npc Lobby
begin

text \<open>
  How the match loop of \<^verbatim>\<open>internal/matchmaking/service.go\<close> gets the two inputs of a turn:
  \<open>waitForTurnInput\<close> on a player's channel, the NPC engine for a slot under its control,
  \<open>resolveTurnInput\<close> with the takeover rules, and \<open>collectTurnInputs\<close> that puts them together.

  A \<^verbatim>\<open>select\<close> picks one ready case: what it picks, in order, is a list of \<open>wait_event\<close>s, and a list
  that ends before the wait is decided stands for a goroutine that still waits (\<open>None\<close>). The two
  waits run concurrently and the order in which their results arrive is a further argument.
\<close>

section \<open>Commands and results\<close>

datatype command_kind = CommandUnknown | CommandJoinQueue | CommandLeaveQueue | CommandAction
  | CommandSnapshot | CommandQuit | CommandWatch | CommandTutorialRetry | CommandOther nat

record command =
  cmd_Kind :: command_kind
  cmd_Action :: action
  cmd_Target :: zone
  cmd_ReceivedAt :: time

datatype turn_input_status = TurnInputAction | TurnInputTimeout | TurnInputDisconnect
  | TurnInputCanceled | TurnInputNPC

record turn_input_result =
  tir_playerID :: string
  tir_input :: turn_input
  tir_status :: turn_input_status

record 'r match_slot =
  sl_session :: session
  sl_npcControlled :: bool
  sl_timeoutStreak :: int
  sl_npcRNG :: "'r option"

abbreviation slot_id :: "'r match_slot \<Rightarrow> string" where
  "slot_id slot \<equiv> se_PlayerID (sl_session slot)"

text \<open>The interface \<^verbatim>\<open>npc.Engine\<close>; \<open>None\<close> is the nil engine.\<close>

type_synonym 'r npc_engine =
  "match_state \<Rightarrow> string \<Rightarrow> 'r option \<Rightarrow> (npc_error + turn_input) \<times> 'r option"

definition npcTakeoverTimeoutStreak :: int where "npcTakeoverTimeoutStreak = 2"

text \<open>The input of a player who does nothing, and the zero value of the type.\<close>

definition idle_input :: "string \<Rightarrow> turn_input" where
  "idle_input pid = \<lparr>ti_PlayerID = pid, ti_Action = ActionNone, ti_Target = ZoneTorso, ti_DecisionMS = 0\<rparr>"

definition zero_input :: turn_input where
  "zero_input = \<lparr>ti_PlayerID = '''', ti_Action = ActionNone, ti_Target = ZoneHead, ti_DecisionMS = 0\<rparr>"

section \<open>Waiting for a player\<close>

text \<open>
  What the wait sees, in the order in which the \<^verbatim>\<open>select\<close> takes it. When \<open>WaitTimeout\<close> comes, after the configured time or after five
  seconds when that is not positive, is up to the timer; the model has no clock of its own.
\<close>

datatype wait_event = WaitCanceled | WaitCommand command time | WaitClosed | WaitTimeout

definition Milliseconds :: "duration \<Rightarrow> int" where
  "Milliseconds d = d sdiv 1000000"

fun waitForTurnInput :: "session \<Rightarrow> wait_event list \<Rightarrow> turn_input_result option" where
  "waitForTurnInput sess [] = None"
| "waitForTurnInput sess (WaitCanceled # evs) = Some \<lparr>tir_playerID = se_PlayerID sess,
     tir_input = zero_input, tir_status = TurnInputCanceled\<rparr>"
| "waitForTurnInput sess (WaitClosed # evs) = Some \<lparr>tir_playerID = se_PlayerID sess,
     tir_input = idle_input (se_PlayerID sess), tir_status = TurnInputDisconnect\<rparr>"
| "waitForTurnInput sess (WaitTimeout # evs) = Some \<lparr>tir_playerID = se_PlayerID sess,
     tir_input = idle_input (se_PlayerID sess), tir_status = TurnInputTimeout\<rparr>"
| "waitForTurnInput sess (WaitCommand cmd now # evs) =
     (if cmd_Kind cmd = CommandAction then
        let decisionMS = Milliseconds (time_sub now (cmd_ReceivedAt cmd));
            decisionMS = (if decisionMS < 0 then 0 else decisionMS)
        in Some \<lparr>tir_playerID = se_PlayerID sess,
             tir_input = \<lparr>ti_PlayerID = se_PlayerID sess, ti_Action = cmd_Action cmd,
               ti_Target = cmd_Target cmd, ti_DecisionMS = decisionMS\<rparr>,
             tir_status = TurnInputAction\<rparr>
      else if cmd_Kind cmd = CommandQuit then
        Some \<lparr>tir_playerID = se_PlayerID sess, tir_input = idle_input (se_PlayerID sess),
          tir_status = TurnInputDisconnect\<rparr>
      else waitForTurnInput sess evs)"

section \<open>From a result to an input\<close>

definition normalizeTurnInput :: "turn_input \<Rightarrow> string \<Rightarrow> turn_input" where
  "normalizeTurnInput inp playerID =
     (let inp = (if ti_PlayerID inp = '''' then inp\<lparr>ti_PlayerID := playerID\<rparr> else inp);
          inp = (if ti_Target inp \<noteq> ZoneHead \<and> ti_Target inp \<noteq> ZoneTorso \<and> ti_Target inp \<noteq> ZoneLegs
            then inp\<lparr>ti_Target := ZoneTorso\<rparr> else inp)
      in if ti_Action inp \<in> {ActionNone, ActionStrike, ActionGrapple, ActionBlock, ActionDodge,
            ActionCounter, ActionFeint, ActionBreak}
         then inp else inp\<lparr>ti_Action := ActionNone\<rparr>)"

definition decideNPCInput :: "'r npc_engine option \<Rightarrow> match_state \<Rightarrow> string \<Rightarrow> 'r option
    \<Rightarrow> turn_input \<times> 'r option" where
  "decideNPCInput npcEngine state playerID rng = (case npcEngine of
     None \<Rightarrow> (idle_input playerID, rng)
   | Some decide \<Rightarrow> (case decide state playerID rng of
        (Inl err, rng') \<Rightarrow> (idle_input playerID, rng')
      | (Inr inp, rng') \<Rightarrow> (normalizeTurnInput inp playerID, rng')))"

text \<open>The slot is updated in place: the second component is the slot after the call.\<close>

definition slot_takeover :: "'r npc_engine option \<Rightarrow> match_state \<Rightarrow> 'r match_slot
    \<Rightarrow> turn_input \<times> 'r match_slot" where
  "slot_takeover npcEngine state slot =
     (let slot = slot\<lparr>sl_npcControlled := True, sl_timeoutStreak := 0\<rparr>;
          (inp, rng) = decideNPCInput npcEngine state (slot_id slot) (sl_npcRNG slot)
      in (inp, slot\<lparr>sl_npcRNG := rng\<rparr>))"

definition resolveTurnInput :: "'r npc_engine option \<Rightarrow> match_state \<Rightarrow> 'r match_slot
    \<Rightarrow> turn_input_result \<Rightarrow> turn_input \<times> string \<times> 'r match_slot" where
  "resolveTurnInput npcEngine state slot result =
     (let inp = normalizeTurnInput (tir_input result) (slot_id slot) in
      case tir_status result of
        TurnInputNPC \<Rightarrow> (inp, '''', slot\<lparr>sl_npcControlled := True, sl_timeoutStreak := 0\<rparr>)
      | TurnInputAction \<Rightarrow> (inp, '''', slot\<lparr>sl_timeoutStreak := 0\<rparr>)
      | TurnInputTimeout \<Rightarrow>
          let slot = slot\<lparr>sl_timeoutStreak := sl_timeoutStreak slot + 1\<rparr> in
          if sl_timeoutStreak slot \<ge> npcTakeoverTimeoutStreak
          then let (inp, slot) = slot_takeover npcEngine state slot in (inp, ''timeout'', slot)
          else (inp, '''', slot)
      | TurnInputDisconnect \<Rightarrow>
          let (inp, slot) = slot_takeover npcEngine state slot in (inp, ''disconnect'', slot)
      | _ \<Rightarrow> (idle_input (slot_id slot), '''', slot))"

section \<open>Putting the results in order\<close>

fun findSlotByPlayerID :: "string \<Rightarrow> 'r match_slot option list \<Rightarrow> nat option" where
  "findSlotByPlayerID playerID [] = None"
| "findSlotByPlayerID playerID (slot # slots) =
     (if (case slot of None \<Rightarrow> False | Some s \<Rightarrow> slot_id s = playerID) then Some 0
      else map_option Suc (findSlotByPlayerID playerID slots))"

fun results_by_player :: "(string \<rightharpoonup> turn_input_result) \<Rightarrow> turn_input_result list
    \<Rightarrow> (string \<rightharpoonup> turn_input_result) option" where
  "results_by_player m [] = Some m"
| "results_by_player m (result # results) =
     (if tir_playerID result = '''' then None
      else if m (tir_playerID result) \<noteq> None then None
      else results_by_player (m(tir_playerID result \<mapsto> result)) results)"

definition orderTurnResultsBySlot :: "'r match_slot option \<Rightarrow> 'r match_slot option
    \<Rightarrow> turn_input_result list \<Rightarrow> turn_input_result list option" where
  "orderTurnResultsBySlot slot1 slot2 results = (case (slot1, slot2) of
     (Some s1, Some s2) \<Rightarrow> (case results_by_player Map.empty results of
        None \<Rightarrow> None
      | Some resultByPlayer \<Rightarrow> those (map (\<lambda>s. resultByPlayer (slot_id s)) [s1, s2]))
   | _ \<Rightarrow> None)"

text \<open>
  \<^verbatim>\<open>sendFrame\<close>: the frame offered to a session, by player id. The send does not block; whether the
  client's channel has room for it is not part of the model.
\<close>

type_synonym sent = "string \<times> string list"

definition sendFrame :: "session \<Rightarrow> string list \<Rightarrow> sent list" where
  "sendFrame sess lines = (if lines = [] then [] else [(se_PlayerID sess, lines)])"

definition takeover_frames :: "'r match_slot \<Rightarrow> 'r match_slot \<Rightarrow> string \<Rightarrow> sent list" where
  "takeover_frames slot other reason = (if reason = '''' then []
     else sendFrame (sl_session slot) [''NPC takeover enabled ('' @ reason @ '').'']
       @ sendFrame (sl_session other) [''Opponent '' @ se_Handle (sl_session slot)
           @ '' is now controlled by NPC ('' @ reason @ '').''])"

text \<open>The loop over the ordered results.\<close>

fun resolve_results :: "'r npc_engine option \<Rightarrow> match_state \<Rightarrow> turn_input_result list
    \<Rightarrow> 'r match_slot \<Rightarrow> 'r match_slot
    \<Rightarrow> turn_input list option \<times> 'r match_slot \<times> 'r match_slot \<times> sent list" where
  "resolve_results npcEngine state [] slot1 slot2 = (Some [], slot1, slot2, [])"
| "resolve_results npcEngine state (res # results) slot1 slot2 =
     (case findSlotByPlayerID (tir_playerID res) [Some slot1, Some slot2] of
        None \<Rightarrow> (None, slot1, slot2, [])
      | Some k \<Rightarrow>
          let slot = (if k = 0 then slot1 else slot2); other = (if k = 0 then slot2 else slot1);
              (inp, takeoverReason, slot') = resolveTurnInput npcEngine state slot res;
              frames = takeover_frames slot' other takeoverReason;
              (slot1', slot2') = (if k = 0 then (slot', slot2) else (slot1, slot'));
              (inputs, slot1'', slot2'', frames') =
                resolve_results npcEngine state results slot1' slot2'
          in (map_option ((#) inp) inputs, slot1'', slot2'', frames @ frames'))"

definition start_collect :: "'r npc_engine option \<Rightarrow> match_state \<Rightarrow> 'r match_slot
    \<Rightarrow> wait_event list \<Rightarrow> turn_input_result option \<times> 'r match_slot" where
  "start_collect npcEngine state slot evs =
     (if sl_npcControlled slot
      then let (inp, rng) = decideNPCInput npcEngine state (slot_id slot) (sl_npcRNG slot)
        in (Some \<lparr>tir_playerID = slot_id slot, tir_input = inp, tir_status = TurnInputNPC\<rparr>,
            slot\<lparr>sl_npcRNG := rng\<rparr>)
      else (waitForTurnInput (sl_session slot) evs, slot))"

text \<open>
  The result of an NPC's slot is sent before anything else starts, so only the result of a
  player in the first slot can come second.
\<close>

definition collectTurnInputs :: "'r npc_engine option \<Rightarrow> match_state
    \<Rightarrow> 'r match_slot \<Rightarrow> 'r match_slot \<Rightarrow> wait_event list \<Rightarrow> wait_event list \<Rightarrow> bool
    \<Rightarrow> (turn_input list option \<times> 'r match_slot \<times> 'r match_slot \<times> sent list) option" where
  "collectTurnInputs npcEngine state slot1 slot2 evs1 evs2 second_first =
     (let (r1, slot1') = start_collect npcEngine state slot1 evs1;
          (r2, slot2') = start_collect npcEngine state slot2 evs2
      in case (r1, r2) of
        (Some a, Some b) \<Rightarrow>
          let (res1, res2) = (if second_first \<and> \<not> sl_npcControlled slot1 then (b, a) else (a, b)) in
          if tir_status res1 = TurnInputCanceled \<or> tir_status res2 = TurnInputCanceled
          then Some (None, slot1', slot2', [])
          else (case orderTurnResultsBySlot (Some slot1') (Some slot2') [res1, res2] of
              None \<Rightarrow> Some (None, slot1', slot2', [])
            | Some orderedResults \<Rightarrow>
                Some (resolve_results npcEngine state orderedResults slot1' slot2'))
      | _ \<Rightarrow> None)"

section \<open>The pieces\<close>

lemma idle_input_simps [simp]:
  "ti_PlayerID (idle_input p) = p" "ti_Action (idle_input p) = ActionNone"
  "ti_Target (idle_input p) = ZoneTorso" "ti_DecisionMS (idle_input p) = 0"
  by (simp_all add: idle_input_def)

lemma valid_zone_idle [simp]: "valid_zone ZoneTorso"
  by (simp add: valid_zone_def)

lemma normalizeTurnInput_simps [simp]:
  "ti_PlayerID (normalizeTurnInput inp p) = (if ti_PlayerID inp = '''' then p else ti_PlayerID inp)"
  "valid_zone (ti_Target (normalizeTurnInput inp p))"
  "ti_DecisionMS (normalizeTurnInput inp p) = ti_DecisionMS inp"
  by (auto simp: normalizeTurnInput_def Let_def valid_zone_def)

lemma normalize_idle [simp]: "normalizeTurnInput (idle_input p) p = idle_input p"
  by (simp add: normalizeTurnInput_def idle_input_def)

lemma wait_player:
  "waitForTurnInput sess evs = Some res \<Longrightarrow> tir_playerID res = se_PlayerID sess"
  by (induction sess evs rule: waitForTurnInput.induct) (auto simp: Let_def split: if_splits)

lemma wait_status:
  "waitForTurnInput sess evs = Some res \<Longrightarrow> tir_status res \<noteq> TurnInputNPC"
  by (induction sess evs rule: waitForTurnInput.induct) (auto simp: Let_def split: if_splits)

lemma wait_input_player:
  "waitForTurnInput sess evs = Some res \<Longrightarrow> tir_status res \<noteq> TurnInputCanceled
    \<Longrightarrow> ti_PlayerID (tir_input res) = se_PlayerID sess"
  by (induction sess evs rule: waitForTurnInput.induct) (auto simp: Let_def split: if_splits)

lemma wait_canceled:
  "waitForTurnInput sess evs = Some res \<Longrightarrow> tir_status res = TurnInputCanceled
    \<Longrightarrow> WaitCanceled \<in> set evs"
  by (induction sess evs rule: waitForTurnInput.induct) (auto simp: Let_def split: if_splits)

lemma wait_timer: "WaitTimeout \<in> set evs \<Longrightarrow> \<exists>res. waitForTurnInput sess evs = Some res"
  by (induction sess evs rule: waitForTurnInput.induct) (auto simp: Let_def)

lemma slot_takeover_slot:
  "slot_takeover e m slot = (inp, slot') \<Longrightarrow>
     sl_session slot' = sl_session slot \<and> sl_npcControlled slot' \<and> sl_timeoutStreak slot' = 0"
  by (auto simp: slot_takeover_def Let_def split: prod.splits)

lemma resolveTurnInput_slot:
  assumes "resolveTurnInput e m slot res = (inp, reason, slot')"
  shows "sl_session slot' = sl_session slot"
    and "sl_npcControlled slot' \<longleftrightarrow> sl_npcControlled slot \<or> tir_status res = TurnInputNPC
      \<or> tir_status res = TurnInputDisconnect
      \<or> (tir_status res = TurnInputTimeout \<and> sl_timeoutStreak slot + 1 \<ge> npcTakeoverTimeoutStreak)"
    and "sl_timeoutStreak slot' =
      (if tir_status res = TurnInputCanceled then sl_timeoutStreak slot
       else if tir_status res = TurnInputTimeout \<and> sl_timeoutStreak slot + 1 < npcTakeoverTimeoutStreak
       then sl_timeoutStreak slot + 1 else 0)"
  using assms
  by (auto simp: resolveTurnInput_def Let_def split: turn_input_status.splits prod.splits if_splits
      dest!: slot_takeover_slot)

lemma start_collect_slot:
  assumes "start_collect e m slot evs = (r, slot')"
  shows "sl_session slot' = sl_session slot" "sl_npcControlled slot' = sl_npcControlled slot"
    "sl_timeoutStreak slot' = sl_timeoutStreak slot"
    "r = Some res \<Longrightarrow> tir_playerID res = slot_id slot"
    "r = Some res \<Longrightarrow> tir_status res = TurnInputNPC \<longleftrightarrow> sl_npcControlled slot"
  using assms wait_status wait_player
  by (auto simp: start_collect_def split: if_splits prod.splits)

lemma orderTurnResultsBySlot_both:
  assumes "slot_id s1 \<noteq> ''''" "slot_id s2 \<noteq> ''''" "slot_id s1 \<noteq> slot_id s2"
    and "tir_playerID a = slot_id s1" "tir_playerID b = slot_id s2"
  shows "orderTurnResultsBySlot (Some s1) (Some s2) [a, b] = Some [a, b]"
    and "orderTurnResultsBySlot (Some s1) (Some s2) [b, a] = Some [a, b]"
  using assms by (simp_all add: orderTurnResultsBySlot_def)

definition slots_ok :: "'r match_slot \<Rightarrow> 'r match_slot \<Rightarrow> bool" where
  "slots_ok s1 s2 \<longleftrightarrow> slot_id s1 \<noteq> [] \<and> slot_id s2 \<noteq> [] \<and> slot_id s1 \<noteq> slot_id s2"

text \<open>What a collected turn is, whichever result arrived first.\<close>

lemma collectTurnInputs_eq:
  assumes ok: "slots_ok s1 s2"
    and r1: "start_collect e m s1 evs1 = (Some a, s1')"
    and r2: "start_collect e m s2 evs2 = (Some b, s2')"
  shows "collectTurnInputs e m s1 s2 evs1 evs2 order =
    (if tir_status a = TurnInputCanceled \<or> tir_status b = TurnInputCanceled
     then Some (None, s1', s2', [])
     else let (i1, why1, t1) = resolveTurnInput e m s1' a; (i2, why2, t2) = resolveTurnInput e m s2' b
       in Some (Some [i1, i2], t1, t2, takeover_frames t1 s2' why1 @ takeover_frames t2 t1 why2))"
proof -
  note slot1 = start_collect_slot [OF r1] and slot2 = start_collect_slot [OF r2]
  obtain i1 why1 t1 where x1: "resolveTurnInput e m s1' a = (i1, why1, t1)" by (metis prod_cases3)
  obtain i2 why2 t2 where x2: "resolveTurnInput e m s2' b = (i2, why2, t2)" by (metis prod_cases3)
  have ids: "tir_playerID a = slot_id s1'" "tir_playerID b = slot_id s2'" "slots_ok s1' s2'"
    using slot1 slot2 ok by (simp_all add: slots_ok_def)
  have t1: "slot_id t1 = slot_id s1'"
    using resolveTurnInput_slot(1) [OF x1] by simp
  have order: "orderTurnResultsBySlot (Some s1') (Some s2') [a, b] = Some [a, b]"
    "orderTurnResultsBySlot (Some s1') (Some s2') [b, a] = Some [a, b]"
    using ids orderTurnResultsBySlot_both [of s1' s2' a b] by (auto simp: slots_ok_def)
  have "resolve_results e m [a, b] s1' s2' = (Some [i1, i2], t1, t2,
      takeover_frames t1 s2' why1 @ takeover_frames t2 t1 why2)"
    using ids by (auto simp: slots_ok_def x1 x2 t1)
  then show ?thesis
    using order by (auto simp: collectTurnInputs_def r1 r2 x1 x2 Let_def)
qed

lemma collectTurnInputs_None:
  "collectTurnInputs e m s1 s2 evs1 evs2 order = None \<longleftrightarrow>
     fst (start_collect e m s1 evs1) = None \<or> fst (start_collect e m s2 evs2) = None"
  by (auto simp: collectTurnInputs_def Let_def simp del: not_None_eq split_paired_Ex
      split: prod.splits option.splits)

lemma collectTurnInputs_E:
  assumes "collectTurnInputs e m s1 s2 evs1 evs2 order = Some (inputs, t1, t2, frames)" "slots_ok s1 s2"
  obtains (cancel) a b where "inputs = None" "frames = []"
      "start_collect e m s1 evs1 = (Some a, t1)" "start_collect e m s2 evs2 = (Some b, t2)"
      "tir_status a = TurnInputCanceled \<or> tir_status b = TurnInputCanceled"
  | (collected) a b s1' s2' i1 i2 why1 why2 where
      "start_collect e m s1 evs1 = (Some a, s1')" "start_collect e m s2 evs2 = (Some b, s2')"
      "tir_status a \<noteq> TurnInputCanceled" "tir_status b \<noteq> TurnInputCanceled"
      "resolveTurnInput e m s1' a = (i1, why1, t1)" "resolveTurnInput e m s2' b = (i2, why2, t2)"
      "inputs = Some [i1, i2]"
      "frames = takeover_frames t1 s2' why1 @ takeover_frames t2 t1 why2"
proof -
  obtain r1 s1' where r1: "start_collect e m s1 evs1 = (r1, s1')" by force
  obtain r2 s2' where r2: "start_collect e m s2 evs2 = (r2, s2')" by force
  have "collectTurnInputs e m s1 s2 evs1 evs2 order \<noteq> None" using assms(1) by simp
  then obtain a b where ab: "r1 = Some a" "r2 = Some b"
    unfolding collectTurnInputs_None using r1 r2 by auto
  from assms(1) show thesis
    unfolding collectTurnInputs_eq [OF assms(2) r1 [unfolded ab] r2 [unfolded ab]]
    using r1 r2 ab cancel collected
    by (auto split: if_splits prod.splits)
qed

section \<open>The interface of the NPC engine\<close>

text \<open>
  The match loop relies on one law of \<^verbatim>\<open>npc.Engine\<close>: a decision is for the player it was asked for.
\<close>

locale input_engine =
  fixes decide :: "'r npc_engine"
  assumes decide_player: "decide m pid rng = (Inr inp, rng') \<Longrightarrow> ti_PlayerID inp = pid"
begin

lemma decideNPCInput_player:
  "decideNPCInput (Some decide) m pid rng = (inp, rng') \<Longrightarrow>
     ti_PlayerID inp = pid \<and> valid_zone (ti_Target inp)"
  using decide_player
  by (auto simp: decideNPCInput_def split: prod.splits sum.splits)

lemma takeover_player:
  assumes "slot_takeover (Some decide) m slot = (inp, slot')"
  shows "ti_PlayerID inp = slot_id slot \<and> valid_zone (ti_Target inp)"
proof -
  obtain inp' rng where d: "decideNPCInput (Some decide) m (slot_id slot) (sl_npcRNG slot) = (inp', rng)"
    by force
  from decideNPCInput_player [OF d] assms show ?thesis
    by (simp add: slot_takeover_def Let_def d)
qed

lemma resolve_player:
  assumes "resolveTurnInput (Some decide) m slot res = (inp, reason, slot')"
    and "tir_status res \<noteq> TurnInputCanceled \<Longrightarrow> ti_PlayerID (tir_input res) = slot_id slot"
  shows "ti_PlayerID inp = slot_id slot \<and> valid_zone (ti_Target inp)"
proof -
  obtain inp1 t1 where d: "slot_takeover (Some decide) m slot = (inp1, t1)" by force
  obtain inp2 t2 where u: "slot_takeover (Some decide) m
      (slot\<lparr>sl_timeoutStreak := sl_timeoutStreak slot + 1\<rparr>) = (inp2, t2)" by force
  from takeover_player [OF d] takeover_player [OF u] assms show ?thesis
    by (auto simp: resolveTurnInput_def Let_def d u split: turn_input_status.splits if_splits)
qed

lemma start_collect_player:
  assumes "start_collect (Some decide) m slot evs = (Some res, slot')"
    and "tir_status res \<noteq> TurnInputCanceled"
  shows "ti_PlayerID (tir_input res) = slot_id slot'"
proof (cases "sl_npcControlled slot")
  case True
  obtain inp rng where d: "decideNPCInput (Some decide) m (slot_id slot) (sl_npcRNG slot) = (inp, rng)"
    by force
  from True assms(1) decideNPCInput_player [OF d] show ?thesis
    by (auto simp: start_collect_def d)
next
  case False
  with assms(1) have w: "waitForTurnInput (sl_session slot) evs = Some res" "slot' = slot"
    by (auto simp: start_collect_def)
  show ?thesis using wait_input_player [OF w(1) assms(2)] by (simp add: w(2))
qed

lemma collected_inputs:
  assumes "collectTurnInputs (Some decide) m s1 s2 evs1 evs2 order = Some (Some ins, t1, t2, frames)"
    and "slots_ok s1 s2"
  shows "map ti_PlayerID ins = [slot_id s1, slot_id s2] \<and> (\<forall>inp \<in> set ins. valid_zone (ti_Target inp))"
  using assms
proof (cases rule: collectTurnInputs_E)
  case (collected a b s1' s2' i1 i2 why1 why2)
  from collected(5) start_collect_player [OF collected(1)]
  have "ti_PlayerID i1 = slot_id s1' \<and> valid_zone (ti_Target i1)" by (rule resolve_player)
  moreover from collected(6) start_collect_player [OF collected(2)]
  have "ti_PlayerID i2 = slot_id s2' \<and> valid_zone (ti_Target i2)" by (rule resolve_player)
  ultimately show ?thesis
    using collected start_collect_slot(1) [OF collected(1)] start_collect_slot(1) [OF collected(2)]
    by simp
qed simp

end

lemma Decide_player:
  "Decide next_int m pid rng = (Inr inp, rng') \<Longrightarrow> ti_PlayerID inp = pid"
  by (auto simp: Decide_def npcFightersByID_def decide_awake_def Let_def
      split: if_splits option.splits sum.splits prod.splits)

interpretation engine: input_engine "Decide NextInt"
  by unfold_locales (rule Decide_player)


text \<open>
  The decision time of an input is how long its command lay in the session's channel: a command
  read the moment it was received counts as decided in no time, however late in the turn it came.
\<close>

lemma decision_time_is_queueing_time:
  assumes "cmd_Kind cmd = CommandAction"
    and "list_all (\<lambda>e. case e of WaitCommand c now \<Rightarrow> cmd_Kind c \<noteq> CommandAction \<and> cmd_Kind c \<noteq> CommandQuit
      | _ \<Rightarrow> False) ignored"
  shows "\<exists>res. waitForTurnInput sess (ignored @ WaitCommand cmd (cmd_ReceivedAt cmd) # evs) = Some res
    \<and> ti_DecisionMS (tir_input res) = 0"
  using assms(2)
proof (induction ignored)
  case (Cons e ignored)
  then show ?case by (cases e) auto
qed (simp add: assms(1) Milliseconds_def time_sub_def)

section \<open>The takeover rules\<close>

text \<open>
  The life of a slot, as the statuses its turns had. A turn that was canceled ends the match and
  is not part of it.
\<close>

inductive slot_history :: "'r npc_engine option \<Rightarrow> 'r match_slot \<Rightarrow> turn_input_status list
    \<Rightarrow> 'r match_slot \<Rightarrow> bool" for npcEngine slot0 where
  fresh: "slot_history npcEngine slot0 [] slot0"
| turn: "slot_history npcEngine slot0 h slot \<Longrightarrow>
    start_collect npcEngine state slot evs = (Some res, slot') \<Longrightarrow>
    tir_status res \<noteq> TurnInputCanceled \<Longrightarrow>
    resolveTurnInput npcEngine state slot' res = (inp, reason, slot'') \<Longrightarrow>
    slot_history npcEngine slot0 (h @ [tir_status res]) slot''"

text \<open>Both slots of a collected turn take one step of their history.\<close>

lemma collect_history:
  assumes "collectTurnInputs e m s1 s2 evs1 evs2 order = Some (Some ins, t1, t2, frames)"
    and "slots_ok s1 s2" "slot_history e a0 h1 s1" "slot_history e b0 h2 s2"
  shows "\<exists>st1 st2. slot_history e a0 (h1 @ [st1]) t1 \<and> slot_history e b0 (h2 @ [st2]) t2"
  using assms(1,2)
proof (cases rule: collectTurnInputs_E)
  case (collected a b s1' s2' i1 i2 why1 why2)
  from slot_history.turn [OF assms(3) collected(1,3,5)] slot_history.turn [OF assms(4) collected(2,4,6)]
  show ?thesis by blast
qed simp

text \<open>What ends a player's own control: a disconnect, or two timeouts in a row.\<close>

fun gives_up :: "turn_input_status list \<Rightarrow> bool" where
  "gives_up (TurnInputDisconnect # h) = True"
| "gives_up (TurnInputTimeout # TurnInputTimeout # h) = True"
| "gives_up (st # h) = gives_up h"
| "gives_up [] = False"

lemma gives_up_short [simp]:
  "gives_up [st] \<longleftrightarrow> st = TurnInputDisconnect"
  "gives_up [TurnInputTimeout, st] \<longleftrightarrow> st = TurnInputTimeout \<or> st = TurnInputDisconnect"
  by (cases st; simp)+

lemma gives_up_snoc:
  "gives_up (h @ [st]) \<longleftrightarrow> gives_up h \<or> st = TurnInputDisconnect
     \<or> (st = TurnInputTimeout \<and> h \<noteq> [] \<and> last h = TurnInputTimeout)"
  by (induction h rule: gives_up.induct; cases st; auto split: if_splits)

text \<open>The timeouts a history ends with.\<close>

definition trailing_timeouts :: "turn_input_status list \<Rightarrow> nat" where
  "trailing_timeouts h = length (takeWhile (\<lambda>st. st = TurnInputTimeout) (rev h))"

lemma trailing_timeouts_snoc [simp]:
  "trailing_timeouts [] = 0"
  "trailing_timeouts (h @ [st]) = (if st = TurnInputTimeout then trailing_timeouts h + 1 else 0)"
  by (simp_all add: trailing_timeouts_def)

lemma last_timeout: "h \<noteq> [] \<and> last h = TurnInputTimeout \<longleftrightarrow> 0 < trailing_timeouts h"
  by (cases h rule: rev_cases) simp_all

lemma slot_history_invariant:
  assumes "slot_history e slot0 h slot" "\<not> sl_npcControlled slot0" "sl_timeoutStreak slot0 = 0"
  shows "sl_session slot = sl_session slot0 \<and> (sl_npcControlled slot \<longleftrightarrow> gives_up h)
    \<and> (gives_up h \<longrightarrow> sl_timeoutStreak slot = 0 \<and> TurnInputCanceled \<notin> set h)
    \<and> (\<not> gives_up h \<longrightarrow> sl_timeoutStreak slot = int (trailing_timeouts h) \<and> trailing_timeouts h < 2
        \<and> TurnInputCanceled \<notin> set h)"
  using assms
proof induction
  case (turn h slot state evs res slot' inp reason slot'')
  note got = start_collect_slot [OF turn.hyps(2)] and res = resolveTurnInput_slot [OF turn.hyps(4)]
  note IH = turn.IH [OF turn.prems]
  have npc: "tir_status res = TurnInputNPC \<longleftrightarrow> gives_up h"
    using got(5) [of res] IH by simp
  show ?case
    using IH npc got(1-3) res turn.hyps(3)
    by (auto simp: gives_up_snoc last_timeout npcTakeoverTimeoutStreak_def)
qed (simp add: trailing_timeouts_def)

section \<open>Properties\<close>

text \<open>
  C12: A slot that starts under its player's control is under the NPC's control exactly when the
  player disconnected once or let two turns in a row time out, and it stays there; until then the
  slot's counter is the number of timeouts the history ends with, which is below two.
\<close>

theorem npc_takeover_rule:
  assumes "slot_history npcEngine slot0 h slot"
    and "\<not> sl_npcControlled slot0" "sl_timeoutStreak slot0 = 0"
  shows "(sl_npcControlled slot \<longleftrightarrow> gives_up h)
    \<and> sl_timeoutStreak slot = (if gives_up h then 0 else int (trailing_timeouts h))
    \<and> sl_timeoutStreak slot < npcTakeoverTimeoutStreak"
  using slot_history_invariant [OF assms] by (auto simp: npcTakeoverTimeoutStreak_def)

definition demo_slot :: "string \<Rightarrow> deterministic_rng match_slot" where
  "demo_slot pid = \<lparr>sl_session = demo_session pid, sl_npcControlled = False, sl_timeoutStreak = 0,
     sl_npcRNG = Some demo_rng\<rparr>"

lemma npc_takeover_rule_witness:
  "\<exists>slot. slot_history None (demo_slot ''ana'') [TurnInputTimeout, TurnInputTimeout] slot
     \<and> sl_npcControlled slot"
proof -
  define after where "after slot = snd (snd (resolveTurnInput None demo_match slot
      (the (waitForTurnInput (sl_session slot) [WaitTimeout]))))" for slot :: "deterministic_rng match_slot"
  have step: "slot_history None s0 (h @ [TurnInputTimeout]) (after s)"
    if "slot_history None s0 h s" "\<not> sl_npcControlled s" for s0 h s
  proof -
    obtain res where res: "waitForTurnInput (sl_session s) [WaitTimeout] = Some res"
      "tir_status res = TurnInputTimeout" by simp
    obtain inp why s' where r: "resolveTurnInput None demo_match s res = (inp, why, s')"
      by (metis prod_cases3)
    show ?thesis
      using slot_history.turn [OF that(1), of demo_match "[WaitTimeout]" res s inp why s'] that(2) res r
      by (simp add: start_collect_def after_def)
  qed
  have one: "slot_history None (demo_slot ''ana'') [TurnInputTimeout] (after (demo_slot ''ana''))"
    using step [OF slot_history.fresh [of None "demo_slot ''ana''"]] by (simp add: demo_slot_def)
  have "\<not> sl_npcControlled (after (demo_slot ''ana''))"
    using npc_takeover_rule [OF one] by (simp add: demo_slot_def)
  from step [OF one this] have
    two: "slot_history None (demo_slot ''ana'') [TurnInputTimeout, TurnInputTimeout]
      (after (after (demo_slot ''ana'')))" by simp
  from npc_takeover_rule [OF two] two show ?thesis by (auto simp: demo_slot_def)
qed


text \<open>
  C26: Both timers fire, the match is not canceled: then the turn is collected, whatever else the
  players send and in whichever order their results arrive; the order changes nothing, and the
  two inputs are accepted by the resolver of a running match between the two players.
\<close>

theorem collected_turn_is_playable:
  assumes "slots_ok s1 s2"
    and "slot_id s1 = fs_PlayerID (ms_P1 m)" "slot_id s2 = fs_PlayerID (ms_P2 m)"
    and "\<not> mo_Finished (ms_Outcome m)"
    and "WaitTimeout \<in> set evs1" "WaitTimeout \<in> set evs2"
    and "WaitCanceled \<notin> set evs1" "WaitCanceled \<notin> set evs2"
  shows "\<exists>ins t1 t2 frames.
      (\<forall>order. collectTurnInputs (Some (Decide NextInt)) m s1 s2 evs1 evs2 order
        = Some (Some ins, t1, t2, frames))
      \<and> (\<exists>ord. CanonicalizeInputs m ins = Inr ord)
      \<and> (\<exists>res r'. ResolveTurn det_source m ins r = (Inr res, r'))"
proof -
  let ?e = "Some (Decide NextInt)"
  have start: "\<exists>res s'. start_collect ?e m s evs = (Some res, s') \<and> tir_status res \<noteq> TurnInputCanceled"
    if evs: "WaitTimeout \<in> set evs" "WaitCanceled \<notin> set evs" for s :: "deterministic_rng match_slot" and evs
  proof -
    from wait_timer [OF evs(1), of "sl_session s"]
    obtain res where res: "waitForTurnInput (sl_session s) evs = Some res" by blast
    with wait_canceled [OF res] evs(2) show ?thesis
      by (cases "decideNPCInput ?e m (slot_id s) (sl_npcRNG s)") (auto simp: start_collect_def)
  qed
  from start [OF assms(5,7), of s1] obtain a s1' where r1:
    "start_collect ?e m s1 evs1 = (Some a, s1')" "tir_status a \<noteq> TurnInputCanceled" by blast
  from start [OF assms(6,8), of s2] obtain b s2' where r2:
    "start_collect ?e m s2 evs2 = (Some b, s2')" "tir_status b \<noteq> TurnInputCanceled" by blast
  obtain i1 why1 t1 where x1: "resolveTurnInput ?e m s1' a = (i1, why1, t1)" by (metis prod_cases3)
  obtain i2 why2 t2 where x2: "resolveTurnInput ?e m s2' b = (i2, why2, t2)" by (metis prod_cases3)
  have collect: "collectTurnInputs ?e m s1 s2 evs1 evs2 order = Some (Some [i1, i2], t1, t2,
      takeover_frames t1 s2' why1 @ takeover_frames t2 t1 why2)" for order
    using collectTurnInputs_eq [OF assms(1) r1(1) r2(1), of order] r1(2) r2(2) by (simp add: x1 x2)
  have ids: "map ti_PlayerID [i1, i2] = [slot_id s1, slot_id s2]"
    using engine.collected_inputs [OF collect [of False] assms(1)] by simp
  then have ok: "players_ok m" "inputs_ok m [i1, i2]"
    using assms(1-3) by (auto simp: players_ok_def slots_ok_def inputs_ok_def player_ids_def)
  then have "\<exists>ord. CanonicalizeInputs m [i1, i2] = Inr ord"
    unfolding CanonicalizeInputs_ok_iff by simp
  moreover have "\<exists>res r'. ResolveTurn det_source m [i1, i2] r = (Inr res, r')"
    unfolding ResolveTurn_ok_iff using ok assms(4) by simp
  ultimately show ?thesis using collect by blast
qed

lemma collected_turn_is_playable_witness:
  "\<exists>ins t1 t2 frames. collectTurnInputs (Some (Decide NextInt)) demo_match (demo_slot ''ana'')
      (demo_slot ''bo'') [WaitTimeout] [WaitTimeout] True = Some (Some ins, t1, t2, frames)"
proof -
  have ids: "slots_ok (demo_slot ''ana'') (demo_slot ''bo'')"
    "slot_id (demo_slot ''ana'') = fs_PlayerID (ms_P1 demo_match)"
    "slot_id (demo_slot ''bo'') = fs_PlayerID (ms_P2 demo_match)"
    by (simp_all add: slots_ok_def demo_slot_def demo_session_def demo_fighter_def NewFighter_def)
  have evs: "WaitTimeout \<in> set [WaitTimeout]" "WaitCanceled \<notin> set [WaitTimeout]" by simp_all
  from collected_turn_is_playable [OF ids demo_ok(1) evs(1,1,2,2)]
  show ?thesis by blast
qed

end
