(* ===== verification/Telemetry.thy ===== *)
theory Telemetry
  imports Complex_Main TurnInputs
begin

text \<open>
  What a match records besides its replay: the rows of \<open>buildTurnTelemetryRows\<close> with the utility
  estimates behind them (\<^verbatim>\<open>internal/matchmaking/service.go\<close>), the anti-bot heuristics of
  \<^verbatim>\<open>internal/telemetry/antibot.go\<close>, and what \<open>persistMatchTelemetry\<close> writes at the end.

  The code computes in \<^verbatim>\<open>float64\<close>. The arithmetic unit is an argument \<open>F\<close> of the definitions,
  so that they hold for any rounding; the operations are written in the order in which the source
  applies them. What a theorem needs of the unit is \<open>float_order\<close>: the numbers among its values are
  compared by a total preorder, and minus infinity is below them.
\<close>

section \<open>Floating point\<close>

record 'f float64 =
  f_of_int :: "int \<Rightarrow> 'f"
  f_lit :: "int \<Rightarrow> int \<Rightarrow> 'f"
  f_add :: "'f \<Rightarrow> 'f \<Rightarrow> 'f"
  f_sub :: "'f \<Rightarrow> 'f \<Rightarrow> 'f"
  f_mul :: "'f \<Rightarrow> 'f \<Rightarrow> 'f"
  f_div :: "'f \<Rightarrow> 'f \<Rightarrow> 'f"
  f_round :: "'f \<Rightarrow> 'f"
  f_le :: "'f \<Rightarrow> 'f \<Rightarrow> bool"
  f_less :: "'f \<Rightarrow> 'f \<Rightarrow> bool"
  f_neg_inf :: 'f
  f_is_neg_inf :: "'f \<Rightarrow> bool"

definition float_order :: "'f float64 \<Rightarrow> ('f \<Rightarrow> bool) \<Rightarrow> bool" where
  "float_order F num \<longleftrightarrow>
     (\<forall>a b c. num a \<longrightarrow> num b \<longrightarrow> num c \<longrightarrow> \<not> f_less F a b \<longrightarrow> \<not> f_less F b c \<longrightarrow> \<not> f_less F a c)
     \<and> (\<forall>a b. num a \<longrightarrow> num b \<longrightarrow> f_less F a b \<longrightarrow> \<not> f_less F b a)
     \<and> (\<forall>a. num a \<longrightarrow> f_less F (f_neg_inf F) a \<and> \<not> f_is_neg_inf F a)
     \<and> f_is_neg_inf F (f_neg_inf F)"

section \<open>Anti-bot heuristics\<close>

record turn_observation =
  to_DecisionMS :: int
  to_IsOptimal :: bool

record 'f anti_bot_metrics =
  am_DecisionCount :: int
  am_MeanDecisionMS :: 'f
  am_DecisionVarianceMS2 :: 'f
  am_OptimalPickRate :: 'f

record 'f anti_bot_evaluation =
  ae_Metrics :: "'f anti_bot_metrics"
  ae_SuspicionScore :: 'f
  ae_Flagged :: bool
  ae_Reason :: string

record 'f anti_bot_config =
  ac_MinDecisions :: int
  ac_MaxMeanDecisionMS :: 'f
  ac_MinDecisionVarianceMS2 :: 'f
  ac_MinOptimalPickRate :: 'f
  ac_SuspicionScoreThreshold :: 'f
  ac_OptimalityEpsilon :: 'f

definition DefaultAntiBotConfig :: "'f float64 \<Rightarrow> 'f anti_bot_config" where
  "DefaultAntiBotConfig F = \<lparr>ac_MinDecisions = 12, ac_MaxMeanDecisionMS = f_lit F 180 1,
     ac_MinDecisionVarianceMS2 = f_lit F 2500 1, ac_MinOptimalPickRate = f_lit F 82 100,
     ac_SuspicionScoreThreshold = f_lit F 75 100, ac_OptimalityEpsilon = f_lit F 5 100\<rparr>"

definition ComputeAntiBotMetrics :: "'f float64 \<Rightarrow> turn_observation list \<Rightarrow> 'f anti_bot_metrics" where
  "ComputeAntiBotMetrics F observations =
     (if observations = [] then \<lparr>am_DecisionCount = 0, am_MeanDecisionMS = f_lit F 0 1,
        am_DecisionVarianceMS2 = f_lit F 0 1, am_OptimalPickRate = f_lit F 0 1\<rparr>
      else let n = f_of_int F (int (length observations));
          sum = fold (\<lambda>obs acc. f_add F acc (f_of_int F (to_DecisionMS obs))) observations (f_lit F 0 1);
          optimal = fold (\<lambda>obs k. if to_IsOptimal obs then k + 1 else k) observations (0::int);
          mean = f_div F sum n;
          varianceAcc = fold (\<lambda>obs acc.
            let delta = f_sub F (f_of_int F (to_DecisionMS obs)) mean
            in f_add F acc (f_mul F delta delta)) observations (f_lit F 0 1);
          variance = f_div F varianceAcc n
        in \<lparr>am_DecisionCount = int (length observations), am_MeanDecisionMS = mean,
             am_DecisionVarianceMS2 = variance, am_OptimalPickRate = f_div F (f_of_int F optimal) n\<rparr>)"

fun join_strings :: "string \<Rightarrow> string list \<Rightarrow> string" where
  "join_strings sep [] = []"
| "join_strings sep [s] = s"
| "join_strings sep (s # t # ss) = s @ sep @ join_strings sep (t # ss)"

definition EvaluateAntiBot :: "'f float64 \<Rightarrow> 'f anti_bot_metrics \<Rightarrow> 'f anti_bot_config
    \<Rightarrow> 'f anti_bot_evaluation" where
  "EvaluateAntiBot F metrics cfg =
     (let cfg = (if ac_MinDecisions cfg \<le> 0
            then cfg\<lparr>ac_MinDecisions := ac_MinDecisions (DefaultAntiBotConfig F)\<rparr> else cfg);
          fast = f_le F (am_MeanDecisionMS metrics) (ac_MaxMeanDecisionMS cfg);
          steady = f_le F (am_DecisionVarianceMS2 metrics) (ac_MinDecisionVarianceMS2 cfg);
          optimal = f_le F (ac_MinOptimalPickRate cfg) (am_OptimalPickRate metrics);
          score = f_lit F 0 1;
          score = (if fast then f_add F score (f_lit F 40 100) else score);
          score = (if steady then f_add F score (f_lit F 30 100) else score);
          score = (if optimal then f_add F score (f_lit F 30 100) else score);
          reasonParts = [if fast then ''mean_decision_ok'' else ''mean_decision_high'',
            if steady then ''variance_low'' else ''variance_high'',
            if optimal then ''optimal_rate_high'' else ''optimal_rate_low''];
          score = f_div F (f_round F (f_mul F score (f_lit F 1000 1))) (f_lit F 1000 1);
          flagged = (am_DecisionCount metrics \<ge> ac_MinDecisions cfg
            \<and> f_le F (ac_SuspicionScoreThreshold cfg) score);
          reasonParts = (if am_DecisionCount metrics < ac_MinDecisions cfg
            then reasonParts @ [''insufficient_decisions:'' @ itoa (am_DecisionCount metrics)]
            else reasonParts)
      in \<lparr>ae_Metrics = metrics, ae_SuspicionScore = score, ae_Flagged = flagged,
           ae_Reason = join_strings '';'' reasonParts\<rparr>)"

section \<open>Utility of a choice\<close>

definition defensiveAttributeForUtility :: "action \<Rightarrow> fighter_state \<Rightarrow> int" where
  "defensiveAttributeForUtility action defender =
     (case action of
        ActionStrike \<Rightarrow> ClampInt (Agility (fs_Stats defender)) 1 10
      | ActionGrapple \<Rightarrow> ClampInt (Technique (fs_Stats defender)) 1 10
      | ActionCounter \<Rightarrow> ClampInt (Technique (fs_Stats defender)) 1 10
      | ActionFeint \<Rightarrow> ClampInt (Technique (fs_Stats defender)) 1 10
      | ActionBreak \<Rightarrow> ClampInt (Power (fs_Stats defender)) 1 10
      | _ \<Rightarrow> ClampInt (Technique (fs_Stats defender)) 1 10)"

definition estimateUtility :: "'f float64 \<Rightarrow> match_state \<Rightarrow> fighter_state \<Rightarrow> fighter_state
    \<Rightarrow> action \<Rightarrow> zone \<Rightarrow> 'f" where
  "estimateUtility F state actor defender action zone =
     (let attackerAttr = ActionRelevantAttribute action (fs_Stats actor);
          defenderAttr = defensiveAttributeForUtility action defender;
          chance = f_div F (f_of_int F (SuccessChanceBPS attackerAttr defenderAttr (fs_Momentum actor)
            (fs_Stamina actor))) (f_lit F 10000 1);
          baseDamage = BaseDamage action (fs_Stats actor);
          expectedDamage = f_mul F chance (f_of_int F (DamageFinal baseDamage (fs_Momentum actor) False));
          counterChance = f_div F (f_of_int F (SuccessChanceBPS
            (ActionRelevantAttribute ActionStrike (fs_Stats defender))
            (ActionRelevantAttribute ActionBlock (fs_Stats actor))
            (fs_Momentum defender) (fs_Stamina defender))) (f_lit F 10000 1);
          expectedReceived = f_mul F counterChance (f_of_int F
            (DamageFinal (BaseDamage ActionStrike (fs_Stats defender)) (fs_Momentum defender) False));
          expectedReceived = (if action = ActionBlock \<or> action = ActionDodge
            then f_mul F expectedReceived (f_lit F 7 10) else expectedReceived);
          momentumGain = (if IsOffensive action then f_mul F (f_lit F 8 1) chance else f_lit F 0 1);
          momentumLoss = f_mul F (f_lit F 6 1) chance;
          deltaMomentum = f_sub F momentumGain momentumLoss;
          staminaCost = f_of_int F (ActionStaminaCost action (Endurance (fs_Stats actor)));
          u = f_sub F (f_add F (f_sub F expectedDamage (f_mul F (f_lit F 7 10) expectedReceived))
            (f_mul F (f_lit F 2 10) deltaMomentum)) (f_mul F (f_lit F 1 10) staminaCost)
      in if ms_CombatState state = StateSubmissionAttempt \<and> action = ActionBreak
         then f_add F u (f_lit F 2 1) else u)"

text \<open>The two nested loops, as one loop over the pairs; the state is bestU, bestAction, bestZone, chosenU.\<close>

definition choice_pairs :: "(action \<times> zone) list" where
  "choice_pairs = concat (map (\<lambda>action. map (\<lambda>zone. (action, zone)) [ZoneHead, ZoneTorso, ZoneLegs])
     [ActionStrike, ActionGrapple, ActionBlock, ActionDodge, ActionCounter, ActionFeint, ActionBreak])"

fun choice_loop :: "'f float64 \<Rightarrow> (action \<Rightarrow> zone \<Rightarrow> 'f) \<Rightarrow> turn_input \<Rightarrow> (action \<times> zone) list
    \<Rightarrow> 'f \<times> action \<times> zone \<times> 'f \<Rightarrow> 'f \<times> action \<times> zone \<times> 'f" where
  "choice_loop F util chosen [] acc = acc"
| "choice_loop F util chosen ((action, zone) # pairs) (bestU, bestAction, bestZone, chosenU) =
     (let u = util action zone;
          chosenU = (if action = ti_Action chosen \<and> zone = ti_Target chosen then u else chosenU)
      in choice_loop F util chosen pairs
        (if f_less F bestU u then (u, action, zone, chosenU) else (bestU, bestAction, bestZone, chosenU)))"

definition optimalChoice :: "'f float64 \<Rightarrow> match_state \<Rightarrow> fighter_state \<Rightarrow> fighter_state \<Rightarrow> turn_input
    \<Rightarrow> action \<times> zone \<times> 'f \<times> 'f" where
  "optimalChoice F state actor defender chosen =
     (let util = estimateUtility F state actor defender;
          (bestU, bestAction, bestZone, chosenU) = choice_loop F util chosen choice_pairs
            (f_neg_inf F, ActionNone, ZoneTorso, f_neg_inf F);
          chosenU = (if f_is_neg_inf F chosenU then util (ti_Action chosen) (ti_Target chosen) else chosenU)
      in (bestAction, bestZone, chosenU, bestU))"

section \<open>Rows of a turn\<close>

record match_turn_telemetry =
  mtt_MatchID :: string
  mtt_Turn :: int
  mtt_PlayerID :: string
  mtt_IsHuman :: bool
  mtt_Action :: string
  mtt_TargetZone :: string
  mtt_DecisionMS :: int
  mtt_Success :: bool
  mtt_HPBefore :: int
  mtt_HPAfter :: int
  mtt_StaminaBefore :: int
  mtt_StaminaAfter :: int
  mtt_MomentumBefore :: int
  mtt_MomentumAfter :: int
  mtt_IsOptimalChoice :: bool
  mtt_OptimalAction :: string
  mtt_OptimalTargetZone :: string

definition ms_maxInt :: "int \<Rightarrow> int \<Rightarrow> int" where
  "ms_maxInt v minV = (if v < minV then minV else v)"

definition fightersBeforeAfterByID :: "match_state \<Rightarrow> match_state \<Rightarrow> string
    \<Rightarrow> (fighter_state \<times> fighter_state \<times> fighter_state) option" where
  "fightersBeforeAfterByID b a playerID =
     (if playerID = fs_PlayerID (ms_P1 b) then Some (ms_P1 b, ms_P1 a, ms_P2 b)
      else if playerID = fs_PlayerID (ms_P2 b) then Some (ms_P2 b, ms_P2 a, ms_P1 b)
      else None)"

fun findActionSuccess :: "event list \<Rightarrow> string \<Rightarrow> bool" where
  "findActionSuccess [] playerID = False"
| "findActionSuccess (e # es) playerID =
     (if ev_Type e = EventActionResolved \<and> ev_PlayerID e = playerID then ev_Success e
      else findActionSuccess es playerID)"

definition telemetry_row :: "'f float64 \<Rightarrow> string \<Rightarrow> match_state \<Rightarrow> match_state \<Rightarrow> event list
    \<Rightarrow> 'r match_slot \<Rightarrow> 'r match_slot \<Rightarrow> 'f \<Rightarrow> turn_input
    \<Rightarrow> fighter_state \<Rightarrow> fighter_state \<Rightarrow> fighter_state \<Rightarrow> match_turn_telemetry" where
  "telemetry_row F matchID b a events slot1 slot2 eps inp beforeF afterF other =
     (let isHuman = (case findSlotByPlayerID (ti_PlayerID inp) [Some slot1, Some slot2] of
            None \<Rightarrow> False
          | Some k \<Rightarrow> \<not> sl_npcControlled (if k = 0 then slot1 else slot2));
          success = findActionSuccess events (ti_PlayerID inp);
          (optimalAction, optimalZone, chosenU, bestU) = optimalChoice F b beforeF other inp;
          isOptimal = f_le F (f_sub F bestU eps) chosenU;
          isOptimal = (if \<not> isHuman then False else isOptimal)
      in \<lparr>mtt_MatchID = matchID, mtt_Turn = ms_Turn a, mtt_PlayerID = ti_PlayerID inp,
           mtt_IsHuman = isHuman, mtt_Action = action_string (ti_Action inp),
           mtt_TargetZone = zone_string (ti_Target inp),
           mtt_DecisionMS = ms_maxInt (ti_DecisionMS inp) 0, mtt_Success = success,
           mtt_HPBefore = fs_HP beforeF, mtt_HPAfter = fs_HP afterF,
           mtt_StaminaBefore = fs_Stamina beforeF, mtt_StaminaAfter = fs_Stamina afterF,
           mtt_MomentumBefore = fs_Momentum beforeF, mtt_MomentumAfter = fs_Momentum afterF,
           mtt_IsOptimalChoice = isOptimal, mtt_OptimalAction = action_string optimalAction,
           mtt_OptimalTargetZone = zone_string optimalZone\<rparr>)"

type_synonym observations = "string \<Rightarrow> turn_observation list"

text \<open>A missing key of the map reads as the empty slice, so the map is a total function.\<close>

fun buildTurnTelemetryRows :: "'f float64 \<Rightarrow> string \<Rightarrow> match_state \<Rightarrow> match_state \<Rightarrow> turn_input list
    \<Rightarrow> event list \<Rightarrow> 'r match_slot \<Rightarrow> 'r match_slot \<Rightarrow> 'f
    \<Rightarrow> match_turn_telemetry list \<times> observations" where
  "buildTurnTelemetryRows F matchID b a [] events slot1 slot2 eps = ([], \<lambda>_. [])"
| "buildTurnTelemetryRows F matchID b a (inp # inputs) events slot1 slot2 eps =
     (let (rows, obs) = buildTurnTelemetryRows F matchID b a inputs events slot1 slot2 eps in
      case fightersBeforeAfterByID b a (ti_PlayerID inp) of
        None \<Rightarrow> (rows, obs)
      | Some (beforeF, afterF, other) \<Rightarrow>
          let row = telemetry_row F matchID b a events slot1 slot2 eps inp beforeF afterF other
          in (row # rows,
              if mtt_IsHuman row
              then obs(ti_PlayerID inp := \<lparr>to_DecisionMS = mtt_DecisionMS row,
                to_IsOptimal = mtt_IsOptimalChoice row\<rparr> # obs (ti_PlayerID inp))
              else obs))"

section \<open>The best choice\<close>

lemma float_orderD:
  assumes "float_order F num"
  shows "num a \<Longrightarrow> num b \<Longrightarrow> num c \<Longrightarrow> \<not> f_less F a b \<Longrightarrow> \<not> f_less F b c \<Longrightarrow> \<not> f_less F a c"
    and "num a \<Longrightarrow> num b \<Longrightarrow> f_less F a b \<Longrightarrow> \<not> f_less F b a"
    and "num a \<Longrightarrow> f_less F (f_neg_inf F) a" "num a \<Longrightarrow> \<not> f_is_neg_inf F a"
    and "num a \<Longrightarrow> \<not> f_less F a a"
  using assms unfolding float_order_def by blast+

abbreviation action_pairs :: "action \<Rightarrow> (action \<times> zone) list" where
  "action_pairs a \<equiv> [(a, ZoneHead), (a, ZoneTorso), (a, ZoneLegs)]"

text \<open>When the utility does not read the zone, only the first zone of an action can raise the best.\<close>

lemma choice_loop_action:
  assumes "\<not> f_less F (v a) (v a)"
  shows "choice_loop F (\<lambda>a z. v a) chosen (action_pairs a @ pairs) (bu, ba, bz, cu) =
    choice_loop F (\<lambda>a z. v a) chosen pairs
      (let cu = (if a = ti_Action chosen \<and> valid_zone (ti_Target chosen) then v a else cu)
       in if f_less F bu (v a) then (v a, a, ZoneHead, cu) else (bu, ba, bz, cu))"
  using assms by (auto simp: Let_def valid_zone_def)

lemma choice_loop_actions:
  assumes F: "float_order F num"
  shows "choice_loop F (\<lambda>a z. v a) chosen (concat (map action_pairs acts)) (bu, ba, ZoneHead, cu)
      = (bu', ba', bz', cu')
    \<Longrightarrow> num bu \<Longrightarrow> \<forall>a \<in> set acts. num (v a) \<Longrightarrow>
    bz' = ZoneHead \<and> num bu' \<and> \<not> f_less F bu' bu \<and> (\<forall>a \<in> set acts. \<not> f_less F bu' (v a))
    \<and> (ba' = ba \<and> bu' = bu \<or> ba' \<in> set acts \<and> bu' = v ba')"
proof (induction acts arbitrary: bu ba cu)
  case Nil
  then show ?case using float_orderD(5) [OF F] by auto
next
  case (Cons a acts)
  define bu1 where "bu1 = (if f_less F bu (v a) then v a else bu)"
  define ba1 where "ba1 = (if f_less F bu (v a) then a else ba)"
  define cu1 where "cu1 = (if a = ti_Action chosen \<and> valid_zone (ti_Target chosen) then v a else cu)"
  from Cons.prems have num: "num (v a)" "num bu1" and rest: "\<forall>a \<in> set acts. num (v a)"
    by (auto simp: bu1_def)
  have raise: "\<not> f_less F bu1 (v a)" "\<not> f_less F bu1 bu"
    using float_orderD(2,5) [OF F] num Cons.prems(2) by (auto simp: bu1_def)
  have "choice_loop F (\<lambda>a z. v a) chosen (concat (map action_pairs acts)) (bu1, ba1, ZoneHead, cu1)
      = (bu', ba', bz', cu')"
    using Cons.prems(1)
    unfolding list.map concat.simps
      choice_loop_action [where v = v and a = a, OF float_orderD(5) [OF F num(1)]]
    by (cases "f_less F bu (v a)") (simp_all add: bu1_def ba1_def cu1_def Let_def)
  from Cons.IH [OF this num(2) rest] have IH: "bz' = ZoneHead" "num bu'" "\<not> f_less F bu' bu1"
    "\<forall>a \<in> set acts. \<not> f_less F bu' (v a)" "ba' = ba1 \<and> bu' = bu1 \<or> ba' \<in> set acts \<and> bu' = v ba'"
    by blast+
  have "\<not> f_less F bu' bu" "\<not> f_less F bu' (v a)"
    using float_orderD(1) [OF F IH(2) num(2)] IH(3) raise num(1) Cons.prems(2) by blast+
  with IH show ?case by (auto simp: bu1_def ba1_def split: if_splits)
qed

lemma choice_pairs_actions: "choice_pairs = concat (map action_pairs npc_actions)"
  by (simp add: choice_pairs_def npc_actions_def)

lemma estimateUtility_zone: "estimateUtility F state actor defender =
    (\<lambda>a z. estimateUtility F state actor defender a ZoneHead)"
  by (intro ext) (simp only: estimateUtility_def)

section \<open>Properties\<close>

text \<open>
  The choice a turn is compared with is the best of the table: no action and no zone has a
  higher estimated utility. Its zone is always the head, because the estimate does not read the
  zone it is given.
\<close>

theorem optimal_choice:
  assumes "float_order F num"
    and "\<forall>a \<in> set npc_actions. num (estimateUtility F m actor defender a ZoneHead)"
    and "optimalChoice F m actor defender chosen = (bestAction, bestZone, chosenU, bestU)"
  shows "bestAction \<in> set npc_actions \<and> bestZone = ZoneHead
    \<and> bestU = estimateUtility F m actor defender bestAction bestZone
    \<and> (\<forall>a \<in> set npc_actions. \<forall>z. \<not> f_less F bestU (estimateUtility F m actor defender a z))"
proof -
  define v where "v a = estimateUtility F m actor defender a ZoneHead" for a
  have u: "estimateUtility F m actor defender = (\<lambda>a z. v a)"
    unfolding v_def by (rule estimateUtility_zone)
  note F = float_orderD [OF assms(1)]
  have num: "\<forall>a \<in> set npc_actions. num (v a)" using assms(2) by (simp add: v_def)
  then have strike: "num (v ActionStrike)" by (simp add: npc_actions_def)
  obtain bu ba bz cu where loop: "choice_loop F (\<lambda>a z. v a) chosen choice_pairs
      (f_neg_inf F, ActionNone, ZoneTorso, f_neg_inf F) = (bu, ba, bz, cu)"
    by (metis prod_cases4)
  have best: "bestAction = ba" "bestZone = bz" "bestU = bu"
    using assms(3) unfolding optimalChoice_def u Let_def loop by simp_all
  define acts where "acts = tl npc_actions"
  have acts: "npc_actions = ActionStrike # acts" by (simp add: acts_def npc_actions_def)
  from loop obtain cu1 where "choice_loop F (\<lambda>a z. v a) chosen (concat (map action_pairs acts))
      (v ActionStrike, ActionStrike, ZoneHead, cu1) = (bu, ba, bz, cu)"
    unfolding choice_pairs_actions acts list.map concat.simps
      choice_loop_action [where v = v and a = ActionStrike, OF F(5) [OF strike]]
    by (simp add: Let_def F(3) [OF strike])
  from choice_loop_actions [where v = v, OF assms(1) this strike] num
  have "bz = ZoneHead \<and> \<not> f_less F bu (v ActionStrike) \<and> (\<forall>a \<in> set acts. \<not> f_less F bu (v a))
      \<and> (ba = ActionStrike \<and> bu = v ActionStrike \<or> ba \<in> set acts \<and> bu = v ba)"
    by (simp add: acts)
  then show ?thesis
    unfolding best u acts by auto
qed

text \<open>An arithmetic unit that meets \<open>float_order\<close>: exact rationals and minus infinity.\<close>

definition exact_op :: "(rat \<Rightarrow> rat \<Rightarrow> rat) \<Rightarrow> rat option \<Rightarrow> rat option \<Rightarrow> rat option" where
  "exact_op f a b = (case (a, b) of (Some x, Some y) \<Rightarrow> Some (f x y) | _ \<Rightarrow> None)"

definition exact_float :: "rat option float64" where
  "exact_float = \<lparr>f_of_int = (\<lambda>i. Some (rat_of_int i)),
     f_lit = (\<lambda>p q. Some (rat_of_int p / rat_of_int q)),
     f_add = exact_op (+), f_sub = exact_op (-), f_mul = exact_op (*), f_div = exact_op (/),
     f_round = map_option (\<lambda>x. rat_of_int \<lfloor>x + 1 / 2\<rfloor>),
     f_le = (\<lambda>a b. case (a, b) of (Some x, Some y) \<Rightarrow> x \<le> y | (None, _) \<Rightarrow> True | _ \<Rightarrow> False),
     f_less = (\<lambda>a b. case (a, b) of (Some x, Some y) \<Rightarrow> x < y | (None, Some _) \<Rightarrow> True | _ \<Rightarrow> False),
     f_neg_inf = None, f_is_neg_inf = (\<lambda>a. a = None)\<rparr>"

lemma exact_float_order: "float_order exact_float (\<lambda>a. a \<noteq> None)"
  by (auto simp: float_order_def exact_float_def)

lemma optimal_choice_witness:
  "\<exists>bestAction chosenU bestU. optimalChoice exact_float demo_match (ms_P1 demo_match) (ms_P2 demo_match)
      (idle_input ''ana'') = (bestAction, ZoneHead, chosenU, bestU)"
proof -
  obtain act zone cu bu where res: "optimalChoice exact_float demo_match (ms_P1 demo_match)
      (ms_P2 demo_match) (idle_input ''ana'') = (act, zone, cu, bu)"
    by (metis prod_cases4)
  have "\<forall>a \<in> set npc_actions. estimateUtility exact_float demo_match (ms_P1 demo_match)
      (ms_P2 demo_match) a ZoneHead \<noteq> None"
    by (simp add: estimateUtility_def exact_float_def exact_op_def Let_def del: demo_match_simps)
  from optimal_choice [OF exact_float_order this res] res show ?thesis by auto
qed

end
