(* ===== verification/MatchLoop.thy ===== *)
theory MatchLoop
  imports Simulator Renderer Telemetry
begin

text \<open>
  The authoritative match of \<^verbatim>\<open>internal/matchmaking/service.go\<close>: \<open>runMatch\<close> for two players,
  \<open>runNPCMatch\<close> for practice and \<open>RunTutorial\<close>. A run is a function of what its surroundings do
  (\<open>turn_env\<close>, \<open>run_env\<close>: clock readings, what the players' channels deliver, cancellation) and
  of the services it calls (\<open>match_deps\<close>); its observable effects, in order, are a list of
  \<open>match_output\<close>s. The turn loop is \<open>match_loop\<close>, one turn is \<open>match_turn\<close>.

  \<open>None\<close> stands for a loop that waits for an input for ever. The properties say that this needs a
  timer that never fires: otherwise a match ends, within its turn limit, with a result among its two
  players, and the replay it hands to the finalizer reproduces it.
\<close>

section \<open>Derived values\<close>

definition npcSeedSaltP1 :: u64 where "npcSeedSaltP1 = 0xA5A5A5A5A5A5A5A5"
definition npcSeedSaltP2 :: u64 where "npcSeedSaltP2 = 0x5A5A5A5A5A5A5A5A"

definition pickArchetype :: "string \<Rightarrow> byte \<Rightarrow> archetype" where
  "pickArchetype playerID salt =
     (let h = fnv32a_write (fnv32a_write fnv32_offset (string_bytes playerID)) [salt];
          v = h mod 4
      in if v = 0 then ArchetypeBalanced else if v = 1 then ArchetypePowerhouse
         else if v = 2 then ArchetypeTechnician else ArchetypeHighFlyer)"

text \<open>The third argument is the time in the layout \<^verbatim>\<open>time.RFC3339Nano\<close>.\<close>

definition seedForPair :: "string \<Rightarrow> string \<Rightarrow> string \<Rightarrow> u64" where
  "seedForPair player1ID player2ID now =
     (let h = fnv64a_write fnv64a_offset (string_bytes player1ID);
          h = fnv64a_write h [0];
          h = fnv64a_write h (string_bytes player2ID);
          h = fnv64a_write h [0];
          seed = fnv64a_write h (string_bytes now)
      in if seed = 0 then 1 else seed)"

definition seedWithSalt :: "u64 \<Rightarrow> u64 \<Rightarrow> u64" where
  "seedWithSalt seed salt = (let mixed = seed XOR salt in if mixed = 0 then 1 else mixed)"

datatype match_result_type = MatchResultKO | MatchResultSubmission | MatchResultAbandon | MatchResultDraw

definition mapResult :: "match_outcome \<Rightarrow> match_result_type \<times> string option" where
  "mapResult outcome =
     (if \<not> mo_Finished outcome then (MatchResultDraw, None)
      else let winner = mo_WinnerID outcome; method = mo_Method outcome in
        if method = ''KO'' \<or> method = ''ko'' then (MatchResultKO, Some winner)
        else if method = ''Submission'' \<or> method = ''submission'' then (MatchResultSubmission, Some winner)
        else if method = ''abandon'' \<or> method = ''Abandon'' then (MatchResultAbandon, Some winner)
        else if winner = '''' then (MatchResultDraw, None)
        else (MatchResultKO, Some winner))"

section \<open>Cinematic output\<close>

definition cinematicFrameDelay :: duration where "cinematicFrameDelay = 140 * 1000000"
definition cinematicSlowmoDelay :: duration where "cinematicSlowmoDelay = 260 * 1000000"
definition cinematicTurnSettleDelay :: duration where "cinematicTurnSettleDelay = 220 * 1000000"

definition ansiClearHome :: string where
  "ansiClearHome = CHR 0x1B # ''[2J'' @ CHR 0x1B # ''[H''"

record payload_step =
  ps_Lines :: "string list"
  ps_Delay :: duration

definition containsEffect :: "effect list \<Rightarrow> effect \<Rightarrow> bool" where
  "containsEffect effects want = list_ex (\<lambda>effect. effect = want) effects"

definition cinematic_delay :: "bool \<Rightarrow> int \<Rightarrow> int \<Rightarrow> duration" where
  "cinematic_delay slowmo n i =
     (if i < n - 1 then if slowmo \<and> i = n - 2 then cinematicSlowmoDelay else cinematicFrameDelay
      else if slowmo then cinematicSlowmoDelay else cinematicTurnSettleDelay)"

definition buildCinematicSequence :: "frame \<Rightarrow> payload_step list" where
  "buildCinematicSequence fr =
     (let baseFrames = fr_Keyframes fr;
          baseFrames = (if length baseFrames = 0 \<and> length (fr_Full fr) > 0 then [fr_Full fr] else baseFrames)
      in if length baseFrames = 0 then []
         else let slowmo = containsEffect (fr_Effects fr) EffectSlowmo
           in map (\<lambda>i. \<lparr>ps_Lines = ansiClearHome # baseFrames ! i,
                ps_Delay = cinematic_delay slowmo (int (length baseFrames)) (int i)\<rparr>)
              [0..<length baseFrames])"

section \<open>Effects of a run\<close>

record replay_turn_write =
  rt_Turn :: int
  rt_RelativeMS :: int
  rt_Inputs :: "turn_input list"
  rt_Checksums :: turn_checksum

record match_replay_write =
  rw_Seed :: u64
  rw_InitialState :: match_state
  rw_Turns :: "replay_turn_write list"

record finalize_match_params =
  fm_MatchID :: string
  fm_Player1ID :: string
  fm_Player2ID :: string
  fm_WinnerID :: "string option"
  fm_ResultType :: match_result_type
  fm_StartedAt :: time
  fm_EndedAt :: time
  fm_Replay :: "match_replay_write option"

text \<open>What \<open>persistMatchTelemetry\<close> reads of a finalized match.\<close>

record finalized_match =
  fd_MatchID :: string
  fd_SeasonID :: string
  fd_Player1ID :: string
  fd_Player2ID :: string
  fd_WinnerID :: "string option"
  fd_ResultType :: match_result_type
  fd_DurationMS :: int

record 'f match_summary_telemetry =
  su_MatchID :: string
  su_SeasonID :: string
  su_Player1ID :: string
  su_Player2ID :: string
  su_WinnerID :: "string option"
  su_ResultType :: match_result_type
  su_TurnCount :: int
  su_DurationMS :: int
  su_AvgDecisionMSP1 :: 'f
  su_AvgDecisionMSP2 :: 'f
  su_AvgStaminaP1 :: 'f
  su_AvgStaminaP2 :: 'f
  su_AvgMomentumP1 :: 'f
  su_AvgMomentumP2 :: 'f
  su_MaxComboP1 :: int
  su_MaxComboP2 :: int
  su_StunEvents :: int
  su_SubmissionAttempts :: int
  su_QueueWaitMSP1 :: int
  su_QueueWaitMSP2 :: int

record 'f anti_bot_flag =
  ab_PlayerID :: string
  ab_SeasonID :: string
  ab_MatchID :: string
  ab_Evaluation :: "'f anti_bot_evaluation"

record navigation_event =
  nv_PlayerID :: string
  nv_EventType :: string
  nv_OpponentID :: string

record active_match =
  am_MatchID :: string
  am_P1ID :: string
  am_P2ID :: string
  am_P1Handle :: string
  am_P2Handle :: string

datatype 'f match_output =
    SentFrame string "string list"
  | Broadcasted string "string list"
  | Navigated navigation_event
  | RegisteredMatch active_match
  | UnregisteredMatch active_match
  | FinalizedMatch finalize_match_params
  | TurnRowsInserted "match_turn_telemetry list"
  | SummaryInserted "'f match_summary_telemetry"
  | FlagCreated "'f anti_bot_flag"
  | CounterIncreased string
  | DurationObserved string duration
  | InputDrained string

definition sent_out :: "sent list \<Rightarrow> 'f match_output list" where
  "sent_out frames = map (\<lambda>(pid, lines). SentFrame pid lines) frames"

text \<open>\<open>stop\<close> is the index of the sleep during which the context is canceled, if any.\<close>

definition sleepWithContext :: "bool \<Rightarrow> duration \<Rightarrow> bool" where
  "sleepWithContext canceled d = (if d \<le> 0 then True else \<not> canceled)"

fun emit_steps :: "nat option \<Rightarrow> nat \<Rightarrow> payload_step list \<Rightarrow> string \<Rightarrow> session list
    \<Rightarrow> bool \<times> 'f match_output list" where
  "emit_steps stop i [] spectatorMatchID sessions = (True, [])"
| "emit_steps stop i (step # steps) spectatorMatchID sessions =
     (let out = sent_out (concat (map (\<lambda>sess. sendFrame sess (ps_Lines step)) sessions))
            @ (if spectatorMatchID \<noteq> '''' then [Broadcasted spectatorMatchID (ps_Lines step)] else [])
      in if \<not> sleepWithContext (stop = Some i) (ps_Delay step) then (False, out)
         else let (ok, out') = emit_steps stop (i + 1) steps spectatorMatchID sessions in (ok, out @ out'))"

definition emitCinematicSequence :: "nat option \<Rightarrow> frame \<Rightarrow> string \<Rightarrow> session list
    \<Rightarrow> bool \<times> 'f match_output list" where
  "emitCinematicSequence stop fr spectatorMatchID sessions =
     emit_steps stop 0 (buildCinematicSequence fr) spectatorMatchID sessions"

section \<open>Surroundings\<close>

text \<open>
  One pass of the turn loop: whether the context is already done, what the two waits see, which
  result comes first, the clock after the turn, and the sleep cut short by a cancellation.
\<close>

record turn_env =
  te_canceled :: bool
  te_events1 :: "wait_event list"
  te_events2 :: "wait_event list"
  te_second_first :: bool
  te_now :: time
  te_cut :: "nat option"

record run_env =
  re_startedAt :: time
  re_endedAt :: time
  re_turns :: "int \<Rightarrow> turn_env"
  re_ctx_err :: bool

text \<open>
  The services behind the interfaces of the run. \<open>md_store\<close> is the telemetry store, with the result
  of \<^verbatim>\<open>LoadAntiBotConfig\<close> (\<open>None\<close> an error); \<open>md_finalizer\<close> the finalizer, with \<open>None\<close> for an
  error; \<open>md_match_id\<close> the fresh identifier and \<open>md_clock_text\<close> the time layout.
\<close>

record 'f match_deps =
  md_resolver :: "deterministic_rng resolver"
  md_engine :: "deterministic_rng npc_engine option"
  md_render :: "string \<Rightarrow> string \<Rightarrow> turn_result \<Rightarrow> frame"
  md_float :: "'f float64"
  md_store :: "'f anti_bot_config option option"
  md_finalizer :: "(finalize_match_params \<Rightarrow> finalized_match option) option"
  md_telemetry :: bool
  md_MaxTurns :: int
  md_match_id :: string
  md_clock_text :: "time \<Rightarrow> string"

section \<open>Closing telemetry\<close>

definition avgDecisionMS :: "'f float64 \<Rightarrow> turn_observation list \<Rightarrow> 'f" where
  "avgDecisionMS F observations = (if observations = [] then f_lit F 0 1
     else f_div F (f_of_int F (sum_list (map to_DecisionMS observations)))
       (f_of_int F (int (length observations))))"

text \<open>The accumulators of the turn loop; a missing key of a map reads as zero.\<close>

record 'f match_tally =
  tl_rows :: "match_turn_telemetry list"
  tl_obs :: observations
  tl_stamina :: "string \<Rightarrow> 'f"
  tl_momentum :: "string \<Rightarrow> 'f"
  tl_combo :: "string \<Rightarrow> int"
  tl_stuns :: int
  tl_submissions :: int

definition no_tally :: "'f float64 \<Rightarrow> 'f match_tally" where
  "no_tally F = \<lparr>tl_rows = [], tl_obs = (\<lambda>_. []), tl_stamina = (\<lambda>_. f_lit F 0 1),
     tl_momentum = (\<lambda>_. f_lit F 0 1), tl_combo = (\<lambda>_. 0), tl_stuns = 0, tl_submissions = 0\<rparr>"

definition match_summary :: "'f float64 \<Rightarrow> finalized_match \<Rightarrow> 'f match_tally \<Rightarrow> int \<Rightarrow> int
    \<Rightarrow> 'f match_summary_telemetry" where
  "match_summary F fin tally wait1 wait2 =
     (let turnCount = ms_maxInt (int (length (tl_rows tally)) sdiv 2) 1; n = f_of_int F turnCount;
          p1 = fd_Player1ID fin; p2 = fd_Player2ID fin
      in \<lparr>su_MatchID = fd_MatchID fin, su_SeasonID = fd_SeasonID fin, su_Player1ID = p1,
           su_Player2ID = p2, su_WinnerID = fd_WinnerID fin, su_ResultType = fd_ResultType fin,
           su_TurnCount = turnCount, su_DurationMS = fd_DurationMS fin,
           su_AvgDecisionMSP1 = avgDecisionMS F (tl_obs tally p1),
           su_AvgDecisionMSP2 = avgDecisionMS F (tl_obs tally p2),
           su_AvgStaminaP1 = f_div F (tl_stamina tally p1) n,
           su_AvgStaminaP2 = f_div F (tl_stamina tally p2) n,
           su_AvgMomentumP1 = f_div F (tl_momentum tally p1) n,
           su_AvgMomentumP2 = f_div F (tl_momentum tally p2) n,
           su_MaxComboP1 = tl_combo tally p1, su_MaxComboP2 = tl_combo tally p2,
           su_StunEvents = tl_stuns tally, su_SubmissionAttempts = tl_submissions tally,
           su_QueueWaitMSP1 = wait1, su_QueueWaitMSP2 = wait2\<rparr>)"

definition player_flag :: "'f float64 \<Rightarrow> finalized_match \<Rightarrow> 'f match_tally \<Rightarrow> 'f anti_bot_config
    \<Rightarrow> string \<Rightarrow> 'f match_output list" where
  "player_flag F fin tally antiBotCfg playerID =
     (let observations = tl_obs tally playerID in
      if observations = [] then []
      else [FlagCreated \<lparr>ab_PlayerID = playerID, ab_SeasonID = fd_SeasonID fin, ab_MatchID = fd_MatchID fin,
        ab_Evaluation = EvaluateAntiBot F (ComputeAntiBotMetrics F observations) antiBotCfg\<rparr>])"

definition persistMatchTelemetry :: "'f match_deps \<Rightarrow> finalized_match \<Rightarrow> 'f match_tally
    \<Rightarrow> 'f anti_bot_config \<Rightarrow> int \<Rightarrow> int \<Rightarrow> 'f match_output list" where
  "persistMatchTelemetry D fin tally antiBotCfg wait1 wait2 = (case md_store D of
     None \<Rightarrow> []
   | Some _ \<Rightarrow>
       (if length (tl_rows tally) > 0 then [TurnRowsInserted (tl_rows tally)] else [])
       @ [SummaryInserted (match_summary (md_float D) fin tally wait1 wait2)]
       @ concat (map (player_flag (md_float D) fin tally antiBotCfg) [fd_Player1ID fin, fd_Player2ID fin]))"

definition navigated :: "'f match_deps \<Rightarrow> navigation_event \<Rightarrow> 'f match_output list" where
  "navigated D event = (case md_store D of None \<Rightarrow> [] | Some _ \<Rightarrow> [Navigated event])"

section \<open>One turn\<close>

record 'f match_run =
  mr_sim :: combat_simulator
  mr_slot1 :: "deterministic_rng match_slot"
  mr_slot2 :: "deterministic_rng match_slot"
  mr_replay :: "replay_turn_write list"
  mr_tally :: "'f match_tally"
  mr_out :: "'f match_output list"

datatype turn_exit = LoopDone | LoopCanceled | LoopAborted

definition add_at :: "('a \<Rightarrow> 'b \<Rightarrow> 'a) \<Rightarrow> string \<Rightarrow> 'b \<Rightarrow> (string \<Rightarrow> 'a) \<Rightarrow> string \<Rightarrow> 'a" where
  "add_at f k v m = m(k := f (m k) v)"

definition tally_turn :: "'f match_deps \<Rightarrow> 'f anti_bot_config \<Rightarrow> session \<Rightarrow> session \<Rightarrow> match_state
    \<Rightarrow> turn_input list \<Rightarrow> turn_result \<Rightarrow> 'r match_slot \<Rightarrow> 'r match_slot
    \<Rightarrow> 'f match_tally \<Rightarrow> 'f match_tally" where
  "tally_turn D antiBotCfg sess1 sess2 state inputs result slot1 slot2 tally =
     (let F = md_float D; p1 = se_PlayerID sess1; p2 = se_PlayerID sess2;
          n = tr_Next result; events = tr_Events result;
          stuns = length (filter (\<lambda>e. ev_Type e = EventStatusApplied \<and> ev_Detail e = ''stunned'') events);
          (rows, obs) = buildTurnTelemetryRows F (md_match_id D) state n inputs events slot1 slot2
            (ac_OptimalityEpsilon antiBotCfg);
          acc = (\<lambda>a i. f_add F a (f_of_int F i))
      in \<lparr>tl_rows = tl_rows tally @ rows,
           tl_obs = add_at (@) p2 (obs p2) (add_at (@) p1 (obs p1) (tl_obs tally)),
           tl_stamina = add_at acc p2 (fs_Stamina (ms_P2 n)) (add_at acc p1 (fs_Stamina (ms_P1 n)) (tl_stamina tally)),
           tl_momentum = add_at acc p2 (fs_Momentum (ms_P2 n)) (add_at acc p1 (fs_Momentum (ms_P1 n)) (tl_momentum tally)),
           tl_combo = fold (\<lambda>e m. if ev_Type e = EventStatusApplied \<and> ev_Detail e = ''combo_active''
             then add_at (+) (ev_PlayerID e) 1 m else m) events (tl_combo tally),
           tl_stuns = tl_stuns tally + int stuns,
           tl_submissions = (if ms_CombatState state \<noteq> StateSubmissionAttempt
               \<and> ms_CombatState n = StateSubmissionAttempt
             then tl_submissions tally + 1 else tl_submissions tally)\<rparr>)"

definition abort_match :: "session \<Rightarrow> session \<Rightarrow> string \<Rightarrow> 'f match_output list" where
  "abort_match sess1 sess2 line = sent_out (sendFrame sess1 [line] @ sendFrame sess2 [line])"

text \<open>The rest of a turn once it has been resolved.\<close>

definition resolved_turn :: "'f match_deps \<Rightarrow> 'f anti_bot_config \<Rightarrow> time \<Rightarrow> turn_env \<Rightarrow> session \<Rightarrow> session
    \<Rightarrow> match_state \<Rightarrow> turn_input list \<Rightarrow> turn_result \<Rightarrow> combat_simulator
    \<Rightarrow> 'f match_run \<Rightarrow> 'f match_run \<times> turn_exit option" where
  "resolved_turn D antiBotCfg startedAt te sess1 sess2 state canonicalInputs result sim run =
     (let relativeMS = Milliseconds (time_sub (te_now te) startedAt);
          relativeMS = (if relativeMS < 0 then 0 else relativeMS);
          fr = md_render D (se_Handle sess1) (se_Handle sess2) result;
          (ok, out) = emitCinematicSequence (te_cut te) fr (md_match_id D) [sess1, sess2];
          run = run\<lparr>mr_sim := sim,
            mr_replay := mr_replay run @ [\<lparr>rt_Turn = ms_Turn (tr_Next result),
              rt_RelativeMS = relativeMS, rt_Inputs = canonicalInputs,
              rt_Checksums = tr_Checksums result\<rparr>],
            mr_out := mr_out run @ out\<rparr>
      in if \<not> ok then (run, Some LoopCanceled)
         else (run\<lparr>mr_tally := tally_turn D antiBotCfg sess1 sess2 state canonicalInputs
           result (mr_slot1 run) (mr_slot2 run) (mr_tally run)\<rparr>, None))"

text \<open>
  The body of the loop of \<open>runMatch\<close>. \<open>Some (run, None)\<close> goes on to the next turn.
\<close>

definition match_turn :: "'f match_deps \<Rightarrow> 'f anti_bot_config \<Rightarrow> time \<Rightarrow> turn_env \<Rightarrow> session \<Rightarrow> session
    \<Rightarrow> 'f match_run \<Rightarrow> ('f match_run \<times> turn_exit option) option" where
  "match_turn D antiBotCfg startedAt te sess1 sess2 run =
     (if te_canceled te then Some (run, Some LoopCanceled)
      else let state = State (mr_sim run) in
      if mo_Finished (ms_Outcome state) then Some (run, Some LoopDone)
      else case collectTurnInputs (md_engine D) state (mr_slot1 run) (mr_slot2 run)
          (te_events1 te) (te_events2 te) (te_second_first te) of
        None \<Rightarrow> None
      | Some (collected, slot1, slot2, frames) \<Rightarrow>
          let run = run\<lparr>mr_slot1 := slot1, mr_slot2 := slot2, mr_out := mr_out run @ sent_out frames\<rparr> in
          case collected of
            None \<Rightarrow> Some (run, Some LoopCanceled)
          | Some turnInputs \<Rightarrow> (case CanonicalizeInputs state turnInputs of
              Inl err \<Rightarrow> Some (run\<lparr>mr_out := mr_out run
                @ abort_match sess1 sess2 ''Match aborted: invalid turn inputs.''\<rparr>, Some LoopAborted)
            | Inr canonicalInputs \<Rightarrow> (case Step (md_resolver D) (mr_sim run) canonicalInputs of
                (Inl err, sim) \<Rightarrow> Some (run\<lparr>mr_sim := sim, mr_out := mr_out run
                  @ abort_match sess1 sess2 ''Match aborted: resolution error.''\<rparr>, Some LoopAborted)
              | (Inr result, sim) \<Rightarrow> Some (resolved_turn D antiBotCfg startedAt te sess1 sess2 state
                  canonicalInputs result sim run))))"

function match_loop :: "'f match_deps \<Rightarrow> 'f anti_bot_config \<Rightarrow> time \<Rightarrow> (int \<Rightarrow> turn_env) \<Rightarrow> session \<Rightarrow> session
    \<Rightarrow> int \<Rightarrow> 'f match_run \<Rightarrow> ('f match_run \<times> turn_exit) option" where
  "match_loop D antiBotCfg startedAt env sess1 sess2 turn run =
     (if \<not> turn < md_MaxTurns D then Some (run, LoopDone)
      else case match_turn D antiBotCfg startedAt (env turn) sess1 sess2 run of
        None \<Rightarrow> None
      | Some (run', Some exit) \<Rightarrow> Some (run', exit)
      | Some (run', None) \<Rightarrow> match_loop D antiBotCfg startedAt env sess1 sess2 (turn + 1) run')"
  by pat_completeness auto
termination
  by (relation "measure (\<lambda>(D, c, s, e, s1, s2, turn, run). nat (md_MaxTurns D - turn))") auto

declare match_loop.simps [simp del]

section \<open>A match between two players\<close>

definition result_frames :: "session \<Rightarrow> session \<Rightarrow> string option \<Rightarrow> sent list" where
  "result_frames sess1 sess2 winnerID = (case winnerID of
     None \<Rightarrow> sendFrame sess1 [''Match ended in draw.''] @ sendFrame sess2 [''Match ended in draw.'']
   | Some w \<Rightarrow> if w = se_PlayerID sess1
       then sendFrame sess1 [''Victory!''] @ sendFrame sess2 [''Defeat.'']
       else sendFrame sess1 [''Defeat.''] @ sendFrame sess2 [''Victory!''])"

definition match_result :: "match_state \<Rightarrow> match_result_type \<times> string option" where
  "match_result finalState = (let (resultType, winnerID) = mapResult (ms_Outcome finalState) in
     if \<not> mo_Finished (ms_Outcome finalState) then (MatchResultDraw, None) else (resultType, winnerID))"

definition finalize_params :: "'f match_deps \<Rightarrow> run_env \<Rightarrow> session \<Rightarrow> session \<Rightarrow> u64 \<Rightarrow> match_state
    \<Rightarrow> 'f match_run \<Rightarrow> finalize_match_params" where
  "finalize_params D env sess1 sess2 seed initialState run =
     (let (resultType, winnerID) = match_result (State (mr_sim run))
      in \<lparr>fm_MatchID = md_match_id D, fm_Player1ID = se_PlayerID sess1, fm_Player2ID = se_PlayerID sess2,
          fm_WinnerID = winnerID, fm_ResultType = resultType, fm_StartedAt = re_startedAt env,
          fm_EndedAt = re_endedAt env,
          fm_Replay = Some \<lparr>rw_Seed = seed, rw_InitialState = initialState, rw_Turns = mr_replay run\<rparr>\<rparr>)"

text \<open>What happens after the loop has ended; \<open>False\<close> when it returns before the results are shown.\<close>

definition finalize_out :: "'f match_deps \<Rightarrow> 'f anti_bot_config \<Rightarrow> run_env \<Rightarrow> session \<Rightarrow> session \<Rightarrow> int \<Rightarrow> int
    \<Rightarrow> finalize_match_params \<Rightarrow> 'f match_tally \<Rightarrow> bool \<times> 'f match_output list" where
  "finalize_out D antiBotCfg env sess1 sess2 wait1 wait2 params tally = (case md_finalizer D of
     None \<Rightarrow> (True, [])
   | Some finalize \<Rightarrow> (case finalize params of
       None \<Rightarrow> if re_ctx_err env then (False, [FinalizedMatch params])
         else (True, FinalizedMatch params # abort_match sess1 sess2 ''Warning: failed to persist match result.'')
     | Some fin \<Rightarrow> (True, FinalizedMatch params
         # persistMatchTelemetry D fin tally antiBotCfg wait1 wait2)))"

definition close_match :: "'f match_deps \<Rightarrow> 'f anti_bot_config \<Rightarrow> run_env \<Rightarrow> session \<Rightarrow> session \<Rightarrow> int \<Rightarrow> int
    \<Rightarrow> u64 \<Rightarrow> match_state \<Rightarrow> 'f match_run \<Rightarrow> 'f match_output list" where
  "close_match D antiBotCfg env sess1 sess2 wait1 wait2 seed initialState run =
     (let params = finalize_params D env sess1 sess2 seed initialState run;
          (ok, out) = finalize_out D antiBotCfg env sess1 sess2 wait1 wait2 params (mr_tally run)
      in if \<not> ok then out
         else out
           @ (if md_telemetry D then [CounterIncreased ''matches_finished'',
                DurationObserved ''match_duration'' (time_sub (re_endedAt env) (re_startedAt env))] else [])
           @ sent_out (result_frames sess1 sess2 (fm_WinnerID params)))"

definition new_slot :: "session \<Rightarrow> bool \<Rightarrow> u64 \<Rightarrow> deterministic_rng match_slot" where
  "new_slot sess npcControlled seed = \<lparr>sl_session = sess, sl_npcControlled = npcControlled,
     sl_timeoutStreak = 0, sl_npcRNG = Some (NewDeterministicRNG seed)\<rparr>"

definition new_run :: "'f match_deps \<Rightarrow> match_state \<Rightarrow> u64 \<Rightarrow> session \<Rightarrow> session \<Rightarrow> bool \<Rightarrow> 'f match_output list
    \<Rightarrow> 'f match_run" where
  "new_run D initialState seed sess1 sess2 npc2 out =
     \<lparr>mr_sim = NewCombatSimulator initialState seed,
      mr_slot1 = new_slot sess1 False (seedWithSalt seed npcSeedSaltP1),
      mr_slot2 = new_slot sess2 npc2 (seedWithSalt seed npcSeedSaltP2),
      mr_replay = [], mr_tally = no_tally (md_float D), mr_out = out\<rparr>"

definition opening_out :: "'f match_deps \<Rightarrow> session \<Rightarrow> session \<Rightarrow> 'f match_output list" where
  "opening_out D sess1 sess2 =
     sent_out (sendFrame sess1 [''Match found!'', ''Opponent: '' @ se_Handle sess2]
       @ sendFrame sess2 [''Match found!'', ''Opponent: '' @ se_Handle sess1])
     @ navigated D \<lparr>nv_PlayerID = se_PlayerID sess1, nv_EventType = ''pvp_started'', nv_OpponentID = se_PlayerID sess2\<rparr>
     @ navigated D \<lparr>nv_PlayerID = se_PlayerID sess2, nv_EventType = ''pvp_started'', nv_OpponentID = se_PlayerID sess1\<rparr>"

definition active_match_of :: "'f match_deps \<Rightarrow> session \<Rightarrow> session \<Rightarrow> active_match" where
  "active_match_of D sess1 sess2 = \<lparr>am_MatchID = md_match_id D, am_P1ID = se_PlayerID sess1,
     am_P2ID = se_PlayerID sess2, am_P1Handle = se_Handle sess1, am_P2Handle = se_Handle sess2\<rparr>"

definition run_seed :: "'f match_deps \<Rightarrow> run_env \<Rightarrow> session \<Rightarrow> session \<Rightarrow> u64" where
  "run_seed D env sess1 sess2 =
     seedForPair (se_PlayerID sess1) (se_PlayerID sess2) (md_clock_text D (re_startedAt env))"

definition match_config :: "'f match_deps \<Rightarrow> 'f anti_bot_config" where
  "match_config D = (case md_store D of Some (Some cfg) \<Rightarrow> cfg | _ \<Rightarrow> DefaultAntiBotConfig (md_float D))"

text \<open>
  The whole run: its observable effects and, when the fighters could be created, the final state
  of the loop with the way it ended. The deferred calls come last, in reverse order.
\<close>

definition runMatch :: "'f match_deps \<Rightarrow> run_env \<Rightarrow> session \<Rightarrow> session \<Rightarrow> int \<Rightarrow> int
    \<Rightarrow> (('f match_run \<times> turn_exit) option \<times> 'f match_output list) option" where
  "runMatch D env sess1 sess2 wait1 wait2 =
     (let drained = [InputDrained (se_PlayerID sess2), InputDrained (se_PlayerID sess1)];
          failed = opening_out D sess1 sess2
            @ abort_match sess1 sess2 ''Failed to initialize fighter.'' @ drained
      in case NewFighter (se_PlayerID sess1) (pickArchetype (se_PlayerID sess1) 0) of
        Inl err \<Rightarrow> Some (None, failed)
      | Inr fighter1 \<Rightarrow> (case NewFighter (se_PlayerID sess2) (pickArchetype (se_PlayerID sess2) 1) of
          Inl err \<Rightarrow> Some (None, failed)
        | Inr fighter2 \<Rightarrow>
            let seed = run_seed D env sess1 sess2;
                initialState = NewMatchState fighter1 fighter2;
                antiBotCfg = match_config D;
                active = active_match_of D sess1 sess2;
                run = new_run D initialState seed sess1 sess2 False
                  (opening_out D sess1 sess2 @ [RegisteredMatch active])
            in map_option (\<lambda>(run, exit). (Some (run, exit),
                mr_out run
                @ (if exit = LoopDone
                   then close_match D antiBotCfg env sess1 sess2 wait1 wait2 seed initialState run else [])
                @ [UnregisteredMatch active] @ drained))
              (match_loop D antiBotCfg (re_startedAt env) (re_turns env) sess1 sess2 0 run)))"

section \<open>What a run keeps\<close>

text \<open>The simulator after a list of turns.\<close>

definition sim_after :: "combat_simulator \<Rightarrow> turn_input list list \<Rightarrow> combat_simulator" where
  "sim_after sim inss = fold (\<lambda>ins s. snd (Step det_resolver s ins)) inss sim"

lemma play_live_snoc:
  "play_live det_resolver sim inss = Inr results \<Longrightarrow>
   Step det_resolver (sim_after sim inss) ins = (Inr res, sim') \<Longrightarrow>
   play_live det_resolver sim (inss @ [ins]) = Inr (results @ [res]) \<and> sim_after sim (inss @ [ins]) = sim'"
proof (induction inss arbitrary: sim results)
  case (Cons i inss)
  from Cons.prems(1) obtain r s' rest where step: "Step det_resolver sim i = (Inr r, s')"
    "play_live det_resolver s' inss = Inr rest" "results = r # rest"
    by (auto split: prod.splits sum.splits)
  from Cons.prems(2) step(1) have "Step det_resolver (sim_after s' inss) ins = (Inr res, sim')"
    by (simp add: sim_after_def)
  from Cons.IH [OF step(2) this] step show ?case by (simp add: sim_after_def)
qed (simp add: sim_after_def)

definition run_ok :: "match_state \<Rightarrow> u64 \<Rightarrow> session \<Rightarrow> session \<Rightarrow> 'f match_run \<Rightarrow> bool" where
  "run_ok initial seed sess1 sess2 run \<longleftrightarrow>
     (\<exists>results. play_live det_resolver (NewCombatSimulator initial seed) (map rt_Inputs (mr_replay run)) = Inr results
        \<and> map tr_Checksums results = map rt_Checksums (mr_replay run)
        \<and> map (\<lambda>r. ms_Turn (tr_Next r)) results = map rt_Turn (mr_replay run))
     \<and> sim_after (NewCombatSimulator initial seed) (map rt_Inputs (mr_replay run)) = mr_sim run
     \<and> sl_session (mr_slot1 run) = sess1 \<and> sl_session (mr_slot2 run) = sess2
     \<and> wf_match (State (mr_sim run))
     \<and> fs_PlayerID (ms_P1 (State (mr_sim run))) = se_PlayerID sess1
     \<and> fs_PlayerID (ms_P2 (State (mr_sim run))) = se_PlayerID sess2"

definition program_deps :: "'f match_deps \<Rightarrow> bool" where
  "program_deps D \<longleftrightarrow> md_resolver D = det_resolver \<and> md_engine D = Some (Decide NextInt)"

definition sessions_ok :: "session \<Rightarrow> session \<Rightarrow> bool" where
  "sessions_ok sess1 sess2 \<longleftrightarrow> se_PlayerID sess1 \<noteq> '''' \<and> se_PlayerID sess2 \<noteq> ''''
     \<and> se_PlayerID sess1 \<noteq> se_PlayerID sess2"

lemma run_ok_step:
  assumes "run_ok initial seed sess1 sess2 run" "Step det_resolver (mr_sim run) ins = (Inr res, sim')"
    and "mr_sim run' = sim'" "sl_session (mr_slot1 run') = sess1" "sl_session (mr_slot2 run') = sess2"
    and "mr_replay run' = mr_replay run @ [rt]" "rt_Inputs rt = ins" "rt_Checksums rt = tr_Checksums res"
    "rt_Turn rt = ms_Turn (tr_Next res)"
  shows "run_ok initial seed sess1 sess2 run'"
proof -
  let ?sim = "NewCombatSimulator initial seed"
  from assms(1) obtain results where live:
    "play_live det_resolver ?sim (map rt_Inputs (mr_replay run)) = Inr results"
    "map tr_Checksums results = map rt_Checksums (mr_replay run)"
    "map (\<lambda>r. ms_Turn (tr_Next r)) results = map rt_Turn (mr_replay run)"
    and sim: "sim_after ?sim (map rt_Inputs (mr_replay run)) = mr_sim run"
    and wf: "wf_match (State (mr_sim run))"
    and ids: "fs_PlayerID (ms_P1 (State (mr_sim run))) = se_PlayerID sess1"
      "fs_PlayerID (ms_P2 (State (mr_sim run))) = se_PlayerID sess2"
    unfolding run_ok_def by blast
  from play_live_snoc [OF live(1), of ins res sim'] sim assms(2)
  have "play_live det_resolver ?sim (map rt_Inputs (mr_replay run')) = Inr (results @ [res])"
    "sim_after ?sim (map rt_Inputs (mr_replay run')) = sim'"
    by (simp_all add: assms)
  moreover have "wf_match (State sim')
      \<and> (\<forall>b. fs_PlayerID (fighter_at b (State sim')) = fs_PlayerID (fighter_at b (State (mr_sim run))))"
    using wf assms(2) by (cases rule: go.step_cases [of "mr_sim run" ins]) auto
  ultimately show ?thesis
    using live(2,3) ids assms by (auto simp: run_ok_def all_side_iff)
qed

lemma emit_steps_uncut: "fst (emit_steps None i steps w ss)"
  by (induction steps arbitrary: i) (simp_all add: sleepWithContext_def Let_def split_beta)

lemma resolved_turn_cases:
  assumes "resolved_turn D cfg startedAt te sess1 sess2 state ins res sim run = (run', exit)"
  shows "mr_sim run' = sim" "mr_slot1 run' = mr_slot1 run" "mr_slot2 run' = mr_slot2 run"
    "\<exists>ms \<ge> 0. mr_replay run' = mr_replay run @ [\<lparr>rt_Turn = ms_Turn (tr_Next res), rt_RelativeMS = ms,
       rt_Inputs = ins, rt_Checksums = tr_Checksums res\<rparr>]"
    "exit = None \<or> exit = Some LoopCanceled \<and> te_cut te \<noteq> None"
proof -
  show "mr_sim run' = sim" "mr_slot1 run' = mr_slot1 run" "mr_slot2 run' = mr_slot2 run"
    "\<exists>ms \<ge> 0. mr_replay run' = mr_replay run @ [\<lparr>rt_Turn = ms_Turn (tr_Next res), rt_RelativeMS = ms,
       rt_Inputs = ins, rt_Checksums = tr_Checksums res\<rparr>]"
    "exit = None \<or> exit = Some LoopCanceled \<and> te_cut te \<noteq> None"
    using assms
    by (auto simp: resolved_turn_def Let_def emitCinematicSequence_def emit_steps_uncut split_beta
        split: if_splits)
qed


lemma collect_sessions:
  assumes "collectTurnInputs e m s1 s2 evs1 evs2 order = Some (inputs, t1, t2, frames)" "slots_ok s1 s2"
  shows "sl_session t1 = sl_session s1 \<and> sl_session t2 = sl_session s2"
  using assms
proof (cases rule: collectTurnInputs_E)
  case (cancel a b)
  then show ?thesis using start_collect_slot(1) by blast
next
  case (collected a b s1' s2' i1 i2 why1 why2)
  then show ?thesis
    using start_collect_slot(1) [OF collected(1)] start_collect_slot(1) [OF collected(2)]
      resolveTurnInput_slot(1) [OF collected(5)] resolveTurnInput_slot(1) [OF collected(6)] by simp
qed

lemma start_collect_canceled:
  assumes "start_collect e m slot evs = (Some res, slot')" "tir_status res = TurnInputCanceled"
  shows "WaitCanceled \<in> set evs"
  using assms wait_canceled by (auto simp: start_collect_def split: if_splits prod.splits)

lemma collect_canceled:
  assumes "collectTurnInputs e m s1 s2 evs1 evs2 order = Some (inputs, t1, t2, frames)" "slots_ok s1 s2"
  shows "inputs = None \<Longrightarrow> WaitCanceled \<in> set evs1 \<or> WaitCanceled \<in> set evs2"
  using assms
proof (cases rule: collectTurnInputs_E)
  case (cancel a b)
  then show ?thesis using start_collect_canceled by blast
qed simp

text \<open>Inputs that were canonicalised can be played.\<close>

lemma step_recorded:
  assumes "CanonicalizeInputs (State sim) ins = Inr ord" "\<not> mo_Finished (ms_Outcome (State sim))"
  shows "\<exists>res sim'. Step det_resolver sim ord = (Inr res, sim')"
proof -
  have "players_ok (State sim)" "inputs_ok (State sim) ins"
    using assms(1) CanonicalizeInputs_ok_iff by blast+
  then have "\<exists>res r'. ResolveTurn det_source (State sim) ins (sim_rng sim) = (Inr res, r')"
    unfolding ResolveTurn_ok_iff using assms(2) by simp
  then obtain res r' where "det_resolver (State sim) ord (sim_rng sim) = (Inr res, r')"
    using go.resolve_canonical [of "State sim" ins ord "sim_rng sim"] assms(1)
    by (auto simp: recorded_order_def)
  then show ?thesis by (simp add: Step_def State_def Let_def)
qed

lemma match_turn_ok:
  assumes D: "program_deps D" "sessions_ok sess1 sess2" and run: "run_ok initial seed sess1 sess2 run"
    and turn: "match_turn D cfg startedAt te sess1 sess2 run = Some (run', exit)"
  shows "run_ok initial seed sess1 sess2 run'"
    and "exit = None \<longrightarrow> length (mr_replay run') = Suc (length (mr_replay run))"
    and "length (mr_replay run') \<le> Suc (length (mr_replay run))"
    and "exit = Some LoopDone \<longrightarrow> run' = run \<and> mo_Finished (ms_Outcome (State (mr_sim run)))"
    and "exit \<noteq> Some LoopAborted"
    and "exit = Some LoopCanceled \<longrightarrow> te_canceled te \<or> te_cut te \<noteq> None
      \<or> WaitCanceled \<in> set (te_events1 te) \<or> WaitCanceled \<in> set (te_events2 te)"
proof -
  let ?st = "State (mr_sim run)"
  have slots: "slots_ok (mr_slot1 run) (mr_slot2 run)"
    using run D(2) by (simp add: run_ok_def sessions_ok_def slots_ok_def)
  consider (canceled) "te_canceled te" "run' = run" "exit = Some LoopCanceled"
    | (over) "mo_Finished (ms_Outcome ?st)" "run' = run" "exit = Some LoopDone"
    | (play) collected slot1 slot2 frames where "\<not> te_canceled te" "\<not> mo_Finished (ms_Outcome ?st)"
      "collectTurnInputs (Some (Decide NextInt)) ?st (mr_slot1 run) (mr_slot2 run) (te_events1 te)
        (te_events2 te) (te_second_first te) = Some (collected, slot1, slot2, frames)"
  proof (cases "te_canceled te")
    case True
    with turn show thesis by (intro canceled) (simp_all add: match_turn_def)
  next
    case running: False
    show thesis
    proof (cases "mo_Finished (ms_Outcome ?st)")
      case True
      with turn running show thesis by (intro over) (simp_all add: match_turn_def Let_def)
    next
      case False
      show thesis
      proof (cases "collectTurnInputs (Some (Decide NextInt)) ?st (mr_slot1 run) (mr_slot2 run)
          (te_events1 te) (te_events2 te) (te_second_first te)")
        case None
        with turn running False D(1) show thesis by (simp add: match_turn_def program_deps_def Let_def)
      next
        case (Some c)
        with running False play show thesis by (cases c) blast
      qed
    qed
  qed
  then have "run_ok initial seed sess1 sess2 run'
    \<and> (exit = None \<longrightarrow> length (mr_replay run') = Suc (length (mr_replay run)))
    \<and> length (mr_replay run') \<le> Suc (length (mr_replay run))
    \<and> (exit = Some LoopDone \<longrightarrow> run' = run \<and> mo_Finished (ms_Outcome ?st))
    \<and> exit \<noteq> Some LoopAborted
    \<and> (exit = Some LoopCanceled \<longrightarrow> te_canceled te \<or> te_cut te \<noteq> None
      \<or> WaitCanceled \<in> set (te_events1 te) \<or> WaitCanceled \<in> set (te_events2 te))"
  proof cases
    case play
    define run1 where "run1 = run\<lparr>mr_slot1 := slot1, mr_slot2 := slot2, mr_out := mr_out run @ sent_out frames\<rparr>"
    from play(3) slots have sessions: "sl_session slot1 = sess1" "sl_session slot2 = sess2"
      and cancel: "collected = None \<Longrightarrow>
        WaitCanceled \<in> set (te_events1 te) \<or> WaitCanceled \<in> set (te_events2 te)"
      using run collect_sessions [OF play(3) slots] collect_canceled [OF play(3) slots]
      by (auto simp: run_ok_def)
    have run1: "run_ok initial seed sess1 sess2 run1"
      using run sessions by (simp add: run_ok_def run1_def)
    show ?thesis
    proof (cases collected)
      case None
      with turn play D(1) have "run' = run1" "exit = Some LoopCanceled"
        by (simp_all add: match_turn_def program_deps_def Let_def run1_def)
      with run1 cancel None show ?thesis by (simp add: run1_def)
    next
      case (Some ins)
      have ids: "map ti_PlayerID ins = [se_PlayerID sess1, se_PlayerID sess2]"
        using engine.collected_inputs [OF play(3) [unfolded Some] slots] run by (simp add: run_ok_def)
      have ok: "players_ok ?st" "inputs_ok ?st ins"
        using run D(2) ids by (auto simp: run_ok_def sessions_ok_def players_ok_def inputs_ok_def
            player_ids_def map_eq_Cons_conv)
      then obtain ord where ord: "CanonicalizeInputs ?st ins = Inr ord"
        using CanonicalizeInputs_ok_iff by blast
      obtain res sim where step: "Step det_resolver (mr_sim run) ord = (Inr res, sim)"
        using step_recorded [OF ord play(2)] by blast
      obtain run2 ex where resolved:
        "resolved_turn D cfg startedAt te sess1 sess2 ?st ord res sim run1 = (run2, ex)" by force
      note cases = resolved_turn_cases [OF resolved]
      from turn play D(1) Some ord step resolved have "run' = run2" "exit = ex"
        by (simp_all add: match_turn_def program_deps_def Let_def run1_def)
      moreover have "run_ok initial seed sess1 sess2 run2"
        using run_ok_step [OF run1, of ord res sim run2] step cases(1-4) sessions
        by (auto simp: run1_def)
      ultimately show ?thesis
        using cases(4,5) by (auto simp: run1_def)
    qed
  qed (use run in auto)
  then show "run_ok initial seed sess1 sess2 run'"
    and "exit = None \<longrightarrow> length (mr_replay run') = Suc (length (mr_replay run))"
    and "length (mr_replay run') \<le> Suc (length (mr_replay run))"
    and "exit = Some LoopDone \<longrightarrow> run' = run \<and> mo_Finished (ms_Outcome (State (mr_sim run)))"
    and "exit \<noteq> Some LoopAborted"
    and "exit = Some LoopCanceled \<longrightarrow> te_canceled te \<or> te_cut te \<noteq> None
      \<or> WaitCanceled \<in> set (te_events1 te) \<or> WaitCanceled \<in> set (te_events2 te)"
    by blast+
qed

definition uninterrupted :: "turn_env \<Rightarrow> bool" where
  "uninterrupted te \<longleftrightarrow> \<not> te_canceled te \<and> te_cut te = None
     \<and> WaitTimeout \<in> set (te_events1 te) \<and> WaitTimeout \<in> set (te_events2 te)
     \<and> WaitCanceled \<notin> set (te_events1 te) \<and> WaitCanceled \<notin> set (te_events2 te)"

lemma start_collect_timer:
  assumes "WaitTimeout \<in> set evs"
  shows "fst (start_collect e m slot evs) \<noteq> None"
  using wait_timer [OF assms, of "sl_session slot"]
  by (auto simp: start_collect_def split_beta)

lemma match_turn_waits:
  assumes "match_turn D cfg startedAt te sess1 sess2 run = None"
  shows "WaitTimeout \<notin> set (te_events1 te) \<or> WaitTimeout \<notin> set (te_events2 te)"
proof (rule ccontr)
  let ?c = "collectTurnInputs (md_engine D) (State (mr_sim run)) (mr_slot1 run) (mr_slot2 run)
    (te_events1 te) (te_events2 te) (te_second_first te)"
  assume "\<not> ?thesis"
  then have "?c \<noteq> None" unfolding collectTurnInputs_None using start_collect_timer by blast
  then obtain i s1 s2 fr where "?c = Some (i, s1, s2, fr)" by (metis option.exhaust prod_cases4)
  with assms show False
    by (auto simp: match_turn_def Let_def split: if_splits option.splits sum.splits prod.splits)
qed

lemma match_loop_ok:
  assumes "program_deps D" "sessions_ok sess1 sess2"
  shows "match_loop D cfg startedAt env sess1 sess2 turn run = Some (run', exit) \<Longrightarrow>
    run_ok initial seed sess1 sess2 run \<Longrightarrow>
    run_ok initial seed sess1 sess2 run' \<and> exit \<noteq> LoopAborted
    \<and> int (length (mr_replay run')) \<le> int (length (mr_replay run)) + max 0 (md_MaxTurns D - turn)
    \<and> (exit = LoopDone \<longrightarrow> mo_Finished (ms_Outcome (State (mr_sim run')))
        \<or> int (length (mr_replay run')) = int (length (mr_replay run)) + max 0 (md_MaxTurns D - turn))
    \<and> (exit = LoopCanceled \<longrightarrow> (\<exists>t. \<not> uninterrupted (env t)))"
proof (induction "nat (md_MaxTurns D - turn)" arbitrary: turn run)
  case 0
  then show ?case by (subst (asm) match_loop.simps) auto
next
  case (Suc k)
  then have turn: "turn < md_MaxTurns D" by simp
  with Suc.prems(1) obtain run1 ex where one:
    "match_turn D cfg startedAt (env turn) sess1 sess2 run = Some (run1, ex)"
    and rest: "case ex of Some exit' \<Rightarrow> run' = run1 \<and> exit = exit'
      | None \<Rightarrow> match_loop D cfg startedAt env sess1 sess2 (turn + 1) run1 = Some (run', exit)"
    by (subst (asm) match_loop.simps) (auto split: option.splits prod.splits)
  note ok = match_turn_ok [OF assms Suc.prems(2) one]
  show ?case
  proof (cases ex)
    case None
    with rest have "match_loop D cfg startedAt env sess1 sess2 (turn + 1) run1 = Some (run', exit)" by simp
    from Suc.hyps(1) [OF _ this ok(1)] Suc.hyps(2) ok(2) None turn show ?thesis by auto
  next
    case (Some x)
    with rest ok turn show ?thesis by (auto simp: uninterrupted_def)
  qed
qed

lemma match_loop_returns:
  assumes "program_deps D" "sessions_ok sess1 sess2" "\<forall>t. uninterrupted (env t)"
  shows "run_ok initial seed sess1 sess2 run \<Longrightarrow>
    \<exists>run'. match_loop D cfg startedAt env sess1 sess2 turn run = Some (run', LoopDone)"
proof (induction "nat (md_MaxTurns D - turn)" arbitrary: turn run)
  case 0
  then show ?case by (subst match_loop.simps) auto
next
  case (Suc k)
  then have turn: "turn < md_MaxTurns D" by simp
  have u: "uninterrupted (env turn)" using assms(3) by blast
  then obtain run1 ex where one:
    "match_turn D cfg startedAt (env turn) sess1 sess2 run = Some (run1, ex)"
    using match_turn_waits [of D cfg startedAt "env turn" sess1 sess2 run]
    by (cases "match_turn D cfg startedAt (env turn) sess1 sess2 run") (auto simp: uninterrupted_def)
  note ok = match_turn_ok [OF assms(1,2) Suc.prems one]
  show ?case
  proof (cases ex)
    case None
    have "\<exists>run'. match_loop D cfg startedAt env sess1 sess2 (turn + 1) run1 = Some (run', LoopDone)"
      using Suc.hyps(2) by (intro Suc.hyps(1) ok(1)) simp
    with turn one None show ?thesis by (subst match_loop.simps) simp
  next
    case (Some x)
    with ok(5,6) u have "x = LoopDone" by (cases x) (auto simp: uninterrupted_def)
    with turn one Some show ?thesis by (subst match_loop.simps) simp
  qed
qed

section \<open>The run as a whole\<close>

lemma pickArchetype_known: "\<exists>st. ArchetypeStats (pickArchetype pid salt) = Some st"
  by (simp add: pickArchetype_def Let_def)

lemma NewFighter_known: "\<exists>f. NewFighter pid (pickArchetype qid salt) = Inr f"
  using pickArchetype_known [of qid salt] by (auto simp: NewFighter_def)

lemma NewMatchState_wf:
  assumes "NewFighter p1 a1 = Inr f1" "NewFighter p2 a2 = Inr f2"
  shows "wf_match (NewMatchState f1 f2)" "fs_PlayerID f1 = p1" "fs_PlayerID f2 = p2"
  using assms ArchetypeStats_wf
  by (auto simp: NewMatchState_def NewFighter_def wf_match_def wf_fighter_def wf_effects_def settled_def
      no_effects_def outcome_ok_def no_outcome_def HPMax_def StaminaMax_def split: option.splits)

lemma new_run_ok:
  assumes "NewFighter (se_PlayerID sess1) a1 = Inr f1" "NewFighter (se_PlayerID sess2) a2 = Inr f2"
  shows "run_ok (NewMatchState f1 f2) seed sess1 sess2
    (new_run D (NewMatchState f1 f2) seed sess1 sess2 npc2 out)"
  using NewMatchState_wf [OF assms]
  by (simp add: run_ok_def new_run_def new_slot_def sim_after_def NewCombatSimulator_def State_def
      Let_def wf_match_rng) (simp add: NewMatchState_def)

text \<open>The two fighters of a run, and its initial state.\<close>

definition run_initial :: "session \<Rightarrow> session \<Rightarrow> match_state" where
  "run_initial sess1 sess2 =
     (case (NewFighter (se_PlayerID sess1) (pickArchetype (se_PlayerID sess1) 0),
            NewFighter (se_PlayerID sess2) (pickArchetype (se_PlayerID sess2) 1)) of
        (Inr f1, Inr f2) \<Rightarrow> NewMatchState f1 f2)"

lemma runMatch_eq:
  "runMatch D env sess1 sess2 wait1 wait2 =
     (let seed = run_seed D env sess1 sess2; initial = run_initial sess1 sess2;
          active = active_match_of D sess1 sess2
      in map_option (\<lambda>(run, exit). (Some (run, exit),
          mr_out run
          @ (if exit = LoopDone
             then close_match D (match_config D) env sess1 sess2 wait1 wait2 seed initial run else [])
          @ [UnregisteredMatch active, InputDrained (se_PlayerID sess2), InputDrained (se_PlayerID sess1)]))
        (match_loop D (match_config D) (re_startedAt env) (re_turns env) sess1 sess2 0
          (new_run D initial seed sess1 sess2 False (opening_out D sess1 sess2 @ [RegisteredMatch active]))))"
proof -
  obtain f1 where f1: "NewFighter (se_PlayerID sess1) (pickArchetype (se_PlayerID sess1) 0) = Inr f1"
    using NewFighter_known by blast
  obtain f2 where f2: "NewFighter (se_PlayerID sess2) (pickArchetype (se_PlayerID sess2) 1) = Inr f2"
    using NewFighter_known by blast
  show ?thesis by (simp add: runMatch_def run_initial_def f1 f2 Let_def)
qed

lemma run_initial_ok:
  "run_ok (run_initial sess1 sess2) seed sess1 sess2 (new_run D (run_initial sess1 sess2) seed sess1 sess2 npc2 out)"
proof -
  obtain f1 where f1: "NewFighter (se_PlayerID sess1) (pickArchetype (se_PlayerID sess1) 0) = Inr f1"
    using NewFighter_known by blast
  obtain f2 where f2: "NewFighter (se_PlayerID sess2) (pickArchetype (se_PlayerID sess2) 1) = Inr f2"
    using NewFighter_known by blast
  have "run_initial sess1 sess2 = NewMatchState f1 f2" by (simp add: run_initial_def f1 f2)
  with new_run_ok [OF f1 f2] show ?thesis by simp
qed

text \<open>Only the end of the run hands anything to the finalizer and to the telemetry store.\<close>

fun closing :: "'f match_output \<Rightarrow> bool" where
  "closing (FinalizedMatch p) \<longleftrightarrow> True"
| "closing (TurnRowsInserted rows) \<longleftrightarrow> True"
| "closing (SummaryInserted summary) \<longleftrightarrow> True"
| "closing (FlagCreated flag) \<longleftrightarrow> True"
| "closing _ \<longleftrightarrow> False"

lemma closing_out:
  assumes "closing w"
  shows "w \<notin> set (sent_out frames)" "w \<notin> set (abort_match sess1 sess2 line)" "w \<notin> set (opening_out D sess1 sess2)"
    "w \<notin> set (snd (emit_steps stop i steps m ss))"
proof -
  show sent: "w \<notin> set (sent_out frames)" for frames using assms by (auto simp: sent_out_def)
  show "w \<notin> set (abort_match sess1 sess2 line)" by (simp add: abort_match_def sent)
  show "w \<notin> set (opening_out D sess1 sess2)"
    using assms by (auto simp: opening_out_def navigated_def sent split: option.splits)
  show "w \<notin> set (snd (emit_steps stop i steps m ss))"
    using assms by (induction steps arbitrary: i) (auto simp: Let_def split_beta sent split: if_splits)
qed

lemma match_turn_no_closing:
  assumes "match_turn D cfg startedAt te sess1 sess2 run = Some (run', ex)" "closing w" "w \<in> set (mr_out run')"
  shows "w \<in> set (mr_out run)"
  using assms(1,3) closing_out [OF assms(2)]
  by (auto simp: match_turn_def resolved_turn_def emitCinematicSequence_def Let_def split_beta
      split: if_splits option.splits sum.splits prod.splits)

lemma match_loop_no_closing:
  assumes "closing w" "w \<in> set (mr_out run')"
  shows "match_loop D cfg startedAt env sess1 sess2 turn run = Some (run', exit) \<Longrightarrow> w \<in> set (mr_out run)"
proof (induction "nat (md_MaxTurns D - turn)" arbitrary: turn run)
  case 0
  with assms show ?case by (subst (asm) match_loop.simps) auto
next
  case (Suc k)
  then have turn: "turn < md_MaxTurns D" by simp
  with Suc.prems obtain run1 ex where one:
    "match_turn D cfg startedAt (env turn) sess1 sess2 run = Some (run1, ex)"
    and rest: "case ex of Some exit' \<Rightarrow> run' = run1
      | None \<Rightarrow> match_loop D cfg startedAt env sess1 sess2 (turn + 1) run1 = Some (run', exit)"
    by (subst (asm) match_loop.simps) (auto split: option.splits prod.splits)
  have "w \<in> set (mr_out run1)"
  proof (cases ex)
    case None
    with rest Suc.hyps(2) show ?thesis by (intro Suc.hyps(1)) auto
  qed (use rest assms in simp)
  with match_turn_no_closing [OF one assms(1)] show ?case by simp
qed

text \<open>So what the finalizer and the store get stands after the loop.\<close>

lemma runMatch_closing:
  assumes "runMatch D env sess1 sess2 w1 w2 = Some (end_of_run, out)" "w \<in> set out" "closing w"
  obtains run where "end_of_run = Some (run, LoopDone)"
    "match_loop D (match_config D) (re_startedAt env) (re_turns env) sess1 sess2 0
      (new_run D (run_initial sess1 sess2) (run_seed D env sess1 sess2) sess1 sess2 False
        (opening_out D sess1 sess2 @ [RegisteredMatch (active_match_of D sess1 sess2)])) = Some (run, LoopDone)"
    "w \<in> set (close_match D (match_config D) env sess1 sess2 w1 w2 (run_seed D env sess1 sess2) (run_initial sess1 sess2) run)"
proof -
  from assms(1) obtain run exit where loop:
    "match_loop D (match_config D) (re_startedAt env) (re_turns env) sess1 sess2 0
      (new_run D (run_initial sess1 sess2) (run_seed D env sess1 sess2) sess1 sess2 False
        (opening_out D sess1 sess2 @ [RegisteredMatch (active_match_of D sess1 sess2)])) = Some (run, exit)"
    "end_of_run = Some (run, exit)"
    "out = mr_out run @ (if exit = LoopDone then close_match D (match_config D) env sess1 sess2 w1 w2
        (run_seed D env sess1 sess2) (run_initial sess1 sess2) run else [])
      @ [UnregisteredMatch (active_match_of D sess1 sess2), InputDrained (se_PlayerID sess2),
         InputDrained (se_PlayerID sess1)]"
    unfolding runMatch_eq by (auto simp: Let_def)
  have "w \<notin> set (mr_out run)"
    using match_loop_no_closing [OF assms(3) _ loop(1)] closing_out(3) [OF assms(3)] assms(3) by (auto simp: new_run_def)
  with assms(2,3) loop(3) have "exit = LoopDone" "w \<in> set (close_match D
      (match_config D) env sess1 sess2 w1 w2 (run_seed D env sess1 sess2) (run_initial sess1 sess2) run)"
    by (auto split: if_splits)
  with that loop(1,2) show thesis by simp
qed

lemma runMatch_finalized:
  assumes "runMatch D env sess1 sess2 w1 w2 = Some (end_of_run, out)" "FinalizedMatch p \<in> set out"
  obtains run where "end_of_run = Some (run, LoopDone)"
    "p = finalize_params D env sess1 sess2 (run_seed D env sess1 sess2) (run_initial sess1 sess2) run"
    "match_loop D (match_config D) (re_startedAt env) (re_turns env) sess1 sess2 0
      (new_run D (run_initial sess1 sess2) (run_seed D env sess1 sess2) sess1 sess2 False
        (opening_out D sess1 sess2 @ [RegisteredMatch (active_match_of D sess1 sess2)])) = Some (run, LoopDone)"
proof -
  from assms obtain run where end_: "end_of_run = Some (run, LoopDone)"
    and loop: "match_loop D (match_config D) (re_startedAt env) (re_turns env) sess1 sess2 0
      (new_run D (run_initial sess1 sess2) (run_seed D env sess1 sess2) sess1 sess2 False
        (opening_out D sess1 sess2 @ [RegisteredMatch (active_match_of D sess1 sess2)])) = Some (run, LoopDone)"
    and close: "FinalizedMatch p \<in> set (close_match D (match_config D) env sess1 sess2 w1 w2 (run_seed D env sess1 sess2)
      (run_initial sess1 sess2) run)"
    by (rule runMatch_closing) simp
  have "FinalizedMatch p \<notin> set (persistMatchTelemetry D fin tally cfg w1 w2)" for fin tally cfg
    by (auto simp: persistMatchTelemetry_def player_flag_def Let_def split: option.splits if_splits)
  then have "p = finalize_params D env sess1 sess2 (run_seed D env sess1 sess2) (run_initial sess1 sess2) run"
    using close closing_out [of "FinalizedMatch p"]
    by (auto simp: close_match_def finalize_out_def Let_def split_beta split: option.splits if_splits)
  with that end_ loop show thesis by simp
qed

text \<open>The results of a live match: their turn numbers and the state they end in.\<close>

lemma run_initial_state:
  "ms_Turn (run_initial sess1 sess2) = 0 \<and> fs_PlayerID (ms_P1 (run_initial sess1 sess2)) = se_PlayerID sess1
   \<and> fs_PlayerID (ms_P2 (run_initial sess1 sess2)) = se_PlayerID sess2"
  using NewFighter_known [of "se_PlayerID sess1" "se_PlayerID sess1" 0]
    NewFighter_known [of "se_PlayerID sess2" "se_PlayerID sess2" 1]
  by (auto simp: run_initial_def NewMatchState_def NewFighter_def split: option.splits)

lemma turns_from_consecutive:
  "(\<And>k. k < length evs \<Longrightarrow> ie_Turn (evs ! k) = t + int k) \<Longrightarrow> turns_from t evs"
proof (induction evs arbitrary: t)
  case (Cons ev evs)
  have "turns_from (t + 1) evs"
    using Cons.prems [of "Suc k" for k] by (intro Cons.IH) (simp add: algebra_simps)
  with Cons.prems [of 0] show ?case by simp
qed simp

lemma recorded_turns:
  assumes "play_live det_resolver sim (map rt_Inputs ts) = Inr results"
    and "map (\<lambda>r. ms_Turn (tr_Next r)) results = map rt_Turn ts"
  shows "turns_from (ms_Turn (State sim) + 1) (map (\<lambda>t. \<lparr>ie_Turn = rt_Turn t,
    ie_RelativeMS = rt_RelativeMS t, ie_Inputs = rt_Inputs t\<rparr>) ts)"
proof (rule turns_from_consecutive)
  fix k assume k: "k < length (map (\<lambda>t. \<lparr>ie_Turn = rt_Turn t, ie_RelativeMS = rt_RelativeMS t,
      ie_Inputs = rt_Inputs t\<rparr>) ts)"
  note turns = go.play_live_turns [OF assms(1)]
  from k turns have "rt_Turn (ts ! k) = ms_Turn (tr_Next (results ! k))"
    using arg_cong [OF assms(2), of "\<lambda>l. l ! k"] by simp
  with k turns show "ie_Turn (map (\<lambda>t. \<lparr>ie_Turn = rt_Turn t, ie_RelativeMS = rt_RelativeMS t,
      ie_Inputs = rt_Inputs t\<rparr>) ts ! k) = ms_Turn (State sim) + 1 + int k"
    by simp
qed

lemma last_result:
  "play_live det_resolver sim inss = Inr results \<Longrightarrow> results \<noteq> [] \<Longrightarrow>
     tr_Next (last results) = State (sim_after sim inss)"
proof (induction inss arbitrary: sim results)
  case (Cons ins inss)
  from Cons.prems(1) obtain res s' rest where one: "Step det_resolver sim ins = (Inr res, s')"
    "play_live det_resolver s' inss = Inr rest" "results = res # rest"
    by (auto split: prod.splits sum.splits)
  have nxt: "tr_Next res = State s'"
    using one(1) by (cases rule: go.step_cases [of sim ins]) auto
  show ?case
  proof (cases "rest = []")
    case True
    with one(2) have "inss = []" by (cases inss) (auto split: prod.splits sum.splits)
    with True one nxt show ?thesis by (simp add: sim_after_def)
  next
    case False
    with Cons.IH [OF one(2)] one show ?thesis by (simp add: sim_after_def)
  qed
qed simp

text \<open>A small run that the witnesses evaluate: two players who never answer.\<close>

definition demo_deps :: "rat option match_deps" where
  "demo_deps = \<lparr>md_resolver = det_resolver, md_engine = Some (Decide NextInt), md_render = Render,
     md_float = exact_float, md_store = None, md_finalizer = Some (\<lambda>_. None), md_telemetry = False,
     md_MaxTurns = 2, md_match_id = ''m1'', md_clock_text = (\<lambda>_. ''2024-01-01T00:00:00Z'')\<rparr>"

definition demo_env :: run_env where
  "demo_env = \<lparr>re_startedAt = 0, re_endedAt = 10, re_turns = (\<lambda>_. \<lparr>te_canceled = False,
     te_events1 = [WaitTimeout], te_events2 = [WaitTimeout], te_second_first = False, te_now = 5,
     te_cut = None\<rparr>), re_ctx_err = False\<rparr>"

lemma demo_run_ok: "program_deps demo_deps" "sessions_ok (demo_session ''ana'') (demo_session ''bo'')"
  "\<forall>t. uninterrupted (re_turns demo_env t)" "0 \<le> md_MaxTurns demo_deps"
  by (simp_all add: program_deps_def demo_deps_def sessions_ok_def demo_session_def uninterrupted_def
      demo_env_def)

lemma runMatch_finalizes:
  assumes "match_loop D (match_config D) (re_startedAt env) (re_turns env) sess1 sess2 0
      (new_run D (run_initial sess1 sess2) (run_seed D env sess1 sess2) sess1 sess2 False
        (opening_out D sess1 sess2 @ [RegisteredMatch (active_match_of D sess1 sess2)])) = Some (run, LoopDone)"
    and "md_finalizer D \<noteq> None"
  shows "\<exists>out. runMatch D env sess1 sess2 w1 w2 = Some (Some (run, LoopDone), out)
    \<and> FinalizedMatch (finalize_params D env sess1 sess2 (run_seed D env sess1 sess2)
        (run_initial sess1 sess2) run) \<in> set out"
  using assms unfolding runMatch_eq
  by (auto simp: Let_def close_match_def finalize_out_def split_beta split: option.splits)

lemma demo_run:
  obtains run out p w where "runMatch demo_deps demo_env (demo_session ''ana'') (demo_session ''bo'') 0 0
      = Some (Some (run, LoopDone), out)" "FinalizedMatch p \<in> set out" "fm_Replay p = Some w"
proof -
  from match_loop_returns [OF demo_run_ok(1-3) run_initial_ok]
  obtain run where "match_loop demo_deps (match_config demo_deps) (re_startedAt demo_env) (re_turns demo_env)
      (demo_session ''ana'') (demo_session ''bo'') 0
      (new_run demo_deps (run_initial (demo_session ''ana'') (demo_session ''bo''))
        (run_seed demo_deps demo_env (demo_session ''ana'') (demo_session ''bo''))
        (demo_session ''ana'') (demo_session ''bo'') False
        (opening_out demo_deps (demo_session ''ana'') (demo_session ''bo'')
         @ [RegisteredMatch (active_match_of demo_deps (demo_session ''ana'') (demo_session ''bo''))]))
      = Some (run, LoopDone)" by blast
  from runMatch_finalizes [OF this, of 0 0] obtain out where out:
    "runMatch demo_deps demo_env (demo_session ''ana'') (demo_session ''bo'') 0 0 = Some (Some (run, LoopDone), out)"
    "FinalizedMatch (finalize_params demo_deps demo_env (demo_session ''ana'') (demo_session ''bo'')
      (run_seed demo_deps demo_env (demo_session ''ana'') (demo_session ''bo''))
      (run_initial (demo_session ''ana'') (demo_session ''bo'')) run) \<in> set out"
    by (auto simp: demo_deps_def)
  show thesis
    by (rule that [OF out]) (simp add: finalize_params_def split_beta Let_def)
qed

section \<open>Properties\<close>

text \<open>
  C3: A match that nobody interrupts ends: if in every turn both timers eventually fire and the
  context stays alive, the run returns, after at most the configured number of turns, and
  either the match is decided or exactly that number was played. It never aborts.
\<close>

theorem runMatch_completes:
  assumes "program_deps D" "sessions_ok sess1 sess2"
    and "\<forall>t. uninterrupted (re_turns env t)" "0 \<le> md_MaxTurns D"
  shows "\<exists>run out. runMatch D env sess1 sess2 wait1 wait2 = Some (Some (run, LoopDone), out)
    \<and> int (length (mr_replay run)) \<le> md_MaxTurns D
    \<and> (mo_Finished (ms_Outcome (State (mr_sim run))) \<or> int (length (mr_replay run)) = md_MaxTurns D)"
proof -
  define run0 where "run0 = new_run D (run_initial sess1 sess2) (run_seed D env sess1 sess2) sess1 sess2
    False (opening_out D sess1 sess2 @ [RegisteredMatch (active_match_of D sess1 sess2)])"
  have ok: "run_ok (run_initial sess1 sess2) (run_seed D env sess1 sess2) sess1 sess2 run0"
    unfolding run0_def by (rule run_initial_ok)
  from match_loop_returns [OF assms(1-3) ok] obtain run where
    run: "match_loop D (match_config D) (re_startedAt env) (re_turns env) sess1 sess2 0 run0
      = Some (run, LoopDone)" by blast
  have "mr_replay run0 = []" by (simp add: run0_def new_run_def)
  with match_loop_ok [OF assms(1,2) run ok] assms(4)
  have "int (length (mr_replay run)) \<le> md_MaxTurns D"
    "mo_Finished (ms_Outcome (State (mr_sim run))) \<or> int (length (mr_replay run)) = md_MaxTurns D"
    by auto
  with run show ?thesis
    unfolding runMatch_eq by (simp add: run0_def [symmetric] Let_def)
qed

lemma runMatch_recorded:
  assumes "program_deps D" "sessions_ok sess1 sess2"
    and "runMatch D env sess1 sess2 wait1 wait2 = Some (Some (run, exit), out)"
    and "FinalizedMatch p \<in> set out" "fm_Replay p = Some w"
  shows "\<exists>results. Replay (Some det_resolver) \<lparr>rr_Seed = rw_Seed w, rr_Archetypes = archs,
      rr_Initial = rw_InitialState w, rr_Inputs = map (\<lambda>t. \<lparr>ie_Turn = rt_Turn t,
        ie_RelativeMS = rt_RelativeMS t, ie_Inputs = rt_Inputs t\<rparr>) (rw_Turns w)\<rparr> = Inr results
    \<and> map tr_Checksums results = map rt_Checksums (rw_Turns w)
    \<and> map (\<lambda>r. ms_Turn (tr_Next r)) results = map rt_Turn (rw_Turns w)
    \<and> last (State (NewCombatSimulator (rw_InitialState w) (rw_Seed w)) # map tr_Next results)
      = State (mr_sim run)
    \<and> map rt_Turn (rw_Turns w) = map (\<lambda>k. int k + 1) [0..<length (rw_Turns w)]"
proof -
  let ?initial = "run_initial sess1 sess2" and ?seed = "run_seed D env sess1 sess2"
  from runMatch_finalized [OF assms(3,4)] have p: "p = finalize_params D env sess1 sess2 ?seed ?initial run"
    and loop: "match_loop D (match_config D) (re_startedAt env) (re_turns env) sess1 sess2 0
      (new_run D ?initial ?seed sess1 sess2 False
        (opening_out D sess1 sess2 @ [RegisteredMatch (active_match_of D sess1 sess2)])) = Some (run, LoopDone)"
    by blast+
  from assms(5) p have w: "w = \<lparr>rw_Seed = ?seed, rw_InitialState = ?initial, rw_Turns = mr_replay run\<rparr>"
    by (simp add: finalize_params_def split_beta Let_def)
  from match_loop_ok [OF assms(1,2) loop run_initial_ok]
  obtain results where live: "play_live det_resolver (NewCombatSimulator ?initial ?seed)
      (map rt_Inputs (mr_replay run)) = Inr results"
    and sums: "map tr_Checksums results = map rt_Checksums (mr_replay run)"
    and turns: "map (\<lambda>r. ms_Turn (tr_Next r)) results = map rt_Turn (mr_replay run)"
    and sim: "sim_after (NewCombatSimulator ?initial ?seed) (map rt_Inputs (mr_replay run)) = mr_sim run"
    unfolding run_ok_def by blast
  let ?events = "map (\<lambda>t. \<lparr>ie_Turn = rt_Turn t, ie_RelativeMS = rt_RelativeMS t, ie_Inputs = rt_Inputs t\<rparr>)
    (mr_replay run)"
  have initial: "ms_Turn ?initial = 0" "fs_PlayerID (ms_P1 ?initial) = se_PlayerID sess1"
    "fs_PlayerID (ms_P2 ?initial) = se_PlayerID sess2"
    using run_initial_state by blast+
  have "turns_from (ms_Turn ?initial + 1) ?events"
    using recorded_turns [OF live turns] by (simp add: NewCombatSimulator_def State_def Let_def)
  moreover have "map ie_Inputs ?events = map rt_Inputs (mr_replay run)" by simp
  ultimately have "Replay (Some det_resolver) \<lparr>rr_Seed = ?seed, rr_Archetypes = archs,
      rr_Initial = ?initial, rr_Inputs = ?events\<rparr> = Inr results"
    using live initial assms(2) by (simp add: sessions_ok_def go.replay_loop_iff Replay_def
        NewCombatSimulator_def State_def Let_def comp_def)
  moreover have "last (State (NewCombatSimulator ?initial ?seed) # map tr_Next results) = State (mr_sim run)"
  proof (cases "results = []")
    case True
    with sums have "mr_replay run = []" by simp
    with sim have "mr_sim run = NewCombatSimulator ?initial ?seed" by (simp add: sim_after_def)
    with True show ?thesis by simp
  next
    case False
    with last_result [OF live] sim show ?thesis by (simp add: last_map)
  qed
  moreover have "map rt_Turn (mr_replay run) = map (\<lambda>k. int k + 1) [0..<length (mr_replay run)]"
    using go.play_live_turns [OF live] turns initial
    by (intro nth_equalityI) (auto simp: NewCombatSimulator_def State_def Let_def simp flip: turns)
  ultimately show ?thesis using sums turns by (auto simp: w)
qed

text \<open>
  C2: The replay that a match hands to the finalizer is the match: played by the replay runner it
  succeeds with one result per recorded turn, with the recorded turn numbers and checksums, and
  it ends in the final state of the match, whatever the players and the clock did (a match without
  a turn ends in the state it began with).
\<close>

theorem runMatch_replay:
  assumes "program_deps D" "sessions_ok sess1 sess2"
    and "runMatch D env sess1 sess2 wait1 wait2 = Some (Some (run, exit), out)"
    and "FinalizedMatch p \<in> set out" "fm_Replay p = Some w"
  shows "\<exists>results. Replay (Some det_resolver) \<lparr>rr_Seed = rw_Seed w, rr_Archetypes = archs,
      rr_Initial = rw_InitialState w, rr_Inputs = map (\<lambda>t. \<lparr>ie_Turn = rt_Turn t,
        ie_RelativeMS = rt_RelativeMS t, ie_Inputs = rt_Inputs t\<rparr>) (rw_Turns w)\<rparr> = Inr results
    \<and> map tr_Checksums results = map rt_Checksums (rw_Turns w)
    \<and> map (\<lambda>r. ms_Turn (tr_Next r)) results = map rt_Turn (rw_Turns w)
    \<and> last (State (NewCombatSimulator (rw_InitialState w) (rw_Seed w)) # map tr_Next results)
      = State (mr_sim run)"
  using runMatch_recorded [OF assms, of archs] by blast

lemma runMatch_completes_witness:
  "\<exists>run out. runMatch demo_deps demo_env (demo_session ''ana'') (demo_session ''bo'') 0 0
      = Some (Some (run, LoopDone), out) \<and> length (mr_replay run) \<le> 2"
  using runMatch_completes [OF demo_run_ok, of 0 0] by (auto simp: demo_deps_def)

lemma runMatch_replay_witness:
  "\<exists>(w :: match_replay_write) results. Replay (Some det_resolver) \<lparr>rr_Seed = rw_Seed w,
      rr_Archetypes = Map.empty, rr_Initial = rw_InitialState w, rr_Inputs = map (\<lambda>t. \<lparr>ie_Turn = rt_Turn t,
        ie_RelativeMS = rt_RelativeMS t, ie_Inputs = rt_Inputs t\<rparr>) (rw_Turns w)\<rparr> = Inr results
    \<and> map tr_Checksums results = map rt_Checksums (rw_Turns w)"
proof -
  from demo_run obtain run out p w where "runMatch demo_deps demo_env (demo_session ''ana'')
      (demo_session ''bo'') 0 0 = Some (Some (run, LoopDone), out)" "FinalizedMatch p \<in> set out"
      "fm_Replay p = Some w" by metis
  from runMatch_replay [OF demo_run_ok(1,2) this] show ?thesis by blast
qed

lemma runMatch_outcome:
  assumes "program_deps D" "sessions_ok sess1 sess2"
    and "runMatch D env sess1 sess2 wait1 wait2 = Some (Some (run, exit), out)"
    and "FinalizedMatch p \<in> set out"
  shows "fm_Player1ID p = se_PlayerID sess1 \<and> fm_Player2ID p = se_PlayerID sess2
    \<and> (case fm_WinnerID p of
        None \<Rightarrow> fm_ResultType p = MatchResultDraw \<and> \<not> mo_Finished (ms_Outcome (State (mr_sim run)))
      | Some winner \<Rightarrow> (\<exists>a. winner = fs_PlayerID (fighter_at a (State (mr_sim run)))
          \<and> winner \<in> {se_PlayerID sess1, se_PlayerID sess2}
          \<and> (fm_ResultType p = MatchResultKO \<and> fs_HP (fighter_at (opponent a) (State (mr_sim run))) = 0
             \<or> fm_ResultType p = MatchResultSubmission
               \<and> ms_CombatState (State (mr_sim run)) = StateSubmissionAttempt)))"
proof -
  let ?m = "State (mr_sim run)"
  from runMatch_finalized [OF assms(3,4)] have p: "p = finalize_params D env sess1 sess2
      (run_seed D env sess1 sess2) (run_initial sess1 sess2) run"
    and loop: "match_loop D (match_config D) (re_startedAt env) (re_turns env) sess1 sess2 0
      (new_run D (run_initial sess1 sess2) (run_seed D env sess1 sess2) sess1 sess2 False
        (opening_out D sess1 sess2 @ [RegisteredMatch (active_match_of D sess1 sess2)])) = Some (run, LoopDone)"
    by blast+
  from match_loop_ok [OF assms(1,2) loop run_initial_ok]
  have "wf_match ?m" and ids: "fs_PlayerID (ms_P1 ?m) = se_PlayerID sess1"
    "fs_PlayerID (ms_P2 ?m) = se_PlayerID sess2"
    unfolding run_ok_def by blast+
  then have "outcome_ok ?m" by (simp add: wf_match_def)
  with ids have "case match_result ?m of
      (t, None) \<Rightarrow> t = MatchResultDraw \<and> \<not> mo_Finished (ms_Outcome ?m)
    | (t, Some winner) \<Rightarrow> (\<exists>a. winner = fs_PlayerID (fighter_at a ?m)
        \<and> winner \<in> {se_PlayerID sess1, se_PlayerID sess2}
        \<and> (t = MatchResultKO \<and> fs_HP (fighter_at (opponent a) ?m) = 0
           \<or> t = MatchResultSubmission \<and> ms_CombatState ?m = StateSubmissionAttempt))"
    by (cases "mo_Finished (ms_Outcome ?m)")
      (auto simp: match_result_def mapResult_def outcome_ok_def ko_by_def submitted_by_def Let_def
        intro: exI [of _ SideP1] exI [of _ SideP2])
  then show ?thesis
    by (auto simp: p finalize_params_def split_beta split: option.splits prod.splits)
qed

text \<open>
  C23: What the finalizer is told is what happened: a match without a winner is a draw and was not
  decided; a winner is one of the two players, and the match is a knockout with the other fighter
  at no health or a submission out of a submission attempt.
\<close>

theorem runMatch_result:
  assumes "program_deps D" "sessions_ok sess1 sess2"
    and "runMatch D env sess1 sess2 wait1 wait2 = Some (Some (run, exit), out)"
    and "FinalizedMatch p \<in> set out"
  shows "fm_Player1ID p = se_PlayerID sess1 \<and> fm_Player2ID p = se_PlayerID sess2
    \<and> (case fm_WinnerID p of
        None \<Rightarrow> fm_ResultType p = MatchResultDraw \<and> \<not> mo_Finished (ms_Outcome (State (mr_sim run)))
      | Some winner \<Rightarrow> (\<exists>a. winner = fs_PlayerID (fighter_at a (State (mr_sim run)))
          \<and> winner \<in> {se_PlayerID sess1, se_PlayerID sess2}
          \<and> (fm_ResultType p = MatchResultKO \<and> fs_HP (fighter_at (opponent a) (State (mr_sim run))) = 0
             \<or> fm_ResultType p = MatchResultSubmission
               \<and> ms_CombatState (State (mr_sim run)) = StateSubmissionAttempt)))"
  by (rule runMatch_outcome [OF assms])

lemma runMatch_result_witness:
  "\<exists>run out (p :: finalize_match_params). runMatch demo_deps demo_env (demo_session ''ana'')
      (demo_session ''bo'') 0 0 = Some (Some (run, LoopDone), out) \<and> FinalizedMatch p \<in> set out
    \<and> fm_Player1ID p = ''ana'' \<and> fm_Player2ID p = ''bo''"
proof -
  from demo_run obtain run out p w where r: "runMatch demo_deps demo_env (demo_session ''ana'')
      (demo_session ''bo'') 0 0 = Some (Some (run, LoopDone), out)" "FinalizedMatch p \<in> set out" by metis
  from runMatch_result [OF demo_run_ok(1,2) r] have "fm_Player1ID p = ''ana'' \<and> fm_Player2ID p = ''bo''"
    by (simp add: demo_session_def)
  with r show ?thesis by blast
qed

end
