(* ===== verification/Practice.thy ===== *)
theory Practice
  imports MatchLoop
begin

text \<open>
  The two matches against the computer of \<^verbatim>\<open>internal/matchmaking/service.go\<close>: \<open>runNPCMatch\<close>, with
  the input collection of a real match but nothing recorded, and \<open>RunTutorial\<close>, in which the
  player's side is scripted and the opponent follows \<open>decideTutorialNPCInput\<close>. The lemmas say that
  the scripted turns are always playable, so that an uninterrupted tutorial never fails.
\<close>

section \<open>Practice against the NPC\<close>

record practice_run =
  pr_sim :: combat_simulator
  pr_slot1 :: "deterministic_rng match_slot"
  pr_slot2 :: "deterministic_rng match_slot"

definition coach_session :: "string \<Rightarrow> session" where
  "coach_session npcID = \<lparr>se_PlayerID = npcID, se_Handle = ''coach-npc'', se_RemoteAddr = ''''\<rparr>"

text \<open>
  One pass of the loop: the run after it, how it ended the loop (if it did) and what it sent.
\<close>

definition practice_turn :: "'f match_deps \<Rightarrow> turn_env \<Rightarrow> session \<Rightarrow> practice_run
    \<Rightarrow> (practice_run \<times> turn_exit option \<times> 'f match_output list) option" where
  "practice_turn D te sess run =
     (if te_canceled te then Some (run, Some LoopCanceled, [])
      else let state = State (pr_sim run) in
      if mo_Finished (ms_Outcome state) then Some (run, Some LoopDone, [])
      else case collectTurnInputs (md_engine D) state (pr_slot1 run) (pr_slot2 run)
          (te_events1 te) (te_events2 te) (te_second_first te) of
        None \<Rightarrow> None
      | Some (collected, slot1, slot2, frames) \<Rightarrow>
          let run = run\<lparr>pr_slot1 := slot1, pr_slot2 := slot2\<rparr> in
          case collected of
            None \<Rightarrow> Some (run, Some LoopCanceled, sent_out frames)
          | Some turnInputs \<Rightarrow> (case CanonicalizeInputs state turnInputs of
              Inl err \<Rightarrow> Some (run, Some LoopAborted,
                sent_out (frames @ sendFrame sess [''Practice aborted: invalid turn inputs.'']))
            | Inr canonicalInputs \<Rightarrow> (case Step (md_resolver D) (pr_sim run) canonicalInputs of
                (Inl err, sim) \<Rightarrow> Some (run\<lparr>pr_sim := sim\<rparr>, Some LoopAborted,
                  sent_out (frames @ sendFrame sess [''Practice aborted: resolution error.'']))
              | (Inr result, sim) \<Rightarrow>
                  let fr = md_render D (se_Handle sess) ''Coach NPC'' result;
                      (ok, out) = emitCinematicSequence (te_cut te) fr '''' [sess]
                  in Some (run\<lparr>pr_sim := sim\<rparr>, if ok then None else Some LoopCanceled,
                       sent_out frames @ out))))"

function practice_loop :: "'f match_deps \<Rightarrow> (int \<Rightarrow> turn_env) \<Rightarrow> session \<Rightarrow> int \<Rightarrow> practice_run
    \<Rightarrow> (practice_run \<times> turn_exit \<times> 'f match_output list) option" where
  "practice_loop D env sess turn run =
     (if \<not> turn < md_MaxTurns D then Some (run, LoopDone, [])
      else case practice_turn D (env turn) sess run of
        None \<Rightarrow> None
      | Some (run', Some exit, out) \<Rightarrow> Some (run', exit, out)
      | Some (run', None, out) \<Rightarrow>
          map_option (\<lambda>(run'', exit, out'). (run'', exit, out @ out'))
            (practice_loop D env sess (turn + 1) run'))"
  by pat_completeness auto
termination
  by (relation "measure (\<lambda>(D, e, s, turn, run). nat (md_MaxTurns D - turn))") auto

declare practice_loop.simps [simp del]

definition practice_result_frames :: "session \<Rightarrow> match_outcome \<Rightarrow> sent list" where
  "practice_result_frames sess outcome =
     (let (resultType, winnerID) = mapResult outcome in
      if winnerID = None \<or> resultType = MatchResultDraw then sendFrame sess [''Practice result: draw.'']
      else if winnerID = Some (se_PlayerID sess) then sendFrame sess [''Practice result: victory.'']
      else sendFrame sess [''Practice result: defeat.''])"

definition runNPCMatch :: "'f match_deps \<Rightarrow> run_env \<Rightarrow> session \<Rightarrow> 'f match_output list option" where
  "runNPCMatch D env sess =
     (let npcID = ''npc_practice_'' @ se_PlayerID sess; drained = [InputDrained (se_PlayerID sess)] in
      case NewFighter (se_PlayerID sess) (pickArchetype (se_PlayerID sess) 0) of
        Inl err \<Rightarrow> Some (sent_out (sendFrame sess [''Practice aborted: failed to initialize player fighter.'']) @ drained)
      | Inr playerFighter \<Rightarrow> (case NewFighter npcID ArchetypeTechnician of
          Inl err \<Rightarrow> Some (sent_out (sendFrame sess [''Practice aborted: failed to initialize npc fighter.'']) @ drained)
        | Inr npcFighter \<Rightarrow>
            let seed = seedWithSalt (seedForPair (se_PlayerID sess) npcID (md_clock_text D (re_startedAt env))) 0xBADC0DE;
                run = \<lparr>pr_sim = NewCombatSimulator (NewMatchState playerFighter npcFighter) seed,
                  pr_slot1 = new_slot sess False (seedWithSalt seed npcSeedSaltP1),
                  pr_slot2 = new_slot (coach_session npcID) True (seedWithSalt seed npcSeedSaltP2)\<rparr>
            in map_option (\<lambda>(run, exit, out). out
                @ (if exit = LoopDone
                   then (if md_telemetry D then [CounterIncreased ''npc_matches_finished'',
                       DurationObserved ''npc_match_duration'' (time_sub (re_endedAt env) (re_startedAt env))] else [])
                     @ sent_out (practice_result_frames sess (ms_Outcome (State (pr_sim run))))
                   else []) @ drained)
              (practice_loop D (re_turns env) sess 0 run)))"

section \<open>The tutorial\<close>

definition tutorialMaxTurns :: int where "tutorialMaxTurns = 8"

datatype tutorial_result = TutorialResultWin | TutorialResultLoss | TutorialResultDraw

record tutorial_run =
  tu_ID :: string
  tu_PlayerID :: string
  tu_Result :: tutorial_result
  tu_StartedAt :: time
  tu_EndedAt :: time
  tu_DurationMS :: int
  tu_CreatedAt :: time

datatype tutorial_error = ErrCreateFighter combat_error | ErrCreateNPC combat_error
  | ErrTutorialInputs combat_error | ErrTutorialStep combat_error | ErrTutorialCanceled

datatype tutorial_write = TutorialRunCreated tutorial_run | TutorialMarkedCompleted string time

definition tutorialFighters :: "match_state \<Rightarrow> string \<Rightarrow> (fighter_state \<times> fighter_state) option" where
  "tutorialFighters state npcID =
     (if fs_PlayerID (ms_P1 state) = npcID then Some (ms_P1 state, ms_P2 state)
      else if fs_PlayerID (ms_P2 state) = npcID then Some (ms_P2 state, ms_P1 state)
      else None)"

definition decideTutorialNPCInput :: "('r \<Rightarrow> int \<Rightarrow> int \<times> 'r) \<Rightarrow> match_state \<Rightarrow> string \<Rightarrow> 'r \<Rightarrow> turn_input \<times> 'r" where
  "decideTutorialNPCInput next_int state npcID rng = (case tutorialFighters state npcID of
     None \<Rightarrow> (idle_input npcID, rng)
   | Some (self, opp) \<Rightarrow>
       let (action, target, rng) =
         (if fs_HP self > fs_HP opp + 10 then (ActionStrike, ZoneHead, rng)
          else if fs_Stamina self < 35 then (ActionBlock, ZoneTorso, rng)
          else let (n, rng) = next_int rng 100 in
            if n < 25 then (ActionGrapple, ZoneLegs, rng) else (ActionDodge, ZoneTorso, rng))
       in (\<lparr>ti_PlayerID = npcID, ti_Action = action, ti_Target = target, ti_DecisionMS = 250\<rparr>, rng))"

record tutorial_env =
  ue_canceled :: bool
  ue_cut :: "nat option"

function tutorial_loop :: "'f match_deps \<Rightarrow> (int \<Rightarrow> tutorial_env) \<Rightarrow> session \<Rightarrow> string \<Rightarrow> int
    \<Rightarrow> combat_simulator \<Rightarrow> deterministic_rng \<Rightarrow> (tutorial_error + combat_simulator) \<times> 'f match_output list" where
  "tutorial_loop D env sess npcID turn sim rng =
     (if \<not> turn < tutorialMaxTurns then (Inr sim, [])
      else if ue_canceled (env turn) then (Inl ErrTutorialCanceled, [])
      else let curr = State sim in
      if mo_Finished (ms_Outcome curr) then (Inr sim, [])
      else let playerInput = \<lparr>ti_PlayerID = se_PlayerID sess, ti_Action = ActionStrike,
                 ti_Target = ZoneTorso, ti_DecisionMS = 250\<rparr>;
               (npcInput, rng) = decideTutorialNPCInput NextInt curr npcID rng
        in case CanonicalizeInputs curr [playerInput, npcInput] of
          Inl err \<Rightarrow> (Inl (ErrTutorialInputs err), [])
        | Inr canonical \<Rightarrow> (case Step (md_resolver D) sim canonical of
            (Inl err, _) \<Rightarrow> (Inl (ErrTutorialStep err), [])
          | (Inr result, sim') \<Rightarrow>
              let fr = md_render D (se_Handle sess) ''Coach NPC'' result;
                  (ok, out) = emitCinematicSequence (ue_cut (env turn)) fr '''' [sess]
              in if \<not> ok then (Inl ErrTutorialCanceled, out)
                 else let (res, out') = tutorial_loop D env sess npcID (turn + 1) sim' rng
                   in (res, out @ out')))"
  by pat_completeness auto
termination
  by (relation "measure (\<lambda>(D, e, s, n, turn, sim, rng). nat (tutorialMaxTurns - turn))") auto

declare tutorial_loop.simps [simp del]

definition tutorial_outcome :: "match_outcome \<Rightarrow> string \<Rightarrow> string \<Rightarrow> tutorial_result" where
  "tutorial_outcome outcome playerID npcID =
     (if \<not> mo_Finished outcome then TutorialResultDraw
      else if mo_WinnerID outcome = playerID then TutorialResultWin
      else if mo_WinnerID outcome = npcID then TutorialResultLoss
      else TutorialResultDraw)"

definition tutorial_npc :: "session \<Rightarrow> string" where
  "tutorial_npc sess = ''npc_tutorial_'' @ se_PlayerID sess"

definition tutorial_seed :: "'f match_deps \<Rightarrow> time \<Rightarrow> session \<Rightarrow> u64" where
  "tutorial_seed D startedAt sess = seedWithSalt
     (seedForPair (se_PlayerID sess) (tutorial_npc sess) (md_clock_text D startedAt)) 0xC0FFEE"

text \<open>
  \<open>store\<close> is the telemetry store's \<^verbatim>\<open>CreateTutorialRun\<close>, if there is a store (\<open>None\<close> is its error).
\<close>

definition RunTutorial :: "'f match_deps \<Rightarrow> (tutorial_run \<Rightarrow> tutorial_run option) option \<Rightarrow> time \<Rightarrow> time
    \<Rightarrow> (int \<Rightarrow> tutorial_env) \<Rightarrow> session
    \<Rightarrow> (tutorial_error + tutorial_run) \<times> 'f match_output list \<times> tutorial_write list" where
  "RunTutorial D store startedAt endedAt env sess =
     (let npcID = tutorial_npc sess in
      case NewFighter (se_PlayerID sess) ArchetypeBalanced of
        Inl err \<Rightarrow> (Inl (ErrCreateFighter err), [], [])
      | Inr playerFighter \<Rightarrow> (case NewFighter npcID ArchetypeTechnician of
          Inl err \<Rightarrow> (Inl (ErrCreateNPC err), [], [])
        | Inr npcFighter \<Rightarrow>
            let seed = tutorial_seed D startedAt sess;
                sim = NewCombatSimulator (NewMatchState playerFighter npcFighter) seed;
                rng = NewDeterministicRNG (seedWithSalt seed 0x1234)
            in (case tutorial_loop D env sess npcID 0 sim rng of
                (Inl err, out) \<Rightarrow> (Inl err, out, [])
              | (Inr sim, out) \<Rightarrow>
                  let run = \<lparr>tu_ID = '''', tu_PlayerID = se_PlayerID sess,
                        tu_Result = tutorial_outcome (ms_Outcome (State sim)) (se_PlayerID sess) npcID,
                        tu_StartedAt = startedAt, tu_EndedAt = endedAt,
                        tu_DurationMS = Milliseconds (time_sub endedAt startedAt), tu_CreatedAt = 0\<rparr>
                  in (case store of
                      None \<Rightarrow> (Inr run, out, [])
                    | Some create \<Rightarrow> (Inr (case create run of None \<Rightarrow> run | Some created \<Rightarrow> created), out,
                        [TutorialRunCreated run, TutorialMarkedCompleted (se_PlayerID sess) endedAt])))))"

section \<open>The scripted turns are playable\<close>

lemma decideTutorialNPCInput_player:
  "decideTutorialNPCInput next_int state npcID rng = (inp, rng') \<Longrightarrow> ti_PlayerID inp = npcID"
  by (auto simp: decideTutorialNPCInput_def Let_def split_beta split: option.splits if_splits)

text \<open>The state a tutorial starts from.\<close>

definition tutorial_initial :: "session \<Rightarrow> match_state" where
  "tutorial_initial sess =
     (case (NewFighter (se_PlayerID sess) ArchetypeBalanced, NewFighter (tutorial_npc sess) ArchetypeTechnician) of
        (Inr f1, Inr f2) \<Rightarrow> NewMatchState f1 f2)"

definition tutorial_ok :: "session \<Rightarrow> string \<Rightarrow> combat_simulator \<Rightarrow> bool" where
  "tutorial_ok sess npcID sim \<longleftrightarrow> wf_match (State sim)
     \<and> fs_PlayerID (ms_P1 (State sim)) = se_PlayerID sess \<and> fs_PlayerID (ms_P2 (State sim)) = npcID"

lemma tutorial_turn:
  assumes "tutorial_ok sess npcID sim" "\<not> mo_Finished (ms_Outcome (State sim))"
    and "se_PlayerID sess \<noteq> []" "npcID \<noteq> []" "npcID \<noteq> se_PlayerID sess"
    and "ti_PlayerID i = se_PlayerID sess" "ti_PlayerID j = npcID"
  obtains ord res sim' where "CanonicalizeInputs (State sim) [i, j] = Inr ord"
    "Step det_resolver sim ord = (Inr res, sim')" "tutorial_ok sess npcID sim'"
    "ms_Turn (State sim') = ms_Turn (State sim) + 1"
proof -
  have "players_ok (State sim)" "inputs_ok (State sim) [i, j]"
    using assms by (auto simp: tutorial_ok_def players_ok_def inputs_ok_def player_ids_def)
  then obtain ord where ord: "CanonicalizeInputs (State sim) [i, j] = Inr ord"
    using CanonicalizeInputs_ok_iff by blast
  from step_recorded [OF ord assms(2)] obtain res sim' where
    step: "Step det_resolver sim ord = (Inr res, sim')" by blast
  have "wf_match (State sim') \<and> ms_Turn (State sim') = ms_Turn (State sim) + 1
      \<and> (\<forall>b. fs_PlayerID (fighter_at b (State sim')) = fs_PlayerID (fighter_at b (State sim)))"
    using assms(1) step unfolding tutorial_ok_def
    by (cases rule: go.step_cases [of sim ord]) auto
  then have "tutorial_ok sess npcID sim'" "ms_Turn (State sim') = ms_Turn (State sim) + 1"
    using assms(1) by (simp_all add: tutorial_ok_def all_side_iff)
  with that ord step show thesis by blast
qed

definition tutorial_uninterrupted :: "(int \<Rightarrow> tutorial_env) \<Rightarrow> bool" where
  "tutorial_uninterrupted env \<longleftrightarrow> (\<forall>t. \<not> ue_canceled (env t) \<and> ue_cut (env t) = None)"

lemma tutorial_loop_ok:
  assumes D: "md_resolver D = det_resolver" "tutorial_uninterrupted env"
    and ids: "se_PlayerID sess \<noteq> []" "npcID \<noteq> []" "npcID \<noteq> se_PlayerID sess"
  shows "tutorial_ok sess npcID sim \<Longrightarrow> ms_Turn (State sim) = turn \<Longrightarrow> turn \<le> tutorialMaxTurns \<Longrightarrow>
    \<exists>sim' out. tutorial_loop D env sess npcID turn sim rng = (Inr sim', out) \<and> tutorial_ok sess npcID sim'
      \<and> ms_Turn (State sim') \<le> tutorialMaxTurns
      \<and> (mo_Finished (ms_Outcome (State sim')) \<or> ms_Turn (State sim') = tutorialMaxTurns)"
proof (induction "nat (tutorialMaxTurns - turn)" arbitrary: turn sim rng)
  case 0
  then show ?case by (subst tutorial_loop.simps) auto
next
  case (Suc k)
  then have turn: "turn < tutorialMaxTurns" by simp
  have free: "\<not> ue_canceled (env turn)" "ue_cut (env turn) = None"
    using D(2) by (simp_all add: tutorial_uninterrupted_def)
  show ?case
  proof (cases "mo_Finished (ms_Outcome (State sim))")
    case True
    with turn free Suc.prems show ?thesis by (subst tutorial_loop.simps) (simp add: Let_def)
  next
    case False
    let ?i = "\<lparr>ti_PlayerID = se_PlayerID sess, ti_Action = ActionStrike, ti_Target = ZoneTorso,
      ti_DecisionMS = 250\<rparr>"
    obtain j rng' where j: "decideTutorialNPCInput NextInt (State sim) npcID rng = (j, rng')" by force
    obtain ord res sim' where one: "CanonicalizeInputs (State sim) [?i, j] = Inr ord"
      "Step det_resolver sim ord = (Inr res, sim')" "tutorial_ok sess npcID sim'"
      "ms_Turn (State sim') = turn + 1"
      using tutorial_turn [OF Suc.prems(1) False ids, of ?i j] decideTutorialNPCInput_player [OF j]
        Suc.prems(2) by auto
    have k: "k = nat (tutorialMaxTurns - (turn + 1))" using Suc.hyps(2) by simp
    obtain sim'' out where "tutorial_loop D env sess npcID (turn + 1) sim' rng' = (Inr sim'', out)"
      "tutorial_ok sess npcID sim''" "ms_Turn (State sim'') \<le> tutorialMaxTurns"
      "mo_Finished (ms_Outcome (State sim'')) \<or> ms_Turn (State sim'') = tutorialMaxTurns"
      using Suc.hyps(1) [OF k one(3,4), of rng'] turn by auto
    with turn False D(1) free one j show ?thesis
      by (subst tutorial_loop.simps)
        (auto simp: Let_def emitCinematicSequence_def emit_steps_uncut split_beta)
  qed
qed

section \<open>Properties\<close>

text \<open>
  C33: A tutorial that is not interrupted always comes to its end without an error, with a store or without one, in at most
  eight turns, with fewer only when the fight is decided; the run it builds names the player and the times, and is a draw exactly when
  the fight is not decided, and otherwise says who won it. Without a store that run is what it reports and nothing is written. With a
  store the run is written once and then the player is marked as having completed the tutorial when it ended; it reports the
  run as the store returns it, or the one it built if the store refuses it.
\<close>

theorem RunTutorial_completes:
  assumes "md_resolver D = det_resolver" "se_PlayerID sess \<noteq> []" "tutorial_uninterrupted env"
  shows "\<exists>sim m out run. m = State sim \<and> wf_match m \<and> ms_Turn m \<le> tutorialMaxTurns
    \<and> (mo_Finished (ms_Outcome m) \<or> ms_Turn m = tutorialMaxTurns)
    \<and> tutorial_loop D env sess (tutorial_npc sess) 0
        (NewCombatSimulator (tutorial_initial sess) (tutorial_seed D startedAt sess))
        (NewDeterministicRNG (seedWithSalt (tutorial_seed D startedAt sess) 0x1234)) = (Inr sim, out)
    \<and> run = \<lparr>tu_ID = [], tu_PlayerID = se_PlayerID sess,
        tu_Result = (if \<not> mo_Finished (ms_Outcome m) then TutorialResultDraw
          else if mo_WinnerID (ms_Outcome m) = fs_PlayerID (ms_P1 m) then TutorialResultWin
          else TutorialResultLoss),
        tu_StartedAt = startedAt, tu_EndedAt = endedAt,
        tu_DurationMS = Milliseconds (time_sub endedAt startedAt), tu_CreatedAt = 0\<rparr>
    \<and> RunTutorial D store startedAt endedAt env sess = (case store of
        None \<Rightarrow> (Inr run, out, [])
      | Some create \<Rightarrow> (Inr (case create run of None \<Rightarrow> run | Some stored \<Rightarrow> stored), out,
          [TutorialRunCreated run, TutorialMarkedCompleted (se_PlayerID sess) endedAt]))"
proof -
  let ?npc = "tutorial_npc sess" and ?seed = "tutorial_seed D startedAt sess"
  have npc: "?npc \<noteq> []" "?npc \<noteq> se_PlayerID sess"
    using arg_cong [of ?npc "se_PlayerID sess" length] by (auto simp: tutorial_npc_def)
  obtain f1 f2 where f: "NewFighter (se_PlayerID sess) ArchetypeBalanced = Inr f1"
    "NewFighter ?npc ArchetypeTechnician = Inr f2" by (simp add: NewFighter_def)
  have initial: "tutorial_initial sess = NewMatchState f1 f2"
    by (simp add: tutorial_initial_def f)
  let ?sim = "NewCombatSimulator (tutorial_initial sess) ?seed"
  have "tutorial_ok sess ?npc ?sim" "ms_Turn (State ?sim) = 0"
    using NewMatchState_wf [OF f]
    by (simp_all add: tutorial_ok_def NewCombatSimulator_def State_def Let_def wf_match_rng initial)
      (simp_all add: NewMatchState_def)
  from tutorial_loop_ok [OF assms(1,3,2) npc this, of "NewDeterministicRNG (seedWithSalt ?seed 0x1234)"]
  obtain sim out where loop: "tutorial_loop D env sess ?npc 0 ?sim
      (NewDeterministicRNG (seedWithSalt ?seed 0x1234)) = (Inr sim, out)"
    and ok: "tutorial_ok sess ?npc sim" and turns: "ms_Turn (State sim) \<le> tutorialMaxTurns"
      "mo_Finished (ms_Outcome (State sim)) \<or> ms_Turn (State sim) = tutorialMaxTurns"
    by (auto simp: tutorialMaxTurns_def)
  define run where "run = \<lparr>tu_ID = [], tu_PlayerID = se_PlayerID sess,
      tu_Result = tutorial_outcome (ms_Outcome (State sim)) (se_PlayerID sess) ?npc,
      tu_StartedAt = startedAt, tu_EndedAt = endedAt,
      tu_DurationMS = Milliseconds (time_sub endedAt startedAt), tu_CreatedAt = 0\<rparr>"
  have result: "RunTutorial D store startedAt endedAt env sess = (case store of
        None \<Rightarrow> (Inr run, out, [])
      | Some create \<Rightarrow> (Inr (case create run of None \<Rightarrow> run | Some stored \<Rightarrow> stored), out,
          [TutorialRunCreated run, TutorialMarkedCompleted (se_PlayerID sess) endedAt]))"
    using loop by (cases store) (simp_all add: RunTutorial_def f Let_def initial run_def split: option.split)
  have wf: "wf_match (State sim)" and p1: "fs_PlayerID (ms_P1 (State sim)) = se_PlayerID sess"
    and p2: "fs_PlayerID (ms_P2 (State sim)) = ?npc"
    using ok by (simp_all add: tutorial_ok_def)
  have "mo_WinnerID (ms_Outcome (State sim)) \<in> {se_PlayerID sess, ?npc}"
    if "mo_Finished (ms_Outcome (State sim))"
    using that wf p1 p2 by (auto simp: wf_match_def outcome_ok_def ko_by_def submitted_by_def)
  then have "tutorial_outcome (ms_Outcome (State sim)) (se_PlayerID sess) ?npc =
      (if \<not> mo_Finished (ms_Outcome (State sim)) then TutorialResultDraw
       else if mo_WinnerID (ms_Outcome (State sim)) = se_PlayerID sess then TutorialResultWin
       else TutorialResultLoss)"
    by (auto simp: tutorial_outcome_def)
  with p1 have "tu_Result run = (if \<not> mo_Finished (ms_Outcome (State sim)) then TutorialResultDraw
       else if mo_WinnerID (ms_Outcome (State sim)) = fs_PlayerID (ms_P1 (State sim)) then TutorialResultWin
       else TutorialResultLoss)" by (simp add: run_def)
  with wf turns loop result show ?thesis
    by (intro exI [of _ sim] exI [of _ run] exI conjI) (rule refl, assumption+, simp_all add: run_def)
qed

text \<open>With a store that numbers the runs it takes.\<close>

lemma RunTutorial_completes_witness:
  "\<exists>run out. RunTutorial demo_deps (Some (\<lambda>r. Some (r\<lparr>tu_ID := ''t1''\<rparr>))) 0 10
      (\<lambda>_. \<lparr>ue_canceled = False, ue_cut = None\<rparr>) (demo_session ''ana'')
      = (Inr (run\<lparr>tu_ID := ''t1''\<rparr>), out, [TutorialRunCreated run, TutorialMarkedCompleted ''ana'' 10])
    \<and> tu_PlayerID run = ''ana'' \<and> tu_EndedAt run = 10"
proof -
  have "md_resolver demo_deps = det_resolver" "se_PlayerID (demo_session ''ana'') \<noteq> []"
    "tutorial_uninterrupted (\<lambda>_. \<lparr>ue_canceled = False, ue_cut = None\<rparr>)"
    by (simp_all add: demo_deps_def demo_session_def tutorial_uninterrupted_def)
  from RunTutorial_completes [OF this, of 0 10 "Some (\<lambda>r. Some (r\<lparr>tu_ID := ''t1''\<rparr>))"] show ?thesis
    by (auto simp: demo_session_def)
qed

end
