(* ===== verification/Database.thy ===== *)
theory Database
  imports Practice
begin

text \<open>
  The database behind \<^verbatim>\<open>internal/storage\<close>: statements, transactions and the tables of
  \<^verbatim>\<open>db/migrations\<close> with their constraints. The repositories are built from it in the theories Accounts,
  Seasons, Archive and EventStore.

  A repository operation is a \<open>query\<close>: a function of the database and of the \<open>reply\<close>s the connection
  gives to its statements, one after the other (\<open>[]\<close>: all work). A statement that breaks does nothing, one
  whose reply is lost has run and reports an error all the same. A transaction works on a copy: an error
  inside it leaves the database as it was, and so does a commit that breaks. The statements of a
  transaction run without another transaction between them.

  A table is the list of its rows. \<open>sd_tz\<close> is what a \<^verbatim>\<open>TIMESTAMPTZ\<close> column keeps of a time.
\<close>

section \<open>Statements and transactions\<close>

datatype store_error = ErrNilPool | ErrPanicked | ErrConnectionLost | ErrNoRows | ErrUniqueViolation string
  | ErrForeignKey string | ErrCheckFailed string | ErrRequiredField string | ErrInvalidField string
  | ErrRankingFailed | ErrDecode string

datatype reply = Works | Breaks | LostReply

type_synonym ('d, 'a) query = "'d \<times> reply list \<Rightarrow> (store_error + 'a) \<times> ('d \<times> reply list)"

fun next_reply :: "reply list \<Rightarrow> reply \<times> reply list" where
  "next_reply [] = (Works, [])"
| "next_reply (r # rs) = (r, rs)"

definition give :: "'a \<Rightarrow> ('d, 'a) query" where
  "give a w = (Inr a, w)"

definition fail :: "store_error \<Rightarrow> ('d, 'a) query" where
  "fail e w = (Inl e, w)"

definition and_then :: "('d, 'a) query \<Rightarrow> ('a \<Rightarrow> ('d, 'b) query) \<Rightarrow> ('d, 'b) query" where
  "and_then m k w = (case m w of (Inl e, w) \<Rightarrow> (Inl e, w) | (Inr a, w) \<Rightarrow> k a w)"

text \<open>Branching on the error, as the code does on \<^verbatim>\<open>ErrNotFound\<close>.\<close>

definition attempt :: "('d, 'a) query \<Rightarrow> ('a \<Rightarrow> ('d, 'b) query) \<Rightarrow> (store_error \<Rightarrow> ('d, 'b) query) \<Rightarrow> ('d, 'b) query" where
  "attempt m k h w = (case m w of (Inl e, w) \<Rightarrow> h e w | (Inr a, w) \<Rightarrow> k a w)"

fun do_all :: "('d, unit) query list \<Rightarrow> ('d, unit) query" where
  "do_all [] = give ()"
| "do_all (m # ms) = and_then m (\<lambda>_. do_all ms)"

text \<open>A \<^verbatim>\<open>SELECT\<close> and a statement that writes.\<close>

definition select_row :: "('d \<Rightarrow> store_error + 'a) \<Rightarrow> ('d, 'a) query" where
  "select_row f w = (case next_reply (snd w) of
     (Works, rs) \<Rightarrow> (f (fst w), (fst w, rs)) | (_, rs) \<Rightarrow> (Inl ErrConnectionLost, (fst w, rs)))"

definition exec :: "('d \<Rightarrow> store_error + 'd) \<Rightarrow> ('d, unit) query" where
  "exec f w = (case next_reply (snd w) of
     (Works, rs) \<Rightarrow> (case f (fst w) of Inl e \<Rightarrow> (Inl e, (fst w, rs)) | Inr d \<Rightarrow> (Inr (), (d, rs)))
   | (Breaks, rs) \<Rightarrow> (Inl ErrConnectionLost, (fst w, rs))
   | (LostReply, rs) \<Rightarrow> (Inl ErrConnectionLost, (case f (fst w) of Inl e \<Rightarrow> fst w | Inr d \<Rightarrow> d, rs)))"

text \<open>\<^verbatim>\<open>Begin\<close>, the body, and \<^verbatim>\<open>Commit\<close>, with the deferred \<^verbatim>\<open>Rollback\<close>.\<close>

definition transaction :: "('d, 'a) query \<Rightarrow> ('d, 'a) query" where
  "transaction m w = (case next_reply (snd w) of
     (Works, rs) \<Rightarrow> (case m (fst w, rs) of
        (Inl e, (_, rs)) \<Rightarrow> (Inl e, (fst w, rs))
      | (Inr a, (d, rs)) \<Rightarrow> (case next_reply rs of
          (Works, rs) \<Rightarrow> (Inr a, (d, rs))
        | (Breaks, rs) \<Rightarrow> (Inl ErrConnectionLost, (fst w, rs))
        | (LostReply, rs) \<Rightarrow> (Inl ErrConnectionLost, (d, rs))))
   | (_, rs) \<Rightarrow> (Inl ErrConnectionLost, (fst w, rs)))"

named_theorems query_simps \<open>how the queries compute\<close>

lemma query_simps_basic [query_simps]:
  "give a w = (Inr a, w)" "fail e w = (Inl e, w)" "next_reply [] = (Works, [])" "do_all [] = give ()"
  "do_all (m # ms) = and_then m (\<lambda>_. do_all ms)"
  by (simp_all add: give_def fail_def)

text \<open>With a connection that works.\<close>

lemma query_simps_healthy [query_simps]:
  "and_then m k w = (case m w of (Inl e, w) \<Rightarrow> (Inl e, w) | (Inr a, w) \<Rightarrow> k a w)"
  "attempt m k h w = (case m w of (Inl e, w) \<Rightarrow> h e w | (Inr a, w) \<Rightarrow> k a w)"
  "select_row f (d, []) = (f d, (d, []))"
  "exec g (d, []) = (case g d of Inl e \<Rightarrow> (Inl e, (d, [])) | Inr d \<Rightarrow> (Inr (), (d, [])))"
  by (simp_all add: and_then_def attempt_def select_row_def exec_def split: sum.split)

text \<open>A query that succeeds has run all its statements.\<close>

lemma and_then_Inr: "and_then m k w = (Inr b, w') \<Longrightarrow> \<exists>a w1. m w = (Inr a, w1) \<and> k a w1 = (Inr b, w')"
  by (auto simp: and_then_def split: prod.splits sum.splits)

lemma exec_Inr: "exec f w = (Inr a, w') \<Longrightarrow> f (fst w) = Inr (fst w')"
  by (auto simp: exec_def split: prod.splits reply.splits sum.splits)

lemma select_row_Inr: "select_row f w = (Inr a, w') \<Longrightarrow> f (fst w) = Inr a \<and> fst w' = fst w"
  by (auto simp: select_row_def split: prod.splits reply.splits)

lemma attempt_Inr: "attempt m k h w = (Inr b, w') \<Longrightarrow>
    (\<exists>a w1. m w = (Inr a, w1) \<and> k a w1 = (Inr b, w')) \<or> (\<exists>e w1. m w = (Inl e, w1) \<and> h e w1 = (Inr b, w'))"
  by (auto simp: attempt_def split: prod.splits sum.splits)

text \<open>All or nothing, whatever the connection does.\<close>

lemma transaction_atomic:
  assumes "transaction m (d, rs) = (res, (d', rs'))"
  obtains (undone) e where "res = Inl e" "d' = d"
  | (done_all) a rs1 rs2 where "m (d, rs1) = (Inr a, (d', rs2))" "next_reply rs = (Works, rs1)"
      "res = Inr a \<or> res = Inl ErrConnectionLost"
  using assms
  by (auto simp: transaction_def split: prod.splits reply.splits sum.splits)

lemma transaction_healthy [query_simps]:
  "m (d, []) = (Inr a, (d', [])) \<Longrightarrow> transaction m (d, []) = (Inr a, (d', []))"
  "m (d, []) = (Inl e, (d1, [])) \<Longrightarrow> transaction m (d, []) = (Inl e, (d, []))"
  by (simp_all add: transaction_def)

text \<open>Deferred reasoning about one statement: an invariant of the database.\<close>

definition keeps :: "('d \<Rightarrow> bool) \<Rightarrow> ('d, 'a) query \<Rightarrow> bool" where
  "keeps I m \<longleftrightarrow> (\<forall>w. I (fst w) \<longrightarrow> I (fst (snd (m w))))"

lemma keepsI: "(\<And>d rs res d' rs'. I d \<Longrightarrow> m (d, rs) = (res, (d', rs')) \<Longrightarrow> I d') \<Longrightarrow> keeps I m"
  unfolding keeps_def by (metis prod.collapse)

lemma keepsD: "keeps I m \<Longrightarrow> m (d, rs) = (res, (d', rs')) \<Longrightarrow> I d \<Longrightarrow> I d'"
  unfolding keeps_def by (metis fst_conv snd_conv)

lemma keeps_give [wf_intros]: "keeps I (give a)"
  and keeps_fail [wf_intros]: "keeps I (fail e)"
  and keeps_select [wf_intros]: "keeps I (select_row f)"
  by (auto simp: keeps_def give_def fail_def select_row_def split: prod.split reply.split)

lemma keeps_exec [wf_intros]: "(\<And>d d'. I d \<Longrightarrow> f d = Inr d' \<Longrightarrow> I d') \<Longrightarrow> keeps I (exec f)"
  by (auto simp: keeps_def exec_def split: prod.split reply.split sum.split)

lemma keeps_and_then [wf_intros]: "keeps I m \<Longrightarrow> (\<And>a. keeps I (k a)) \<Longrightarrow> keeps I (and_then m k)"
  unfolding keeps_def and_then_def by (auto split: prod.split sum.split) (metis fst_conv snd_conv)+

lemma keeps_attempt [wf_intros]:
  "keeps I m \<Longrightarrow> (\<And>a. keeps I (k a)) \<Longrightarrow> (\<And>e. keeps I (h e)) \<Longrightarrow> keeps I (attempt m k h)"
  unfolding keeps_def attempt_def by (auto split: prod.split sum.split) (metis fst_conv snd_conv)+

lemma keeps_do_all [wf_intros]: "(\<And>m. m \<in> set ms \<Longrightarrow> keeps I m) \<Longrightarrow> keeps I (do_all ms)"
  by (induction ms) (auto intro: wf_intros)

lemma keeps_transaction [wf_intros]: "keeps I m \<Longrightarrow> keeps I (transaction m)"
proof (rule keepsI)
  fix d rs res d' rs'
  assume "keeps I m" "I d" "transaction m (d, rs) = (res, (d', rs'))"
  then show "I d'" by (elim transaction_atomic) (auto dest: keepsD)
qed

text \<open>Inside a transaction an invariant may be broken between two statements: what counts is the success.\<close>

definition commits :: "('d \<Rightarrow> bool) \<Rightarrow> ('d, 'a) query \<Rightarrow> bool" where
  "commits I m \<longleftrightarrow> (\<forall>d rs a d' rs'. I d \<longrightarrow> m (d, rs) = (Inr a, (d', rs')) \<longrightarrow> I d')"

lemma commitsD: "commits I m \<Longrightarrow> m (d, rs) = (Inr a, (d', rs')) \<Longrightarrow> I d \<Longrightarrow> I d'"
  unfolding commits_def by blast

lemma keeps_commits: "keeps I m \<Longrightarrow> commits I m"
  unfolding commits_def by (blast dest: keepsD)

lemma commits_and_then: "commits I m \<Longrightarrow> (\<And>a. commits I (k a)) \<Longrightarrow> commits I (and_then m k)"
  unfolding commits_def by (metis and_then_Inr prod.collapse)

lemma commits_transaction: "commits I m \<Longrightarrow> keeps I (transaction m)"
proof (rule keepsI)
  fix d rs res d' rs'
  assume "commits I m" "I d" "transaction m (d, rs) = (res, (d', rs'))"
  then show "I d'" by (elim transaction_atomic) (auto dest: commitsD)
qed

lemma keeps_if [wf_intros]: "(b \<Longrightarrow> keeps I m) \<Longrightarrow> (\<not> b \<Longrightarrow> keeps I m') \<Longrightarrow> keeps I (if b then m else m')"
  by simp

section \<open>Tables\<close>

lemma find_SomeD: "find P xs = Some x \<Longrightarrow> x \<in> set xs \<and> P x"
  by (induction xs) (auto split: if_splits)

lemma find_append: "find P (xs @ ys) = (case find P xs of None \<Rightarrow> find P ys | Some x \<Rightarrow> Some x)"
  by (induction xs) auto

record player =
  pl_ID :: string
  pl_Handle :: string
  pl_CreatedAt :: time
  pl_UpdatedAt :: time

record player_profile =
  pp_PlayerID :: string
  pp_TutorialCompleted :: bool
  pp_TutorialCompletedAt :: "time option"
  pp_TutorialRuns :: int
  pp_CreatedAt :: time
  pp_UpdatedAt :: time

datatype season_status = SeasonStatusActive | SeasonStatusClosed

record season =
  sa_ID :: string
  sa_Number :: int
  sa_StartsAt :: time
  sa_EndsAt :: time
  sa_Status :: season_status
  sa_CreatedAt :: time
  sa_UpdatedAt :: time

record 'f rating_entry =
  rg_PlayerID :: string
  rg_SeasonID :: string
  rg_Rating :: 'f
  rg_RD :: 'f
  rg_Sigma :: 'f
  rg_LastMatchAt :: "time option"
  rg_UpdatedAt :: time

record match_row =
  mt_ID :: string
  mt_SeasonID :: string
  mt_Player1ID :: string
  mt_Player2ID :: string
  mt_WinnerID :: "string option"
  mt_ResultType :: match_result_type
  mt_StartedAt :: time
  mt_EndedAt :: time
  mt_DurationMS :: int
  mt_CreatedAt :: time

text \<open>The rows of \<^verbatim>\<open>match_results\<close>, \<^verbatim>\<open>match_replays\<close> and \<^verbatim>\<open>match_replay_turns\<close>; \<open>'j\<close> is a JSON value.\<close>

record 'f result_row =
  rr_MatchID :: string
  rr_PlayerID :: string
  rr_OpponentID :: string
  rr_Score :: 'f
  rr_RatingBefore :: 'f
  rr_RDBefore :: 'f
  rr_SigmaBefore :: 'f
  rr_RatingAfter :: 'f
  rr_RDAfter :: 'f
  rr_SigmaAfter :: 'f
  rr_CreatedAt :: time

datatype json = JNull | JBool bool | JInt int | JString string | JArray "json list" | JObject "(string \<times> json) list"

record replay_row =
  rp_MatchID :: string
  rp_SeedText :: string
  rp_InitialState :: json
  rp_TurnCount :: int
  rp_CreatedAt :: time

record replay_turn_row =
  ro_MatchID :: string
  ro_Turn :: int
  ro_RelativeMS :: int
  ro_Inputs :: json
  ro_StateHashText :: string
  ro_RollHashText :: string
  ro_CreatedAt :: time

record 'f database =
  db_players :: "player list"
  db_profiles :: "player_profile list"
  db_tutorial_runs :: "tutorial_run list"
  db_seasons :: "season list"
  db_ratings :: "'f rating_entry list"
  db_matches :: "match_row list"
  db_results :: "'f result_row list"
  db_replays :: "replay_row list"
  db_replay_turns :: "replay_turn_row list"

text \<open>A database without rows, for the examples.\<close>

definition empty_database :: "'f database" where
  "empty_database = \<lparr>db_players = [], db_profiles = [], db_tutorial_runs = [], db_seasons = [], db_ratings = [],
     db_matches = [], db_results = [], db_replays = [], db_replay_turns = []\<rparr>"

text \<open>
  \<^verbatim>\<open>SQLRepositories\<close>: whether there is a pool, and the length of a season. A column of type
  \<^verbatim>\<open>INTEGER\<close> takes 32 bits, \<^verbatim>\<open>BIGINT\<close> 64.
\<close>

record store_deps =
  sd_pool :: bool
  sd_tz :: "time \<Rightarrow> time"
  sd_seasonDuration :: duration

definition NewSQLRepositories :: "bool \<Rightarrow> (time \<Rightarrow> time) \<Rightarrow> store_deps" where
  "NewSQLRepositories pool tz = \<lparr>sd_pool = pool, sd_tz = tz, sd_seasonDuration = 30 * 24 * 3600 * 1000000000\<rparr>"

definition with_pool :: "store_deps \<Rightarrow> ('d, 'a) query \<Rightarrow> ('d, 'a) query" where
  "with_pool D m = (if sd_pool D then m else fail ErrNilPool)"

definition int4 :: "int \<Rightarrow> bool" where
  "int4 v \<longleftrightarrow> - (2 ^ 31) \<le> v \<and> v < 2 ^ 31"

text \<open>What the model relies on of a \<^verbatim>\<open>TIMESTAMPTZ\<close>: it keeps the order, it is exact to a microsecond.\<close>

definition timestamps_ok :: "(time \<Rightarrow> time) \<Rightarrow> bool" where
  "timestamps_ok tz \<longleftrightarrow> mono tz \<and> (\<forall>t. \<bar>tz t - t\<bar> < 1000) \<and> (\<forall>t. tz (tz t) = tz t)"

definition micros :: "time \<Rightarrow> time" where
  "micros t = t div 1000 * 1000"

lemma timestamps_ok_micros: "timestamps_ok micros"
proof -
  have "\<bar>micros t - t\<bar> < 1000" for t
    by (simp add: micros_def flip: minus_mod_eq_div_mult [of t 1000])
  moreover have "mono micros" by (auto simp: mono_def micros_def zdiv_mono1)
  ultimately show ?thesis by (simp add: timestamps_ok_def micros_def)
qed

lemma with_pool_Inr: "with_pool D m w = (Inr a, w') \<Longrightarrow> sd_pool D \<and> m w = (Inr a, w')"
  by (auto simp: with_pool_def fail_def split: if_splits)

lemma keeps_with_pool [wf_intros]: "keeps I m \<Longrightarrow> keeps I (with_pool D m)"
  by (auto simp: with_pool_def intro: wf_intros)

end
