(* ===== verification/Accounts.thy ===== *)
theory Accounts
  imports Database
begin

text \<open>
  Players, their profiles and their tutorial runs: the statements of \<^verbatim>\<open>repositories.go\<close> and
  \<^verbatim>\<open>repositories_m5.go\<close> on the tables \<^verbatim>\<open>players\<close>, \<^verbatim>\<open>player_profiles\<close> and \<^verbatim>\<open>tutorial_runs\<close>, and the lookup a
  session starts with (\<open>EnsurePlayerSession\<close> of \<^verbatim>\<open>cmd/server/player_ensurer.go\<close>).

  The lookup is written against an interface. The locale \<open>player_directory\<close> states what it relies on, and
  in it the lookup is shown to find or make the player whatever other sessions insert between its three
  statements; the tables provide the interface.
\<close>

section \<open>Players\<close>

definition insert_player :: "(time \<Rightarrow> time) \<Rightarrow> player \<Rightarrow> ('f, 'z) database_scheme \<Rightarrow> store_error + ('f, 'z) database_scheme" where
  "insert_player tz p d =
     (if pl_ID p \<in> pl_ID ` set (db_players d) then Inl (ErrUniqueViolation ''players_pkey'')
      else if pl_Handle p \<in> pl_Handle ` set (db_players d) then Inl (ErrUniqueViolation ''players_handle_key'')
      else Inr (d\<lparr>db_players := db_players d
        @ [p\<lparr>pl_CreatedAt := tz (pl_CreatedAt p), pl_UpdatedAt := tz (pl_UpdatedAt p)\<rparr>]\<rparr>))"

definition Create :: "store_deps \<Rightarrow> time \<Rightarrow> string \<Rightarrow> string \<Rightarrow> (('f, 'z) database_scheme, player) query" where
  "Create D now uuid handle = with_pool D
     (let p = \<lparr>pl_ID = uuid, pl_Handle = handle, pl_CreatedAt = now, pl_UpdatedAt = now\<rparr>
      in and_then (exec (insert_player (sd_tz D) p)) (\<lambda>_. give p))"

definition row_or_none :: "'a option \<Rightarrow> store_error + 'a" where
  "row_or_none r = (case r of None \<Rightarrow> Inl ErrNoRows | Some a \<Rightarrow> Inr a)"

text \<open>Without a pool these two panic: they do not check for one.\<close>

definition GetByID :: "store_deps \<Rightarrow> string \<Rightarrow> (('f, 'z) database_scheme, player) query" where
  "GetByID D playerID = (if \<not> sd_pool D then fail ErrPanicked
     else select_row (\<lambda>d. row_or_none (find (\<lambda>p. pl_ID p = playerID) (db_players d))))"

definition GetByHandle :: "store_deps \<Rightarrow> string \<Rightarrow> (('f, 'z) database_scheme, player) query" where
  "GetByHandle D handle = (if \<not> sd_pool D then fail ErrPanicked
     else select_row (\<lambda>d. row_or_none (find (\<lambda>p. pl_Handle p = handle) (db_players d))))"

section \<open>Profiles\<close>

text \<open>\<^verbatim>\<open>INSERT ... ON CONFLICT (player_id)\<close>: the row is inserted, or the row that is there is updated.\<close>

definition upsert_profile :: "player_profile \<Rightarrow> (player_profile \<Rightarrow> player_profile) \<Rightarrow> ('f, 'z) database_scheme
    \<Rightarrow> store_error + ('f, 'z) database_scheme" where
  "upsert_profile p upd d =
     (if pp_PlayerID p \<in> pp_PlayerID ` set (db_profiles d)
      then let ps = map (\<lambda>q. if pp_PlayerID q = pp_PlayerID p then upd q else q) (db_profiles d)
        in if \<forall>q \<in> set ps. int4 (pp_TutorialRuns q) then Inr (d\<lparr>db_profiles := ps\<rparr>)
           else Inl (ErrCheckFailed ''tutorial_runs'')
      else if pp_PlayerID p \<notin> pl_ID ` set (db_players d) then Inl (ErrForeignKey ''player_id'')
      else Inr (d\<lparr>db_profiles := db_profiles d @ [p]\<rparr>))"

definition new_profile :: "string \<Rightarrow> bool \<Rightarrow> time option \<Rightarrow> int \<Rightarrow> time \<Rightarrow> player_profile" where
  "new_profile playerID completed completedAt runs now =
     \<lparr>pp_PlayerID = playerID, pp_TutorialCompleted = completed, pp_TutorialCompletedAt = completedAt,
      pp_TutorialRuns = runs, pp_CreatedAt = now, pp_UpdatedAt = now\<rparr>"

definition getProfile :: "string \<Rightarrow> (('f, 'z) database_scheme, player_profile) query" where
  "getProfile playerID = select_row (\<lambda>d. row_or_none (find (\<lambda>p. pp_PlayerID p = playerID) (db_profiles d)))"

definition GetOrCreateProfile :: "store_deps \<Rightarrow> time \<Rightarrow> string \<Rightarrow> (('f, 'z) database_scheme, player_profile) query" where
  "GetOrCreateProfile D now playerID = with_pool D
     (if playerID = [] then fail (ErrRequiredField ''player id'')
      else and_then (exec (upsert_profile (new_profile playerID False None 0 (sd_tz D now)) (\<lambda>q. q)))
        (\<lambda>_. getProfile playerID))"

definition MarkTutorialCompleted :: "store_deps \<Rightarrow> time \<Rightarrow> string \<Rightarrow> time \<Rightarrow> (('f, 'z) database_scheme, player_profile) query" where
  "MarkTutorialCompleted D clock playerID now = with_pool D
     (if playerID = [] then fail (ErrRequiredField ''player id'')
      else let now = sd_tz D (if IsZero now then clock else now) in
        and_then (exec (upsert_profile (new_profile playerID True (Some now) 0 now)
            (\<lambda>q. q\<lparr>pp_TutorialCompleted := True,
              pp_TutorialCompletedAt := (case pp_TutorialCompletedAt q of None \<Rightarrow> Some now | Some t \<Rightarrow> Some t),
              pp_UpdatedAt := now\<rparr>)))
          (\<lambda>_. getProfile playerID))"

section \<open>Tutorial runs\<close>

definition insert_tutorial_run :: "tutorial_run \<Rightarrow> ('f, 'z) database_scheme \<Rightarrow> store_error + ('f, 'z) database_scheme" where
  "insert_tutorial_run r d =
     (if tu_ID r \<in> tu_ID ` set (db_tutorial_runs d) then Inl (ErrUniqueViolation ''tutorial_runs_pkey'')
      else if tu_PlayerID r \<notin> pl_ID ` set (db_players d) then Inl (ErrForeignKey ''player_id'')
      else if \<not> int4 (tu_DurationMS r) \<or> tu_DurationMS r < 0 then Inl (ErrCheckFailed ''duration_ms'')
      else if tu_EndedAt r < tu_StartedAt r then Inl (ErrCheckFailed ''ended_at'')
      else Inr (d\<lparr>db_tutorial_runs := db_tutorial_runs d @ [r]\<rparr>))"

definition CreateTutorialRun :: "store_deps \<Rightarrow> time \<Rightarrow> string \<Rightarrow> tutorial_run \<Rightarrow> (('f, 'z) database_scheme, tutorial_run) query" where
  "CreateTutorialRun D clock uuid run = with_pool D
     (if tu_PlayerID run = [] then fail (ErrRequiredField ''player id'')
      else if IsZero (tu_StartedAt run) \<or> IsZero (tu_EndedAt run) then fail (ErrRequiredField ''started_at and ended_at'')
      else if tu_EndedAt run < tu_StartedAt run then fail (ErrInvalidField ''ended_at'')
      else let run = (if tu_ID run = [] then run\<lparr>tu_ID := uuid\<rparr> else run);
          run = (if IsZero (tu_CreatedAt run) then run\<lparr>tu_CreatedAt := clock\<rparr> else run);
          run = run\<lparr>tu_DurationMS := Milliseconds (time_sub (tu_EndedAt run) (tu_StartedAt run))\<rparr>;
          createdAt = sd_tz D (tu_CreatedAt run);
          row = run\<lparr>tu_StartedAt := sd_tz D (tu_StartedAt run), tu_EndedAt := sd_tz D (tu_EndedAt run),
            tu_CreatedAt := createdAt\<rparr>
        in transaction (and_then (exec (insert_tutorial_run row))
          (\<lambda>_. and_then (exec (upsert_profile (new_profile (tu_PlayerID run) False None 1 createdAt)
              (\<lambda>q. q\<lparr>pp_TutorialRuns := pp_TutorialRuns q + 1, pp_UpdatedAt := createdAt\<rparr>)))
            (\<lambda>_. give run))))"

section \<open>The lookup of a player\<close>

text \<open>
  The interface \<^verbatim>\<open>playerRepository\<close>. \<open>others k\<close> is what other sessions do before the lookup's statement
  \<open>k\<close>.
\<close>

record 'd player_repository =
  pr_GetByHandle :: "string \<Rightarrow> ('d, player) query"
  pr_Create :: "string \<Rightarrow> ('d, player) query"
  pr_GetOrCreateProfile :: "string \<Rightarrow> ('d, player_profile) query"

definition meanwhile :: "('d \<Rightarrow> 'd) \<Rightarrow> ('d, 'a) query \<Rightarrow> ('d, 'a) query" where
  "meanwhile f m w = m (f (fst w), snd w)"

definition isUniqueViolation :: "store_error \<Rightarrow> bool" where
  "isUniqueViolation e = (case e of ErrUniqueViolation _ \<Rightarrow> True | _ \<Rightarrow> False)"

definition with_profile :: "'d player_repository \<Rightarrow> ('d \<Rightarrow> 'd) \<Rightarrow> player \<Rightarrow> ('d, string \<times> player_profile) query" where
  "with_profile R f p = and_then (meanwhile f (pr_GetOrCreateProfile R (pl_ID p))) (\<lambda>profile. give (pl_ID p, profile))"

definition EnsurePlayerSession :: "'d player_repository option \<Rightarrow> (nat \<Rightarrow> 'd \<Rightarrow> 'd) \<Rightarrow> string
    \<Rightarrow> ('d, string \<times> player_profile) query" where
  "EnsurePlayerSession repos others handle = (case repos of
     None \<Rightarrow> fail (ErrRequiredField ''player repository'')
   | Some R \<Rightarrow> (\<lambda>w. case meanwhile (others 0) (pr_GetByHandle R handle) w of
        (Inr p, w) \<Rightarrow> with_profile R (others 1) p w
      | (Inl err, w) \<Rightarrow>
          if err \<noteq> ErrNoRows then (Inl err, w)
          else (case meanwhile (others 1) (pr_Create R handle) w of
              (Inr p, w) \<Rightarrow> with_profile R (others 2) p w
            | (Inl err, w) \<Rightarrow>
                if isUniqueViolation err
                then and_then (meanwhile (others 2) (pr_GetByHandle R handle)) (with_profile R (others 3)) w
                else (Inl err, w))))"

section \<open>What the lookup relies on\<close>

text \<open>
  \<open>ids\<close> is the directory of handles, \<open>ok\<close> the invariant of the store, \<open>fresh\<close> says that the identifier
  the next \<^verbatim>\<open>Create\<close> draws is not used yet.
\<close>

locale player_directory =
  fixes R :: "'d player_repository" and ids :: "'d \<Rightarrow> string \<rightharpoonup> string" and ok :: "'d \<Rightarrow> bool" and fresh :: "'d \<Rightarrow> bool"
  assumes get_some: "ok d \<Longrightarrow> ids d h = Some i \<Longrightarrow> \<exists>p. pr_GetByHandle R h (d, []) = (Inr p, (d, [])) \<and> pl_ID p = i"
    and get_none: "ok d \<Longrightarrow> ids d h = None \<Longrightarrow> pr_GetByHandle R h (d, []) = (Inl ErrNoRows, (d, []))"
    and create_new: "ok d \<Longrightarrow> ids d h = None \<Longrightarrow> fresh d \<Longrightarrow>
      \<exists>p d'. pr_Create R h (d, []) = (Inr p, (d', [])) \<and> ok d' \<and> ids d' = (ids d)(h \<mapsto> pl_ID p)"
    and create_used: "ok d \<Longrightarrow> ids d h \<noteq> None \<Longrightarrow> \<exists>k. pr_Create R h (d, []) = (Inl (ErrUniqueViolation k), (d, []))"
    and profile: "ok d \<Longrightarrow> ids d h = Some i \<Longrightarrow>
      \<exists>q d'. pr_GetOrCreateProfile R i (d, []) = (Inr q, (d', [])) \<and> pp_PlayerID q = i \<and> ok d' \<and> ids d' = ids d"
begin

text \<open>Others only ever add players.\<close>

definition growing :: "(nat \<Rightarrow> 'd \<Rightarrow> 'd) \<Rightarrow> bool" where
  "growing others \<longleftrightarrow> (\<forall>k d. ok d \<longrightarrow> ok (others k d) \<and> ids d \<subseteq>\<^sub>m ids (others k d))"

lemma growingD: "growing others \<Longrightarrow> ok d \<Longrightarrow> ok (others k d)"
  "growing others \<Longrightarrow> ok d \<Longrightarrow> ids d h = Some i \<Longrightarrow> ids (others k d) h = Some i"
  unfolding growing_def map_le_def by (auto simp: dom_def)

lemma with_profile_ok:
  assumes "growing others" "ok d" "ids d h = Some (pl_ID p)"
  shows "\<exists>q d'. with_profile R (others k) p (d, []) = (Inr (pl_ID p, q), (d', []))
    \<and> pp_PlayerID q = pl_ID p \<and> ok d' \<and> ids d' h = Some (pl_ID p)"
proof -
  from profile [OF growingD(1) [OF assms(1,2)] growingD(2) [OF assms]] obtain q d' where
    "pr_GetOrCreateProfile R (pl_ID p) (others k d, []) = (Inr q, (d', []))" "pp_PlayerID q = pl_ID p" "ok d'"
    "ids d' = ids (others k d)" by blast
  with growingD(2) [OF assms] show ?thesis
    by (simp add: with_profile_def meanwhile_def query_simps)
qed

lemma ensure_finds:
  assumes "growing others" "ok d" "fresh (others 1 (others 0 d))"
  shows "\<exists>pid q d'. EnsurePlayerSession (Some R) others h (d, []) = (Inr (pid, q), (d', []))
    \<and> ids d' h = Some pid \<and> pp_PlayerID q = pid \<and> ok d' \<and> (\<forall>i. ids d h = Some i \<longrightarrow> i = pid)"
proof -
  have ok: "ok (others 0 d)" "ok (others 1 (others 0 d))" "ok (others 2 (others 1 (others 0 d)))"
    by (intro growingD [OF assms(1)] assms(2))+
  show ?thesis
  proof (cases "ids (others 0 d) h")
    case (Some i)
    from get_some [OF ok(1) this] obtain p where p: "pr_GetByHandle R h (others 0 d, []) = (Inr p, (others 0 d, []))"
      "pl_ID p = i" by blast
    with with_profile_ok [OF assms(1) ok(1), of h p 1] Some growingD(2) [OF assms(1,2)] show ?thesis
      by (auto simp: EnsurePlayerSession_def meanwhile_def)
  next
    case None
    note none = get_none [OF ok(1) None]
    have old: "ids d h = None" using growingD(2) [OF assms(1,2), of h _ 0] None by (cases "ids d h") auto
    show ?thesis
    proof (cases "ids (others 1 (others 0 d)) h")
      case None
      from create_new [OF ok(2) this assms(3)] obtain p d' where
        "pr_Create R h (others 1 (others 0 d), []) = (Inr p, (d', []))" "ok d'" "ids d' h = Some (pl_ID p)"
        by fastforce
      with with_profile_ok [OF assms(1), of d' h p 2] none old show ?thesis
        by (auto simp: EnsurePlayerSession_def meanwhile_def)
    next
      case (Some i)
      from create_used [OF ok(2), of h] Some obtain k where
        used: "pr_Create R h (others 1 (others 0 d), []) = (Inl (ErrUniqueViolation k), (others 1 (others 0 d), []))" by auto
      from get_some [OF ok(3) growingD(2) [OF assms(1) ok(2) Some]] obtain p where
        p: "pr_GetByHandle R h (others 2 (others 1 (others 0 d)), []) = (Inr p, (others 2 (others 1 (others 0 d)), []))"
          "pl_ID p = i" by blast
      from with_profile_ok [OF assms(1) ok(3), of h p 3] growingD(2) [OF assms(1) ok(2) Some] p(2)
      have "\<exists>q d'. with_profile R (others 3) p (others 2 (others 1 (others 0 d)), []) = (Inr (i, q), (d', []))
        \<and> pp_PlayerID q = i \<and> ok d' \<and> ids d' h = Some i" by simp
      with none used p old show ?thesis
        by (auto simp: EnsurePlayerSession_def meanwhile_def isUniqueViolation_def query_simps)
    qed
  qed
qed

end

section \<open>The tables provide it\<close>

definition SQLPlayers :: "store_deps \<Rightarrow> time \<Rightarrow> string \<Rightarrow> ('f, 'z) database_scheme player_repository" where
  "SQLPlayers D now uuid = \<lparr>pr_GetByHandle = GetByHandle D, pr_Create = Create D now uuid,
     pr_GetOrCreateProfile = GetOrCreateProfile D now\<rparr>"

definition handle_ids :: "('f, 'z) database_scheme \<Rightarrow> string \<rightharpoonup> string" where
  "handle_ids d h = map_option pl_ID (find (\<lambda>p. pl_Handle p = h) (db_players d))"

definition accounts_ok :: "('f, 'z) database_scheme \<Rightarrow> bool" where
  "accounts_ok d \<longleftrightarrow> distinct (map pl_ID (db_players d)) \<and> distinct (map pl_Handle (db_players d))
     \<and> [] \<notin> pl_ID ` set (db_players d) \<and> distinct (map pp_PlayerID (db_profiles d))
     \<and> (\<forall>q \<in> set (db_profiles d). int4 (pp_TutorialRuns q))"

definition fresh_player :: "string \<Rightarrow> ('f, 'z) database_scheme \<Rightarrow> bool" where
  "fresh_player uuid d \<longleftrightarrow> uuid \<noteq> [] \<and> uuid \<notin> pl_ID ` set (db_players d)"

lemma handle_ids_SomeD: "handle_ids d h = Some i \<Longrightarrow> \<exists>p \<in> set (db_players d). pl_Handle p = h \<and> pl_ID p = i"
  by (auto simp: handle_ids_def dest: find_SomeD)

lemma handle_ids_None: "handle_ids d h = None \<longleftrightarrow> h \<notin> pl_Handle ` set (db_players d)"
  by (auto simp: handle_ids_def find_None_iff)

lemma find_mapped_key:
  "k \<in> f ` set xs \<Longrightarrow> (\<And>x. f (g x) = f x) \<Longrightarrow> \<exists>x. find (\<lambda>x. f x = k) (map g xs) = Some x \<and> f x = k"
  by (induction xs) auto

lemma GetOrCreateProfile_healthy:
  assumes "accounts_ok d" "pid \<in> pl_ID ` set (db_players d)" "sd_pool D"
  shows "\<exists>q d'. GetOrCreateProfile D now pid (d, []) = (Inr q, (d', [])) \<and> pp_PlayerID q = pid
    \<and> accounts_ok d' \<and> db_players d' = db_players d"
proof -
  from assms have pid: "pid \<noteq> []" by (metis accounts_ok_def)
  show ?thesis
  proof (cases "pid \<in> pp_PlayerID ` set (db_profiles d)")
    case True
    with find_mapped_key [of pid pp_PlayerID "db_profiles d" "\<lambda>x. x"] assms pid show ?thesis
      by (auto simp: GetOrCreateProfile_def with_pool_def query_simps upsert_profile_def new_profile_def
          getProfile_def row_or_none_def accounts_ok_def)
  next
    case False
    then have "find (\<lambda>q. pp_PlayerID q = pid) (db_profiles d) = None" by (auto simp: find_None_iff)
    with False assms pid show ?thesis
      by (auto simp: GetOrCreateProfile_def with_pool_def query_simps upsert_profile_def new_profile_def
          getProfile_def row_or_none_def accounts_ok_def find_append int4_def)
  qed
qed

lemma SQLPlayers_directory:
  assumes "sd_pool D"
  shows "player_directory (SQLPlayers D now uuid) handle_ids accounts_ok (fresh_player uuid)"
proof
  fix d :: "('f, 'z) database_scheme" and h i
  assume d: "accounts_ok d"
  show "handle_ids d h = Some i \<Longrightarrow>
      \<exists>p. pr_GetByHandle (SQLPlayers D now uuid) h (d, []) = (Inr p, (d, [])) \<and> pl_ID p = i"
    using assms by (auto simp: SQLPlayers_def GetByHandle_def query_simps handle_ids_def row_or_none_def)
  show "handle_ids d h = None \<Longrightarrow> pr_GetByHandle (SQLPlayers D now uuid) h (d, []) = (Inl ErrNoRows, (d, []))"
    using assms by (simp add: SQLPlayers_def GetByHandle_def query_simps handle_ids_def row_or_none_def)
  show "\<exists>p d'. pr_Create (SQLPlayers D now uuid) h (d, []) = (Inr p, (d', [])) \<and> accounts_ok d'
      \<and> handle_ids d' = (handle_ids d)(h \<mapsto> pl_ID p)" if "handle_ids d h = None" "fresh_player uuid d"
  proof -
    let ?p = "\<lparr>pl_ID = uuid, pl_Handle = h, pl_CreatedAt = now, pl_UpdatedAt = now\<rparr>"
    let ?d = "d\<lparr>db_players := db_players d @ [?p\<lparr>pl_CreatedAt := sd_tz D now, pl_UpdatedAt := sd_tz D now\<rparr>]\<rparr>"
    have new: "h \<notin> pl_Handle ` set (db_players d)" using that(1) by (simp add: handle_ids_None)
    then have none: "find (\<lambda>p. pl_Handle p = h) (db_players d) = None" by (auto simp: find_None_iff)
    have "pr_Create (SQLPlayers D now uuid) h (d, []) = (Inr ?p, (?d, []))"
      using that(2) new assms
      by (simp add: SQLPlayers_def Create_def with_pool_def Let_def query_simps insert_player_def fresh_player_def)
    moreover have "accounts_ok ?d" using d that(2) new by (auto simp: accounts_ok_def fresh_player_def)
    moreover have "handle_ids ?d = (handle_ids d)(h \<mapsto> uuid)"
      using none by (auto simp: handle_ids_def fun_eq_iff find_append split: option.split)
    ultimately show ?thesis by fastforce
  qed
  show "\<exists>k. pr_Create (SQLPlayers D now uuid) h (d, []) = (Inl (ErrUniqueViolation k), (d, []))"
    if "handle_ids d h \<noteq> None"
    using that assms
    by (auto simp: SQLPlayers_def Create_def with_pool_def Let_def query_simps insert_player_def handle_ids_None)
  show "\<exists>q d'. pr_GetOrCreateProfile (SQLPlayers D now uuid) i (d, []) = (Inr q, (d', [])) \<and> pp_PlayerID q = i
      \<and> accounts_ok d' \<and> handle_ids d' = handle_ids d" if "handle_ids d h = Some i"
  proof -
    have "i \<in> pl_ID ` set (db_players d)" using handle_ids_SomeD [OF that] by auto
    from GetOrCreateProfile_healthy [OF d this assms, of now] obtain q d' where
      "GetOrCreateProfile D now i (d, []) = (Inr q, (d', []))" "pp_PlayerID q = i" "accounts_ok d'"
      "db_players d' = db_players d" by blast
    then show ?thesis by (simp add: SQLPlayers_def handle_ids_def fun_eq_iff)
  qed
qed

interpretation sql: player_directory "SQLPlayers (NewSQLRepositories True tz) now uuid" handle_ids accounts_ok
    "fresh_player uuid" for tz :: "time \<Rightarrow> time" and now :: time and uuid :: string
  by (rule SQLPlayers_directory) (simp add: NewSQLRepositories_def)

section \<open>Properties\<close>

text \<open>
  C22: However the sessions that log in at the same time interleave with it, the lookup of a handle
  finds its player or makes one: it never fails on a working database, not even when another session
  inserts the handle between the lookup and the insertion; afterwards the handle belongs to the player
  returned, a handle that had a player keeps it, and the profile is that player's.
\<close>

theorem ensure_finds_or_makes_the_player:
  assumes "accounts_ok d" "fresh_player uuid (others 1 (others 0 d))"
    and "\<forall>k d. accounts_ok d \<longrightarrow> accounts_ok (others k d) \<and> handle_ids d \<subseteq>\<^sub>m handle_ids (others k d)"
  shows "\<exists>pid q d'. EnsurePlayerSession (Some (SQLPlayers (NewSQLRepositories True tz) now uuid)) others handle (d, [])
      = (Inr (pid, q), (d', []))
    \<and> handle_ids d' handle = Some pid \<and> pp_PlayerID q = pid \<and> accounts_ok d'
    \<and> (\<forall>i. handle_ids d handle = Some i \<longrightarrow> i = pid)"
  by (rule sql.ensure_finds) (use assms in \<open>simp_all add: sql.growing_def\<close>)

text \<open>Another session inserts the handle right after the lookup has not found it.\<close>

definition other_login :: "nat \<Rightarrow> rat option database \<Rightarrow> rat option database" where
  "other_login k d = (if k = 1 then (case insert_player micros \<lparr>pl_ID = ''p2'', pl_Handle = ''ana'',
     pl_CreatedAt = 5, pl_UpdatedAt = 5\<rparr> d of Inl e \<Rightarrow> d | Inr d \<Rightarrow> d) else d)"

lemma insert_player_grows:
  assumes "accounts_ok d" "insert_player tz p d = Inr d'" "pl_ID p \<noteq> []"
  shows "accounts_ok d' \<and> handle_ids d \<subseteq>\<^sub>m handle_ids d'"
  using assms
  by (auto simp: insert_player_def accounts_ok_def handle_ids_def map_le_def find_append split: if_splits)

lemma ensure_finds_or_makes_the_player_witness:
  "\<exists>pid q d'. EnsurePlayerSession (Some (SQLPlayers (NewSQLRepositories True micros) 7 ''p1'')) other_login ''ana'' (empty_database, [])
      = (Inr (pid, q), (d', [])) \<and> handle_ids d' ''ana'' = Some pid \<and> pp_PlayerID q = pid"
proof -
  have "accounts_ok empty_database" by (simp add: empty_database_def accounts_ok_def)
  moreover have "fresh_player ''p1'' (other_login 1 (other_login 0 empty_database))" by code_simp
  moreover have "accounts_ok (other_login k d) \<and> handle_ids d \<subseteq>\<^sub>m handle_ids (other_login k d)" if "accounts_ok d" for k d
    using that insert_player_grows [OF that, of micros "\<lparr>pl_ID = ''p2'', pl_Handle = ''ana'', pl_CreatedAt = 5, pl_UpdatedAt = 5\<rparr>"]
    by (auto simp: other_login_def split: sum.split)
  ultimately show ?thesis
    using ensure_finds_or_makes_the_player [of empty_database "''p1''" other_login micros 7 "''ana''"] by blast
qed

section \<open>A completed tutorial stays completed\<close>

definition tutorial_done :: "string \<Rightarrow> time \<Rightarrow> ('f, 'z) database_scheme \<Rightarrow> bool" where
  "tutorial_done pid t d \<longleftrightarrow> (\<exists>q \<in> set (db_profiles d). pp_PlayerID q = pid \<and> pp_TutorialCompleted q
     \<and> pp_TutorialCompletedAt q = Some t)"

lemma upsert_profile_done:
  assumes "tutorial_done pid t d" "upsert_profile p upd d = Inr d'"
    and "\<And>q. pp_TutorialCompleted q \<Longrightarrow> pp_TutorialCompletedAt q = Some t \<Longrightarrow>
      pp_PlayerID (upd q) = pp_PlayerID q \<and> pp_TutorialCompleted (upd q) \<and> pp_TutorialCompletedAt (upd q) = Some t"
  shows "tutorial_done pid t d'"
proof -
  from assms(1) obtain q where q: "q \<in> set (db_profiles d)" "pp_PlayerID q = pid" "pp_TutorialCompleted q"
    "pp_TutorialCompletedAt q = Some t" by (auto simp: tutorial_done_def)
  let ?q = "if pp_PlayerID q = pp_PlayerID p then upd q else q"
  show ?thesis
  proof (cases "pp_PlayerID p \<in> pp_PlayerID ` set (db_profiles d)")
    case True
    with assms(2) have "db_profiles d' = map (\<lambda>q. if pp_PlayerID q = pp_PlayerID p then upd q else q) (db_profiles d)"
      by (auto simp: upsert_profile_def Let_def split: if_splits)
    with q(1) have "?q \<in> set (db_profiles d')" by auto
    moreover from q assms(3) [OF q(3,4)] have "pp_PlayerID ?q = pid" "pp_TutorialCompleted ?q"
      "pp_TutorialCompletedAt ?q = Some t" by simp_all
    ultimately show ?thesis unfolding tutorial_done_def by blast
  next
    case False
    with assms(2) have "set (db_profiles d) \<subseteq> set (db_profiles d')"
      by (auto simp: upsert_profile_def split: if_splits)
    with q show ?thesis by (auto simp: tutorial_done_def)
  qed
qed

lemma upsert_profile_ok:
  assumes "accounts_ok d" "upsert_profile p upd d = Inr d'" "\<And>q. pp_PlayerID (upd q) = pp_PlayerID q"
    and "int4 (pp_TutorialRuns p)"
  shows "accounts_ok d'"
proof -
  have keys: "map pp_PlayerID (map (\<lambda>q. if pp_PlayerID q = k then upd q else q) qs) = map pp_PlayerID qs" for qs k
    using assms(3) by simp
  show ?thesis
    using assms(1,2,4)
    by (auto simp: accounts_ok_def upsert_profile_def Let_def keys image_iff simp del: map_map split: if_splits)
qed

lemma accounts_frame [simp]:
  "tutorial_done pid t (d\<lparr>db_players := ps\<rparr>) = tutorial_done pid t d"
  "tutorial_done pid t (d\<lparr>db_tutorial_runs := rs\<rparr>) = tutorial_done pid t d"
  by (simp_all add: tutorial_done_def)

datatype account_call = CallCreate time string string | CallProfile time string | CallMark time string time
  | CallRun time string tutorial_run

fun account_op :: "store_deps \<Rightarrow> account_call \<Rightarrow> (('f, 'z) database_scheme, unit) query" where
  "account_op D (CallCreate now uuid handle) = and_then (Create D now uuid handle) (\<lambda>_. give ())"
| "account_op D (CallProfile now pid) = and_then (GetOrCreateProfile D now pid) (\<lambda>_. give ())"
| "account_op D (CallMark clock pid now) = and_then (MarkTutorialCompleted D clock pid now) (\<lambda>_. give ())"
| "account_op D (CallRun clock uuid run) = and_then (CreateTutorialRun D clock uuid run) (\<lambda>_. give ())"

fun call_ok :: "account_call \<Rightarrow> bool" where
  "call_ok (CallCreate now uuid handle) \<longleftrightarrow> uuid \<noteq> []"
| "call_ok _ \<longleftrightarrow> True"

text \<open>One proof for every call: it keeps what the three statements keep.\<close>

lemma account_op_keeps:
  assumes player: "\<And>p d d'. I d \<Longrightarrow> pl_ID p \<noteq> [] \<Longrightarrow> insert_player (sd_tz D) p d = Inr d' \<Longrightarrow> I d'"
    and run: "\<And>r d d'. I d \<Longrightarrow> insert_tutorial_run r d = Inr d' \<Longrightarrow> I d'"
    and profile: "\<And>p upd d d'. I d \<Longrightarrow> upsert_profile p upd d = Inr d' \<Longrightarrow> int4 (pp_TutorialRuns p) \<Longrightarrow>
      (\<And>q. pp_PlayerID (upd q) = pp_PlayerID q \<and> (pp_TutorialCompleted q \<longrightarrow> pp_TutorialCompletedAt q \<noteq> None \<longrightarrow>
         pp_TutorialCompleted (upd q) \<and> pp_TutorialCompletedAt (upd q) = pp_TutorialCompletedAt q)) \<Longrightarrow> I d'"
    and call: "call_ok c"
  shows "keeps I (account_op D c)"
proof -
  have P: "keeps I (exec (insert_player (sd_tz D) p))" if "pl_ID p \<noteq> []" for p
    by (rule keeps_exec) (rule player [OF _ that])
  have R: "keeps I (exec (insert_tutorial_run r))" for r
    by (rule keeps_exec) (rule run)
  have U: "keeps I (exec (upsert_profile p upd))" if "int4 (pp_TutorialRuns p)"
    "\<And>q. pp_PlayerID (upd q) = pp_PlayerID q \<and> (pp_TutorialCompleted q \<longrightarrow> pp_TutorialCompletedAt q \<noteq> None \<longrightarrow>
         pp_TutorialCompleted (upd q) \<and> pp_TutorialCompletedAt (upd q) = pp_TutorialCompletedAt q)" for p upd
    by (rule keeps_exec) (rule profile [OF _ _ that])
  show ?thesis
  proof (cases c)
    case (CallCreate now uuid handle)
    with call show ?thesis unfolding CallCreate account_op.simps Create_def Let_def
      by (intro wf_intros P) simp
  next
    case (CallProfile now p)
    show ?thesis unfolding CallProfile account_op.simps GetOrCreateProfile_def getProfile_def
      by (intro wf_intros U) (auto simp: new_profile_def int4_def)
  next
    case (CallMark clock p now)
    show ?thesis unfolding CallMark account_op.simps MarkTutorialCompleted_def getProfile_def Let_def
      by (intro wf_intros U) (auto simp: new_profile_def int4_def)
  next
    case (CallRun clock uuid r)
    show ?thesis unfolding CallRun account_op.simps CreateTutorialRun_def Let_def
      by (intro wf_intros R U) (auto simp: new_profile_def int4_def)
  qed
qed

lemma account_op_keeps_done: "call_ok c \<Longrightarrow> keeps (tutorial_done pid t) (account_op D c)"
proof (rule account_op_keeps)
  fix p :: player_profile and upd d d'
  assume d: "tutorial_done pid t d" "upsert_profile p upd d = Inr d'"
    and upd: "\<And>q. pp_PlayerID (upd q) = pp_PlayerID q \<and> (pp_TutorialCompleted q \<longrightarrow> pp_TutorialCompletedAt q \<noteq> None \<longrightarrow>
       pp_TutorialCompleted (upd q) \<and> pp_TutorialCompletedAt (upd q) = pp_TutorialCompletedAt q)"
  show "tutorial_done pid t d'" by (rule upsert_profile_done [OF d]) (use upd in auto)
qed (auto simp: insert_player_def insert_tutorial_run_def split: if_splits)

lemma account_op_keeps_ok: "call_ok c \<Longrightarrow> keeps accounts_ok (account_op D c)"
proof (rule account_op_keeps)
  fix p d d'
  assume "accounts_ok d" "pl_ID p \<noteq> []" "insert_player (sd_tz D) p d = Inr d'"
  then show "accounts_ok d'" using insert_player_grows by blast
next
  fix p :: player_profile and upd d d'
  assume d: "accounts_ok d" "upsert_profile p upd d = Inr d'" "int4 (pp_TutorialRuns p)"
    and upd: "\<And>q. pp_PlayerID (upd q) = pp_PlayerID q \<and> (pp_TutorialCompleted q \<longrightarrow> pp_TutorialCompletedAt q \<noteq> None \<longrightarrow>
       pp_TutorialCompleted (upd q) \<and> pp_TutorialCompletedAt (upd q) = pp_TutorialCompletedAt q)"
  show "accounts_ok d'" by (rule upsert_profile_ok [OF d(1,2) _ d(3)]) (use upd in auto)
qed (auto simp: insert_tutorial_run_def accounts_ok_def split: if_splits)

text \<open>Calls one after the other, each with what the connection makes of it.\<close>

fun account_calls :: "store_deps \<Rightarrow> account_call list \<Rightarrow> ('f, 'z) database_scheme \<times> reply list
    \<Rightarrow> ('f, 'z) database_scheme \<times> reply list" where
  "account_calls D [] w = w"
| "account_calls D (c # cs) w = account_calls D cs (snd (account_op D c w))"

lemma account_calls_keep:
  "(\<And>c. c \<in> set cs \<Longrightarrow> keeps I (account_op D c)) \<Longrightarrow> I (fst w) \<Longrightarrow> I (fst (account_calls D cs w))"
  by (induction D cs w rule: account_calls.induct) (auto simp: keeps_def)

lemma find_unique:
  "distinct (map f xs) \<Longrightarrow> x \<in> set xs \<Longrightarrow> find (\<lambda>y. f y = f x) xs = Some x"
  by (induction xs) (auto simp: rev_image_eqI)

lemma upsert_profile_find:
  assumes "accounts_ok d" "upsert_profile p upd d = Inr d'" "\<And>q. pp_PlayerID (upd q) = pp_PlayerID q"
    and "int4 (pp_TutorialRuns p)" "pp_PlayerID p = pid"
  shows "\<exists>q. find (\<lambda>r. pp_PlayerID r = pid) (db_profiles d') = Some q \<and> q \<in> set (db_profiles d')
    \<and> (q = p \<or> (\<exists>r. q = upd r))"
proof -
  have distinct: "distinct (map pp_PlayerID (db_profiles d'))"
    using upsert_profile_ok [OF assms(1-4)] by (simp add: accounts_ok_def)
  have "\<exists>q \<in> set (db_profiles d'). pp_PlayerID q = pid \<and> (q = p \<or> (\<exists>r. q = upd r))"
  proof (cases "pp_PlayerID p \<in> pp_PlayerID ` set (db_profiles d)")
    case True
    then obtain r where r: "r \<in> set (db_profiles d)" "pp_PlayerID r = pp_PlayerID p" by auto
    from True assms(2) have "db_profiles d' = map (\<lambda>q. if pp_PlayerID q = pp_PlayerID p then upd q else q) (db_profiles d)"
      by (auto simp: upsert_profile_def Let_def split: if_splits)
    with r have "upd r \<in> set (db_profiles d')" by force
    moreover have "pp_PlayerID (upd r) = pid" using r(2) assms(3,5) by simp
    ultimately show ?thesis by blast
  next
    case False
    with assms(2) have "p \<in> set (db_profiles d')" by (auto simp: upsert_profile_def split: if_splits)
    with assms(5) show ?thesis by blast
  qed
  with find_unique [OF distinct] show ?thesis by fastforce
qed

lemma MarkTutorialCompleted_result:
  assumes "accounts_ok d" "MarkTutorialCompleted D clock pid now (d, rs) = (Inr q, w)"
  shows "sd_pool D \<and> pid \<noteq> [] \<and> accounts_ok (fst w) \<and> pp_TutorialCompleted q
    \<and> (\<exists>t. pp_TutorialCompletedAt q = Some t \<and> tutorial_done pid t (fst w))"
proof -
  define stamp where "stamp = sd_tz D (if IsZero now then clock else now)"
  let ?upd = "\<lambda>q. q\<lparr>pp_TutorialCompleted := True, pp_TutorialCompletedAt := (case pp_TutorialCompletedAt q of
      None \<Rightarrow> Some stamp | Some t \<Rightarrow> Some t), pp_UpdatedAt := stamp\<rparr>" and ?p = "new_profile pid True (Some stamp) 0 stamp"
  from with_pool_Inr [OF assms(2) [unfolded MarkTutorialCompleted_def]] have pid: "sd_pool D" "pid \<noteq> []"
    and run: "and_then (exec (upsert_profile ?p ?upd)) (\<lambda>_. getProfile pid) (d, rs) = (Inr q, w)"
    unfolding stamp_def by (auto simp: fail_def Let_def split: if_splits)
  from and_then_Inr [OF run] obtain a w1 where w1: "exec (upsert_profile ?p ?upd) (d, rs) = (Inr a, w1)"
    "getProfile pid w1 = (Inr q, w)" by blast
  note ins = exec_Inr [OF w1(1), unfolded fst_conv]
  from select_row_Inr [OF w1(2) [unfolded getProfile_def]]
  have found: "find (\<lambda>p. pp_PlayerID p = pid) (db_profiles (fst w1)) = Some q" "fst w = fst w1"
    by (auto simp: row_or_none_def split: option.splits)
  have p: "pp_PlayerID ?p = pid" "int4 (pp_TutorialRuns ?p)" by (simp_all add: new_profile_def int4_def)
  from upsert_profile_find [OF assms(1) ins _ p(2,1)] found(1)
  have q: "q \<in> set (db_profiles (fst w1))" "q = ?p \<or> (\<exists>r. q = ?upd r)" by simp_all
  from q(2) have "pp_TutorialCompleted q \<and> (\<exists>t. pp_TutorialCompletedAt q = Some t)"
    by (elim disjE exE) (simp_all add: new_profile_def split: option.split)
  moreover have "pp_PlayerID q = pid" using find_SomeD [OF found(1)] by simp
  moreover have "accounts_ok (fst w1)" by (rule upsert_profile_ok [OF assms(1) ins _ p(2)]) simp
  ultimately show ?thesis
    using pid found(2) q(1) unfolding tutorial_done_def by metis
qed

text \<open>
  C30: A tutorial once marked as completed stays completed, with the time of its first completion:
  whatever calls on the accounts follow, by whatever sessions, and whatever the connection does to
  them, the profile read afterwards says so. So a player goes through the first-time tutorial once.
\<close>

theorem completed_tutorial_stays_completed:
  assumes "accounts_ok d" "MarkTutorialCompleted D clock pid now (d, rs) = (Inr q, w)" "list_all call_ok calls"
    and "account_calls D calls w = (d', rs')"
  shows "\<exists>t. pp_TutorialCompletedAt q = Some t \<and> pp_TutorialCompleted q
    \<and> (\<exists>q' d''. GetOrCreateProfile D now' pid (d', []) = (Inr q', (d'', []))
        \<and> pp_TutorialCompleted q' \<and> pp_TutorialCompletedAt q' = Some t)"
proof -
  from MarkTutorialCompleted_result [OF assms(1,2)] obtain t where q: "sd_pool D" "pid \<noteq> []" "accounts_ok (fst w)"
    "pp_TutorialCompleted q" "pp_TutorialCompletedAt q = Some t" "tutorial_done pid t (fst w)" by blast
  have calls: "\<And>c. c \<in> set calls \<Longrightarrow> call_ok c" using assms(3) by (simp add: list_all_iff)
  have "accounts_ok d'" "tutorial_done pid t d'"
    using account_calls_keep [OF account_op_keeps_ok [OF calls] q(3), of calls D] assms(4)
      account_calls_keep [OF account_op_keeps_done [OF calls] q(6), of calls D] by simp_all
  then obtain q' where q': "q' \<in> set (db_profiles d')" "pp_PlayerID q' = pid" "pp_TutorialCompleted q'"
    "pp_TutorialCompletedAt q' = Some t" and ok: "distinct (map pp_PlayerID (db_profiles d'))"
    "\<forall>q \<in> set (db_profiles d'). int4 (pp_TutorialRuns q)"
    by (auto simp: tutorial_done_def accounts_ok_def)
  from find_unique [OF ok(1) q'(1)] q' have find: "find (\<lambda>p. pp_PlayerID p = pid) (db_profiles d') = Some q'" by simp
  have "pid \<in> pp_PlayerID ` set (db_profiles d')" using q'(1,2) by auto
  then have "GetOrCreateProfile D now' pid (d', []) = (Inr q', (d', []))"
    using q(1,2) ok(2) find
    by (simp add: GetOrCreateProfile_def with_pool_def query_simps upsert_profile_def new_profile_def getProfile_def
        row_or_none_def)
  with q(4,5) q'(3,4) show ?thesis by blast
qed

lemma completed_tutorial_stays_completed_witness:
  "\<exists>q' d''. GetOrCreateProfile (NewSQLRepositories True micros) 9000 ''p1'' (fst (account_calls (NewSQLRepositories True micros)
      [CallMark 0 ''p1'' 8000, CallProfile 8500 ''p1''] (snd (MarkTutorialCompleted (NewSQLRepositories True micros) 0 ''p1'' 7000
        ((empty_database :: rat option database)\<lparr>db_players := [\<lparr>pl_ID = ''p1'', pl_Handle = ''ana'', pl_CreatedAt = 5, pl_UpdatedAt = 5\<rparr>]\<rparr>,
         [Works, Works, LostReply])))), []) = (Inr q', (d'', [])) \<and> pp_TutorialCompletedAt q' = Some 7000"
proof -
  let ?D = "NewSQLRepositories True micros" and ?d = "(empty_database :: rat option database)\<lparr>db_players :=
    [\<lparr>pl_ID = ''p1'', pl_Handle = ''ana'', pl_CreatedAt = 5, pl_UpdatedAt = 5\<rparr>]\<rparr>" and ?rs = "[Works, Works, LostReply]"
  have d: "accounts_ok ?d" by (simp add: empty_database_def accounts_ok_def)
  let ?w = "snd (MarkTutorialCompleted ?D 0 ''p1'' 7000 (?d, ?rs))" and ?cs = "[CallMark 0 ''p1'' 8000, CallProfile 8500 ''p1'']"
  have r: "MarkTutorialCompleted ?D 0 ''p1'' 7000 (?d, ?rs) = (Inr (new_profile ''p1'' True (Some 7000) 0 7000), ?w)"
    by code_simp
  show ?thesis
    using completed_tutorial_stays_completed [OF d r, of ?cs _ _ 9000]
    by (cases "account_calls ?D ?cs ?w") (auto simp: new_profile_def)
qed

end
