(* ===== verification/GoText.thy ===== *)
theory GoText
  imports GoStrings
begin

text \<open>
  What the session front end, the configuration and the migrations need of Go's text functions:
  a string as the list of its runes (\<open>runes\<close>, an invalid byte being a rune of its own), with
  \<^verbatim>\<open>strings.TrimSpace\<close>, \<^verbatim>\<open>strings.Fields\<close> and \<^verbatim>\<open>strings.Map\<close> on it, \<^verbatim>\<open>strings.Split\<close> and
  \<^verbatim>\<open>SplitN\<close> at a single byte, and \<^verbatim>\<open>strconv.ParseInt\<close> in base 10 for 64 bits.
\<close>

section \<open>Runes\<close>

definition rune_len :: "string \<Rightarrow> nat" where
  "rune_len s = rune_size (map of_char s)"

function runes :: "string \<Rightarrow> string list" where
  "runes s = (if s = [] then [] else take (rune_len s) s # runes (drop (rune_len s) s))"
  by pat_completeness auto
termination
  by (relation "measure length") (auto simp: rune_len_def rune_size_pos)

declare runes.simps [simp del]

lemma runes_Nil [simp]: "runes [] = []"
  by (simp add: runes.simps)

lemma concat_runes: "concat (runes s) = s"
proof (induction s rule: runes.induct)
  case (1 s)
  then show ?case by (subst runes.simps) simp
qed

text \<open>A rune that stays one whatever follows it, which every valid one does.\<close>

definition whole_rune :: "string \<Rightarrow> bool" where
  "whole_rune r \<longleftrightarrow> r \<noteq> [] \<and> (\<forall>s. rune_len (r @ s) = length r)"

lemma runes_concat: "list_all whole_rune rs \<Longrightarrow> runes (concat rs) = rs"
proof (induction rs)
  case (Cons r rs)
  then have r: "r \<noteq> []" "rune_len (r @ concat rs) = length r" by (simp_all add: whole_rune_def)
  then have "runes (r @ concat rs) = r # runes (concat rs)"
    by (subst runes.simps) simp
  with Cons show ?case by simp
qed simp

lemma rune_size_prefix:
  "1 < rune_size bs \<Longrightarrow> rune_size (take (rune_size bs) bs @ cs) = rune_size bs \<and> rune_size bs \<le> length bs"
  by (cases bs rule: rune_size.cases; cases cs; cases "tl cs")
    (auto split: if_splits simp: numeral_2_eq_2 numeral_3_eq_3 numeral_eq_Suc)

lemma rune_size_bytes:
  "1 < rune_size bs \<Longrightarrow> b \<in> set (take (rune_size bs) bs) \<Longrightarrow> 128 \<le> b"
  by (cases bs rule: rune_size.cases) (auto split: if_splits simp: cont_def numeral_eq_Suc)

lemma rune_size_ascii: "b < 128 \<Longrightarrow> rune_size (b # bs) = 1"
  by (cases "b # bs" rule: rune_size.cases) auto

lemma whole_rune_ascii: "(of_char c :: nat) < 128 \<Longrightarrow> whole_rune [c]"
  by (simp add: whole_rune_def rune_len_def rune_size_ascii)

lemma whole_rune_long:
  assumes "1 < rune_len s"
  shows "whole_rune (take (rune_len s) s)"
proof -
  have "s \<noteq> []" using assms by (auto simp: rune_len_def)
  with assms rune_size_prefix [of "map of_char s"] show ?thesis
    by (auto simp: whole_rune_def rune_len_def take_map [symmetric])
qed

text \<open>What a rune of a string can be: a valid one, or a byte that is not ASCII.\<close>

definition valid_rune :: "string \<Rightarrow> bool" where
  "valid_rune r \<longleftrightarrow> whole_rune r \<and> (1 < length r \<and> (\<forall>c \<in> set r. 128 \<le> (of_char c :: nat))
     \<or> (\<exists>c. r = [c] \<and> (of_char c :: nat) < 128))"

lemma runes_mem:
  "r \<in> set (runes s) \<Longrightarrow> valid_rune r \<or> (\<exists>c. r = [c] \<and> 128 \<le> (of_char c :: nat))"
proof (induction s rule: runes.induct)
  case (1 s)
  show ?case
  proof (cases "s = []")
    case False
    with "1.prems" consider "r = take (rune_len s) s" | "r \<in> set (runes (drop (rune_len s) s))"
      by (subst (asm) runes.simps) auto
    then show ?thesis
    proof cases
      case 1
      have pos: "0 < rune_len s" by (simp add: rune_len_def rune_size_pos)
      show ?thesis
      proof (cases "1 < rune_len s")
        case True
        have "of_char ` set (take (rune_len s) s) = set (take (rune_len s) (map of_char s :: nat list))"
          by (simp only: set_map [symmetric] take_map)
        then have "\<forall>c \<in> set (take (rune_len s) s). 128 \<le> (of_char c :: nat)"
          using rune_size_bytes [of "map of_char s"] True unfolding rune_len_def by blast
        with whole_rune_long [OF True] 1 True rune_size_prefix [of "map of_char s" "[]"] show ?thesis
          by (auto simp: rune_len_def valid_rune_def)
      next
        case F: False
        with pos have "rune_len s = 1" by simp
        with 1 False obtain c where "r = [c]" by (cases s) auto
        then show ?thesis
          using whole_rune_ascii [of c] by (cases "(of_char c :: nat) < 128") (auto simp: valid_rune_def)
      qed
    next
      case 2
      with False "1.IH" show ?thesis by blast
    qed
  qed (use "1.prems" in simp)
qed

section \<open>White space\<close>

text \<open>\<^verbatim>\<open>unicode.IsSpace\<close>.\<close>

definition rune_space :: "string \<Rightarrow> bool" where
  "rune_space r = (case map of_char r of
     [b] \<Rightarrow> b = (32::nat) \<or> (9 \<le> b \<and> b \<le> 13)
   | [a, b] \<Rightarrow> a = 194 \<and> (b = 133 \<or> b = 160)
   | [a, b, c] \<Rightarrow> (a = 225 \<and> b = 154 \<and> c = 128)
       \<or> (a = 226 \<and> b = 128 \<and> (c \<le> 138 \<or> c = 168 \<or> c = 169 \<or> c = 175))
       \<or> (a = 226 \<and> b = 129 \<and> c = 159) \<or> (a = 227 \<and> b = 128 \<and> c = 128)
   | _ \<Rightarrow> False)"

definition trim_runes :: "string list \<Rightarrow> string list" where
  "trim_runes rs = rev (dropWhile rune_space (rev (dropWhile rune_space rs)))"

definition TrimText :: "string \<Rightarrow> string" where
  "TrimText s = concat (trim_runes (runes s))"

text \<open>\<^verbatim>\<open>strings.Fields\<close>: the maximal runs without white space.\<close>

fun split_fields :: "string list \<Rightarrow> string \<Rightarrow> string list" where
  "split_fields [] cur = (if cur = [] then [] else [cur])"
| "split_fields (r # rs) cur =
     (if rune_space r then (if cur = [] then [] else [cur]) @ split_fields rs [] else split_fields rs (cur @ r))"

definition Fields :: "string \<Rightarrow> string list" where
  "Fields s = split_fields (runes s) []"

text \<open>\<^verbatim>\<open>strings.ToLower\<close>: of the runes that are not ASCII, only U+0130 and U+212A have ASCII
  letters for their lower case. The others are left as they are, so that the result is the right
  one up to letters outside ASCII, and always the right one to compare with an ASCII constant.\<close>

definition rune_lower :: "string \<Rightarrow> string" where
  "rune_lower r = (case map of_char r of
     [b] \<Rightarrow> ToLower r
   | [a, b] \<Rightarrow> if a = (196::nat) \<and> b = 176 then ''i'' else r
   | [a, b, c] \<Rightarrow> if a = 226 \<and> b = 132 \<and> c = 170 then ''k'' else r
   | _ \<Rightarrow> r)"

definition LowerText :: "string \<Rightarrow> string" where
  "LowerText s = concat (map rune_lower (runes s))"

lemma trim_runes_idem: "trim_runes (trim_runes rs) = trim_runes rs"
proof -
  define ts where "ts = dropWhile rune_space rs"
  define us where "us = dropWhile rune_space (rev ts)"
  have hd_us: "us \<noteq> [] \<Longrightarrow> \<not> rune_space (hd us)"
    unfolding us_def by (rule hd_dropWhile)
  have last_us: "\<not> rune_space (last us)" if "us \<noteq> []"
  proof -
    obtain v where v: "rev ts = v @ us" unfolding us_def by (metis takeWhile_dropWhile_id)
    with that have "ts \<noteq> []" "last us = hd ts" by (auto simp: last_rev [symmetric] last_append)
    then show ?thesis unfolding ts_def by (simp add: hd_dropWhile)
  qed
  have "dropWhile rune_space (rev us) = rev us" "dropWhile rune_space us = us"
    using hd_us last_us by (cases "us = []"; simp add: dropWhile_eq_self_iff hd_rev)+
  then show ?thesis by (simp add: trim_runes_def us_def [symmetric] ts_def [symmetric])
qed

lemma set_trim_runes: "set (trim_runes rs) \<subseteq> set rs"
  by (auto simp: trim_runes_def dest!: set_dropWhileD)

lemma TrimText_runes:
  assumes "list_all whole_rune rs"
  shows "runes (TrimText (concat rs)) = trim_runes rs" "TrimText (TrimText (concat rs)) = TrimText (concat rs)"
proof -
  have "list_all whole_rune (trim_runes rs)" using assms set_trim_runes [of rs] by (auto simp: list_all_iff)
  from runes_concat [OF this] runes_concat [OF assms]
  show t: "runes (TrimText (concat rs)) = trim_runes rs" by (simp add: TrimText_def)
  show "TrimText (TrimText (concat rs)) = TrimText (concat rs)"
    by (subst TrimText_def) (simp add: t trim_runes_idem, simp add: TrimText_def runes_concat [OF assms])
qed

section \<open>Splitting\<close>

text \<open>\<^verbatim>\<open>strings.Split(s, sep)\<close> and the two parts of \<^verbatim>\<open>strings.SplitN(s, sep, 2)\<close>, for a separator of one byte.\<close>

fun split_at :: "char \<Rightarrow> string \<Rightarrow> string list" where
  "split_at sep [] = [[]]"
| "split_at sep (c # s) = (if c = sep then [] # split_at sep s
     else case split_at sep s of [] \<Rightarrow> [[c]] | p # ps \<Rightarrow> (c # p) # ps)"

definition split_first :: "char \<Rightarrow> string \<Rightarrow> string \<times> string option" where
  "split_first sep s = (takeWhile (\<lambda>c. c \<noteq> sep) s,
     case dropWhile (\<lambda>c. c \<noteq> sep) s of [] \<Rightarrow> None | _ # rest \<Rightarrow> Some rest)"

fun join_with :: "string \<Rightarrow> string list \<Rightarrow> string" where
  "join_with sep [] = []"
| "join_with sep [s] = s"
| "join_with sep (s # ss) = s @ sep @ join_with sep ss"

lemma split_at_plain: "sep \<notin> set s \<Longrightarrow> split_at sep s = [s]"
  by (induction s) auto

lemma split_at_append: "sep \<notin> set s \<Longrightarrow> split_at sep (s @ sep # t) = s # split_at sep t"
  by (induction s) auto

lemma split_at_join:
  "ss \<noteq> [] \<Longrightarrow> list_all (\<lambda>s. sep \<notin> set s) ss \<Longrightarrow> split_at sep (join_with [sep] ss) = ss"
  by (induction "[sep]" ss rule: join_with.induct) (simp_all add: split_at_plain split_at_append)

section \<open>Numbers\<close>

text \<open>
  \<^verbatim>\<open>strconv.ParseInt(s, 10, 64)\<close>, which \<^verbatim>\<open>Atoi\<close> agrees with: an optional sign and decimal digits,
  without underscores. \<open>None\<close> is its error, for bad syntax and for a number outside 64 bits.
\<close>

definition is_digit :: "char \<Rightarrow> bool" where
  "is_digit c \<longleftrightarrow> CHR ''0'' \<le> c \<and> c \<le> CHR ''9''"

definition digits_value :: "string \<Rightarrow> int" where
  "digits_value s = foldl (\<lambda>v c. 10 * v + (of_char c - 48)) 0 s"

definition ParseInt :: "string \<Rightarrow> int option" where
  "ParseInt s = (let (neg, ds) = (case s of [] \<Rightarrow> (False, [])
       | c # cs \<Rightarrow> if c = CHR ''-'' then (True, cs) else if c = CHR ''+'' then (False, cs) else (False, s));
     v = (if neg then - digits_value ds else digits_value ds)
   in if ds = [] \<or> \<not> list_all is_digit ds \<or> \<not> int64_ok v then None else Some v)"

end
