(* ===== verification/SessionText.thy ===== *)
theory SessionText
  imports GoText TurnInputs
begin

text \<open>
  The text a player types, \<^verbatim>\<open>cmd/server/ssh_server.go\<close>: the split function \<open>splitCRLF\<close> and the
  \<^verbatim>\<open>bufio.Scanner\<close> that drives it over the reads of the connection (\<open>scan_token\<close>), the cleaning of a
  line (\<open>sanitizeInputLine\<close>), the menus and the parser of actions.

  A reader is the list of what its reads return; how the bytes of a connection are cut into reads is
  up to the network, and \<open>typed_lines\<close> is what a session makes of them however they are cut. The
  scanner gives up when a line fills its buffer of 65536 bytes. (That a hundred reads in a row return
  nothing, its other error, is left out.)
\<close>

section \<open>Lines\<close>

definition CR :: char where "CR = CHR 0x0D"

definition LF :: char where "LF = CHR 0x0A"

definition line_break :: "char \<Rightarrow> bool" where
  "line_break c \<longleftrightarrow> c = LF \<or> c = CR"

text \<open>How far to advance, and the token.\<close>

definition splitCRLF :: "string \<Rightarrow> bool \<Rightarrow> nat \<times> string option" where
  "splitCRLF data atEOF =
     (if atEOF \<and> data = [] then (0, None)
      else let token = takeWhile (\<lambda>c. \<not> line_break c) data in
        case drop (length token) data of
          c # rest \<Rightarrow>
            (if c = CR \<and> rest \<noteq> [] \<and> hd rest = LF then length token + 2 else length token + 1, Some token)
        | [] \<Rightarrow> if atEOF then (length data, Some data) else (0, None))"

definition MaxScanTokenSize :: nat where "MaxScanTokenSize = 65536"

text \<open>\<^verbatim>\<open>Scan\<close>: the token, what is left of the buffer, the reads to come, and whether it gave up.\<close>

fun scan_token :: "string \<Rightarrow> string list \<Rightarrow> string option \<times> string \<times> string list \<times> bool" where
  "scan_token buf [] = (case splitCRLF buf True of (n, token) \<Rightarrow> (token, drop n buf, [], False))"
| "scan_token buf (r # reads) =
     (case (if buf = [] then (0, None) else splitCRLF buf False) of
        (n, Some token) \<Rightarrow> (Some token, drop n buf, r # reads, False)
      | (_, None) \<Rightarrow> if length buf \<ge> MaxScanTokenSize then (None, buf, r # reads, True)
          else scan_token (buf @ r) reads)"

lemma splitCRLF_Some:
  assumes "splitCRLF data atEOF = (n, Some token)"
  shows "list_all (\<lambda>c. \<not> line_break c) token"
    and "atEOF \<and> token = data \<and> n = length data
      \<or> (\<exists>c rest rest'. line_break c \<and> data = token @ c # rest \<and> drop n data = rest' \<and> 0 < n \<and> n \<le> length data
          \<and> (rest' = rest \<or> rest = LF # rest'))"
proof -
  let ?t = "takeWhile (\<lambda>c. \<not> line_break c) data"
  have t: "data = ?t @ drop (length ?t) data"
    by (simp add: dropWhile_eq_drop [symmetric])
  have tok: "token = data \<and> n = length data \<and> atEOF \<and> drop (length ?t) data = [] \<or> token = ?t"
    using assms by (auto simp: splitCRLF_def Let_def split: if_splits list.splits)
  then have "token = ?t" using t by auto
  then show "list_all (\<lambda>c. \<not> line_break c) token" by (auto simp: list_all_iff dest: set_takeWhileD)
  show "atEOF \<and> token = data \<and> n = length data
      \<or> (\<exists>c rest rest'. line_break c \<and> data = token @ c # rest \<and> drop n data = rest' \<and> 0 < n \<and> n \<le> length data
          \<and> (rest' = rest \<or> rest = LF # rest'))"
  proof (cases "drop (length ?t) data")
    case Nil
    with assms show ?thesis by (auto simp: splitCRLF_def Let_def split: if_splits)
  next
    case (Cons c rest)
    then have "dropWhile (\<lambda>c. \<not> line_break c) data = c # rest" by (simp only: dropWhile_eq_drop)
    then have c: "line_break c" by (auto dest: dropWhile_eq_Cons_conv [THEN iffD1])
    have data: "data = ?t @ c # rest" using t Cons by simp
    have n: "n = length ?t + (if c = CR \<and> rest \<noteq> [] \<and> hd rest = LF then 2 else 1)"
      using assms Cons by (auto simp: splitCRLF_def Let_def split: if_splits)
    have len: "length data = length ?t + Suc (length rest)" by (subst data) simp
    have "drop n data = drop (n - length ?t) (c # rest)" by (subst data) (simp add: n)
    then have "drop n data = rest \<or> rest = LF # drop n data" using n by (cases rest) auto
    moreover have "n \<le> length data" using n len by (cases rest) auto
    moreover have "0 < n" using n by simp
    ultimately show ?thesis using c data \<open>token = ?t\<close> by blast
  qed
qed

lemma splitCRLF_None:
  assumes "splitCRLF data atEOF = (n, None)"
  shows "n = 0 \<and> list_all (\<lambda>c. \<not> line_break c) data \<and> (atEOF \<longrightarrow> data = [])"
proof -
  have "dropWhile (\<lambda>c. \<not> line_break c) data = []" if "data \<noteq> [] \<or> \<not> atEOF"
    using assms that by (auto simp: splitCRLF_def Let_def dropWhile_eq_drop simp del: drop_eq_Nil split: list.splits if_splits)
  with assms show ?thesis by (auto simp: splitCRLF_def Let_def list_all_iff split: if_splits list.splits)
qed

lemma splitCRLF_advance:
  assumes "splitCRLF data atEOF = (n, Some token)" "data \<noteq> []"
  shows "length (drop n data) < length data"
  using splitCRLF_Some(2) [OF assms(1)] assms(2) by auto

lemma scan_token_shrinks:
  assumes "scan_token buf reads = (Some token, buf', reads', e)"
  shows "length buf' + length (concat reads') < length buf + length (concat reads)"
  using assms
proof (induction buf reads rule: scan_token.induct)
  case (1 buf)
  then have "buf \<noteq> []" by (auto simp: splitCRLF_def)
  moreover obtain n where "splitCRLF buf True = (n, Some token)" "buf' = drop n buf" "reads' = []"
    using 1 by (cases "splitCRLF buf True") auto
  ultimately show ?case using splitCRLF_advance by simp
next
  case (2 buf r reads)
  obtain n t where s: "(if buf = [] then (0, None) else splitCRLF buf False) = (n, t)" by force
  show ?case
  proof (cases t)
    case None
    have "\<not> MaxScanTokenSize \<le> length buf" "scan_token (buf @ r) reads = (Some token, buf', reads', e)"
      using "2.prems" s None by (simp_all split: if_splits)
    with "2.IH" [OF s [symmetric] None] show ?thesis by simp
  next
    case (Some tok)
    with s have "buf \<noteq> []" "splitCRLF buf False = (n, Some tok)" by (auto split: if_splits)
    with splitCRLF_advance [OF this(2,1)] "2.prems" s Some show ?thesis by (auto simp del: length_drop)
  qed
qed

text \<open>All the tokens of a connection, and whether the scanner gave up.\<close>

function scan_all :: "string \<Rightarrow> string list \<Rightarrow> string list \<times> bool" where
  "scan_all buf reads = (case scan_token buf reads of
     (None, _, _, e) \<Rightarrow> ([], e)
   | (Some token, buf', reads', _) \<Rightarrow> (case scan_all buf' reads' of (tokens, e) \<Rightarrow> (token # tokens, e)))"
  by pat_completeness auto
termination
  by (relation "measure (\<lambda>(buf, reads). length buf + length (concat reads))")
    (auto dest: scan_token_shrinks [OF sym])

declare scan_all.simps [simp del]

section \<open>Cleaning a line\<close>

text \<open>
  What follows a byte ESC in a match of the pattern for control sequences, \<^verbatim>\<open>[\<close>, bytes from \<^verbatim>\<open>0\<close> to
  \<^verbatim>\<open>?\<close>, bytes from the space to the slash, one byte from \<^verbatim>\<open>@\<close> to the tilde: the rest after the match.
\<close>

definition csi_rest :: "string \<Rightarrow> string option" where
  "csi_rest s = (case s of
     [] \<Rightarrow> None
   | c # t \<Rightarrow> if c \<noteq> CHR ''['' then None else
       (case dropWhile (\<lambda>c. CHR '' '' \<le> c \<and> c \<le> CHR ''/'') (dropWhile (\<lambda>c. CHR ''0'' \<le> c \<and> c \<le> CHR ''?'') t) of
          [] \<Rightarrow> None
        | f # rest \<Rightarrow> if CHR ''@'' \<le> f \<and> f \<le> CHR ''~'' then Some rest else None))"

lemma csi_rest_shorter: "csi_rest s = Some rest \<Longrightarrow> length rest < length s"
proof -
  assume a: "csi_rest s = Some rest"
  then obtain t f where s: "s = CHR ''['' # t"
    and u: "dropWhile (\<lambda>c. CHR '' '' \<le> c \<and> c \<le> CHR ''/'') (dropWhile (\<lambda>c. CHR ''0'' \<le> c \<and> c \<le> CHR ''?'') t) = f # rest"
    by (auto simp: csi_rest_def split: list.splits if_splits)
  from arg_cong [OF u, of length] have "Suc (length rest) \<le> length t"
    by (metis length_Cons length_dropWhile_le order_trans)
  with s show ?thesis by simp
qed

function strip_csi :: "string \<Rightarrow> string" where
  "strip_csi [] = []"
| "strip_csi (c # s) = (if c = CHR 0x1B
     then (case csi_rest s of Some rest \<Rightarrow> strip_csi rest | None \<Rightarrow> c # strip_csi s) else c # strip_csi s)"
  by pat_completeness auto
termination
  by (relation "measure length") (auto dest: csi_rest_shorter)

text \<open>The function given to \<^verbatim>\<open>strings.Map\<close>, which also turns an invalid byte into U+FFFD.\<close>

definition clean_rune :: "string \<Rightarrow> string" where
  "clean_rune r = (case r of
     [c] \<Rightarrow> if c = CHR 0x09 then '' ''
       else if (of_char c :: nat) < 32 \<or> (of_char c :: nat) = 127 then []
       else if (of_char c :: nat) < 128 then r else [CHR 0xEF, CHR 0xBF, CHR 0xBD]
   | _ \<Rightarrow> r)"

definition sanitizeInputLine :: "string \<Rightarrow> string" where
  "sanitizeInputLine line = TrimText (concat (map clean_rune (runes (strip_csi line))))"

definition canonicalTutorialCommand :: "string \<Rightarrow> string" where
  "canonicalTutorialCommand line = (let cleaned = LowerText (sanitizeInputLine line) in
     if cleaned = [] then [] else join_with '' '' (Fields cleaned))"

section \<open>Actions\<close>

datatype parse_error = ErrActionUsage | ErrInvalidAction string | ErrInvalidZone string

definition parseAction :: "string \<Rightarrow> parse_error + action" where
  "parseAction v =
     (if v = ''strike'' then Inr ActionStrike
      else if v = ''grapple'' then Inr ActionGrapple
      else if v = ''block'' then Inr ActionBlock
      else if v = ''dodge'' then Inr ActionDodge
      else if v = ''counter'' then Inr ActionCounter
      else if v = ''feint'' then Inr ActionFeint
      else if v = ''break'' then Inr ActionBreak
      else Inl (ErrInvalidAction v))"

definition parseZone :: "string \<Rightarrow> parse_error + zone" where
  "parseZone v =
     (if v = ''head'' then Inr ZoneHead
      else if v = ''torso'' then Inr ZoneTorso
      else if v = ''legs'' then Inr ZoneLegs
      else Inl (ErrInvalidZone v))"

text \<open>The fields of the command that the parser leaves alone are the zero time.\<close>

definition parseActionCommand :: "string list \<Rightarrow> parse_error + command" where
  "parseActionCommand args =
     (if length args < 3 then Inl ErrActionUsage
      else case parseAction (args ! 1) of
        Inl err \<Rightarrow> Inl err
      | Inr action \<Rightarrow> (case parseZone (args ! 2) of
          Inl err \<Rightarrow> Inl err
        | Inr target \<Rightarrow> Inr \<lparr>cmd_Kind = CommandAction, cmd_Action = action, cmd_Target = target,
            cmd_ReceivedAt = 0\<rparr>))"

section \<open>Menus\<close>

datatype navigation_state = NavigationStateTutorial | NavigationStateLobby | NavigationStateQueue
  | NavigationStateMatch | NavigationStateSpectator | NavigationStateOther string

fun menuLinesForState :: "navigation_state \<Rightarrow> string list" where
  "menuLinesForState NavigationStateTutorial = [''menu[tutorial]: [1] tutorial retry  [2] help  [3] quit'']"
| "menuLinesForState NavigationStateQueue = [''menu[queue]: [1] leave queue  [2] status  [3] help  [4] quit'']"
| "menuLinesForState NavigationStateMatch = [''menu[match]: [1] action hint'']"
| "menuLinesForState NavigationStateSpectator = [''menu[spectator]: [1] help'']"
| "menuLinesForState _ = [''menu[lobby]: [1] play  [2] npc  [3] status  [4] help  [5] quit'']"

text \<open>The command a selection stands for, with the option's key.\<close>

definition menuSelectionForState :: "navigation_state \<Rightarrow> string \<Rightarrow> (string \<times> string) option" where
  "menuSelectionForState state raw = (let optionKey = TrimText raw; pick = (\<lambda>command. Some (command, optionKey)) in
     case state of
       NavigationStateTutorial \<Rightarrow>
         (if optionKey = ''1'' then pick ''tutorial retry'' else if optionKey = ''2'' then pick ''help''
          else if optionKey = ''3'' then pick ''quit'' else None)
     | NavigationStateLobby \<Rightarrow>
         (if optionKey = ''1'' then pick ''play'' else if optionKey = ''2'' then pick ''npc''
          else if optionKey = ''3'' then pick ''status'' else if optionKey = ''4'' then pick ''help''
          else if optionKey = ''5'' then pick ''quit'' else None)
     | NavigationStateQueue \<Rightarrow>
         (if optionKey = ''1'' then pick ''l'' else if optionKey = ''2'' then pick ''status''
          else if optionKey = ''3'' then pick ''help'' else if optionKey = ''4'' then pick ''quit'' else None)
     | NavigationStateMatch \<Rightarrow> if optionKey = ''1'' then pick ''__action_hint'' else None
     | NavigationStateSpectator \<Rightarrow> if optionKey = ''1'' then pick ''help'' else None
     | NavigationStateOther _ \<Rightarrow> None)"

definition optionalStringPointer :: "string \<Rightarrow> string option" where
  "optionalStringPointer v = (let v = TrimText v in if v = [] then None else Some v)"

section \<open>What a connection types\<close>

text \<open>The lines of a text, each ended by any of the two characters.\<close>

fun cut_lines :: "string \<Rightarrow> string list" where
  "cut_lines [] = [[]]"
| "cut_lines (c # s) = (if line_break c then [] # cut_lines s
     else case cut_lines s of [] \<Rightarrow> [[c]] | l # ls \<Rightarrow> (c # l) # ls)"

definition typed_lines :: "string \<Rightarrow> string list" where
  "typed_lines s = filter (\<lambda>l. l \<noteq> []) (cut_lines s)"

lemma cut_lines_plain: "list_all (\<lambda>c. \<not> line_break c) s \<Longrightarrow> cut_lines s = [s]"
  by (induction s) auto

lemma cut_lines_append:
  "list_all (\<lambda>c. \<not> line_break c) s \<Longrightarrow> line_break c \<Longrightarrow> cut_lines (s @ c # t) = s # cut_lines t"
  by (induction s) auto

lemma cut_lines_hd:
  "list_all (\<lambda>c. \<not> line_break c) s \<Longrightarrow> \<exists>l ls. cut_lines (s @ t) = (s @ l) # ls"
proof (induction s)
  case Nil
  then show ?case by (cases t) (auto split: list.split)
next
  case (Cons c s)
  then obtain l ls where "cut_lines (s @ t) = (s @ l) # ls" by auto
  with Cons.prems show ?case by simp
qed

lemma typed_lines_simps:
  "list_all (\<lambda>c. \<not> line_break c) s \<Longrightarrow> typed_lines s = (if s = [] then [] else [s])"
  "list_all (\<lambda>c. \<not> line_break c) s \<Longrightarrow> line_break c \<Longrightarrow>
     typed_lines (s @ c # t) = (if s = [] then [] else [s]) @ typed_lines t"
  by (simp_all add: typed_lines_def cut_lines_plain cut_lines_append)

text \<open>No line fills the scanner's buffer.\<close>

definition short_lines :: "string \<Rightarrow> bool" where
  "short_lines s \<longleftrightarrow> list_all (\<lambda>l. length l < MaxScanTokenSize) (cut_lines s)"

lemma short_lines_tail:
  "list_all (\<lambda>c. \<not> line_break c) s \<Longrightarrow> line_break c \<Longrightarrow> short_lines (s @ c # t) \<Longrightarrow> short_lines t"
  by (simp add: short_lines_def cut_lines_append)

lemma short_lines_LF: "short_lines (LF # s) \<Longrightarrow> short_lines s"
  by (simp add: short_lines_def line_break_def)

lemma typed_lines_LF: "typed_lines (LF # s) = typed_lines s"
  by (simp add: typed_lines_def line_break_def)

lemma short_lines_pending:
  assumes "short_lines (buf @ t)" "list_all (\<lambda>c. \<not> line_break c) buf"
  shows "length buf < MaxScanTokenSize"
  using assms cut_lines_hd [OF assms(2), of t] by (auto simp: short_lines_def)

lemma splitCRLF_token:
  assumes "splitCRLF buf atEOF = (n, Some t)" "short_lines (buf @ after)" "atEOF \<longrightarrow> after = []"
  shows "short_lines (drop n buf @ after)
    \<and> typed_lines (buf @ after) = (if t = [] then [] else [t]) @ typed_lines (drop n buf @ after)"
  using splitCRLF_Some(2) [OF assms(1)]
proof
  assume "atEOF \<and> t = buf \<and> n = length buf"
  with assms splitCRLF_Some(1) [OF assms(1)] show ?thesis
    by (simp add: typed_lines_simps) (simp add: typed_lines_def short_lines_def MaxScanTokenSize_def)
next
  assume "\<exists>c rest rest'. line_break c \<and> buf = t @ c # rest \<and> drop n buf = rest' \<and> 0 < n \<and> n \<le> length buf
    \<and> (rest' = rest \<or> rest = LF # rest')"
  then obtain c rest where c: "line_break c" "buf = t @ c # rest" "drop n buf = rest \<or> rest = LF # drop n buf"
    by blast
  have "short_lines (rest @ after)" "typed_lines (buf @ after) = (if t = [] then [] else [t]) @ typed_lines (rest @ after)"
    using c(1,2) splitCRLF_Some(1) [OF assms(1)] assms(2)
      short_lines_tail [of t c "rest @ after"] typed_lines_simps(2) [of t c "rest @ after"] by simp_all
  with c(3) short_lines_LF [of "drop n buf @ after"] typed_lines_LF [of "drop n buf @ after"] show ?thesis
    by (metis append_Cons)
qed

text \<open>One token: the text still to come is cut at the token, or at its end.\<close>

lemma scan_token_lines:
  assumes "short_lines (buf @ concat reads)" "scan_token buf reads = (token, buf', reads', e)"
  shows "\<not> e \<and> (case token of
      None \<Rightarrow> buf @ concat reads = []
    | Some t \<Rightarrow> short_lines (buf' @ concat reads')
        \<and> typed_lines (buf @ concat reads) = (if t = [] then [] else [t]) @ typed_lines (buf' @ concat reads'))"
  using assms
proof (induction buf reads rule: scan_token.induct)
  case (1 buf)
  then obtain n where s: "splitCRLF buf True = (n, token)" "buf' = drop n buf" "reads' = []" "\<not> e"
    by (cases "splitCRLF buf True") auto
  show ?case
  proof (cases token)
    case None
    with s splitCRLF_None [of buf True n] show ?thesis by simp
  next
    case (Some t)
    with splitCRLF_token [OF s(1) [unfolded Some], of "[]"] 1(1) s show ?thesis by simp
  qed
next
  case (2 buf r reads)
  obtain n t where s: "(if buf = [] then (0, None) else splitCRLF buf False) = (n, t)" by force
  show ?case
  proof (cases t)
    case None
    have plain: "list_all (\<lambda>c. \<not> line_break c) buf"
      using s None splitCRLF_None [of buf False n] by (cases "buf = []") auto
    have eq: "buf @ concat (r # reads) = (buf @ r) @ concat reads" by simp
    have room: "\<not> MaxScanTokenSize \<le> length buf"
      using short_lines_pending [OF "2.prems"(1) plain] by simp
    have "scan_token (buf @ r) reads = (token, buf', reads', e)"
      using "2.prems"(2) s None room by simp
    from "2.IH" [OF s [symmetric] None room "2.prems"(1) [unfolded eq] this] show ?thesis unfolding eq .
  next
    case (Some t')
    with s have buf: "splitCRLF buf False = (n, Some t')" by (auto split: if_splits)
    have res: "token = Some t'" "buf' = drop n buf" "reads' = r # reads" "\<not> e"
      using "2.prems"(2) s Some by auto
    from splitCRLF_token [OF buf "2.prems"(1)] show ?thesis using res by simp
  qed
qed

lemma scan_all_lines:
  "short_lines (buf @ concat reads) \<Longrightarrow> scan_all buf reads = (tokens, e) \<Longrightarrow>
     \<not> e \<and> filter (\<lambda>l. l \<noteq> []) tokens = typed_lines (buf @ concat reads)"
proof (induction buf reads arbitrary: tokens e rule: scan_all.induct)
  case (1 buf reads)
  obtain token buf' reads' g where one: "scan_token buf reads = (token, buf', reads', g)"
    by (metis prod_cases4)
  note line = scan_token_lines [OF "1.prems"(1) one]
  show ?case
  proof (cases token)
    case None
    with line have "buf @ concat reads = []" by (simp del: append_is_Nil_conv)
    then have "typed_lines (buf @ concat reads) = []" by (simp only:) (simp add: typed_lines_def)
    moreover have "tokens = [] \<and> e = g"
      using one None "1.prems"(2) by (simp add: scan_all.simps [of buf reads])
    ultimately show ?thesis using line by simp
  next
    case (Some t)
    obtain tokens' e' where rest: "scan_all buf' reads' = (tokens', e')" by force
    with one Some "1.prems"(2) have res: "tokens = t # tokens'" "e = e'"
      by (simp_all add: scan_all.simps [of buf reads])
    from line Some have "short_lines (buf' @ concat reads')" by simp
    from "1.IH" [OF one [symmetric] Some refl refl this rest] res line Some show ?thesis by simp
  qed
qed

section \<open>Clean lines\<close>

definition controls :: "char \<Rightarrow> bool" where
  "controls c \<longleftrightarrow> (of_char c :: nat) < 32 \<or> (of_char c :: nat) = 127"

definition clean_line :: "string \<Rightarrow> bool" where
  "clean_line s \<longleftrightarrow> list_all valid_rune (runes s) \<and> list_all (\<lambda>c. \<not> controls c) s \<and> TrimText s = s"

lemma strip_csi_no_controls: "list_all (\<lambda>c. \<not> controls c) s \<Longrightarrow> strip_csi s = s"
  by (induction s) (auto simp: controls_def)

lemma valid_rune_whole: "valid_rune r \<Longrightarrow> whole_rune r"
  by (auto simp: valid_rune_def whole_rune_ascii)

lemma clean_rune_id: "valid_rune r \<Longrightarrow> list_all (\<lambda>c. \<not> controls c) r \<Longrightarrow> clean_rune r = r"
  by (cases r; cases "tl r") (auto simp: valid_rune_def clean_rune_def controls_def)

lemma replacement_rune: "valid_rune [CHR 0xEF, CHR 0xBF, CHR 0xBD]"
proof -
  have "rune_size (239 # 191 # 189 # bs) = 3" for bs
    by (cases bs) (simp_all add: cont_def)
  then show ?thesis by (simp add: valid_rune_def whole_rune_def rune_len_def)
qed

lemma clean_rune_cases:
  assumes "valid_rune r \<or> (\<exists>c. r = [c] \<and> 128 \<le> (of_char c :: nat))"
  shows "clean_rune r = [] \<or> valid_rune (clean_rune r) \<and> list_all (\<lambda>c. \<not> controls c) (clean_rune r)"
proof -
  consider (long) "1 < length r" "\<forall>c \<in> set r. 128 \<le> (of_char c :: nat)" "valid_rune r"
    | (one) c where "r = [c]"
    using assms by (auto simp: valid_rune_def)
  then show ?thesis
  proof cases
    case long
    then have "clean_rune r = r" "list_all (\<lambda>c. \<not> controls c) r"
      by (cases r; cases "tl r"; force simp: clean_rune_def controls_def list_all_iff)+
    with long show ?thesis by simp
  next
    case one
    with replacement_rune show ?thesis
      by (simp add: clean_rune_def controls_def) (auto simp: valid_rune_def whole_rune_ascii)
  qed
qed

lemma clean_line_sanitize:
  assumes "clean_line s"
  shows "sanitizeInputLine s = s"
proof -
  have "clean_rune r = r" if "r \<in> set (runes s)" for r
  proof (rule clean_rune_id)
    show "valid_rune r" using assms that by (simp add: clean_line_def list_all_iff)
    have "set r \<subseteq> set (concat (runes s))" using that by auto
    then show "list_all (\<lambda>c. \<not> controls c) r"
      using assms by (auto simp: clean_line_def list_all_iff concat_runes)
  qed
  then have "map clean_rune (runes s) = runes s" by (simp add: map_idI)
  with assms show ?thesis
    by (simp add: sanitizeInputLine_def clean_line_def strip_csi_no_controls concat_runes)
qed

lemma sanitize_clean_line: "clean_line (sanitizeInputLine line)"
proof -
  define rs where "rs = filter (\<lambda>r. r \<noteq> []) (map clean_rune (runes (strip_csi line)))"
  have "concat (filter (\<lambda>r. r \<noteq> []) xs) = concat xs" for xs :: "string list"
    by (induction xs) auto
  then have "concat (map clean_rune (runes (strip_csi line))) = concat rs" by (simp add: rs_def)
  then have t: "sanitizeInputLine line = TrimText (concat rs)" by (simp add: sanitizeInputLine_def)
  have ok: "valid_rune r \<and> list_all (\<lambda>c. \<not> controls c) r" if "r \<in> set rs" for r
  proof -
    from that obtain q where "q \<in> set (runes (strip_csi line))" "r = clean_rune q" "r \<noteq> []"
      by (auto simp: rs_def)
    with clean_rune_cases [OF runes_mem [of q "strip_csi line"]] show ?thesis by simp
  qed
  then have "list_all whole_rune rs" using valid_rune_whole by (simp add: list_all_iff)
  note trim = TrimText_runes [OF this]
  have mem: "r \<in> set rs" if "r \<in> set (runes (sanitizeInputLine line))" for r
    using that set_trim_runes [of rs] by (auto simp: t trim(1))
  have "list_all valid_rune (runes (sanitizeInputLine line))"
    "\<forall>r \<in> set (runes (sanitizeInputLine line)). list_all (\<lambda>c. \<not> controls c) r"
    unfolding list_all_iff [of valid_rune] using ok mem by blast+
  moreover from this(2) have "list_all (\<lambda>c. \<not> controls c) (concat (runes (sanitizeInputLine line)))"
    by (auto simp: list_all_iff)
  ultimately show ?thesis by (simp add: clean_line_def concat_runes) (simp add: t trim(2))
qed

section \<open>Properties\<close>

text \<open>
  C34: The lines a player types do not depend on how the network cuts them: whatever the reads, the
  scanner returns the non-empty lines of the text, unchanged and in order, and besides them only empty tokens (an
  empty line gives one, and so does a CR LF pair cut in two). As long as no line fills its
  buffer it does not give up.
\<close>

theorem lines_whatever_the_reads:
  assumes "short_lines (concat reads)"
  shows "\<exists>tokens. scan_all [] reads = (tokens, False)
    \<and> filter (\<lambda>l. l \<noteq> []) tokens = typed_lines (concat reads)"
proof -
  obtain tokens e where "scan_all [] reads = (tokens, e)" by force
  with scan_all_lines [of "[]" reads tokens e] assms show ?thesis by simp
qed

lemma lines_whatever_the_reads_witness:
  "\<exists>tokens. scan_all [] [''a str'', ''ike head'' @ [CR], [LF] @ ''q'' @ [LF]] = (tokens, False)
    \<and> filter (\<lambda>l. l \<noteq> []) tokens = [''a strike head'', ''q'']"
  using lines_whatever_the_reads [of "[''a str'', ''ike head'' @ [CR], [LF] @ ''q'' @ [LF]]"]
  by (simp add: short_lines_def typed_lines_def line_break_def CR_def LF_def MaxScanTokenSize_def)

text \<open>
  A cleaned line is valid UTF-8 without control characters and without white space at its ends,
  whatever bytes were typed, and exactly such lines are left alone by the cleaning; so cleaning
  twice is cleaning once.
\<close>

theorem sanitized_lines_are_clean:
  "clean_line (sanitizeInputLine line) \<and> (sanitizeInputLine line = line \<longleftrightarrow> clean_line line)
    \<and> sanitizeInputLine (sanitizeInputLine line) = sanitizeInputLine line"
  using sanitize_clean_line [of line] clean_line_sanitize [of line]
    clean_line_sanitize [OF sanitize_clean_line [of line]] by metis

end
