(* ===== verification/RateLimit.thy ===== *)
theory RateLimit
  imports Telemetry
begin

text \<open>
  The token buckets of \<^verbatim>\<open>cmd/server/rate_limit.go\<close>, one per key, that limit logins, queueing and
  actions. \<open>Allow\<close> runs under the limiter's lock, so a call is one step of the state; the reading of
  the clock is its argument. The arithmetic is that of a \<open>float64\<close> record; what the bound on bursts needs
  of it is \<open>counting_float\<close>.
\<close>

section \<open>The limiter\<close>

record 'f rate_bucket =
  rb_tokens :: 'f
  rb_last :: time

record 'f limiter =
  li_rate :: 'f
  li_burst :: 'f
  li_state :: "string \<rightharpoonup> 'f rate_bucket"
  li_ttl :: duration

definition newTokenBucketLimiter :: "'f float64 \<Rightarrow> int \<Rightarrow> int \<Rightarrow> 'f limiter" where
  "newTokenBucketLimiter F limitPerMinute burst =
     (let limitPerMinute = (if limitPerMinute \<le> 0 then 1 else limitPerMinute);
          burst = (if burst \<le> 0 then limitPerMinute else burst)
      in \<lparr>li_rate = f_div F (f_of_int F limitPerMinute) (f_of_int F 60), li_burst = f_of_int F burst,
          li_state = Map.empty, li_ttl = 15 * 60 * 1000000000\<rparr>)"

text \<open>\<^verbatim>\<open>Duration.Seconds\<close>.\<close>

definition dur_seconds :: "'f float64 \<Rightarrow> duration \<Rightarrow> 'f" where
  "dur_seconds F d = f_add F (f_of_int F (d sdiv 1000000000))
     (f_div F (f_of_int F (d smod 1000000000)) (f_of_int F 1000000000))"

text \<open>The loop that forgets the buckets not used for the limiter's lifetime.\<close>

definition forget_idle :: "time \<Rightarrow> 'f limiter \<Rightarrow> string \<rightharpoonup> 'f rate_bucket" where
  "forget_idle now l k = (case li_state l k of
     None \<Rightarrow> None
   | Some b \<Rightarrow> if time_sub now (rb_last b) > li_ttl l then None else Some b)"

definition Allow :: "'f float64 \<Rightarrow> time \<Rightarrow> string \<Rightarrow> 'f limiter \<Rightarrow> bool \<times> 'f limiter" where
  "Allow F now key l =
     (if key = '''' then (False, l)
      else let state = forget_idle now l;
          bucket = (case state key of None \<Rightarrow> \<lparr>rb_tokens = li_burst l, rb_last = now\<rparr> | Some b \<Rightarrow> b);
          elapsed = dur_seconds F (time_sub now (rb_last bucket));
          tokens = (if f_less F (f_of_int F 0) elapsed
            then let t = f_add F (rb_tokens bucket) (f_mul F elapsed (li_rate l))
              in if f_less F (li_burst l) t then li_burst l else t
            else rb_tokens bucket)
      in if f_less F tokens (f_of_int F 1)
         then (False, l\<lparr>li_state := state(key \<mapsto> \<lparr>rb_tokens = tokens, rb_last = now\<rparr>)\<rparr>)
         else (True, l\<lparr>li_state := state(key \<mapsto> \<lparr>rb_tokens = f_sub F tokens (f_of_int F 1), rb_last = now\<rparr>)\<rparr>))"

section \<open>Sequences of calls\<close>

fun allow_all :: "'f float64 \<Rightarrow> (time \<times> string) list \<Rightarrow> 'f limiter \<Rightarrow> bool list \<times> 'f limiter" where
  "allow_all F [] l = ([], l)"
| "allow_all F ((now, key) # calls) l =
     (let (ok, l) = Allow F now key l; (oks, l) = allow_all F calls l in (ok # oks, l))"

text \<open>
  What the bound needs of the arithmetic: numbers are compared by a total preorder, small integers
  as integers; one token less is no more, and at most \<open>i - 1\<close> from at most \<open>i\<close>; no time is no credit.
\<close>

definition counting_float :: "'f float64 \<Rightarrow> ('f \<Rightarrow> bool) \<Rightarrow> 'f \<Rightarrow> int \<Rightarrow> bool" where
  "counting_float F num rate burst \<longleftrightarrow> float_order F num \<and> (\<forall>i. num (f_of_int F i))
     \<and> (\<forall>i j. 0 \<le> i \<longrightarrow> i \<le> burst \<longrightarrow> 0 \<le> j \<longrightarrow> j \<le> burst \<longrightarrow> (f_less F (f_of_int F i) (f_of_int F j) \<longleftrightarrow> i < j))
     \<and> (\<forall>a. num a \<longrightarrow> num (f_sub F a (f_of_int F 1)) \<and> \<not> f_less F a (f_sub F a (f_of_int F 1)))
     \<and> (\<forall>a i. num a \<longrightarrow> 0 < i \<longrightarrow> i \<le> burst \<longrightarrow> \<not> f_less F (f_of_int F i) a \<longrightarrow>
          \<not> f_less F (f_of_int F (i - 1)) (f_sub F a (f_of_int F 1)))
     \<and> (\<forall>a d. num a \<longrightarrow> num (f_add F a (f_mul F (dur_seconds F d) rate)))
     \<and> \<not> f_less F (f_of_int F 0) (dur_seconds F 0)"

lemma counting_floatD:
  assumes "counting_float F num rate burst"
  shows "float_order F num" "num (f_of_int F i)"
    and "0 \<le> i \<Longrightarrow> i \<le> burst \<Longrightarrow> 0 \<le> j \<Longrightarrow> j \<le> burst \<Longrightarrow> f_less F (f_of_int F i) (f_of_int F j) \<longleftrightarrow> i < j"
    and "num a \<Longrightarrow> num (f_sub F a (f_of_int F 1))" "num a \<Longrightarrow> \<not> f_less F a (f_sub F a (f_of_int F 1))"
    and "num a \<Longrightarrow> 0 < i \<Longrightarrow> i \<le> burst \<Longrightarrow> \<not> f_less F (f_of_int F i) a \<Longrightarrow>
      \<not> f_less F (f_of_int F (i - 1)) (f_sub F a (f_of_int F 1))"
    and "num a \<Longrightarrow> num (f_add F a (f_mul F (dur_seconds F d) rate))"
    and "\<not> f_less F (f_of_int F 0) (dur_seconds F 0)"
  using assms unfolding counting_float_def by blast+

text \<open>No bucket holds more than the burst.\<close>

definition limiter_ok :: "'f float64 \<Rightarrow> ('f \<Rightarrow> bool) \<Rightarrow> 'f \<Rightarrow> int \<Rightarrow> 'f limiter \<Rightarrow> bool" where
  "limiter_ok F num rate burst l \<longleftrightarrow> li_burst l = f_of_int F burst \<and> li_rate l = rate \<and> 0 \<le> li_ttl l
     \<and> (\<forall>k b. li_state l k = Some b \<longrightarrow> num (rb_tokens b) \<and> \<not> f_less F (f_of_int F burst) (rb_tokens b))"

text \<open>The tokens a call finds, and what it leaves.\<close>

lemma Allow_E:
  assumes "Allow F now key l = (ok, l')" "key \<noteq> []"
  obtains t where "ok \<longleftrightarrow> \<not> f_less F t (f_of_int F 1)"
    and "l' = l\<lparr>li_state := (forget_idle now l)(key \<mapsto>
          \<lparr>rb_tokens = if ok then f_sub F t (f_of_int F 1) else t, rb_last = now\<rparr>)\<rparr>"
    and "(\<exists>b. forget_idle now l key = Some b \<and>
        (t = rb_tokens b
         \<or> f_less F (f_of_int F 0) (dur_seconds F (time_sub now (rb_last b))) \<and> (t = li_burst l
           \<or> t = f_add F (rb_tokens b) (f_mul F (dur_seconds F (time_sub now (rb_last b))) (li_rate l))
              \<and> \<not> f_less F (li_burst l) t)))
      \<or> forget_idle now l key = None \<and> (t = li_burst l
         \<or> f_less F (f_of_int F 0) (dur_seconds F 0)
           \<and> (\<not> f_less F (li_burst l) t \<and> t = f_add F (li_burst l) (f_mul F (dur_seconds F 0) (li_rate l))))"
  using assms that
  by (cases "forget_idle now l key") (auto simp: Allow_def Let_def time_sub_def split: if_splits)

lemma Allow_ok:
  assumes F: "counting_float F num rate burst" and l: "limiter_ok F num rate burst l" "0 \<le> burst"
    and a: "Allow F now key l = (ok, l')"
  shows "limiter_ok F num rate burst l'"
    and "key \<noteq> [] \<Longrightarrow> \<exists>t. num t \<and> \<not> f_less F (f_of_int F burst) t \<and> (ok \<longleftrightarrow> \<not> f_less F t (f_of_int F 1))
      \<and> li_state l' key = Some \<lparr>rb_tokens = if ok then f_sub F t (f_of_int F 1) else t, rb_last = now\<rparr>
      \<and> (\<forall>b. li_state l key = Some b \<longrightarrow> rb_last b = now \<longrightarrow> t = rb_tokens b)
      \<and> (forget_idle now l key = None \<longrightarrow> t = f_of_int F burst)"
proof -
  note D = counting_floatD [OF F] and O = float_orderD [OF counting_floatD(1) [OF F]]
  have keep: "num (rb_tokens b) \<and> \<not> f_less F (f_of_int F burst) (rb_tokens b)" if "forget_idle now l k = Some b" for k b
    using that l(1) by (auto simp: limiter_ok_def forget_idle_def split: option.splits if_splits)
  have burst: "li_burst l = f_of_int F burst" "li_rate l = rate" "0 \<le> li_ttl l" using l(1) by (simp_all add: limiter_ok_def)
  have full: "\<not> f_less F (f_of_int F burst) (f_of_int F burst)" using D(3) [of burst burst] l(2) by simp
  have "limiter_ok F num rate burst l' \<and> (key \<noteq> [] \<longrightarrow> (\<exists>t. num t \<and> \<not> f_less F (f_of_int F burst) t \<and> (ok \<longleftrightarrow> \<not> f_less F t (f_of_int F 1))
      \<and> li_state l' key = Some \<lparr>rb_tokens = if ok then f_sub F t (f_of_int F 1) else t, rb_last = now\<rparr>
      \<and> (\<forall>b. li_state l key = Some b \<longrightarrow> rb_last b = now \<longrightarrow> t = rb_tokens b)
      \<and> (forget_idle now l key = None \<longrightarrow> t = f_of_int F burst)))"
  proof (cases "key = []")
    case True
    with a l show ?thesis by (simp add: Allow_def)
  next
    case False
    from Allow_E [OF a False] obtain t where ok: "ok \<longleftrightarrow> \<not> f_less F t (f_of_int F 1)"
      and l': "l' = l\<lparr>li_state := (forget_idle now l)(key \<mapsto>
          \<lparr>rb_tokens = if ok then f_sub F t (f_of_int F 1) else t, rb_last = now\<rparr>)\<rparr>"
      and t: "(\<exists>b. forget_idle now l key = Some b \<and>
        (t = rb_tokens b
         \<or> f_less F (f_of_int F 0) (dur_seconds F (time_sub now (rb_last b))) \<and> (t = li_burst l
           \<or> t = f_add F (rb_tokens b) (f_mul F (dur_seconds F (time_sub now (rb_last b))) (li_rate l))
              \<and> \<not> f_less F (li_burst l) t)))
      \<or> forget_idle now l key = None \<and> (t = li_burst l
         \<or> f_less F (f_of_int F 0) (dur_seconds F 0)
           \<and> (\<not> f_less F (li_burst l) t \<and> t = f_add F (li_burst l) (f_mul F (dur_seconds F 0) (li_rate l))))"
      by blast
    have num: "num t \<and> \<not> f_less F (f_of_int F burst) t"
      using t keep D(2,7,8) full unfolding burst(1,2) by blast
    have less: "\<not> f_less F (f_of_int F burst) (f_sub F t (f_of_int F 1))"
      using O(1) [OF D(4) D(2) D(2)] O(1) D(2,4,5) num by blast
    have "limiter_ok F num rate burst l'"
      using l(1) keep num less D(4) by (simp add: limiter_ok_def l')
    moreover have "t = rb_tokens b" if "li_state l key = Some b" "rb_last b = now" for b
    proof -
      have "forget_idle now l key = Some b" using that burst(3) by (simp add: forget_idle_def time_sub_def)
      with t that D(8) show ?thesis by (auto simp: time_sub_def)
    qed
    moreover have "t = f_of_int F burst" if "forget_idle now l key = None"
      using that t D(8) burst(1) by auto
    ultimately show ?thesis using num ok by (auto simp: l')
  qed
  then show "limiter_ok F num rate burst l'"
    and "key \<noteq> [] \<Longrightarrow> \<exists>t. num t \<and> \<not> f_less F (f_of_int F burst) t \<and> (ok \<longleftrightarrow> \<not> f_less F t (f_of_int F 1))
      \<and> li_state l' key = Some \<lparr>rb_tokens = if ok then f_sub F t (f_of_int F 1) else t, rb_last = now\<rparr>
      \<and> (\<forall>b. li_state l key = Some b \<longrightarrow> rb_last b = now \<longrightarrow> t = rb_tokens b)
      \<and> (forget_idle now l key = None \<longrightarrow> t = f_of_int F burst)"
    by blast+
qed

lemma Allow_other:
  assumes "Allow F now k l = (ok, l')" "k \<noteq> key" "li_state l key = Some b" "rb_last b = now" "0 \<le> li_ttl l"
  shows "li_state l' key = Some b"
proof -
  have "forget_idle now l key = Some b" using assms(3-5) by (simp add: forget_idle_def time_sub_def)
  with assms(1-3) show ?thesis by (auto simp: Allow_def Let_def split: if_splits)
qed

definition granted :: "string \<Rightarrow> (time \<times> string) list \<Rightarrow> bool list \<Rightarrow> nat" where
  "granted key calls oks = length (filter (\<lambda>(c, ok). snd c = key \<and> ok) (zip calls oks))"

lemma granted_simps [simp]:
  "granted key [] oks = 0"
  "granted key ((t, k) # calls) (ok # oks) = (if k = key \<and> ok then 1 else 0) + granted key calls oks"
  by (simp_all add: granted_def)

lemma allow_all_ok:
  "counting_float F num rate burst \<Longrightarrow> 0 \<le> burst \<Longrightarrow> limiter_ok F num rate burst l \<Longrightarrow>
     allow_all F calls l = (oks, l') \<Longrightarrow> limiter_ok F num rate burst l'"
proof (induction F calls l arbitrary: oks rule: allow_all.induct)
  case (2 F now key calls l)
  obtain ok m where one: "Allow F now key l = (ok, m)" by force
  with "2.prems" obtain oks' where "allow_all F calls m = (oks', l')" by (auto split: prod.splits)
  with "2.IH" [OF one [symmetric] refl] "2.prems" Allow_ok(1) [OF "2.prems"(1,3,2) one] show ?case by blast
qed simp

text \<open>From a bucket just used that holds at most \<open>m\<close>, at most \<open>m\<close> calls are granted in the same instant.\<close>

lemma granted_at_most:
  assumes F: "counting_float F num rate burst" and key: "key \<noteq> []" and burst: "0 < burst"
  shows "limiter_ok F num rate burst l \<Longrightarrow> li_state l key = Some b \<Longrightarrow> rb_last b = now \<Longrightarrow>
    0 \<le> m \<Longrightarrow> m \<le> burst \<Longrightarrow> \<not> f_less F (f_of_int F m) (rb_tokens b) \<Longrightarrow> \<forall>c \<in> set calls. fst c = now \<Longrightarrow>
    allow_all F calls l = (oks, l') \<Longrightarrow> int (granted key calls oks) \<le> m"
proof (induction calls arbitrary: l b m oks)
  case (Cons c calls)
  note D = counting_floatD [OF F] and O = float_orderD [OF counting_floatD(1) [OF F]]
  obtain k where c: "c = (now, k)" using Cons.prems(7) by (cases c) auto
  obtain ok l1 where one: "Allow F now k l = (ok, l1)" by force
  with Cons.prems(8) c obtain oks' where rest: "allow_all F calls l1 = (oks', l')" and oks: "oks = ok # oks'"
    by (auto split: prod.splits)
  have later: "\<forall>c \<in> set calls. fst c = now" using Cons.prems(7) by simp
  have l1: "limiter_ok F num rate burst l1" using Allow_ok(1) [OF F Cons.prems(1) _ one] burst by simp
  show ?case
  proof (cases "k = key")
    case True
    with Allow_ok(2) [OF F Cons.prems(1) _ one] key burst Cons.prems(2,3)
    have b: "num (rb_tokens b)" "ok \<longleftrightarrow> \<not> f_less F (rb_tokens b) (f_of_int F 1)"
      "li_state l1 key = Some \<lparr>rb_tokens = if ok then f_sub F (rb_tokens b) (f_of_int F 1) else rb_tokens b, rb_last = now\<rparr>"
      by fastforce+
    show ?thesis
    proof (cases ok)
      case ok: True
      have "m \<noteq> 0"
      proof
        assume "m = 0"
        with Cons.prems(6) b ok O(1) [OF D(2) b(1) D(2), of 0 1] D(3) [of 0 1] burst show False by simp
      qed
      with Cons.prems(4) have "0 < m" by simp
      with D(6) [OF b(1)] Cons.prems(5,6) have "\<not> f_less F (f_of_int F (m - 1)) (f_sub F (rb_tokens b) (f_of_int F 1))"
        by blast
      with Cons.IH [OF l1 b(3) _ _ _ _ later rest, of "m - 1"] ok \<open>0 < m\<close> Cons.prems(5) have
        "int (granted key calls oks') \<le> m - 1" by simp
      then show ?thesis using True ok by (simp add: c oks)
    next
      case False
      with Cons.IH [OF l1 b(3) _ Cons.prems(4,5) _ later rest] Cons.prems(6) show ?thesis by (simp add: c oks)
    qed
  next
    case False
    have "0 \<le> li_ttl l" using Cons.prems(1) by (simp add: limiter_ok_def)
    with Cons.IH [OF l1 Allow_other [OF one False Cons.prems(2,3)] Cons.prems(3-6) later rest] False
    show ?thesis by (simp add: c oks)
  qed
qed simp

lemma granted_at_most_burst:
  assumes F: "counting_float F num rate burst" and key: "key \<noteq> []" and burst: "0 < burst"
  shows "limiter_ok F num rate burst l \<Longrightarrow> \<forall>c \<in> set calls. fst c = now \<Longrightarrow>
    allow_all F calls l = (oks, l') \<Longrightarrow> int (granted key calls oks) \<le> burst"
proof (induction calls arbitrary: l oks)
  case (Cons c calls)
  obtain k where c: "c = (now, k)" using Cons.prems(2) by (cases c) auto
  obtain ok l1 where one: "Allow F now k l = (ok, l1)" by force
  with Cons.prems(3) c obtain oks' where rest: "allow_all F calls l1 = (oks', l')" and oks: "oks = ok # oks'"
    by (auto split: prod.splits)
  have later: "\<forall>c \<in> set calls. fst c = now" using Cons.prems(2) by simp
  have l1: "limiter_ok F num rate burst l1" using Allow_ok(1) [OF F Cons.prems(1) _ one] burst by simp
  show ?case
  proof (cases "k = key")
    case True
    with Allow_ok(2) [OF F Cons.prems(1) _ one] key burst obtain t where
      t: "num t" "\<not> f_less F (f_of_int F burst) t"
        "li_state l1 key = Some \<lparr>rb_tokens = if ok then f_sub F t (f_of_int F 1) else t, rb_last = now\<rparr>" by auto
    have "\<not> f_less F (f_of_int F (burst - (if ok then 1 else 0))) (if ok then f_sub F t (f_of_int F 1) else t)"
      using t(2) counting_floatD(6) [OF F t(1), of burst] burst by simp
    with granted_at_most [OF F key burst l1 t(3) _ _ _ _ later rest, of "burst - (if ok then 1 else 0)"] burst
    have "int (granted key calls oks') \<le> burst - (if ok then 1 else 0)" by simp
    then show ?thesis by (simp add: c oks split: if_splits)
  next
    case False
    with Cons.IH [OF l1 later rest] show ?thesis by (simp add: c oks)
  qed
qed (use burst in simp)

lemma new_limiter_ok:
  assumes "0 < perMinute" "0 < burst"
  shows "limiter_ok F num (f_div F (f_of_int F perMinute) (f_of_int F 60)) burst (newTokenBucketLimiter F perMinute burst)"
  using assms by (simp add: limiter_ok_def newTokenBucketLimiter_def)

section \<open>Properties\<close>

text \<open>
  C36: Whatever calls came before, for whatever keys, in one instant no key is granted more calls than
  the burst it is limited to, and a call with the empty key is never granted.
\<close>

theorem limiter_bounds_bursts:
  assumes "counting_float F num (f_div F (f_of_int F perMinute) (f_of_int F 60)) burst"
    and "0 < perMinute" "0 < burst"
    and "allow_all F earlier (newTokenBucketLimiter F perMinute burst) = (oks0, l)"
    and "\<forall>c \<in> set calls. fst c = now" "allow_all F calls l = (oks, l')"
  shows "int (granted key calls oks) \<le> (if key = [] then 0 else burst)"
proof (cases "key = []")
  case True
  have "granted [] calls oks = 0" if "allow_all F calls l = (oks, l')" for calls oks l l'
    using that
    by (induction F calls l arbitrary: oks rule: allow_all.induct) (auto simp: Allow_def split: prod.splits)
  with True assms(6) show ?thesis by simp
next
  case False
  have "limiter_ok F num (f_div F (f_of_int F perMinute) (f_of_int F 60)) burst l"
    using assms(3) by (intro allow_all_ok [OF assms(1) _ new_limiter_ok [OF assms(2,3)] assms(4)]) simp
  from granted_at_most_burst [OF assms(1) False assms(3) this assms(5,6)] False show ?thesis by simp
qed

lemma exact_counting: "counting_float exact_float (\<lambda>a. a \<noteq> None) (Some r) burst"
  unfolding counting_float_def
  by (intro conjI exact_float_order) (auto simp: exact_float_def exact_op_def dur_seconds_def)

lemma limiter_bounds_bursts_witness:
  "int (granted ''ana'' (replicate 4 (7, ''ana''))
     (fst (allow_all exact_float (replicate 4 (7, ''ana'')) (newTokenBucketLimiter exact_float 5 3)))) \<le> 3"
proof -
  obtain oks l' where r: "allow_all exact_float (replicate 4 (7, ''ana'')) (newTokenBucketLimiter exact_float 5 3) = (oks, l')"
    by force
  have div: "f_div exact_float (f_of_int exact_float 5) (f_of_int exact_float 60) = Some (5 / 60)"
    by (simp add: exact_float_def exact_op_def)
  have "int (granted ''ana'' (replicate 4 (7, ''ana'')) oks) \<le> (if ''ana'' = [] then 0 else 3)"
    by (rule limiter_bounds_bursts [OF _ _ _ _ _ r, of "\<lambda>a. a \<noteq> None" 5 3 "[]" "[]" 7])
      (simp_all only: div exact_counting, simp_all)
  then show ?thesis by (simp add: r)
qed

end
