(* ===== verification/Matchmaking.thy ===== *)
theory Matchmaking
  imports Lobby GoStrings MatchLoop
begin

text \<open>
  The coordinator of \<^verbatim>\<open>internal/matchmaking/service.go\<close> around the matches: who is queued, who is in
  a match, which matches can be watched. Each operation is first a function of the service's state
  (\<open>service_state\<close>, the fields guarded by its lock, with the lobby), as it runs when nothing comes
  between its steps; its outputs are the events it persists, the counters, the frames, and the
  match goroutines it starts.

  The operations are not atomic: they release the lock between reading \<^verbatim>\<open>inMatch\<close> and acting on the
  lobby. The relation \<open>svc_step\<close> lets the locked sections of any number of operations interleave;
  \<open>threads\<close> are the operations under way and the matches being played. Its invariant is that no
  player is ever claimed twice.
\<close>

section \<open>State\<close>

record service_config =
  sc_QueueTimeout :: duration
  sc_store :: bool
  sc_telemetry :: bool

record service_state =
  sv_lobby :: lobby_state
  sv_inMatch :: "string set"
  sv_queueJoinedAt :: "string \<rightharpoonup> time"
  sv_activeMatches :: "string \<rightharpoonup> active_match"
  sv_activeByHandle :: "string \<rightharpoonup> string"

definition NewService :: "lobby_state \<Rightarrow> service_state" where
  "NewService lb = \<lparr>sv_lobby = lb, sv_inMatch = {}, sv_queueJoinedAt = Map.empty,
     sv_activeMatches = Map.empty, sv_activeByHandle = Map.empty\<rparr>"

datatype service_error = ErrPlayerInMatch string | ErrLobby lobby_error | ErrNoPlayerID
  | ErrPlayerNotRegistered string

datatype service_output =
    QueueEvent string string int
  | NavEvent string string string detail
  | CounterInc string
  | FrameSent string "string list"
  | StartedPvP session session int int
  | StartedPractice session

definition queue_event :: "service_config \<Rightarrow> string \<Rightarrow> string \<Rightarrow> int \<Rightarrow> service_output list" where
  "queue_event C pid kind wait = (if sc_store C then [QueueEvent pid kind wait] else [])"

definition nav_event :: "service_config \<Rightarrow> string \<Rightarrow> string \<Rightarrow> string \<Rightarrow> detail
    \<Rightarrow> service_output list" where
  "nav_event C pid state kind detail = (if sc_store C then [NavEvent pid state kind detail] else [])"

definition inc_counter :: "service_config \<Rightarrow> string \<Rightarrow> service_output list" where
  "inc_counter C name = (if sc_telemetry C then [CounterInc name] else [])"

definition frame_to :: "string \<Rightarrow> string list \<Rightarrow> service_state \<Rightarrow> service_output list" where
  "frame_to pid lines s = (case GetSession pid (sv_lobby s) of
     None \<Rightarrow> [] | Some sess \<Rightarrow> map (\<lambda>(p, ls). FrameSent p ls) (sendFrame sess lines))"

section \<open>Queueing\<close>

definition IsPlayerInMatch :: "string \<Rightarrow> service_state \<Rightarrow> bool" where
  "IsPlayerInMatch playerID s = (if playerID = '''' then False else playerID \<in> sv_inMatch s)"

definition enqueue_stamp :: "time \<Rightarrow> string \<Rightarrow> service_state \<Rightarrow> service_state" where
  "enqueue_stamp now playerID s = (if sv_queueJoinedAt s playerID = None
     then s\<lparr>sv_queueJoinedAt := (sv_queueJoinedAt s)(playerID \<mapsto> now)\<rparr> else s)"

definition Enqueue :: "service_config \<Rightarrow> time \<Rightarrow> time \<Rightarrow> string \<Rightarrow> service_state
    \<Rightarrow> (service_error option \<times> service_output list) \<times> service_state" where
  "Enqueue C clock now playerID s =
     (if playerID \<in> sv_inMatch s then ((Some (ErrPlayerInMatch playerID), []), s)
      else case JoinQueue clock playerID (sv_lobby s) of
        (Some err, lb) \<Rightarrow> ((Some (ErrLobby err), []), s\<lparr>sv_lobby := lb\<rparr>)
      | (None, lb) \<Rightarrow>
          let s = enqueue_stamp now playerID (s\<lparr>sv_lobby := lb\<rparr>)
          in ((None, queue_event C playerID ''join'' 0 @ inc_counter C ''queue_join''
               @ frame_to playerID [''Entered queue. Waiting for opponent...''] s), s))"

definition wait_ms :: "time \<Rightarrow> time \<Rightarrow> int" where
  "wait_ms now joinedAt = (let waitMS = Milliseconds (time_sub now joinedAt)
     in if waitMS < 0 then 0 else waitMS)"

definition clear_stamp :: "string \<Rightarrow> service_state \<Rightarrow> service_state" where
  "clear_stamp playerID s = s\<lparr>sv_queueJoinedAt := (sv_queueJoinedAt s)(playerID := None)\<rparr>"

definition Dequeue :: "service_config \<Rightarrow> time \<Rightarrow> string \<Rightarrow> service_state
    \<Rightarrow> service_output list \<times> service_state" where
  "Dequeue C now playerID s =
     (let joinedAt = sv_queueJoinedAt s playerID;
          s = clear_stamp playerID s;
          s = s\<lparr>sv_lobby := snd (LeaveQueue playerID (sv_lobby s))\<rparr>;
          waitMS = (case joinedAt of None \<Rightarrow> 0 | Some t \<Rightarrow> wait_ms now t)
      in (queue_event C playerID ''leave'' waitMS @ frame_to playerID [''Left queue.''] s, s))"

definition queueWaitAndClear :: "string \<Rightarrow> time \<Rightarrow> service_state \<Rightarrow> int \<times> service_state" where
  "queueWaitAndClear playerID now s = (case sv_queueJoinedAt s playerID of
     None \<Rightarrow> (0, s)
   | Some joinedAt \<Rightarrow> (wait_ms now joinedAt, clear_stamp playerID s))"

definition releasePlayers :: "string list \<Rightarrow> service_state \<Rightarrow> service_state" where
  "releasePlayers playerIDs s = s\<lparr>sv_inMatch := sv_inMatch s - set playerIDs\<rparr>"

section \<open>Practice matches\<close>

text \<open>
  The guard looks the session up, the locked section claims the player; what follows leaves the queue and
  starts the match.
\<close>

definition practice_guard :: "session \<Rightarrow> service_state \<Rightarrow> service_error option" where
  "practice_guard sess s =
     (if se_PlayerID sess = '''' then Some ErrNoPlayerID
      else if GetSession (se_PlayerID sess) (sv_lobby s) = None then Some (ErrPlayerNotRegistered (se_PlayerID sess))
      else None)"

definition lock_practice :: "session \<Rightarrow> service_state \<Rightarrow> service_error option \<times> service_state" where
  "lock_practice sess s =
     (if se_PlayerID sess \<in> sv_inMatch s then (Some (ErrPlayerInMatch (se_PlayerID sess)), s)
      else (None, clear_stamp (se_PlayerID sess)
        (s\<lparr>sv_inMatch := insert (se_PlayerID sess) (sv_inMatch s)\<rparr>)))"

definition claim_practice :: "session \<Rightarrow> service_state \<Rightarrow> service_error option \<times> service_state" where
  "claim_practice sess s = (case practice_guard sess s of
     Some err \<Rightarrow> (Some err, s) | None \<Rightarrow> lock_practice sess s)"

definition start_practice :: "service_config \<Rightarrow> time \<Rightarrow> session \<Rightarrow> time option \<Rightarrow> service_state
    \<Rightarrow> service_output list \<times> service_state" where
  "start_practice C now sess joinedAt s =
     (let pid = se_PlayerID sess;
          s = s\<lparr>sv_lobby := snd (LeaveQueue pid (sv_lobby s))\<rparr>
      in ((case joinedAt of None \<Rightarrow> [] | Some t \<Rightarrow> queue_event C pid ''leave'' (wait_ms now t))
          @ map (\<lambda>(p, ls). FrameSent p ls) (sendFrame sess
              [''Practice match started against Coach NPC.'', ''Send actions with: a <action> <zone>''])
          @ nav_event C pid ''lobby'' ''practice_started'' [(''mode'', DetailText ''npc'')]
          @ inc_counter C ''npc_matches_started'' @ [StartedPractice sess], s))"

definition StartNPCMatch :: "service_config \<Rightarrow> time \<Rightarrow> session \<Rightarrow> service_state
    \<Rightarrow> (service_error option \<times> service_output list) \<times> service_state" where
  "StartNPCMatch C now sess s = (case claim_practice sess s of
     (Some err, s') \<Rightarrow> ((Some err, []), s')
   | (None, s') \<Rightarrow>
       let (out, s'') = start_practice C now sess (sv_queueJoinedAt s (se_PlayerID sess)) s'
       in ((None, out), s''))"

section \<open>The queue tick\<close>

definition timeout_one :: "service_config \<Rightarrow> time \<Rightarrow> string \<Rightarrow> service_state
    \<Rightarrow> service_output list \<times> service_state" where
  "timeout_one C now playerID s = (let (waitMS, s) = queueWaitAndClear playerID now s
     in (queue_event C playerID ''timeout'' waitMS @ inc_counter C ''queue_timeout''
         @ frame_to playerID [''Queue timeout reached. Re-enter queue with q.''] s, s))"

fun timeout_all :: "service_config \<Rightarrow> time \<Rightarrow> string list \<Rightarrow> service_state
    \<Rightarrow> service_output list \<times> service_state" where
  "timeout_all C now [] s = ([], s)"
| "timeout_all C now (playerID # ids) s =
     (let (out, s) = timeout_one C now playerID s; (out', s) = timeout_all C now ids s
      in (out @ out', s))"

definition matched_events :: "service_config \<Rightarrow> string \<Rightarrow> string \<Rightarrow> int \<Rightarrow> int \<Rightarrow> service_output list" where
  "matched_events C a b waitP1 waitP2 =
     queue_event C a ''matched'' waitP1 @ queue_event C b ''matched'' waitP2
     @ nav_event C a ''queue'' ''queue_matched'' [(''queue_wait_ms'', DetailInt waitP1), (''opponent_id'', DetailText b)]
     @ nav_event C b ''queue'' ''queue_matched'' [(''queue_wait_ms'', DetailInt waitP2), (''opponent_id'', DetailText a)]"

text \<open>Up to the second lock: the pair, if there is one, with the two waiting times.\<close>

definition pop_pair :: "service_config \<Rightarrow> time \<Rightarrow> time \<Rightarrow> service_state
    \<Rightarrow> ((string \<times> string \<times> int \<times> int) option \<times> service_output list) \<times> service_state" where
  "pop_pair C clock now s =
     (let ((pair, timedOut), lb) = PopNextPair clock now (sc_QueueTimeout C) (sv_lobby s);
          (out, s) = timeout_all C now timedOut (s\<lparr>sv_lobby := lb\<rparr>)
      in case pair of
        None \<Rightarrow> ((None, out), s)
      | Some (a, b) \<Rightarrow>
          if a = '''' \<or> b = '''' \<or> a = b then ((None, out), s)
          else let (waitP1, s) = queueWaitAndClear a now s; (waitP2, s) = queueWaitAndClear b now s
            in ((Some (a, b, waitP1, waitP2), out @ matched_events C a b waitP1 waitP2), s))"

text \<open>The second locked section: \<open>None\<close> when one of the two is in a match already.\<close>

definition mark_pair :: "string \<Rightarrow> string \<Rightarrow> service_state \<Rightarrow> service_state option" where
  "mark_pair a b s = (if a \<in> sv_inMatch s then None else if b \<in> sv_inMatch s then None
     else Some (s\<lparr>sv_inMatch := insert b (insert a (sv_inMatch s))\<rparr>))"

definition requeueAfterPairFailure :: "time \<Rightarrow> session \<Rightarrow> service_state
    \<Rightarrow> service_output list \<times> service_state" where
  "requeueAfterPairFailure clock sess s = (case JoinQueue clock (se_PlayerID sess) (sv_lobby s) of
     (Some err, lb) \<Rightarrow> (map (\<lambda>(p, ls). FrameSent p ls)
       (sendFrame sess [''Opponent unavailable. Re-enter queue with q.'']), s\<lparr>sv_lobby := lb\<rparr>)
   | (None, lb) \<Rightarrow> (map (\<lambda>(p, ls). FrameSent p ls)
       (sendFrame sess [''Opponent unavailable. You were requeued.'']), s\<lparr>sv_lobby := lb\<rparr>))"

definition launch_pair :: "service_config \<Rightarrow> time \<Rightarrow> string \<Rightarrow> string \<Rightarrow> int \<Rightarrow> int \<Rightarrow> service_state
    \<Rightarrow> service_output list \<times> service_state" where
  "launch_pair C clock a b waitP1 waitP2 s =
     (case (GetSession a (sv_lobby s), GetSession b (sv_lobby s)) of
        (Some sess1, Some sess2) \<Rightarrow>
          (inc_counter C ''matches_started'' @ [StartedPvP sess1 sess2 waitP1 waitP2], s)
      | (ok1, ok2) \<Rightarrow>
          let s = releasePlayers [a, b] s;
              (out1, s) = (case ok1 of None \<Rightarrow> ([], s) | Some sess1 \<Rightarrow> requeueAfterPairFailure clock sess1 s);
              (out2, s) = (case ok2 of None \<Rightarrow> ([], s) | Some sess2 \<Rightarrow> requeueAfterPairFailure clock sess2 s)
          in (out1 @ out2, s))"

definition processQueue :: "service_config \<Rightarrow> time \<Rightarrow> time \<Rightarrow> service_state
    \<Rightarrow> service_output list \<times> service_state" where
  "processQueue C clock now s =
     (let ((pair, out), s) = pop_pair C clock now s in
      case pair of
        None \<Rightarrow> (out, s)
      | Some (a, b, waitP1, waitP2) \<Rightarrow> (case mark_pair a b s of
          None \<Rightarrow> (out, s)
        | Some s \<Rightarrow> let (out', s) = launch_pair C clock a b waitP1 waitP2 s in (out @ out', s)))"

section \<open>Matches that can be watched\<close>

text \<open>Handles are compared through \<open>strings.ToLower\<close>, here for ASCII handles.\<close>

definition registerActiveMatch :: "active_match option \<Rightarrow> service_state \<Rightarrow> service_state" where
  "registerActiveMatch mt s = (case mt of
     None \<Rightarrow> s
   | Some mt \<Rightarrow> s\<lparr>sv_activeMatches := (sv_activeMatches s)(am_MatchID mt \<mapsto> mt),
       sv_activeByHandle := (sv_activeByHandle s)(ToLower (am_P1Handle mt) \<mapsto> am_MatchID mt,
         ToLower (am_P2Handle mt) \<mapsto> am_MatchID mt)\<rparr>)"

definition unregisterActiveMatch :: "active_match option \<Rightarrow> service_state \<Rightarrow> service_state" where
  "unregisterActiveMatch mt s = (case mt of
     None \<Rightarrow> s
   | Some mt \<Rightarrow> s\<lparr>sv_activeMatches := (sv_activeMatches s)(am_MatchID mt := None),
       sv_activeByHandle := (sv_activeByHandle s)(ToLower (am_P1Handle mt) := None,
         ToLower (am_P2Handle mt) := None)\<rparr>)"

definition lookupActiveMatchByHandle :: "string \<Rightarrow> service_state \<Rightarrow> active_match option" where
  "lookupActiveMatchByHandle handle s = (let handle = ToLower (TrimSpace handle) in
     if handle = '''' then None
     else case sv_activeByHandle s handle of None \<Rightarrow> None | Some matchID \<Rightarrow> sv_activeMatches s matchID)"

section \<open>Interleaving\<close>

text \<open>
  An operation under way, after its last look at the shared state. \<open>TickPopped\<close> is a tick with the pair it
  popped and the timed-out players it has yet to tell; \<open>TickWaited\<close> knows the first waiting time;
  \<open>PairMarked\<close> has claimed both players, \<open>PairLooked\<close> has also looked up the first session and
  \<open>Requeueing\<close> has released the players and puts back the sessions it found. \<open>Playing\<close> is a running
  match goroutine, with the players its end releases.
\<close>

datatype thread = EnqueueJoin string | EnqueueStamp string | DequeueLeave string
  | PracticeChecked session | PracticeClaimed session "time option"
  | TickPopped time "(string \<times> string) option" "string list" | TickWaited time string string int
  | PairPopped string string int int | PairMarked string string int int
  | PairLooked string string int int "session option" | Requeueing "session list"
  | Playing "string list"

fun claims :: "thread \<Rightarrow> string list" where
  "claims (PracticeClaimed sess _) = [se_PlayerID sess]"
| "claims (PairMarked a b _ _) = [a, b]"
| "claims (PairLooked a b _ _ _) = [a, b]"
| "claims (Playing ids) = ids"
| "claims _ = []"

text \<open>Sessions register and unregister with the lobby at any time.\<close>

inductive svc_step :: "service_config \<Rightarrow> service_state \<times> thread multiset
    \<Rightarrow> service_state \<times> thread multiset \<Rightarrow> bool" for C where
  enqueue: "pid \<notin> sv_inMatch s \<Longrightarrow> svc_step C (s, T) (s, add_mset (EnqueueJoin pid) T)"
| join: "JoinQueue clock pid (sv_lobby s) = (None, lb) \<Longrightarrow>
    svc_step C (s, add_mset (EnqueueJoin pid) T) (s\<lparr>sv_lobby := lb\<rparr>, add_mset (EnqueueStamp pid) T)"
| join_fails: "JoinQueue clock pid (sv_lobby s) = (Some err, lb) \<Longrightarrow>
    svc_step C (s, add_mset (EnqueueJoin pid) T) (s\<lparr>sv_lobby := lb\<rparr>, T)"
| stamp: "svc_step C (s, add_mset (EnqueueStamp pid) T) (enqueue_stamp now pid s, T)"
| dequeue: "svc_step C (s, T) (clear_stamp pid s, add_mset (DequeueLeave pid) T)"
| leave: "svc_step C (s, add_mset (DequeueLeave pid) T)
    (s\<lparr>sv_lobby := snd (LeaveQueue pid (sv_lobby s))\<rparr>, T)"
| practice: "practice_guard sess s = None \<Longrightarrow> svc_step C (s, T) (s, add_mset (PracticeChecked sess) T)"
| claim: "lock_practice sess s = (None, s') \<Longrightarrow> svc_step C (s, add_mset (PracticeChecked sess) T)
    (s', add_mset (PracticeClaimed sess (sv_queueJoinedAt s (se_PlayerID sess))) T)"
| claim_fails: "lock_practice sess s = (Some err, s') \<Longrightarrow> svc_step C (s, add_mset (PracticeChecked sess) T) (s', T)"
| practice_starts: "start_practice C now sess joinedAt s = (out, s') \<Longrightarrow>
    svc_step C (s, add_mset (PracticeClaimed sess joinedAt) T) (s', add_mset (Playing [se_PlayerID sess]) T)"
| pop: "PopNextPair clock now (sc_QueueTimeout C) (sv_lobby s) = ((pair, timedOut), lb) \<Longrightarrow>
    svc_step C (s, T) (s\<lparr>sv_lobby := lb\<rparr>, add_mset (TickPopped now pair timedOut) T)"
| timed_out: "timeout_one C now pid s = (out, s') \<Longrightarrow>
    svc_step C (s, add_mset (TickPopped now pair (pid # ids)) T) (s', add_mset (TickPopped now pair ids) T)"
| no_pair: "svc_step C (s, add_mset (TickPopped now None []) T) (s, T)"
| unusable: "a = [] \<or> b = [] \<or> a = b \<Longrightarrow> svc_step C (s, add_mset (TickPopped now (Some (a, b)) []) T) (s, T)"
| wait1: "a \<noteq> [] \<Longrightarrow> b \<noteq> [] \<Longrightarrow> a \<noteq> b \<Longrightarrow> queueWaitAndClear a now s = (w1, s') \<Longrightarrow>
    svc_step C (s, add_mset (TickPopped now (Some (a, b)) []) T) (s', add_mset (TickWaited now a b w1) T)"
| wait2: "queueWaitAndClear b now s = (w2, s') \<Longrightarrow>
    svc_step C (s, add_mset (TickWaited now a b w1) T) (s', add_mset (PairPopped a b w1 w2) T)"
| mark: "mark_pair a b s = Some s' \<Longrightarrow>
    svc_step C (s, add_mset (PairPopped a b w1 w2) T) (s', add_mset (PairMarked a b w1 w2) T)"
| mark_fails: "mark_pair a b s = None \<Longrightarrow> svc_step C (s, add_mset (PairPopped a b w1 w2) T) (s, T)"
| look: "svc_step C (s, add_mset (PairMarked a b w1 w2) T)
    (s, add_mset (PairLooked a b w1 w2 (GetSession a (sv_lobby s))) T)"
| launch: "GetSession b (sv_lobby s) \<noteq> None \<Longrightarrow>
    svc_step C (s, add_mset (PairLooked a b w1 w2 (Some sess1)) T) (s, add_mset (Playing [a, b]) T)"
| launch_fails: "ok1 = None \<or> GetSession b (sv_lobby s) = None \<Longrightarrow>
    svc_step C (s, add_mset (PairLooked a b w1 w2 ok1) T) (releasePlayers [a, b] s,
      add_mset (Requeueing (List.map_filter (\<lambda>ok. ok) [ok1, GetSession b (sv_lobby s)])) T)"
| requeue: "requeueAfterPairFailure clock sess s = (out, s') \<Longrightarrow>
    svc_step C (s, add_mset (Requeueing (sess # rest)) T) (s', add_mset (Requeueing rest) T)"
| requeued: "svc_step C (s, add_mset (Requeueing []) T) (s, T)"
| finish: "svc_step C (s, add_mset (Playing ids) T) (releasePlayers ids s, T)"
| connect: "Register sess (sv_lobby s) = (err, lb) \<Longrightarrow> svc_step C (s, T) (s\<lparr>sv_lobby := lb\<rparr>, T)"
| disconnect: "svc_step C (s, T) (s\<lparr>sv_lobby := Unregister pid (sv_lobby s)\<rparr>, T)"

inductive reachable :: "service_config \<Rightarrow> service_state \<times> thread multiset \<Rightarrow> bool" for C where
  start: "reachable C (NewService NewLobby, {#})"
| step: "reachable C cfg \<Longrightarrow> svc_step C cfg cfg' \<Longrightarrow> reachable C cfg'"

section \<open>Invariants\<close>

definition claimed :: "thread multiset \<Rightarrow> string multiset" where
  "claimed T = \<Sum>\<^sub># (image_mset (\<lambda>t. mset (claims t)) T)"

lemma claimed_simps [simp]: "claimed {#} = {#}" "claimed (add_mset t T) = mset (claims t) + claimed T"
  by (simp_all add: claimed_def)

fun thread_ok :: "thread \<Rightarrow> bool" where
  "thread_ok (TickWaited _ a b _) = (a \<noteq> b)"
| "thread_ok (PairPopped a b _ _) = (a \<noteq> b)"
| "thread_ok _ = True"

definition claims_ok :: "service_state \<times> thread multiset \<Rightarrow> bool" where
  "claims_ok cfg \<longleftrightarrow> (\<forall>p. count (claimed (snd cfg)) p = (if p \<in> sv_inMatch (fst cfg) then 1 else 0))
     \<and> (\<forall>t \<in># snd cfg. thread_ok t) \<and> wf_lobby (sv_lobby (fst cfg))"

lemma state_simps [simp]:
  "sv_inMatch (enqueue_stamp now pid s) = sv_inMatch s" "sv_lobby (enqueue_stamp now pid s) = sv_lobby s"
  "sv_inMatch (clear_stamp pid s) = sv_inMatch s" "sv_lobby (clear_stamp pid s) = sv_lobby s"
  "sv_inMatch (releasePlayers ids s) = sv_inMatch s - set ids" "sv_lobby (releasePlayers ids s) = sv_lobby s"
  by (simp_all add: enqueue_stamp_def clear_stamp_def releasePlayers_def)

lemma queueWaitAndClear_frame [simp]:
  "sv_inMatch (snd (queueWaitAndClear pid now s)) = sv_inMatch s"
  "sv_lobby (snd (queueWaitAndClear pid now s)) = sv_lobby s"
  by (simp_all add: queueWaitAndClear_def split: option.split)

lemma timeout_all_frame [simp]:
  "sv_inMatch (snd (timeout_all C now ids s)) = sv_inMatch s"
  "sv_lobby (snd (timeout_all C now ids s)) = sv_lobby s"
  by (induction C now ids s rule: timeout_all.induct) (simp_all add: timeout_one_def Let_def split_beta)

lemma timeout_one_frame [simp]:
  "sv_inMatch (snd (timeout_one C now pid s)) = sv_inMatch s" "sv_lobby (snd (timeout_one C now pid s)) = sv_lobby s"
  by (simp_all add: timeout_one_def Let_def split_beta)

lemma requeue_frame [simp]:
  "sv_inMatch (snd (requeueAfterPairFailure clock sess s)) = sv_inMatch s"
  "sv_lobby (snd (requeueAfterPairFailure clock sess s)) = snd (JoinQueue clock (se_PlayerID sess) (sv_lobby s))"
  by (simp_all add: requeueAfterPairFailure_def split_beta split: option.split prod.split)

lemma start_practice_frame:
  assumes "start_practice C now sess joinedAt s = (out, s')"
  shows "sv_inMatch s' = sv_inMatch s" "sv_lobby s' = snd (LeaveQueue (se_PlayerID sess) (sv_lobby s))"
  using assms by (auto simp: start_practice_def Let_def)

lemma lock_practice_ok:
  "lock_practice sess s = (None, s') \<longleftrightarrow> se_PlayerID sess \<notin> sv_inMatch s
     \<and> s' = clear_stamp (se_PlayerID sess) (s\<lparr>sv_inMatch := insert (se_PlayerID sess) (sv_inMatch s)\<rparr>)"
  "lock_practice sess s = (Some err, s') \<Longrightarrow> s' = s"
  by (auto simp: lock_practice_def split: if_splits)

lemma release_claims:
  assumes "\<forall>p. count (mset ids + claimed T) p = (if p \<in> M then 1 else 0)"
  shows "count (claimed T) p = (if p \<in> M - set ids then 1 else 0)"
proof -
  define n where "n = count (mset ids) p"
  have "n + count (claimed T) p = (if p \<in> M then 1 else 0)"
    using assms by (simp add: n_def)
  moreover have "n = 0 \<longleftrightarrow> p \<notin> set ids"
    unfolding n_def by (simp only: count_eq_zero_iff set_mset_mset)
  ultimately show ?thesis by (auto split: if_splits)
qed

lemma wf_lobby_after:
  "JoinQueue clock pid lb = (err, lb') \<Longrightarrow> wf_lobby lb \<Longrightarrow> wf_lobby lb'"
  "Register sess lb = (err, lb') \<Longrightarrow> wf_lobby lb \<Longrightarrow> wf_lobby lb'"
  using wf_JoinQueue [of lb clock pid] wf_Register [of lb sess] by simp_all

lemma svc_step_claims:
  assumes "svc_step C cfg cfg'" "claims_ok cfg"
  shows "claims_ok cfg'"
  using assms
proof (cases rule: svc_step.cases)
  case (claim sess s s' T)
  with assms(2) show ?thesis by (auto simp: claims_ok_def lock_practice_ok(1))
next
  case (claim_fails sess s err s' T)
  with assms(2) show ?thesis by (auto simp: claims_ok_def dest: lock_practice_ok(2))
next
  case (practice_starts now sess joinedAt s out s' T)
  with assms(2) show ?thesis
    using lobby.leave_inv start_practice_frame [OF practice_starts(3)] by (simp add: claims_ok_def)
next
  case (pop clock now s pair timedOut lb T)
  with assms(2) show ?thesis
    using lobby.pop_inv [of "sv_lobby s" clock now "sc_QueueTimeout C"] by (simp add: claims_ok_def)
next
  case (timed_out now pid s out s' pair ids T)
  with assms(2) show ?thesis
    using timeout_one_frame [of C now pid s] by (simp add: claims_ok_def)
next
  case (wait1 a b now s w1 s' T)
  with assms(2) show ?thesis
    using queueWaitAndClear_frame [of a now s] by (simp add: claims_ok_def)
next
  case (wait2 b now s w2 s' a w1 T)
  with assms(2) show ?thesis
    using queueWaitAndClear_frame [of b now s] by (simp add: claims_ok_def)
next
  case (mark a b s s' w1 w2 T)
  with assms(2) show ?thesis by (auto simp: claims_ok_def mark_pair_def split: if_splits)
next
  case (launch_fails ok1 b s a w1 w2 T)
  have "count (claimed T) p = (if p \<in> sv_inMatch s - set [a, b] then 1 else 0)" for p
    using assms(2) launch_fails by (intro release_claims) (simp add: claims_ok_def)
  with assms(2) launch_fails show ?thesis by (simp add: claims_ok_def)
next
  case (requeue clock sess s out s' rest T)
  with assms(2) show ?thesis
    using requeue_frame [of clock sess s] lobby.join_inv by (simp add: claims_ok_def)
next
  case (finish s ids T)
  have "count (claimed T) p = (if p \<in> sv_inMatch s - set ids then 1 else 0)" for p
    using assms(2) finish by (intro release_claims) (simp add: claims_ok_def)
  with assms(2) finish show ?thesis by (simp add: claims_ok_def)
qed (auto simp: claims_ok_def wf_Unregister intro: lobby.leave_inv wf_lobby_after)


lemma reachable_claims: "reachable C cfg \<Longrightarrow> claims_ok cfg"
proof (induction rule: reachable.induct)
  case start
  show ?case by (simp add: claims_ok_def NewService_def NewLobby_def wf_lobby_def)
next
  case (step cfg cfg')
  then show ?case by (blast intro: svc_step_claims)
qed

section \<open>Properties\<close>

text \<open>
  C7: However the operations of any number of clients, the queue ticks and the ends of matches
  interleave, no player is ever in two matches, and the service reports a player as busy exactly
  while one match or one operation about to start one holds the player.
\<close>

theorem nobody_plays_twice:
  assumes "reachable C (s, T)"
  shows "count (claimed T) p \<le> 1 \<and> (count (claimed T) p = 1 \<longleftrightarrow> p \<in> sv_inMatch s)
    \<and> (p \<noteq> [] \<longrightarrow> (IsPlayerInMatch p s \<longleftrightarrow> (\<exists>t \<in># T. p \<in> set (claims t))))"
proof -
  have count: "count (claimed T) p = (if p \<in> sv_inMatch s then 1 else 0)"
    using reachable_claims [OF assms] by (simp add: claims_ok_def)
  have "p \<in># claimed T \<longleftrightarrow> (\<exists>t \<in># T. p \<in> set (claims t))"
    by (simp add: claimed_def)
  moreover have "p \<in># claimed T \<longleftrightarrow> p \<in> sv_inMatch s"
    by (metis count count_eq_zero_iff zero_neq_one)
  ultimately have "p \<in> sv_inMatch s \<longleftrightarrow> (\<exists>t \<in># T. p \<in> set (claims t))" by simp
  with count show ?thesis by (simp add: IsPlayerInMatch_def)
qed

lemma timeout_all_no_start: "StartedPvP s1 s2 w1 w2 \<notin> set (fst (timeout_all C now ids s))"
  by (induction C now ids s rule: timeout_all.induct)
    (auto simp: timeout_one_def queue_event_def inc_counter_def frame_to_def sendFrame_def Let_def
      split_beta split: option.splits if_splits)

text \<open>A tick that finds a pair starts its match.\<close>

lemma processQueue_pair:
  assumes "wf_lobby (sv_lobby s)" "set (lo_queue (sv_lobby s)) \<inter> sv_inMatch s = {}"
    and "processQueue C clock now s = (out, s')"
    and pop: "PopNextPair clock now (sc_QueueTimeout C) (sv_lobby s) = ((Some (a, b), timedOut), lb)"
  obtains sess1 sess2 w1 w2 where "a \<noteq> b" "sv_lobby s' = lb" "sv_inMatch s' = sv_inMatch s \<union> set [a, b]"
    "GetSession a (sv_lobby s) = Some sess1" "GetSession b (sv_lobby s) = Some sess2"
    "StartedPvP sess1 sess2 w1 w2 \<in> set out"
proof -
  let ?s1 = "snd (timeout_all C now timedOut (s\<lparr>sv_lobby := lb\<rparr>))"
  note two = lobby.pair_ok [OF assms(1) pop]
  define w1 where "w1 = fst (queueWaitAndClear a now ?s1)"
  define s2 where "s2 = snd (queueWaitAndClear a now ?s1)"
  define w2 where "w2 = fst (queueWaitAndClear b now s2)"
  define s3 where "s3 = snd (queueWaitAndClear b now s2)"
  have s3: "sv_lobby s3 = lb" "sv_inMatch s3 = sv_inMatch s" by (simp_all add: s3_def s2_def)
  obtain out1 where popped: "pop_pair C clock now s = ((Some (a, b, w1, w2), out1), s3)"
    using pop two by (simp add: pop_pair_def Let_def split_beta w1_def w2_def s2_def s3_def)
  define s4 where "s4 = s3\<lparr>sv_inMatch := insert b (insert a (sv_inMatch s3))\<rparr>"
  have "a \<notin> sv_inMatch s" "b \<notin> sv_inMatch s" using two assms(2) by auto
  then have marked: "mark_pair a b s3 = Some s4" by (simp add: mark_pair_def s3 s4_def)
  obtain sess1 sess2 where sess: "GetSession a lb = Some sess1" "GetSession b lb = Some sess2"
    using two lobby.sessions_kept(3) [of a clock now "sc_QueueTimeout C" "sv_lobby s"]
      lobby.sessions_kept(3) [of b clock now "sc_QueueTimeout C" "sv_lobby s"] pop by auto
  then have kept: "GetSession a (sv_lobby s) = Some sess1" "GetSession b (sv_lobby s) = Some sess2"
    using lobby.sessions_kept(3) [of _ clock now "sc_QueueTimeout C" "sv_lobby s"] pop by simp_all
  have "launch_pair C clock a b w1 w2 s4
      = (inc_counter C ''matches_started'' @ [StartedPvP sess1 sess2 w1 w2], s4)"
    using sess by (simp add: launch_pair_def s4_def s3)
  then have s': "s' = s4" and started: "StartedPvP sess1 sess2 w1 w2 \<in> set out"
    using assms(3) popped marked by (auto simp: processQueue_def Let_def)
  have after: "sv_lobby s' = lb" "sv_inMatch s' = sv_inMatch s \<union> set [a, b]" by (auto simp: s' s4_def s3)
  from two have "a \<noteq> b" by simp
  then show thesis using after kept started by (rule that)
qed

lemma one_timeout:
  "QueueEvent pid ''timeout'' w \<in> set (fst (timeout_one C now p s))
    \<longleftrightarrow> sc_store C \<and> pid = p \<and> w = fst (queueWaitAndClear p now s)"
  by (auto simp: timeout_one_def queue_event_def inc_counter_def frame_to_def Let_def split_beta split: option.splits)

lemma queue_timeouts:
  "(\<exists>w. QueueEvent pid ''timeout'' w \<in> set (fst (timeout_all C now ids s))) \<longleftrightarrow> sc_store C \<and> pid \<in> set ids"
proof (induction ids arbitrary: s)
  case (Cons p ids)
  show ?case
    using Cons.IH [of "snd (timeout_one C now p s)"] by (auto simp: Let_def split_beta one_timeout)
qed simp

lemma no_other_timeouts:
  "QueueEvent pid ''timeout'' w \<notin> set (matched_events C a b w1 w2)"
  "QueueEvent pid ''timeout'' w \<notin> set (fst (launch_pair C clock a b w1 w2 s))"
  by (auto simp: matched_events_def queue_event_def nav_event_def launch_pair_def inc_counter_def
      requeueAfterPairFailure_def Let_def split_beta split: option.splits prod.splits if_splits)

lemma processQueue_timeouts:
  assumes "PopNextPair clock now (sc_QueueTimeout C) (sv_lobby s) = ((pair, timedOut), lb)"
  shows "{pid. \<exists>w. QueueEvent pid ''timeout'' w \<in> set (fst (processQueue C clock now s))}
    = (if sc_store C then set timedOut else {})"
proof -
  have "{pid. \<exists>w. QueueEvent pid ''timeout'' w \<in> set (fst (processQueue C clock now s))}
      = {pid. \<exists>w. QueueEvent pid ''timeout'' w \<in> set (fst (timeout_all C now timedOut (s\<lparr>sv_lobby := lb\<rparr>)))}"
    using assms
    by (auto simp: processQueue_def pop_pair_def Let_def split_beta no_other_timeouts split: option.splits)
  then show ?thesis by (simp add: queue_timeouts)
qed

text \<open>
  C24: A tick of the queue, when nothing comes between its steps and no waiting player is busy, loses
  nobody. The players who leave without a match are exactly those who have waited for the limit, if there is
  one, and with a store each of them, and nobody else, is recorded as timed out. Of the others the
  two longest waiting are started against each other, and the rest wait on, in their order and with their joining
  times; if fewer than two are left they all wait on and no match starts.
\<close>

theorem processQueue_loses_nobody:
  assumes "wf_lobby (sv_lobby s)" "set (lo_queue (sv_lobby s)) \<inter> sv_inMatch s = {}"
    and "processQueue C clock now s = (out, s')"
  shows "let late = expired (if IsZero now then clock else now) (sc_QueueTimeout C);
      live = filter (\<lambda>e. \<not> late e) (waiting (sv_lobby s))
    in {pid. \<exists>w. QueueEvent pid ''timeout'' w \<in> set out}
        = (if sc_store C then fst ` set (filter late (waiting (sv_lobby s))) else {})
    \<and> (if length live < 2
       then waiting (sv_lobby s') = live \<and> sv_inMatch s' = sv_inMatch s \<and> (\<forall>x y w1 w2. StartedPvP x y w1 w2 \<notin> set out)
       else \<exists>a ta b tb sess1 sess2 w1 w2. live = (a, ta) # (b, tb) # waiting (sv_lobby s') \<and> a \<noteq> b
         \<and> sv_inMatch s' = sv_inMatch s \<union> {a, b}
         \<and> GetSession a (sv_lobby s) = Some sess1 \<and> GetSession b (sv_lobby s) = Some sess2
         \<and> StartedPvP sess1 sess2 w1 w2 \<in> set out)"
proof -
  obtain pair timedOut lb where pop: "PopNextPair clock now (sc_QueueTimeout C) (sv_lobby s) = ((pair, timedOut), lb)"
    by (metis prod.exhaust)
  let ?late = "expired (if IsZero now then clock else now) (sc_QueueTimeout C)"
  let ?live = "filter (\<lambda>e. \<not> ?late e) (waiting (sv_lobby s))"
  note spec = PopNextPair_spec(2) [OF assms(1) pop]
  have "timedOut = map fst (filter ?late (waiting (sv_lobby s)))"
    using spec by (auto simp: spec_pop_def Let_def split: list.splits)
  then have "{pid. \<exists>w. QueueEvent pid ''timeout'' w \<in> set out}
      = (if sc_store C then fst ` set (filter ?late (waiting (sv_lobby s))) else {})"
    using processQueue_timeouts [OF pop] assms(3) by (simp del: set_filter)
  moreover have "if length ?live < 2
     then waiting (sv_lobby s') = ?live \<and> sv_inMatch s' = sv_inMatch s \<and> (\<forall>x y w1 w2. StartedPvP x y w1 w2 \<notin> set out)
     else \<exists>a ta b tb sess1 sess2 w1 w2. ?live = (a, ta) # (b, tb) # waiting (sv_lobby s') \<and> a \<noteq> b
       \<and> sv_inMatch s' = sv_inMatch s \<union> {a, b}
       \<and> GetSession a (sv_lobby s) = Some sess1 \<and> GetSession b (sv_lobby s) = Some sess2
       \<and> StartedPvP sess1 sess2 w1 w2 \<in> set out"
  proof (cases pair)
    case None
    then have run: "out = fst (timeout_all C now timedOut (s\<lparr>sv_lobby := lb\<rparr>))"
      "s' = snd (timeout_all C now timedOut (s\<lparr>sv_lobby := lb\<rparr>))"
      using assms(3) pop by (simp_all add: processQueue_def pop_pair_def Let_def split_beta)
    have "waiting lb = ?live \<and> length ?live < 2"
      using spec unfolding None by (cases ?live rule: remdups_adj.cases) (auto simp: spec_pop_def Let_def dest: sym)
    then show ?thesis by (simp add: run timeout_all_no_start)
  next
    case (Some ab)
    then obtain a b where ab: "pair = Some (a, b)" by (cases ab) auto
    obtain sess1 sess2 w1 w2 where run: "a \<noteq> b" "sv_lobby s' = lb" "sv_inMatch s' = sv_inMatch s \<union> set [a, b]"
      "GetSession a (sv_lobby s) = Some sess1" "GetSession b (sv_lobby s) = Some sess2"
      "StartedPvP sess1 sess2 w1 w2 \<in> set out"
      by (rule processQueue_pair [OF assms pop [unfolded ab]])
    obtain ta tb where "?live = (a, ta) # (b, tb) # waiting lb"
      using spec unfolding ab by (cases ?live rule: remdups_adj.cases) (auto simp: spec_pop_def Let_def)
    with run show ?thesis by auto
  qed
  ultimately show ?thesis by (simp only: Let_def)
qed

definition demo_service :: service_state where
  "demo_service = (NewService demo_lobby)\<lparr>sv_queueJoinedAt := [''a'' \<mapsto> 10, ''b'' \<mapsto> 50, ''c'' \<mapsto> 60]\<rparr>"

definition demo_service_config :: service_config where
  "demo_service_config = \<lparr>sc_QueueTimeout = 45, sc_store = True, sc_telemetry = True\<rparr>"

text \<open>The first of the three waiting players has timed out, and the two others are matched.\<close>

lemma processQueue_loses_nobody_witness:
  "let (out, s') = processQueue demo_service_config 70 70 demo_service
   in {pid. \<exists>w. QueueEvent pid ''timeout'' w \<in> set out} = {''a''} \<and> lo_queue (sv_lobby s') = []
     \<and> sv_inMatch s' = {''b'', ''c''}"
proof -
  have ok: "wf_lobby (sv_lobby demo_service)" "set (lo_queue (sv_lobby demo_service)) \<inter> sv_inMatch demo_service = {}"
    using demo_lobby_wf by (simp_all add: demo_service_def NewService_def)
  obtain out s' where run: "processQueue demo_service_config 70 70 demo_service = (out, s')" by fastforce
  have late: "filter (expired (if IsZero 70 then 70 else 70) (sc_QueueTimeout demo_service_config))
      (waiting (sv_lobby demo_service)) = [(''a'', 10)]"
    "filter (\<lambda>e. \<not> expired (if IsZero 70 then 70 else 70) (sc_QueueTimeout demo_service_config) e)
      (waiting (sv_lobby demo_service)) = [(''b'', 50), (''c'', 60)]"
    "sc_store demo_service_config" "sv_inMatch demo_service = {}"
    by (code_simp, code_simp, code_simp, simp add: demo_service_def NewService_def)
  have "lo_queue (sv_lobby s') = []" if "waiting (sv_lobby s') = []"
    using that by (simp flip: map_fst_waiting)
  then show ?thesis
    using processQueue_loses_nobody [OF ok run, unfolded late Let_def] late(3) by (auto simp: run)
qed

text \<open>Two players register, queue up and are matched, as far as the running match.\<close>

lemma demo_match_runs:
  obtains s where "reachable demo_service_config (s, {#Playing [''a'', ''b'']#})" "sv_inMatch s = {''a'', ''b''}"
proof -
  let ?a = "\<lparr>se_PlayerID = ''a'', se_Handle = ''ann'', se_RemoteAddr = ''''\<rparr>"
    and ?b = "\<lparr>se_PlayerID = ''b'', se_Handle = ''ben'', se_RemoteAddr = ''''\<rparr>"
  let ?C = demo_service_config
  define l1 where "l1 = snd (Register ?a NewLobby)"
  define l2 where "l2 = snd (Register ?b l1)"
  define l3 where "l3 = snd (JoinQueue 1 ''a'' l2)"
  define l4 where "l4 = snd (JoinQueue 2 ''b'' l3)"
  define l5 where "l5 = snd (PopNextPair 3 3 45 l4)"
  note lobbies = l1_def l2_def l3_def l4_def l5_def
  have calls: "Register ?a NewLobby = (None, l1)" "Register ?b l1 = (None, l2)" "JoinQueue 1 ''a'' l2 = (None, l3)"
    "JoinQueue 2 ''b'' l3 = (None, l4)" "PopNextPair 3 3 45 l4 = ((Some (''a'', ''b''), []), l5)"
    "GetSession ''a'' l5 = Some ?a" "GetSession ''b'' l5 = Some ?b"
    unfolding lobbies by code_simp+
  define s0 where "s0 = NewService NewLobby"
  define s4 where "s4 = enqueue_stamp 1 ''a'' (s0\<lparr>sv_lobby := l3\<rparr>)"
  define s6 where "s6 = enqueue_stamp 2 ''b'' (s4\<lparr>sv_lobby := l4\<rparr>)"
  define s7 where "s7 = snd (queueWaitAndClear ''a'' 3 (s6\<lparr>sv_lobby := l5\<rparr>))"
  define s8 where "s8 = snd (queueWaitAndClear ''b'' 3 s7)"
  define s9 where "s9 = s8\<lparr>sv_inMatch := insert ''b'' (insert ''a'' (sv_inMatch s8))\<rparr>"
  have parts: "sv_lobby s0 = NewLobby" "sv_inMatch s0 = {}" "sv_lobby s4 = l3" "sv_inMatch s4 = {}" "sv_lobby s6 = l4"
    "sv_lobby s8 = l5" "sv_inMatch s8 = {}" "sc_QueueTimeout ?C = 45"
    by (simp_all add: s0_def s4_def s6_def s7_def s8_def NewService_def demo_service_config_def)
  have "reachable ?C (s0\<lparr>sv_lobby := l1\<rparr>, {#})"
    unfolding s0_def
    by (rule reachable.step [OF reachable.start svc_step.connect [of ?a _ None]])
      (simp add: calls parts(1) [unfolded s0_def])
  then have "reachable ?C (s0\<lparr>sv_lobby := l2\<rparr>, {#})"
    by (rule reachable.step) (use svc_step.connect [of ?b "s0\<lparr>sv_lobby := l1\<rparr>" None l2] calls in simp)
  then have "reachable ?C (s0\<lparr>sv_lobby := l2\<rparr>, {#EnqueueJoin ''a''#})"
    by (rule reachable.step) (rule svc_step.enqueue, simp add: parts)
  then have "reachable ?C (s0\<lparr>sv_lobby := l3\<rparr>, {#EnqueueStamp ''a''#})"
    by (rule reachable.step) (use svc_step.join [of 1 "''a''" "s0\<lparr>sv_lobby := l2\<rparr>" l3 ?C "{#}"] calls in simp)
  then have "reachable ?C (s4, {#})"
    unfolding s4_def by (rule reachable.step) (rule svc_step.stamp)
  then have "reachable ?C (s4, {#EnqueueJoin ''b''#})"
    by (rule reachable.step) (rule svc_step.enqueue, simp add: parts)
  then have "reachable ?C (s4\<lparr>sv_lobby := l4\<rparr>, {#EnqueueStamp ''b''#})"
    by (rule reachable.step) (rule svc_step.join [of 2], simp add: parts calls)
  then have "reachable ?C (s6, {#})"
    unfolding s6_def by (rule reachable.step) (rule svc_step.stamp)
  then have "reachable ?C (s6\<lparr>sv_lobby := l5\<rparr>, {#TickPopped 3 (Some (''a'', ''b'')) []#})"
    by (rule reachable.step) (rule svc_step.pop [of 3], simp add: parts calls)
  then have "reachable ?C (s7, {#TickWaited 3 ''a'' ''b'' (fst (queueWaitAndClear ''a'' 3 (s6\<lparr>sv_lobby := l5\<rparr>)))#})"
    unfolding s7_def by (rule reachable.step) (rule svc_step.wait1, simp_all)
  then have "reachable ?C (s8, {#PairPopped ''a'' ''b'' (fst (queueWaitAndClear ''a'' 3 (s6\<lparr>sv_lobby := l5\<rparr>)))
      (fst (queueWaitAndClear ''b'' 3 s7))#})"
    unfolding s8_def by (rule reachable.step) (rule svc_step.wait2, simp)
  then have "reachable ?C (s9, {#PairMarked ''a'' ''b'' (fst (queueWaitAndClear ''a'' 3 (s6\<lparr>sv_lobby := l5\<rparr>)))
      (fst (queueWaitAndClear ''b'' 3 s7))#})"
    by (rule reachable.step) (rule svc_step.mark, simp add: mark_pair_def s9_def parts)
  then have "reachable ?C (s9, {#PairLooked ''a'' ''b'' (fst (queueWaitAndClear ''a'' 3 (s6\<lparr>sv_lobby := l5\<rparr>)))
      (fst (queueWaitAndClear ''b'' 3 s7)) (Some ?a)#})"
    by (rule reachable.step) (use svc_step.look [of ?C s9 "''a''"] in \<open>simp add: s9_def parts calls\<close>)
  then have "reachable ?C (s9, {#Playing [''a'', ''b'']#})"
    by (rule reachable.step) (rule svc_step.launch, simp add: s9_def parts calls)
  then show thesis by (rule that) (auto simp: s9_def parts)
qed

text \<open>While that match runs both players are busy, and a third is not.\<close>

lemma nobody_plays_twice_witness:
  "\<exists>s. reachable demo_service_config (s, {#Playing [''a'', ''b'']#})
    \<and> count (claimed {#Playing [''a'', ''b'']#}) ''a'' \<le> 1
    \<and> IsPlayerInMatch ''a'' s \<and> IsPlayerInMatch ''b'' s \<and> \<not> IsPlayerInMatch ''c'' s"
proof -
  obtain s where run: "reachable demo_service_config (s, {#Playing [''a'', ''b'']#})" "sv_inMatch s = {''a'', ''b''}"
    by (rule demo_match_runs)
  from nobody_plays_twice [OF run(1), of "''a''"] nobody_plays_twice [OF run(1), of "''b''"]
    nobody_plays_twice [OF run(1), of "''c''"] run(1) show ?thesis by auto
qed

text \<open>
  The interleaving that does lose a player: \<open>p\<close> starts a practice match while heading the queue, and
  the tick pops \<open>p\<close> with \<open>q\<close> before \<open>p\<close> has left it. The pair is dropped, and \<open>q\<close>, next in line, is
  then neither waiting nor in a match, and its waiting time is forgotten.
\<close>

lemma partner_of_busy_player_is_dropped:
  assumes queue: "lo_queue (sv_lobby s) = p # q # rest" "wf_lobby (sv_lobby s)" "sc_QueueTimeout C \<le> 0"
    and p: "GetSession p (sv_lobby s) = Some sess" "se_PlayerID sess = p" "p \<notin> sv_inMatch s"
    and q: "q \<notin> sv_inMatch s"
  shows "\<exists>s'. (svc_step C)\<^sup>*\<^sup>* (s, T) (s', add_mset (PracticeClaimed sess (sv_queueJoinedAt s p)) T)
    \<and> q \<notin> set (lo_queue (sv_lobby s')) \<and> \<not> IsPlayerInMatch q s' \<and> sv_queueJoinedAt s' q = None"
proof -
  have names: "p \<noteq> []" "q \<noteq> []" "p \<noteq> q" "q \<notin> set rest"
    using lobby.line_named [OF queue(2)] lobby.line_distinct [OF queue(2)] queue(1) by auto
  define T1 where "T1 = add_mset (PracticeClaimed sess (sv_queueJoinedAt s p)) T"
  define s1 where "s1 = clear_stamp p (s\<lparr>sv_inMatch := insert p (sv_inMatch s)\<rparr>)"
  have check: "svc_step C (s, T) (s, add_mset (PracticeChecked sess) T)"
    using p names by (intro svc_step.practice) (simp add: practice_guard_def)
  have claim: "svc_step C (s, add_mset (PracticeChecked sess) T) (s1, T1)"
    unfolding T1_def p(2) [symmetric] using p by (intro svc_step.claim) (simp add: lock_practice_ok s1_def)
  have s1: "sv_lobby s1 = sv_lobby s" "sv_inMatch s1 = insert p (sv_inMatch s)" by (simp_all add: s1_def)
  define lb where "lb = snd (PopNextPair 0 1 (sc_QueueTimeout C) (sv_lobby s))"
  have "PopNextPair 0 1 (sc_QueueTimeout C) (sv_lobby s1) = ((Some (p, q), []), lb)" and rest: "lo_queue lb = rest"
    using queue by (simp_all add: PopNextPair_def lb_def s1 Let_def)
  then have pop: "svc_step C (s1, T1) (s1\<lparr>sv_lobby := lb\<rparr>, add_mset (TickPopped 1 (Some (p, q)) []) T1)"
    by (intro svc_step.pop)
  obtain w1 s2 where w1: "queueWaitAndClear p 1 (s1\<lparr>sv_lobby := lb\<rparr>) = (w1, s2)" by fastforce
  obtain w2 s3 where w2: "queueWaitAndClear q 1 s2 = (w2, s3)" by fastforce
  have s3: "sv_lobby s3 = lb" "sv_inMatch s3 = insert p (sv_inMatch s)"
    using queueWaitAndClear_frame [of p 1 "s1\<lparr>sv_lobby := lb\<rparr>"] queueWaitAndClear_frame [of q 1 s2] w1 w2 s1 by simp_all
  have stamp: "sv_queueJoinedAt s3 q = None"
    using w2 by (auto simp: queueWaitAndClear_def clear_stamp_def split: option.splits)
  have waits: "svc_step C (s1\<lparr>sv_lobby := lb\<rparr>, add_mset (TickPopped 1 (Some (p, q)) []) T1)
      (s2, add_mset (TickWaited 1 p q w1) T1)"
    "svc_step C (s2, add_mset (TickWaited 1 p q w1) T1) (s3, add_mset (PairPopped p q w1 w2) T1)"
    by (rule svc_step.wait1 [OF names(1-3) w1], rule svc_step.wait2 [OF w2])
  have drop: "svc_step C (s3, add_mset (PairPopped p q w1 w2) T1) (s3, T1)"
    by (rule svc_step.mark_fails) (simp add: mark_pair_def s3)
  from waits(2) drop have "(svc_step C)\<^sup>*\<^sup>* (s2, add_mset (TickWaited 1 p q w1) T1) (s3, T1)"
    by (meson rtranclp.rtrancl_refl rtranclp.rtrancl_into_rtrancl)
  with check claim pop waits(1) have "(svc_step C)\<^sup>*\<^sup>* (s, T) (s3, T1)"
    by (meson converse_rtranclp_into_rtranclp)
  with s3 rest names q stamp show ?thesis by (intro exI [of _ s3]) (simp add: IsPlayerInMatch_def T1_def)
qed

end
