(* ===== verification/Spectator.thy ===== *)
theory Spectator
  imports Matchmaking
begin

text \<open>
  The spectator hub, \<^verbatim>\<open>internal/spectator/hub.go\<close>. Watchers own channels, which are closed by the
  hub and written to by broadcasts: a store maps each channel to its buffer and whether it is
  closed, and a send or a close on a closed channel panics, as in Go.

  \<^verbatim>\<open>Broadcast\<close> takes its list of channels under the lock and sends after releasing it;
  \<^verbatim>\<open>UnregisterMatch\<close> closes after releasing it. The relation \<open>hub_step\<close> interleaves them. Its
  invariant: no channel is closed twice, no buffer exceeds its capacity, no match exceeds the
  limit it is watched with. It also has a run in which a broadcast sends to a channel that a leaving
  watcher has closed (\<open>broadcast_can_panic\<close>).
\<close>

section \<open>Channels and hub\<close>

record chan =
  ch_buf :: "string list list"
  ch_cap :: nat
  ch_closed :: bool

type_synonym watchers = "(string \<times> nat) list"

record hub =
  hb_matches :: "string \<rightharpoonup> watchers"
  hb_chans :: "nat \<rightharpoonup> chan"

definition NewHub :: hub where
  "NewHub = \<lparr>hb_matches = Map.empty, hb_chans = Map.empty\<rparr>"

datatype hub_error = ErrHubArguments | ErrMatchNotActive | ErrAlreadyAttached | ErrCapacity

text \<open>Closing a channel and a send that does not block; \<open>None\<close> is the panic.\<close>

definition close_chan :: "nat \<Rightarrow> hub \<Rightarrow> hub option" where
  "close_chan c h = (case hb_chans h c of
     None \<Rightarrow> None
   | Some ch \<Rightarrow> if ch_closed ch then None
       else Some (h\<lparr>hb_chans := (hb_chans h)(c \<mapsto> ch\<lparr>ch_closed := True\<rparr>)\<rparr>))"

definition try_send :: "nat \<Rightarrow> string list \<Rightarrow> hub \<Rightarrow> hub option" where
  "try_send c payload h = (case hb_chans h c of
     None \<Rightarrow> None
   | Some ch \<Rightarrow> if ch_closed ch then None
       else if length (ch_buf ch) < ch_cap ch
         then Some (h\<lparr>hb_chans := (hb_chans h)(c \<mapsto> ch\<lparr>ch_buf := ch_buf ch @ [payload]\<rparr>)\<rparr>)
         else Some h)"

fun each_chan :: "(nat \<Rightarrow> hub \<Rightarrow> hub option) \<Rightarrow> nat list \<Rightarrow> hub \<Rightarrow> hub option" where
  "each_chan f [] h = Some h"
| "each_chan f (c # cs) h = (case f c h of None \<Rightarrow> None | Some h' \<Rightarrow> each_chan f cs h')"

definition RegisterMatch :: "string \<Rightarrow> hub \<Rightarrow> hub" where
  "RegisterMatch matchID h = (if matchID = '''' then h
     else if hb_matches h matchID = None then h\<lparr>hb_matches := (hb_matches h)(matchID \<mapsto> [])\<rparr> else h)"

text \<open>The locked half of \<open>UnregisterMatch\<close>, with the channels it goes on to close.\<close>

definition forget_match :: "string \<Rightarrow> hub \<Rightarrow> nat list \<times> hub" where
  "forget_match matchID h =
     (case hb_matches h matchID of None \<Rightarrow> [] | Some ws \<Rightarrow> map snd ws,
      h\<lparr>hb_matches := (hb_matches h)(matchID := None)\<rparr>)"

definition UnregisterMatch :: "string \<Rightarrow> hub \<Rightarrow> hub option" where
  "UnregisterMatch matchID h = (if matchID = '''' then Some h
     else let (chans, h) = forget_match matchID h in each_chan close_chan chans h)"

definition AddWatcher :: "string \<Rightarrow> string \<Rightarrow> nat option \<Rightarrow> int \<Rightarrow> hub \<Rightarrow> hub_error option \<times> hub" where
  "AddWatcher matchID watcherID ch maxPerMatch h = (case ch of
     None \<Rightarrow> (Some ErrHubArguments, h)
   | Some c \<Rightarrow>
       if matchID = '''' \<or> watcherID = '''' then (Some ErrHubArguments, h)
       else let maxPerMatch = (if maxPerMatch \<le> 0 then 20 else maxPerMatch) in
         case hb_matches h matchID of
           None \<Rightarrow> (Some ErrMatchNotActive, h)
         | Some ws \<Rightarrow>
             if map_of ws watcherID \<noteq> None then (Some ErrAlreadyAttached, h)
             else if int (length ws) \<ge> maxPerMatch then (Some ErrCapacity, h)
             else (None, h\<lparr>hb_matches := (hb_matches h)(matchID \<mapsto> (watcherID, c) # ws)\<rparr>))"

definition RemoveWatcher :: "string \<Rightarrow> string \<Rightarrow> hub \<Rightarrow> hub option" where
  "RemoveWatcher matchID watcherID h =
     (if matchID = '''' \<or> watcherID = '''' then Some h
      else case hb_matches h matchID of
        None \<Rightarrow> Some h
      | Some ws \<Rightarrow> (case map_of ws watcherID of
          None \<Rightarrow> Some h
        | Some c \<Rightarrow> close_chan c
            (h\<lparr>hb_matches := (hb_matches h)(matchID \<mapsto> AList.delete watcherID ws)\<rparr>)))"

definition broadcast_targets :: "string \<Rightarrow> string list \<Rightarrow> hub \<Rightarrow> nat list" where
  "broadcast_targets matchID lines h = (if matchID = '''' \<or> lines = [] then []
     else case hb_matches h matchID of None \<Rightarrow> [] | Some ws \<Rightarrow> map snd ws)"

definition Broadcast :: "string \<Rightarrow> string list \<Rightarrow> hub \<Rightarrow> hub option" where
  "Broadcast matchID lines h = each_chan (\<lambda>c. try_send c lines) (broadcast_targets matchID lines h) h"

definition Count :: "string \<Rightarrow> hub \<Rightarrow> int" where
  "Count matchID h = (case hb_matches h matchID of None \<Rightarrow> 0 | Some ws \<Rightarrow> int (length ws))"

section \<open>Interleaving\<close>

text \<open>
  \<open>Sending\<close> is a broadcast between two sends, \<open>Closing\<close> an unregistration between two closes. A
  watcher brings a channel of its own (\<open>watch\<close>), and a reader may take from a buffer at any time.
  \<open>maxw\<close> bounds the limits the watchers come with.
\<close>

datatype hub_thread = Sending "string list" "nat list" | Closing "nat list"

inductive hub_step :: "int \<Rightarrow> hub \<times> hub_thread multiset \<Rightarrow> hub \<times> hub_thread multiset \<Rightarrow> bool" for maxw where
  register: "hub_step maxw (h, T) (RegisterMatch m h, T)"
| unregister: "m \<noteq> '''' \<Longrightarrow> forget_match m h = (cs, h') \<Longrightarrow> hub_step maxw (h, T) (h', add_mset (Closing cs) T)"
| close: "close_chan c h = Some h' \<Longrightarrow>
    hub_step maxw (h, add_mset (Closing (c # cs)) T) (h', add_mset (Closing cs) T)"
| closed: "hub_step maxw (h, add_mset (Closing []) T) (h, T)"
| watch: "hb_chans h c = None \<Longrightarrow> 0 < maxPerMatch \<Longrightarrow> maxPerMatch \<le> maxw \<Longrightarrow>
    AddWatcher m w (Some c) maxPerMatch
      (h\<lparr>hb_chans := (hb_chans h)(c \<mapsto> \<lparr>ch_buf = [], ch_cap = k, ch_closed = False\<rparr>)\<rparr>) = (err, h') \<Longrightarrow>
    hub_step maxw (h, T) (h', T)"
| leave: "RemoveWatcher m w h = Some h' \<Longrightarrow> hub_step maxw (h, T) (h', T)"
| broadcast: "hub_step maxw (h, T) (h, add_mset (Sending lines (broadcast_targets m lines h)) T)"
| send: "try_send c lines h = Some h' \<Longrightarrow>
    hub_step maxw (h, add_mset (Sending lines (c # cs)) T) (h', add_mset (Sending lines cs) T)"
| sent: "hub_step maxw (h, add_mset (Sending lines []) T) (h, T)"
| receive: "hb_chans h c = Some ch \<Longrightarrow> ch_buf ch = payload # rest \<Longrightarrow>
    hub_step maxw (h, T) (h\<lparr>hb_chans := (hb_chans h)(c \<mapsto> ch\<lparr>ch_buf := rest\<rparr>)\<rparr>, T)"

inductive hub_reachable :: "int \<Rightarrow> hub \<times> hub_thread multiset \<Rightarrow> bool" for maxw where
  start: "hub_reachable maxw (NewHub, {#})"
| step: "hub_reachable maxw cfg \<Longrightarrow> hub_step maxw cfg cfg' \<Longrightarrow> hub_reachable maxw cfg'"

text \<open>The channels the hub may still close: those attached, and those of unregistrations under way.\<close>

fun closing :: "hub_thread \<Rightarrow> nat list" where
  "closing (Closing cs) = cs"
| "closing (Sending _ _) = []"

definition to_close :: "hub_thread multiset \<Rightarrow> nat multiset" where
  "to_close T = \<Sum>\<^sub># (image_mset (\<lambda>t. mset (closing t)) T)"

lemma to_close_simps [simp]:
  "to_close {#} = {#}" "to_close (add_mset t T) = mset (closing t) + to_close T"
  by (simp_all add: to_close_def)

definition is_open :: "(nat \<rightharpoonup> chan) \<Rightarrow> nat \<Rightarrow> bool" where
  "is_open chans c \<longleftrightarrow> (\<exists>ch. chans c = Some ch \<and> \<not> ch_closed ch)"

text \<open>What is true of the attached channels and of those still to be closed.\<close>

definition attached_ok :: "int \<Rightarrow> (string \<rightharpoonup> watchers) \<Rightarrow> (nat \<rightharpoonup> chan) \<Rightarrow> nat multiset \<Rightarrow> bool" where
  "attached_ok maxw ms chans cl \<longleftrightarrow>
     (\<forall>m ws. ms m = Some ws \<longrightarrow> m \<noteq> '''' \<and> distinct (map fst ws) \<and> distinct (map snd ws) \<and> int (length ws) \<le> maxw
        \<and> (\<forall>c \<in> snd ` set ws. is_open chans c \<and> c \<notin># cl))
     \<and> (\<forall>m n ws vs. ms m = Some ws \<longrightarrow> ms n = Some vs \<longrightarrow> m \<noteq> n \<longrightarrow> snd ` set ws \<inter> snd ` set vs = {})
     \<and> (\<forall>c. count cl c \<le> 1) \<and> (\<forall>c \<in># cl. is_open chans c)"

definition bufs_ok :: "(nat \<rightharpoonup> chan) \<Rightarrow> bool" where
  "bufs_ok chans \<longleftrightarrow> (\<forall>c ch. chans c = Some ch \<longrightarrow> length (ch_buf ch) \<le> ch_cap ch)"

definition hub_ok :: "int \<Rightarrow> hub \<times> hub_thread multiset \<Rightarrow> bool" where
  "hub_ok maxw cfg \<longleftrightarrow> attached_ok maxw (hb_matches (fst cfg)) (hb_chans (fst cfg)) (to_close (snd cfg))
     \<and> bufs_ok (hb_chans (fst cfg))"

lemma attached_okD:
  assumes "attached_ok maxw ms chans cl"
  shows "ms m = Some ws \<Longrightarrow> m \<noteq> [] \<and> distinct (map fst ws) \<and> distinct (map snd ws) \<and> int (length ws) \<le> maxw"
    and "ms m = Some ws \<Longrightarrow> c \<in> snd ` set ws \<Longrightarrow> is_open chans c \<and> c \<notin># cl"
    and "ms m = Some ws \<Longrightarrow> ms n = Some vs \<Longrightarrow> m \<noteq> n \<Longrightarrow> c \<in> snd ` set ws \<Longrightarrow> c \<notin> snd ` set vs"
    and "count cl c \<le> 1" and "c \<in># cl \<Longrightarrow> is_open chans c"
  using assms unfolding attached_ok_def by blast+

lemma attached_okI:
  assumes "\<And>m ws. ms m = Some ws \<Longrightarrow> m \<noteq> [] \<and> distinct (map fst ws) \<and> distinct (map snd ws) \<and> int (length ws) \<le> maxw"
    and "\<And>m ws c. ms m = Some ws \<Longrightarrow> c \<in> snd ` set ws \<Longrightarrow> is_open chans c \<and> c \<notin># cl"
    and "\<And>m n ws vs c. ms m = Some ws \<Longrightarrow> ms n = Some vs \<Longrightarrow> m \<noteq> n \<Longrightarrow> c \<in> snd ` set ws \<Longrightarrow> c \<notin> snd ` set vs"
    and "\<And>c. count cl c \<le> 1" and "\<And>c. c \<in># cl \<Longrightarrow> is_open chans c"
  shows "attached_ok maxw ms chans cl"
  unfolding attached_ok_def
proof (intro conjI allI impI ballI)
  fix m n ws vs assume "ms m = Some ws" "ms n = Some vs" "m \<noteq> n"
  from assms(3) [OF this] show "snd ` set ws \<inter> snd ` set vs = {}" by blast
next
  fix m ws assume m: "ms m = Some ws"
  from assms(1) [OF m] show "m \<noteq> []" "distinct (map fst ws)" "distinct (map snd ws)"
    "int (length ws) \<le> maxw" by blast+
  fix c assume "c \<in> snd ` set ws"
  from assms(2) [OF m this] show "is_open chans c" "c \<notin># cl" by blast+
next
  fix c show "count cl c \<le> 1" by (rule assms(4))
next
  fix c assume "c \<in># cl" then show "is_open chans c" by (rule assms(5))
qed

text \<open>Only the openness of channels matters to the first part.\<close>

lemma attached_ok_same_open:
  assumes "attached_ok maxw ms chans cl" "\<And>c. is_open chans c \<Longrightarrow> is_open chans' c"
  shows "attached_ok maxw ms chans' cl"
  using assms unfolding attached_ok_def by blast

lemma attached_ok_forget:
  assumes "attached_ok maxw ms chans cl"
  shows "attached_ok maxw (ms(m := None)) chans (mset (case ms m of None \<Rightarrow> [] | Some ws \<Rightarrow> map snd ws) + cl)"
proof (cases "ms m")
  case None
  with assms show ?thesis by (simp add: attached_ok_def fun_upd_idem)
next
  case (Some ws)
  have d: "distinct (map snd ws)" "\<forall>c \<in> snd ` set ws. is_open chans c \<and> c \<notin># cl"
    using assms Some by (simp_all add: attached_ok_def)
  have "count (mset (map snd ws) + cl) c \<le> 1" for c
  proof (cases "c \<in> snd ` set ws")
    case True
    with d(2) have "c \<notin># cl" by blast
    then have "count cl c = 0" by (simp add: count_eq_zero_iff)
    moreover have "count (mset (map snd ws)) c \<le> 1"
      using d(1) by (simp add: distinct_count_atmost_1 del: mset_map)
    ultimately show ?thesis by simp
  next
    case False
    then have "count (mset (map snd ws)) c = 0"
      by (simp only: count_eq_zero_iff set_mset_mset list.set_map not_False_eq_True)
    then have "count (mset (map snd ws) + cl) c = count cl c" by (simp only: count_union add_0)
    moreover have "count cl c \<le> 1" using assms by (simp add: attached_ok_def)
    ultimately show ?thesis by (simp only:)
  qed
  moreover have "is_open chans c" if "c \<in># mset (map snd ws) + cl" for c
    using that d(2) assms unfolding attached_ok_def set_mset_union set_mset_mset list.set_map by blast
  moreover have "c \<notin># mset (map snd ws) + cl" if "ms n = Some vs" "n \<noteq> m" "c \<in> snd ` set vs" for n vs c
    using assms Some that unfolding attached_ok_def set_mset_union set_mset_mset list.set_map by blast
  ultimately show ?thesis
    using assms unfolding attached_ok_def Some option.case
    by (simp only: fun_upd_apply split: if_split) blast
qed

lemma attached_ok_close:
  assumes "attached_ok maxw ms chans (add_mset c cl)" "chans c = Some ch"
  shows "attached_ok maxw ms (chans(c \<mapsto> ch')) cl"
proof -
  have cnt: "count (add_mset c cl) d \<le> 1" for d
    using assms(1) unfolding attached_ok_def by blast
  have "c \<notin># cl" using cnt [of c] by (simp add: not_in_iff)
  moreover have "c \<notin> snd ` set ws" if "ms m = Some ws" for m ws
    using assms(1) that by (auto simp: attached_ok_def)
  moreover have "count cl d \<le> 1" for d
    by (rule order_trans [OF _ cnt [of d]]) simp
  ultimately show ?thesis
    using assms(1) unfolding attached_ok_def is_open_def by (auto; fastforce)
qed


lemma attached_ok_detach:
  assumes ok: "attached_ok maxw ms chans cl" and m: "ms m = Some ws" and w: "map_of ws w = Some c"
    and c: "chans c = Some ch"
  shows "attached_ok maxw (ms(m \<mapsto> AList.delete w ws)) (chans(c \<mapsto> ch')) cl"
proof -
  let ?ds = "AList.delete w ws"
  note D = attached_okD [OF ok]
  have mem: "(w, c) \<in> set ws" using w by (rule map_of_SomeD)
  then have cws: "c \<in> snd ` set ws" by force
  have sub: "snd ` set ?ds \<subseteq> snd ` set ws" by (auto simp: AList.delete_eq)
  have fresh: "c \<notin> snd ` set ?ds"
  proof
    assume "c \<in> snd ` set ?ds"
    then obtain v where "(v, c) \<in> set ws" "v \<noteq> w" by (auto simp: AList.delete_eq)
    moreover have "inj_on snd (set ws)" using D(1) [OF m] by (simp add: distinct_map)
    ultimately show False using mem inj_onD [of snd "set ws" "(w, c)" "(v, c)"] by auto
  qed
  have keep: "is_open (chans(c \<mapsto> ch')) d" if "is_open chans d" "d \<noteq> c" for d
    using that by (simp add: is_open_def)
  have "length ?ds \<le> length ws" by (simp add: AList.delete_eq)
  moreover have "int (length ws) \<le> maxw" using D(1) [OF m] by blast
  ultimately have "int (length ?ds) \<le> maxw" by linarith
  moreover have "distinct (map fst ?ds)" "distinct (map snd ?ds)"
    using D(1) [OF m] by (simp_all add: AList.delete_eq distinct_map_filter)
  ultimately have short: "distinct (map fst ?ds)" "distinct (map snd ?ds)" "int (length ?ds) \<le> maxw"
    by blast+
  show ?thesis
  proof (rule attached_okI)
    fix n vs assume n: "(ms(m \<mapsto> ?ds)) n = Some vs"
    show "n \<noteq> [] \<and> distinct (map fst vs) \<and> distinct (map snd vs) \<and> int (length vs) \<le> maxw"
      using n short D(1) [OF m] D(1) [of n vs] by (cases "n = m") auto
    fix d assume d: "d \<in> snd ` set vs"
    show "is_open (chans(c \<mapsto> ch')) d \<and> d \<notin># cl"
    proof (cases "n = m")
      case True
      with n d sub fresh D(2) [OF m, of d] keep show ?thesis by auto
    next
      case False
      with n have "ms n = Some vs" by simp
      with D(2) [of n vs d] D(3) [OF this m False d] d keep cws show ?thesis by blast
    qed
    fix n' vs' assume n': "(ms(m \<mapsto> ?ds)) n' = Some vs'" "n \<noteq> n'"
    have old: "\<exists>us. ms k = Some us \<and> snd ` set xs \<subseteq> snd ` set us" if "(ms(m \<mapsto> ?ds)) k = Some xs" for k xs
      using that sub m by (cases "k = m") simp_all
    from old [OF n] old [OF n'(1)] obtain us us' where "ms n = Some us" "snd ` set vs \<subseteq> snd ` set us"
      "ms n' = Some us'" "snd ` set vs' \<subseteq> snd ` set us'" by blast
    with D(3) [of n us n' us' d] n'(2) d show "d \<notin> snd ` set vs'" by blast
  next
    show "count cl d \<le> 1" for d by (rule D(4))
    show "is_open (chans(c \<mapsto> ch')) d" if "d \<in># cl" for d
      using that D(2) [OF m cws] D(5) [OF that] keep by blast
  qed
qed

lemma attached_ok_attach:
  assumes "attached_ok maxw ms chans cl" "ms m = Some ws" "map_of ws w = None" "int (length ws) < maxw"
    and "chans c = None" "\<not> ch_closed ch"
  shows "attached_ok maxw (ms(m \<mapsto> (w, c) # ws)) (chans(c \<mapsto> ch)) cl"
proof -
  have "c \<notin># cl" using assms(1,5) unfolding attached_ok_def is_open_def by auto
  moreover have "c \<notin> snd ` set vs" if "ms n = Some vs" for n vs
    using assms(1,5) that unfolding attached_ok_def is_open_def by fastforce
  moreover have "w \<notin> fst ` set ws" using assms(3) by (simp add: map_of_eq_None_iff)
  ultimately show ?thesis
    using assms unfolding attached_ok_def is_open_def
    by (auto split: if_splits)
qed

lemma attached_ok_cong_chan:
  assumes "attached_ok maxw ms chans cl" "chans c = Some ch" "ch_closed ch' = ch_closed ch"
  shows "attached_ok maxw ms (chans(c \<mapsto> ch')) cl"
  by (rule attached_ok_same_open [OF assms(1)]) (use assms(2,3) in \<open>auto simp: is_open_def\<close>)

lemma bufs_ok_upd:
  assumes "bufs_ok chans" "length (ch_buf ch') \<le> ch_cap ch'"
  shows "bufs_ok (chans(c \<mapsto> ch'))"
  using assms by (auto simp: bufs_ok_def split: if_splits)

lemma bufs_okD: "bufs_ok chans \<Longrightarrow> chans c = Some ch \<Longrightarrow> length (ch_buf ch) \<le> ch_cap ch"
  by (simp add: bufs_ok_def)

lemma close_chan_Some:
  assumes "close_chan c h = Some h'"
  obtains ch where "hb_chans h c = Some ch" "h' = h\<lparr>hb_chans := (hb_chans h)(c \<mapsto> ch\<lparr>ch_closed := True\<rparr>)\<rparr>"
  using assms by (auto simp: close_chan_def split: option.splits if_splits)

lemma try_send_ok:
  assumes "try_send c lines h = Some h'" "attached_ok maxw (hb_matches h) (hb_chans h) cl" "bufs_ok (hb_chans h)"
  shows "hb_matches h' = hb_matches h" "attached_ok maxw (hb_matches h') (hb_chans h') cl" "bufs_ok (hb_chans h')"
proof -
  obtain ch where ch: "hb_chans h c = Some ch"
    and h': "h' = h \<or> length (ch_buf ch) < ch_cap ch
      \<and> h' = h\<lparr>hb_chans := (hb_chans h)(c \<mapsto> ch\<lparr>ch_buf := ch_buf ch @ [lines]\<rparr>)\<rparr>"
    using assms(1) by (auto simp: try_send_def split: option.splits if_splits)
  show "hb_matches h' = hb_matches h" using h' by auto
  show "attached_ok maxw (hb_matches h') (hb_chans h') cl"
    using h' assms(2) attached_ok_cong_chan [OF assms(2) ch, of "ch\<lparr>ch_buf := ch_buf ch @ [lines]\<rparr>"] by auto
  show "bufs_ok (hb_chans h')"
    using h' assms(3) bufs_ok_upd [OF assms(3), of "ch\<lparr>ch_buf := ch_buf ch @ [lines]\<rparr>" c] by auto
qed

lemma hub_step_ok:
  assumes "hub_step maxw cfg cfg'" "hub_ok maxw cfg" "0 < maxw"
  shows "hub_ok maxw cfg'"
  using assms(1)
proof (cases rule: hub_step.cases)
  case (register h T m)
  from assms(2) register have ok: "attached_ok maxw (hb_matches h) (hb_chans h) (to_close T)" by (simp add: hub_ok_def)
  have "attached_ok maxw ((hb_matches h)(m \<mapsto> [])) (hb_chans h) (to_close T)"
    if "hb_matches h m = None" "m \<noteq> []"
    using attached_okD [OF ok] assms(3) that by (intro attached_okI) (auto split: if_splits)
  with assms(2) register show ?thesis by (simp add: hub_ok_def RegisterMatch_def)
next
  case (unregister m h cs h' T)
  with assms(2) attached_ok_forget [of maxw "hb_matches h" "hb_chans h" "to_close T" m] show ?thesis
    by (auto simp: hub_ok_def forget_match_def)
next
  case (close c h h' cs T)
  from close(3) obtain ch where ch: "hb_chans h c = Some ch"
    "h' = h\<lparr>hb_chans := (hb_chans h)(c \<mapsto> ch\<lparr>ch_closed := True\<rparr>)\<rparr>" by (rule close_chan_Some)
  have "attached_ok maxw (hb_matches h) (hb_chans h) (add_mset c (mset cs + to_close T))" and b: "bufs_ok (hb_chans h)"
    using assms(2) close(1) by (simp_all add: hub_ok_def)
  from attached_ok_close [OF this(1) ch(1)] bufs_ok_upd [OF b, of "ch\<lparr>ch_closed := True\<rparr>" c] bufs_okD [OF b ch(1)]
  show ?thesis by (simp add: hub_ok_def close(2) ch(2))
next
  case (watch h c maxPerMatch m w k err h' T)
  let ?ch = "\<lparr>ch_buf = [], ch_cap = k, ch_closed = False\<rparr>"
  have bufs: "bufs_ok ((hb_chans h)(c \<mapsto> ?ch))" using assms(2) watch by (simp add: hub_ok_def bufs_ok_def)
  have ok: "attached_ok maxw (hb_matches h) (hb_chans h) (to_close T)" using assms(2) watch by (simp add: hub_ok_def)
  show ?thesis
  proof (cases "err = None")
    case True
    with watch obtain ws where "hb_matches h m = Some ws" "map_of ws w = None" "int (length ws) < maxPerMatch"
      "h' = \<lparr>hb_matches = (hb_matches h)(m \<mapsto> (w, c) # ws), hb_chans = (hb_chans h)(c \<mapsto> ?ch)\<rparr>"
      by (auto simp: AddWatcher_def Let_def split: if_splits option.splits)
    with attached_ok_attach [OF ok, of m ws w c ?ch] watch bufs show ?thesis by (simp add: hub_ok_def)
  next
    case False
    with watch have "h' = h\<lparr>hb_chans := (hb_chans h)(c \<mapsto> ?ch)\<rparr>"
      by (auto simp: AddWatcher_def Let_def split: if_splits option.splits)
    moreover have "attached_ok maxw (hb_matches h) ((hb_chans h)(c \<mapsto> ?ch)) (to_close T)"
      by (rule attached_ok_same_open [OF ok]) (auto simp: is_open_def)
    ultimately show ?thesis using watch bufs by (simp add: hub_ok_def)
  qed
next
  case (leave m w h h' T)
  from leave(3) have "h' = h \<or> (\<exists>ws c ch. hb_matches h m = Some ws \<and> map_of ws w = Some c \<and> hb_chans h c = Some ch
      \<and> h' = \<lparr>hb_matches = (hb_matches h)(m \<mapsto> AList.delete w ws),
              hb_chans = (hb_chans h)(c \<mapsto> ch\<lparr>ch_closed := True\<rparr>)\<rparr>)"
    by (auto simp: RemoveWatcher_def close_chan_def split: if_splits option.splits)
  then consider (same) "h' = h" | (gone) ws c ch where "hb_matches h m = Some ws" "map_of ws w = Some c"
      "hb_chans h c = Some ch" "h' = \<lparr>hb_matches = (hb_matches h)(m \<mapsto> AList.delete w ws),
        hb_chans = (hb_chans h)(c \<mapsto> ch\<lparr>ch_closed := True\<rparr>)\<rparr>" by blast
  then show ?thesis
  proof cases
    case same
    with assms(2) leave(1,2) show ?thesis by simp
  next
    case gone
    have ok: "attached_ok maxw (hb_matches h) (hb_chans h) (to_close T)" and b: "bufs_ok (hb_chans h)"
      using assms(2) leave(1) by (simp_all add: hub_ok_def)
    from attached_ok_detach [OF ok gone(1-3)] bufs_ok_upd [OF b, of "ch\<lparr>ch_closed := True\<rparr>" c] bufs_okD [OF b gone(3)]
    show ?thesis by (simp add: hub_ok_def leave(2) gone(4))
  qed
next
  case (send c lines h h' cs T)
  have "attached_ok maxw (hb_matches h) (hb_chans h) (to_close T)" "bufs_ok (hb_chans h)"
    using assms(2) send(1) by (simp_all add: hub_ok_def)
  from try_send_ok [OF send(3) this] show ?thesis by (simp add: hub_ok_def send(2))
next
  case (receive h c ch payload rest T)
  have ok: "attached_ok maxw (hb_matches h) (hb_chans h) (to_close T)" and b: "bufs_ok (hb_chans h)"
    using assms(2) receive(1) by (simp_all add: hub_ok_def)
  from attached_ok_cong_chan [OF ok receive(3), of "ch\<lparr>ch_buf := rest\<rparr>"] bufs_okD [OF b receive(3)]
    bufs_ok_upd [OF b, of "ch\<lparr>ch_buf := rest\<rparr>" c] receive(4)
  show ?thesis by (simp add: hub_ok_def receive(2))
qed (use assms(2) in \<open>simp_all add: hub_ok_def\<close>)

lemma hub_reachable_ok:
  assumes "hub_reachable maxw cfg" "0 < maxw"
  shows "hub_ok maxw cfg"
  using assms
proof (induction rule: hub_reachable.induct)
  case start
  show ?case by (simp add: hub_ok_def NewHub_def attached_ok_def bufs_ok_def)
next
  case (step cfg cfg')
  then show ?case using hub_step_ok by blast
qed

text \<open>
  A broadcast that has taken its list of channels and a watcher that leaves before the send: the
  hub closes the channel, and the send panics.
\<close>

lemma broadcast_can_panic:
  fixes m w :: string and lines :: "string list"
  assumes "m \<noteq> []" "w \<noteq> []" "lines \<noteq> []" "0 < maxw"
  shows "\<exists>h c. hub_reachable maxw (h, {#Sending lines [c]#}) \<and> try_send c lines h = None"
proof -
  let ?ch = "\<lparr>ch_buf = [], ch_cap = 32, ch_closed = False\<rparr>"
  define h1 where "h1 = RegisterMatch m NewHub"
  define h2 where "h2 = \<lparr>hb_matches = [m \<mapsto> [(w, 0)]], hb_chans = [0 \<mapsto> ?ch]\<rparr>"
  define h3 where "h3 = \<lparr>hb_matches = [m \<mapsto> []], hb_chans = [0 \<mapsto> ?ch\<lparr>ch_closed := True\<rparr>]\<rparr>"
  have h1: "h1 = \<lparr>hb_matches = [m \<mapsto> []], hb_chans = Map.empty\<rparr>"
    using assms by (simp add: h1_def RegisterMatch_def NewHub_def)
  have "hub_reachable maxw (h1, {#})"
    unfolding h1_def by (rule hub_reachable.step [OF hub_reachable.start hub_step.register])
  moreover have "hub_step maxw (h1, {#}) (h2, {#})"
    using assms by (intro hub_step.watch [where c = 0 and maxPerMatch = maxw and m = m and w = w and k = 32 and err = None])
      (simp_all add: h1 h2_def AddWatcher_def Let_def)
  moreover have "hub_step maxw (h2, {#}) (h2, {#Sending lines [0]#})"
    using hub_step.broadcast [of maxw h2 "{#}" lines m] assms by (simp add: broadcast_targets_def h2_def)
  moreover have "hub_step maxw (h2, {#Sending lines [0]#}) (h3, {#Sending lines [0]#})"
    using assms by (intro hub_step.leave [where m = m and w = w])
      (simp add: RemoveWatcher_def close_chan_def h2_def h3_def)
  ultimately have "hub_reachable maxw (h3, {#Sending lines [0]#})"
    by (blast intro: hub_reachable.step)
  moreover have "try_send 0 lines h3 = None" by (simp add: try_send_def h3_def)
  ultimately show ?thesis by blast
qed

lemma close_chan_open: "is_open (hb_chans h) c \<Longrightarrow> close_chan c h \<noteq> None"
  by (auto simp: is_open_def close_chan_def)

text \<open>A match with one watcher.\<close>

definition demo_hub :: hub where
  "demo_hub = \<lparr>hb_matches = [''m'' \<mapsto> [(''w'', 0)]],
               hb_chans = [0 \<mapsto> \<lparr>ch_buf = [], ch_cap = 1, ch_closed = False\<rparr>]\<rparr>"

lemma demo_hub_reachable: "hub_reachable 1 (demo_hub, {#})"
proof -
  have "hub_reachable 1 (RegisterMatch ''m'' NewHub, {#})"
    by (rule hub_reachable.step [OF hub_reachable.start hub_step.register])
  moreover have "hub_step 1 (RegisterMatch ''m'' NewHub, {#}) (demo_hub, {#})"
    by (rule hub_step.watch [where c = 0 and maxPerMatch = 1 and m = "''m''" and w = "''w''" and k = 1 and err = None])
      (simp_all add: RegisterMatch_def NewHub_def demo_hub_def AddWatcher_def)
  ultimately show ?thesis by (rule hub_reachable.step)
qed

section \<open>Properties\<close>

text \<open>
  C10: However watchers, broadcasts and the ends of matches interleave, the hub never closes a channel
  twice: neither a watcher that leaves nor an unregistration under way ever panics. No match has more
  watchers than the limit they come with, and no channel holds more than its capacity.
\<close>

theorem hub_never_closes_twice:
  assumes "hub_reachable maxw (h, T)" "0 < maxw"
  shows "(\<forall>m w. RemoveWatcher m w h \<noteq> None)
    \<and> (\<forall>c cs. Closing (c # cs) \<in># T \<longrightarrow> close_chan c h \<noteq> None)
    \<and> (\<forall>m. Count m h \<le> maxw)
    \<and> (\<forall>c ch. hb_chans h c = Some ch \<longrightarrow> length (ch_buf ch) \<le> ch_cap ch)"
proof -
  have ok: "attached_ok maxw (hb_matches h) (hb_chans h) (to_close T)" and bufs: "bufs_ok (hb_chans h)"
    using hub_reachable_ok [OF assms] by (simp_all add: hub_ok_def)
  note D = attached_okD [OF ok]
  have "RemoveWatcher m w h \<noteq> None" for m w
  proof (cases "\<exists>ws c. hb_matches h m = Some ws \<and> map_of ws w = Some c")
    case True
    then obtain ws c where ws: "hb_matches h m = Some ws" "map_of ws w = Some c" by blast
    then have "c \<in> snd ` set ws" by (force dest: map_of_SomeD)
    with D(2) [OF ws(1)] have "close_chan c (h\<lparr>hb_matches := ms\<rparr>) \<noteq> None" for ms
      by (intro close_chan_open) simp
    with ws show ?thesis by (simp add: RemoveWatcher_def)
  next
    case False
    then show ?thesis by (auto simp: RemoveWatcher_def split: option.split)
  qed
  moreover have "close_chan c h \<noteq> None" if T: "Closing (c # cs) \<in># T" for c cs
  proof -
    from T obtain T' where "T = add_mset (Closing (c # cs)) T'" by (metis mset_add)
    then have "is_open (hb_chans h) c" using D(5) [of c] by simp
    then show ?thesis by (rule close_chan_open)
  qed
  moreover have "Count m h \<le> maxw" for m
    using D(1) [of m] assms(2) by (simp add: Count_def split: option.split)
  ultimately show ?thesis using bufs_okD [OF bufs] by blast
qed

lemma hub_never_closes_twice_witness:
  "RemoveWatcher ''m'' ''w'' demo_hub \<noteq> None \<and> Count ''m'' demo_hub = 1 \<and> Count ''m'' demo_hub \<le> 1"
  using hub_never_closes_twice [OF demo_hub_reachable, simplified] by (simp add: Count_def demo_hub_def)

end
