(* ===== verification/Watching.thy ===== *)
theory Watching
  imports Spectator
begin

text \<open>
  Watching a match by the handle of a player, \<open>WatchByHandle\<close> of \<^verbatim>\<open>internal/matchmaking/service.go\<close>, and
  the start and stop of the matchmaker. The state of the service is read again and again while a
  spectator waits: what each look finds, with the clock and whether the context has ended, is a list
  of \<open>watch_poll\<close>s. What the stream brings is a list of \<open>stream_event\<close>s. A list that ends too early
  stands for a goroutine that still waits (\<open>None\<close>).
\<close>

section \<open>Watching by handle\<close>

datatype watch_error = ErrTargetRequired | ErrTargetNotFound string | ErrNoActivePvP
  | ErrWatchRejected hub_error | ErrWatchCanceled

record spectator_event =
  sp_SpectatorPlayerID :: string
  sp_TargetPlayerID :: string
  sp_MatchID :: "string option"
  sp_EventType :: string
  sp_WaitMS :: int
  sp_Detail :: detail

datatype watch_output = SpectatorRecorded spectator_event | WatchFrame "string list"
  | WatcherAdded string string | WatcherRemoved string string

datatype stream_event = StreamCanceled | StreamMatchDone | StreamPayload "string list" | StreamClosed

record watch_poll =
  wp_now :: time
  wp_state :: service_state
  wp_canceled :: bool

text \<open>\<open>GetByHandle\<close> is the store's lookup of a player id, if there is a store; handles are ASCII here.\<close>

definition resolveTargetPlayerID :: "(string \<Rightarrow> string option) option \<Rightarrow> string \<Rightarrow> service_state \<Rightarrow> string option" where
  "resolveTargetPlayerID store targetHandle s = (case lookupActiveMatchByHandle targetHandle s of
     Some mt \<Rightarrow>
       if EqualFold targetHandle (am_P1Handle mt) then Some (am_P1ID mt)
       else if EqualFold targetHandle (am_P2Handle mt) then Some (am_P2ID mt)
       else Some (am_P1ID mt)
   | None \<Rightarrow> (case store of None \<Rightarrow> None | Some GetByHandle \<Rightarrow> GetByHandle targetHandle))"

text \<open>The loop that waits for a match: a match, the deadline (\<open>None\<close>) or the end of the context.\<close>

fun await_match :: "time \<Rightarrow> string \<Rightarrow> watch_poll list \<Rightarrow> (watch_error + active_match option) option" where
  "await_match deadline handle [] = None"
| "await_match deadline handle (poll # polls) =
     (if \<not> wp_now poll < deadline then Some (Inr None)
      else case lookupActiveMatchByHandle handle (wp_state poll) of
        Some mt \<Rightarrow> Some (Inr (Some mt))
      | None \<Rightarrow> if wp_canceled poll then Some (Inl ErrWatchCanceled) else await_match deadline handle polls)"

text \<open>The loop over the stream: the frames sent on and how it ended.\<close>

fun stream_loop :: "session \<Rightarrow> stream_event list \<Rightarrow> (watch_output list \<times> string) option" where
  "stream_loop sess [] = None"
| "stream_loop sess (StreamCanceled # evs) = Some ([], ''context_canceled'')"
| "stream_loop sess (StreamMatchDone # evs) = Some ([], ''match_finished'')"
| "stream_loop sess (StreamClosed # evs) = Some ([], ''stream_closed'')"
| "stream_loop sess (StreamPayload lines # evs) =
     map_option (\<lambda>(out, reason). (map (\<lambda>(p, ls). WatchFrame ls) (sendFrame sess lines) @ out, reason))
       (stream_loop sess evs)"

fun hub_error_text :: "hub_error \<Rightarrow> string" where
  "hub_error_text ErrHubArguments = ''matchID, watcherID and channel are required''"
| "hub_error_text ErrMatchNotActive = ''match not active''"
| "hub_error_text ErrAlreadyAttached = ''watcher already attached''"
| "hub_error_text ErrCapacity = ''spectator capacity reached''"

definition spectator_out :: "bool \<Rightarrow> session \<Rightarrow> string \<Rightarrow> string option \<Rightarrow> string \<Rightarrow> int \<Rightarrow> detail
    \<Rightarrow> watch_output list" where
  "spectator_out store sess target matchID kind wait detail = (if store
     then [SpectatorRecorded \<lparr>sp_SpectatorPlayerID = se_PlayerID sess, sp_TargetPlayerID = target,
       sp_MatchID = matchID, sp_EventType = kind, sp_WaitMS = wait, sp_Detail = detail\<rparr>] else [])"

text \<open>
  \<open>s\<close> is the service's state when the request comes in, at \<open>requestedAt\<close>; \<open>later\<close> is the clock after the
  wait, \<open>h\<close> the hub then, \<open>uuid\<close> the fresh identifier and \<open>c\<close> the fresh channel of the watcher.
\<close>

definition WatchByHandle :: "(string \<Rightarrow> string option) option \<Rightarrow> session \<Rightarrow> string \<Rightarrow> duration \<Rightarrow> int
    \<Rightarrow> service_state \<Rightarrow> time \<Rightarrow> watch_poll list \<Rightarrow> time \<Rightarrow> string \<Rightarrow> nat \<Rightarrow> hub \<Rightarrow> stream_event list
    \<Rightarrow> (watch_error option \<times> watch_output list) option" where
  "WatchByHandle store sess targetHandle waitTimeout maxSpectators s requestedAt polls later uuid c h events =
     (let targetHandle = TrimSpace targetHandle in
      if targetHandle = [] then Some (Some ErrTargetRequired, [])
      else case resolveTargetPlayerID store targetHandle s of
        None \<Rightarrow> Some (Some (ErrTargetNotFound targetHandle), [])
      | Some target \<Rightarrow>
          (let waitTimeout = (if waitTimeout \<le> 0 then 120 * 1000000000 else waitTimeout);
               maxSpectators = (if maxSpectators \<le> 0 then 20 else maxSpectators);
               record_event = spectator_out (store \<noteq> None) sess target;
               requested = record_event None ''watch_requested'' 0 [(''target_handle'', DetailText targetHandle)];
               deadline = requestedAt + waitTimeout
           in case await_match deadline targetHandle polls of
             None \<Rightarrow> None
           | Some (Inl err) \<Rightarrow> Some (Some err, requested)
           | Some (Inr None) \<Rightarrow> Some (Some ErrNoActivePvP, requested
               @ record_event None ''watch_timeout'' (wait_ms later requestedAt) [(''target_handle'', DetailText targetHandle)])
           | Some (Inr (Some mt)) \<Rightarrow>
               (let matchID = am_MatchID mt; watcherID = se_PlayerID sess @ '':'' @ uuid in
                case AddWatcher matchID watcherID (Some c) maxSpectators h of
                  (Some err, _) \<Rightarrow> Some (Some (ErrWatchRejected err), requested
                    @ record_event (Some matchID) ''watch_rejected'' 0 [(''error'', DetailText (hub_error_text err))])
                | (None, _) \<Rightarrow>
                    (let attached = requested @ [WatcherAdded matchID watcherID]
                         @ record_event (Some matchID) ''watch_attached'' (wait_ms later requestedAt)
                             [(''target_handle'', DetailText targetHandle)]
                         @ map (\<lambda>(p, ls). WatchFrame ls) (sendFrame sess [''Watching '' @ targetHandle @ ''...''])
                     in map_option (\<lambda>(out, reason).
                          (if reason = ''context_canceled'' then Some ErrWatchCanceled else None,
                           attached @ out @ record_event (Some matchID) ''watch_ended'' 0 [(''reason'', DetailText reason)]
                             @ [WatcherRemoved matchID watcherID]))
                          (stream_loop sess events)))))"

section \<open>Start and stop\<close>

text \<open>
  The life cycle of the matchmaker: whether it runs, whether its stop channel is closed, whether its
  context is canceled, and the loops started. \<open>None\<close> is the panic of closing a channel twice.
\<close>

record lifecycle =
  lc_running :: bool
  lc_stopClosed :: bool
  lc_canceled :: bool
  lc_loops :: nat

definition new_lifecycle :: lifecycle where
  "new_lifecycle = \<lparr>lc_running = False, lc_stopClosed = False, lc_canceled = False, lc_loops = 0\<rparr>"

definition StartService :: "lifecycle \<Rightarrow> lifecycle" where
  "StartService l = (if lc_running l then l
     else l\<lparr>lc_running := True, lc_canceled := False, lc_loops := lc_loops l + 1\<rparr>)"

definition StopService :: "lifecycle \<Rightarrow> lifecycle option" where
  "StopService l = (if \<not> lc_running l then Some l
     else if lc_stopClosed l then None
     else Some (l\<lparr>lc_running := False, lc_canceled := True, lc_stopClosed := True\<rparr>))"

text \<open>Whether the loop of \<^verbatim>\<open>loop\<close> still waits for its ticker.\<close>

definition loop_lives :: "lifecycle \<Rightarrow> bool" where
  "loop_lives l \<longleftrightarrow> 0 < lc_loops l \<and> \<not> lc_canceled l \<and> \<not> lc_stopClosed l"

text \<open>The channel is never made again: a matchmaker that is started again has no loop and cannot be stopped.\<close>

lemma restart_is_dead:
  assumes "StopService (StartService l) = Some l'"
  shows "lc_running (StartService l') \<and> \<not> loop_lives (StartService l') \<and> StopService (StartService l') = None"
  using assms by (auto simp: StopService_def StartService_def loop_lives_def split: if_splits)

lemma first_run_lives: "loop_lives (StartService new_lifecycle)"
  by (simp add: loop_lives_def StartService_def new_lifecycle_def)

section \<open>A watcher always leaves\<close>

fun watcher_move :: "watch_output \<Rightarrow> bool" where
  "watcher_move (WatcherAdded _ _) = True"
| "watcher_move (WatcherRemoved _ _) = True"
| "watcher_move _ = False"

lemma spectator_out_still [simp]: "filter watcher_move (spectator_out store sess target m kind wait detail) = []"
  by (simp add: spectator_out_def)

lemma stream_loop_still: "stream_loop sess events = Some (out, reason) \<Longrightarrow> filter watcher_move out = []"
  by (induction sess events arbitrary: out rule: stream_loop.induct) (auto simp: sendFrame_def)

lemma stream_loop_ends:
  "{StreamCanceled, StreamMatchDone, StreamClosed} \<inter> set events \<noteq> {} \<Longrightarrow> stream_loop sess events \<noteq> None"
  by (induction sess events rule: stream_loop.induct) auto

lemma await_match_ends:
  "\<exists>poll \<in> set polls. deadline \<le> wp_now poll \<or> wp_canceled poll \<Longrightarrow> await_match deadline handle polls \<noteq> None"
  by (induction deadline handle polls rule: await_match.induct) (auto split: option.split)

text \<open>
  C38: A spectator's request always comes to an end, once the waiting time is over or the context
  ends, and the stream with the match: it returns, and the only thing it does to the hub is to attach
  one watcher and, at the very end, to remove the same watcher again, or nothing at all.
\<close>

theorem watching_ends:
  assumes "\<exists>poll \<in> set polls. requestedAt + (if waitTimeout \<le> 0 then 120 * 1000000000 else waitTimeout) \<le> wp_now poll
      \<or> wp_canceled poll"
    and "{StreamCanceled, StreamMatchDone, StreamClosed} \<inter> set events \<noteq> {}"
  shows "\<exists>err out. WatchByHandle store sess handle waitTimeout maxSpectators s requestedAt polls later uuid c h events
      = Some (err, out)
    \<and> (filter watcher_move out = []
       \<or> (\<exists>m before. out = before @ [WatcherRemoved m (se_PlayerID sess @ '':'' @ uuid)]
          \<and> filter watcher_move before = [WatcherAdded m (se_PlayerID sess @ '':'' @ uuid)]))"
proof -
  obtain out reason where stream: "stream_loop sess events = Some (out, reason)"
    using stream_loop_ends [OF assms(2)] by fastforce
  note still = stream_loop_still [OF stream]
  obtain found where await: "await_match (requestedAt + (if waitTimeout \<le> 0 then 120 * 1000000000 else waitTimeout))
      (TrimSpace handle) polls = Some found"
    using await_match_ends [OF assms(1)] by blast
  show ?thesis
    using stream still await
    by (cases "waitTimeout \<le> 0")
      (auto simp: WatchByHandle_def Let_def sendFrame_def split: option.split sum.split prod.split)
qed

definition watched_service :: service_state where
  "watched_service = registerActiveMatch (Some \<lparr>am_MatchID = ''m'', am_P1ID = ''p1'', am_P2ID = ''p2'',
     am_P1Handle = ''Ana'', am_P2Handle = ''Bob''\<rparr>) (NewService NewLobby)"

lemma watching_ends_witness:
  "\<exists>err out. WatchByHandle None (demo_session ''eva'') ''bob'' 5 20 watched_service 0
      [\<lparr>wp_now = 1, wp_state = watched_service, wp_canceled = False\<rparr>,
       \<lparr>wp_now = 6, wp_state = watched_service, wp_canceled = False\<rparr>] 2 ''u'' 1 demo_hub
      [StreamPayload [''frame''], StreamMatchDone] = Some (err, out)
    \<and> (filter watcher_move out = [] \<or> (\<exists>m before. out = before @ [WatcherRemoved m ''eva:u'']
         \<and> filter watcher_move before = [WatcherAdded m ''eva:u'']))"
  using watching_ends [of "[\<lparr>wp_now = 1, wp_state = watched_service, wp_canceled = False\<rparr>,
       \<lparr>wp_now = 6, wp_state = watched_service, wp_canceled = False\<rparr>]" 0 5
     "[StreamPayload [''frame''], StreamMatchDone]" None "demo_session ''eva''" "''bob''" 20 watched_service 2 "''u''" 1 demo_hub]
  by (simp add: demo_session_def)

end
