(* ===== verification/Shell.thy ===== *)
theory Shell
  imports SessionText RateLimit Watching Database
begin

text \<open>
  The session of a player, \<^verbatim>\<open>cmd/server/ssh_server.go\<close>: the commands a line can hold
  (\<open>handleUserInputWithSession\<close>), the tutorial a new player goes through (\<open>runTutorialFlow\<close>) and the
  shell around them (\<open>runShell\<close>), with the login check and the lookup of the player
  (\<^verbatim>\<open>player_ensurer.go\<close>).

  What a session does is the list of its \<open>shell_output\<close>s: frames it offers to its output channel, which
  drops what does not fit, events it records, commands it sends to its match, and the outputs of the
  services it calls. The text of an error inside a frame stays a constructor, and inside an event it is
  \<open>sh_error_text\<close>. The input is the list of
  the lines scanned, each with what handling it meets: the clock, whether the input channel is full,
  what the stream of a watched match brings, what the other sessions and matches do to the shared state
  before it is handled (\<open>li_others\<close>).
\<close>

section \<open>Profiles, events and outputs\<close>

datatype navigation_source = NavigationSourceSystem | NavigationSourceCommand | NavigationSourceMenu

record shell_navigation =
  sn_PlayerID :: string
  sn_SessionID :: "string option"
  sn_State :: navigation_state
  sn_EventType :: string
  sn_Source :: navigation_source
  sn_OptionKey :: "string option"
  sn_Detail :: detail

record session_event =
  sv_PlayerID :: "string option"
  sv_Handle :: string
  sv_RemoteAddrHash :: string
  sv_EventType :: string
  sv_Detail :: detail

datatype shell_error = QueueError service_error | NPCError service_error | WatchError watch_error
  | ActionError parse_error | TutorialAborted tutorial_error | TutorialRetryFailed tutorial_error
  | TutorialInterrupted | RegisterFailed lobby_error | ScanFailed string

datatype 'f shell_output = Offered "string list" | OfferedError shell_error
  | NavigationRecorded shell_navigation | SessionRecorded session_event
  | Matchmaker service_output | Watcher watch_output
  | TutorialDid "'f match_output" | TutorialWrote tutorial_write
  | CommandSent command | Wrote string

record 'f shell_deps =
  sh_float :: "'f float64"
  sh_matcher :: service_config
  sh_match :: "'f match_deps"
  sh_events :: bool
  sh_wait_text :: "duration \<Rightarrow> string"
  sh_error_text :: "shell_error \<Rightarrow> string"
  sh_watch_store :: "(string \<Rightarrow> string option) option"
  sh_tutorial_store :: "(tutorial_run \<Rightarrow> tutorial_run option) option"
  sh_WatchWaitTimeout :: duration
  sh_SpectatorMaxPerMatch :: int

text \<open>The shared state of the server that a session uses.\<close>

record 'f shell_state =
  ss_service :: service_state
  ss_queueLimiter :: "'f limiter"
  ss_actionLimiter :: "'f limiter"
  ss_sessions :: "string \<rightharpoonup> session"

record watch_env =
  we_polls :: "watch_poll list"
  we_later :: time
  we_uuid :: string
  we_chan :: nat
  we_hub :: hub
  we_events :: "stream_event list"

record tutorial_call =
  tc_startedAt :: time
  tc_endedAt :: time
  tc_env :: "int \<Rightarrow> tutorial_env"
  tc_now :: time

record 'f line_input =
  li_text :: string
  li_canceled :: bool
  li_now :: time
  li_input_full :: bool
  li_watch :: watch_env
  li_tutorial :: tutorial_call
  li_others :: "'f shell_state \<Rightarrow> 'f shell_state"

definition offer :: "string list \<Rightarrow> 'f shell_output list" where
  "offer lines = (if lines = [] then [] else [Offered lines])"

definition record_navigation :: "'f shell_deps \<Rightarrow> shell_navigation \<Rightarrow> 'f shell_output list" where
  "record_navigation D ev = (if sh_events D then [NavigationRecorded ev] else [])"

definition record_session :: "'f shell_deps \<Rightarrow> session_event \<Rightarrow> 'f shell_output list" where
  "record_session D ev = (if sh_events D then [SessionRecorded ev] else [])"

definition bool_text :: "bool \<Rightarrow> string" where
  "bool_text b = (if b then ''true'' else ''false'')"

fun state_name :: "navigation_state \<Rightarrow> string" where
  "state_name NavigationStateTutorial = ''tutorial''"
| "state_name NavigationStateLobby = ''lobby''"
| "state_name NavigationStateQueue = ''queue''"
| "state_name NavigationStateMatch = ''match''"
| "state_name NavigationStateSpectator = ''spectator''"
| "state_name (NavigationStateOther s) = s"

section \<open>Status and menu\<close>

definition navigationState :: "time \<Rightarrow> session \<Rightarrow> player_profile option \<Rightarrow> 'f shell_state \<Rightarrow> navigation_state" where
  "navigationState now sess profile st =
     (if (case profile of None \<Rightarrow> False | Some p \<Rightarrow> \<not> pp_TutorialCompleted p) then NavigationStateTutorial
      else if IsPlayerInMatch (se_PlayerID sess) (ss_service st) then NavigationStateMatch
      else if fst (QueueStatus now (se_PlayerID sess) now (sv_lobby (ss_service st))) then NavigationStateQueue
      else NavigationStateLobby)"

definition sendStatusFrame :: "'f shell_deps \<Rightarrow> time \<Rightarrow> session \<Rightarrow> player_profile option \<Rightarrow> string \<Rightarrow> navigation_source
    \<Rightarrow> 'f shell_state \<Rightarrow> 'f shell_output list" where
  "sendStatusFrame D now sess profile sessionID source st =
     (let state = navigationState now sess profile st;
          snap = LobbySnapshot (sv_lobby (ss_service st));
          (inQueue, position, wait) = QueueStatus now (se_PlayerID sess) now (sv_lobby (ss_service st));
          inMatch = IsPlayerInMatch (se_PlayerID sess) (ss_service st)
      in offer [''status: state='' @ state_name state @ '' online='' @ itoa (Online snap)
             @ '' in_queue='' @ itoa (InQueue snap) @ '' in_match='' @ bool_text inMatch,
           if inQueue then ''queue: position='' @ itoa position @ '' wait_s='' @ sh_wait_text D wait
           else ''queue: not queued'']
         @ record_navigation D \<lparr>sn_PlayerID = se_PlayerID sess, sn_SessionID = optionalStringPointer sessionID,
             sn_State = state, sn_EventType = ''status_shown'', sn_Source = source, sn_OptionKey = None,
             sn_Detail = [(''in_queue'', DetailBool inQueue), (''position'', DetailInt position),
               (''wait_ms'', DetailInt (Milliseconds wait))]\<rparr>)"

definition sendMenuFrame :: "'f shell_deps \<Rightarrow> time \<Rightarrow> session \<Rightarrow> player_profile option \<Rightarrow> string \<Rightarrow> navigation_source
    \<Rightarrow> 'f shell_state \<Rightarrow> 'f shell_output list" where
  "sendMenuFrame D now sess profile sessionID source st =
     (let state = navigationState now sess profile st
      in offer (menuLinesForState state)
         @ record_navigation D \<lparr>sn_PlayerID = se_PlayerID sess, sn_SessionID = optionalStringPointer sessionID,
             sn_State = state, sn_EventType = ''menu_shown'', sn_Source = source, sn_OptionKey = None, sn_Detail = []\<rparr>)"

definition sendStatusAndMenu :: "'f shell_deps \<Rightarrow> time \<Rightarrow> session \<Rightarrow> player_profile option \<Rightarrow> string
    \<Rightarrow> 'f shell_state \<Rightarrow> 'f shell_output list" where
  "sendStatusAndMenu D now sess profile sessionID st =
     sendStatusFrame D now sess profile sessionID NavigationSourceSystem st
     @ sendMenuFrame D now sess profile sessionID NavigationSourceSystem st"

section \<open>Commands\<close>

abbreviation help_text :: string where
  "help_text \<equiv> ''Commands: menu, status, play, q, l, s, npc, a <action> <zone>, watch <handle>, tutorial retry, help, quit''"

definition command_event :: "'f shell_deps \<Rightarrow> session \<Rightarrow> string \<Rightarrow> navigation_state \<Rightarrow> string
    \<Rightarrow> detail \<Rightarrow> 'f shell_output list" where
  "command_event D sess sessionID state kind detail =
     record_navigation D \<lparr>sn_PlayerID = se_PlayerID sess, sn_SessionID = optionalStringPointer sessionID,
       sn_State = state, sn_EventType = kind, sn_Source = NavigationSourceCommand, sn_OptionKey = None,
       sn_Detail = detail\<rparr>"

text \<open>The command \<^verbatim>\<open>q\<close> or \<^verbatim>\<open>play\<close>, without the status and menu it ends with.\<close>

definition command_queue :: "'f shell_deps \<Rightarrow> time \<Rightarrow> session \<Rightarrow> player_profile option \<Rightarrow> string \<Rightarrow> string
    \<Rightarrow> 'f shell_state \<Rightarrow> 'f shell_output list \<times> 'f shell_state" where
  "command_queue D now sess profile command sessionID st =
     (if (case profile of None \<Rightarrow> False | Some p \<Rightarrow> \<not> pp_TutorialCompleted p)
      then (offer [''tutorial required before queue: complete first-time tutorial or run `tutorial retry`''], st)
      else let (ok, limiter) = Allow (sh_float D) now (se_PlayerID sess) (ss_queueLimiter st);
          st = st\<lparr>ss_queueLimiter := limiter\<rparr>
      in if \<not> ok then (offer [''queue rate limit reached''], st)
      else case Enqueue (sh_matcher D) now now (se_PlayerID sess) (ss_service st) of
        ((Some err, out), s) \<Rightarrow> (map Matchmaker out @ [OfferedError (QueueError err)], st\<lparr>ss_service := s\<rparr>)
      | ((None, out), s) \<Rightarrow> (map Matchmaker out
          @ command_event D sess sessionID NavigationStateQueue ''queue_joined'' [(''via'', DetailText command)],
          st\<lparr>ss_service := s\<rparr>))"

definition command_leave :: "'f shell_deps \<Rightarrow> time \<Rightarrow> session \<Rightarrow> string \<Rightarrow> 'f shell_state
    \<Rightarrow> 'f shell_output list \<times> 'f shell_state" where
  "command_leave D now sess sessionID st =
     (let (out, s) = Dequeue (sh_matcher D) now (se_PlayerID sess) (ss_service st)
      in (map Matchmaker out @ command_event D sess sessionID NavigationStateQueue ''queue_left'' [(''via'', DetailText ''l'')],
          st\<lparr>ss_service := s\<rparr>))"

definition command_npc :: "'f shell_deps \<Rightarrow> time \<Rightarrow> session \<Rightarrow> player_profile option \<Rightarrow> 'f shell_state
    \<Rightarrow> 'f shell_output list \<times> 'f shell_state" where
  "command_npc D now sess profile st =
     (if (case profile of None \<Rightarrow> False | Some p \<Rightarrow> \<not> pp_TutorialCompleted p)
      then (offer [''tutorial required before npc practice: complete first-time tutorial or run `tutorial retry`''], st)
      else case StartNPCMatch (sh_matcher D) now sess (ss_service st) of
        ((Some err, out), s) \<Rightarrow> (map Matchmaker out @ [OfferedError (NPCError err)], st\<lparr>ss_service := s\<rparr>)
      | ((None, out), s) \<Rightarrow> (map Matchmaker out, st\<lparr>ss_service := s\<rparr>))"

text \<open>\<open>None\<close> as long as the spectator watches.\<close>

definition command_watch :: "'f shell_deps \<Rightarrow> time \<Rightarrow> watch_env \<Rightarrow> session \<Rightarrow> string list \<Rightarrow> 'f shell_state
    \<Rightarrow> 'f shell_output list option" where
  "command_watch D now we sess args st =
     (if length args < 2 then Some (offer [''usage: watch <handle>''])
      else case WatchByHandle (sh_watch_store D) sess (TrimText (args ! 1)) (sh_WatchWaitTimeout D)
          (sh_SpectatorMaxPerMatch D) (ss_service st) now (we_polls we) (we_later we) (we_uuid we) (we_chan we)
          (we_hub we) (we_events we) of
        None \<Rightarrow> None
      | Some (err, out) \<Rightarrow> Some (map Watcher out
          @ (case err of None \<Rightarrow> [] | Some e \<Rightarrow> [OfferedError (WatchError e)])))"

definition command_action :: "'f shell_deps \<Rightarrow> time \<Rightarrow> bool \<Rightarrow> session \<Rightarrow> string list \<Rightarrow> 'f shell_state
    \<Rightarrow> 'f shell_output list \<times> 'f shell_state" where
  "command_action D now input_full sess args st =
     (if \<not> IsPlayerInMatch (se_PlayerID sess) (ss_service st)
      then (offer [''you are not in an active match''], st)
      else let (ok, limiter) = Allow (sh_float D) now (se_PlayerID sess) (ss_actionLimiter st);
          st = st\<lparr>ss_actionLimiter := limiter\<rparr>
      in if \<not> ok then (offer [''action rate limit reached''], st)
      else case parseActionCommand (map LowerText args) of
        Inl err \<Rightarrow> ([OfferedError (ActionError err)], st)
      | Inr cmd \<Rightarrow> (if input_full then offer [''input buffer full, action ignored'']
          else [CommandSent (cmd\<lparr>cmd_ReceivedAt := now\<rparr>)], st))"

definition command_snapshot :: "'f shell_state \<Rightarrow> 'f shell_output list" where
  "command_snapshot st = (let snap = LobbySnapshot (sv_lobby (ss_service st)) in
     offer [''online='' @ itoa (Online snap) @ '' in_queue='' @ itoa (InQueue snap),
       ''players='' @ join_with '','' (Players snap)])"

text \<open>The whole handler: whether the session goes on, what it put out, and the state after it.\<close>

definition handleUserInputWithSession :: "'f shell_deps \<Rightarrow> 'f line_input \<Rightarrow> session \<Rightarrow> player_profile option
    \<Rightarrow> string \<Rightarrow> string \<Rightarrow> 'f shell_state \<Rightarrow> (bool \<times> 'f shell_output list \<times> 'f shell_state) option" where
  "handleUserInputWithSession D li sess profile line sessionID st =
     (let now = li_now li; args = Fields (TrimText line) in
      if args = [] then Some (True, [], st)
      else let command = LowerText (hd args);
          stateBefore = navigationState now sess profile st;
          status_and_menu = sendStatusAndMenu D now sess profile sessionID
      in if command = ''q'' \<or> command = ''play'' then
           (case command_queue D now sess profile command sessionID st of (out, st) \<Rightarrow>
              Some (True, out @ status_and_menu st, st))
         else if command = ''l'' then
           (case command_leave D now sess sessionID st of (out, st) \<Rightarrow> Some (True, out @ status_and_menu st, st))
         else if command = ''s'' then Some (True, command_snapshot st, st)
         else if command = ''status'' then
           Some (True, sendStatusFrame D now sess profile sessionID NavigationSourceCommand st, st)
         else if command = ''menu'' then
           Some (True, sendMenuFrame D now sess profile sessionID NavigationSourceCommand st, st)
         else if command = ''help'' then
           Some (True, offer [help_text]
             @ command_event D sess sessionID stateBefore ''help_shown'' [(''via'', DetailText ''help'')], st)
         else if command = ''npc'' then
           (case command_npc D now sess profile st of (out, st) \<Rightarrow> Some (True, out @ status_and_menu st, st))
         else if command = ''watch'' then
           map_option (\<lambda>out. (True, out @ status_and_menu st, st)) (command_watch D now (li_watch li) sess args st)
         else if command = ''quit'' \<or> command = ''exit'' then
           Some (False, (if li_input_full li then [] else [CommandSent \<lparr>cmd_Kind = CommandQuit,
               cmd_Action = ActionNone, cmd_Target = ZoneHead, cmd_ReceivedAt = now\<rparr>])
             @ offer [''bye''], st)
         else if command = ''a'' then
           (case command_action D now (li_input_full li) sess args st of (out, st) \<Rightarrow> Some (True, out, st))
         else Some (True, offer [''unknown command, type help'']
           @ command_event D sess sessionID stateBefore ''command_invalid'' [(''token'', DetailText command)], st))"

section \<open>The tutorial\<close>

datatype shell_stop = StopEOF | StopScanError | StopCanceled | StopTutorial tutorial_error

text \<open>How the scanner ends: with the input, or with an error.\<close>

datatype scan_end = ScanEOF | ScanFails string

definition tutorial_steps :: "(string \<times> string) list" where
  "tutorial_steps =
    [(''help'', ''Type `help` and press Enter.''),
     (''a strike head'', ''Type `a strike head` and press Enter.''),
     (''q'', ''Type `q` and press Enter.'')]"

text \<open>Waiting for one command: how it stopped the dialogue, if it did, the outputs and the lines left.\<close>

fun await_command :: "string \<Rightarrow> scan_end \<Rightarrow> 'f line_input list
    \<Rightarrow> shell_stop option \<times> 'f shell_output list \<times> 'f line_input list" where
  "await_command command ending [] = (Some (if ending = ScanEOF then StopEOF else StopScanError), [], [])"
| "await_command command ending (li # lis) =
     (if li_canceled li then (Some StopCanceled, [], li # lis)
      else let line = canonicalTutorialCommand (li_text li) in
      if line = ''quit'' \<or> line = ''exit'' then (Some StopEOF, offer [''bye''], lis)
      else if line = command then (None, offer [''ok''], lis)
      else case await_command command ending lis of (stop, out, rest) \<Rightarrow>
        (stop, offer [''tutorial expects `'' @ command @ ''`''] @ out, rest))"

fun follow_steps :: "(string \<times> string) list \<Rightarrow> scan_end \<Rightarrow> 'f line_input list
    \<Rightarrow> shell_stop option \<times> 'f shell_output list \<times> 'f line_input list" where
  "follow_steps [] ending lis = (None, [], lis)"
| "follow_steps ((command, prompt) # steps) ending lis =
     (case await_command command ending lis of
        (Some stop, out, rest) \<Rightarrow> (Some stop, offer [prompt] @ out, rest)
      | (None, out, rest) \<Rightarrow> (case follow_steps steps ending rest of (stop, out', rest') \<Rightarrow>
          (stop, offer [prompt] @ out @ out', rest')))"

fun tutorial_result_name :: "tutorial_result \<Rightarrow> string" where
  "tutorial_result_name TutorialResultWin = ''win''"
| "tutorial_result_name TutorialResultLoss = ''loss''"
| "tutorial_result_name TutorialResultDraw = ''draw''"

definition tutorial_session_event :: "'f shell_deps \<Rightarrow> session \<Rightarrow> string \<Rightarrow> string \<Rightarrow> detail
    \<Rightarrow> 'f shell_output list" where
  "tutorial_session_event D sess addr kind detail =
     record_session D \<lparr>sv_PlayerID = Some (se_PlayerID sess), sv_Handle = se_Handle sess, sv_RemoteAddrHash = addr,
       sv_EventType = kind, sv_Detail = detail\<rparr>"

definition tutorial_navigation_event :: "'f shell_deps \<Rightarrow> session \<Rightarrow> string \<Rightarrow> navigation_source \<Rightarrow> string
    \<Rightarrow> detail \<Rightarrow> 'f shell_output list" where
  "tutorial_navigation_event D sess sessionID source kind detail =
     record_navigation D \<lparr>sn_PlayerID = se_PlayerID sess, sn_SessionID = optionalStringPointer sessionID,
       sn_State = NavigationStateTutorial, sn_EventType = kind, sn_Source = source, sn_OptionKey = None,
       sn_Detail = detail\<rparr>"

definition complete_profile :: "time \<Rightarrow> player_profile \<Rightarrow> player_profile" where
  "complete_profile now profile = (let profile = profile\<lparr>pp_TutorialRuns := pp_TutorialRuns profile + 1\<rparr> in
     if \<not> pp_TutorialCompleted profile
     then profile\<lparr>pp_TutorialCompleted := True, pp_TutorialCompletedAt := Some now\<rparr> else profile)"

definition runTutorialFlow :: "'f shell_deps \<Rightarrow> session \<Rightarrow> scan_end \<Rightarrow> tutorial_call \<Rightarrow> 'f line_input list \<Rightarrow> player_profile
    \<Rightarrow> bool \<Rightarrow> string \<Rightarrow> string \<Rightarrow> navigation_source
    \<Rightarrow> shell_stop option \<times> 'f shell_output list \<times> 'f line_input list \<times> player_profile" where
  "runTutorialFlow D sess ending tc lis profile retry addr sessionID source =
     (let started = tutorial_session_event D sess addr ''tutorial_started'' [(''retry'', DetailBool retry)]
            @ tutorial_navigation_event D sess sessionID source ''tutorial_started'' [(''retry'', DetailBool retry)]
            @ offer [if retry then ''Tutorial retry started.''
                else ''First login detected: tutorial is required before entering PvP queue.'']
            @ offer [''Tutorial phase 1/2 (guided): follow the prompts exactly.'']
      in case follow_steps tutorial_steps ending lis of
        (Some stop, out, rest) \<Rightarrow> (Some stop, started @ out, rest, profile)
      | (None, out, rest) \<Rightarrow>
          (let phase2 = started @ out @ offer [''Tutorial phase 2/2: starting a short fight against training NPC.'']
           in case RunTutorial (sh_match D) (sh_tutorial_store D) (tc_startedAt tc) (tc_endedAt tc) (tc_env tc) sess of
             (Inl err, did, wrote) \<Rightarrow> (Some (StopTutorial err), phase2 @ map TutorialDid did @ map TutorialWrote wrote
                @ tutorial_session_event D sess addr ''tutorial_failed''
                    [(''retry'', DetailBool retry), (''error'', DetailText (sh_error_text D (TutorialAborted err)))], rest, profile)
           | (Inr run, did, wrote) \<Rightarrow>
               (let result = tutorial_result_name (tu_Result run);
                    detail = [(''retry'', DetailBool retry), (''result'', DetailText result), (''duration_ms'', DetailInt (tu_DurationMS run))]
                in (None, phase2 @ map TutorialDid did @ map TutorialWrote wrote
                    @ tutorial_session_event D sess addr ''tutorial_completed'' detail
                    @ tutorial_navigation_event D sess sessionID source ''tutorial_completed'' detail
                    @ offer [if retry then ''Tutorial retry complete ('' @ result @ '').''
                        else ''Tutorial complete ('' @ result @ ''). Queue PvP unlocked.''],
                    rest, complete_profile (tc_now tc) profile))))"

text \<open>A dialogue only consumes lines, and one that succeeds has been typed the commands in order.\<close>

lemma await_command_typed:
  "await_command command ending lis = (stop, out, rest) \<Longrightarrow>
     \<exists>typed. lis = typed @ rest \<and> (stop = None \<longrightarrow> command \<in> canonicalTutorialCommand ` li_text ` set typed)"
proof (induction lis arbitrary: out)
  case (Cons li lis)
  let ?line = "canonicalTutorialCommand (li_text li)"
  consider (off) "li_canceled li" | (bye) "\<not> li_canceled li" "?line = ''quit'' \<or> ?line = ''exit''"
    | (good) "\<not> li_canceled li" "\<not> (?line = ''quit'' \<or> ?line = ''exit'')" "?line = command"
    | (wrong) "\<not> li_canceled li" "\<not> (?line = ''quit'' \<or> ?line = ''exit'')" "?line \<noteq> command" by blast
  then show ?case
  proof cases
    case off
    with Cons.prems show ?thesis by (intro exI [of _ "[]"]) auto
  next
    case wrong
    obtain stop' out' rest' where a: "await_command command ending lis = (stop', out', rest')" by (metis prod_cases3)
    with Cons.prems wrong have "stop' = stop" "rest' = rest" by (simp_all add: Let_def)
    with Cons.IH a obtain typed where "lis = typed @ rest"
      "stop = None \<longrightarrow> command \<in> canonicalTutorialCommand ` li_text ` set typed" by blast
    then show ?thesis by (intro exI [of _ "li # typed"]) simp
  next
    case bye
    with Cons.prems have "rest = lis" "stop = Some StopEOF" by (simp_all add: Let_def)
    then show ?thesis by (intro exI [of _ "[li]"]) simp
  next
    case good
    with Cons.prems have "rest = lis" by (simp add: Let_def)
    with good show ?thesis by (intro exI [of _ "[li]"]) simp
  qed
qed auto

lemma follow_steps_typed:
  "follow_steps steps ending lis = (stop, out, rest) \<Longrightarrow>
     \<exists>typed. lis = typed @ rest
       \<and> (stop = None \<longrightarrow> subseq (map fst steps) (map (\<lambda>li. canonicalTutorialCommand (li_text li)) typed))"
proof (induction steps arbitrary: lis out)
  case Nil
  then show ?case by simp
next
  case (Cons step steps)
  let ?typed = "map (\<lambda>li. canonicalTutorialCommand (li_text li))"
  obtain command prompt where step: "step = (command, prompt)" by (cases step)
  obtain stop1 out1 rest1 where one: "await_command command ending lis = (stop1, out1, rest1)" by (metis prod_cases3)
  from await_command_typed [OF one] obtain typed where typed: "lis = typed @ rest1"
    "stop1 = None \<longrightarrow> command \<in> canonicalTutorialCommand ` li_text ` set typed" by (elim exE conjE)
  obtain stop2 out2 rest2 where two: "follow_steps steps ending rest1 = (stop2, out2, rest2)" by (metis prod_cases3)
  show ?case
  proof (cases stop1)
    case None
    with one two step Cons.prems have same: "stop2 = stop" "rest2 = rest" by simp_all
    from Cons.IH [OF two [unfolded same]] obtain typed' where typed': "rest1 = typed' @ rest"
      "stop = None \<longrightarrow> subseq (map fst steps) (?typed typed')" by (elim exE conjE)
    have "subseq [command] (?typed typed)"
      using typed(2) None by (auto simp: subseq_singleton_left)
    then have "subseq (map fst steps) (?typed typed') \<Longrightarrow> subseq ([command] @ map fst steps) (?typed typed @ ?typed typed')"
      by (rule list_emb_append_mono)
    with typed(1) typed' step show ?thesis by (intro exI [of _ "typed @ typed'"]) simp
  next
    case (Some x)
    with one step Cons.prems have "rest1 = rest" "stop \<noteq> None" by auto
    with typed show ?thesis by (intro exI [of _ typed]) auto
  qed
qed

lemma runTutorialFlow_typed:
  assumes "runTutorialFlow D sess ending tc lis profile retry addr sessionID source = (stop, out, rest, profile')"
  shows "\<exists>typed. lis = typed @ rest \<and> (stop = None \<longrightarrow>
      subseq [''help'', ''a strike head'', ''q''] (map (\<lambda>li. canonicalTutorialCommand (li_text li)) typed)
      \<and> pp_TutorialCompleted profile')
    \<and> (stop \<noteq> None \<longrightarrow> profile' = profile)"
proof -
  obtain stop1 out1 rest1 where steps: "follow_steps tutorial_steps ending lis = (stop1, out1, rest1)" by (metis prod_cases3)
  from follow_steps_typed [OF this] obtain typed where "lis = typed @ rest1"
    "stop1 = None \<longrightarrow> subseq (map fst tutorial_steps) (map (\<lambda>li. canonicalTutorialCommand (li_text li)) typed)" by blast
  moreover have "rest = rest1" "stop = None \<longrightarrow> stop1 = None \<and> profile' = complete_profile (tc_now tc) profile"
    "stop \<noteq> None \<longrightarrow> profile' = profile"
    using assms steps
    by (auto simp: runTutorialFlow_def Let_def split: option.splits prod.splits sum.splits)
  ultimately show ?thesis by (intro exI [of _ typed]) (auto simp: tutorial_steps_def complete_profile_def Let_def)
qed

lemma runTutorialFlow_rest:
  "(stop, out, rest, profile') = runTutorialFlow D sess ending tc lis profile retry addr sessionID source \<Longrightarrow>
     length rest \<le> length lis"
  using runTutorialFlow_typed [of D sess ending tc lis profile retry addr sessionID source stop out rest profile'] by auto

section \<open>The shell\<close>

datatype 'f shell_exit = ShellQuit | ShellStopped shell_stop | ShellInputEnded

text \<open>The loop over the lines. A line goes to the menu first, then to the tutorial or to the handler.\<close>

definition menu_step :: "'f shell_deps \<Rightarrow> session \<Rightarrow> string \<Rightarrow> navigation_state \<Rightarrow> string
    \<Rightarrow> string \<times> navigation_source \<times> 'f shell_output list" where
  "menu_step D sess sessionID state line = (case menuSelectionForState state line of
     None \<Rightarrow> (line, NavigationSourceCommand, [])
   | Some (mapped, optionKey) \<Rightarrow> (mapped, NavigationSourceMenu,
       record_navigation D \<lparr>sn_PlayerID = se_PlayerID sess, sn_SessionID = Some sessionID, sn_State = state,
         sn_EventType = ''menu_selected'', sn_Source = NavigationSourceMenu, sn_OptionKey = Some optionKey,
         sn_Detail = [(''resolved_command'', DetailText mapped)]\<rparr>))"

function shell_loop :: "'f shell_deps \<Rightarrow> session \<Rightarrow> string \<Rightarrow> string \<Rightarrow> scan_end \<Rightarrow> 'f line_input list \<Rightarrow> player_profile
    \<Rightarrow> 'f shell_state \<Rightarrow> ('f shell_exit \<times> 'f shell_output list \<times> player_profile \<times> 'f shell_state) option" where
  "shell_loop D sess addr sessionID ending [] profile st = Some (ShellInputEnded, [], profile, st)"
| "shell_loop D sess addr sessionID ending (li # lis) profile st =
     (let st = li_others li st; line = sanitizeInputLine (li_text li) in
      if line = [] then shell_loop D sess addr sessionID ending lis profile st
      else let state = navigationState (li_now li) sess (Some profile) st;
          (command, source, selected) = menu_step D sess sessionID state line
      in if source = NavigationSourceMenu \<and> command = ''__action_hint'' then
           map_option (\<lambda>(exit, out, profile, st).
               (exit, selected @ offer [''During a match use: a <action> <zone>''] @ out, profile, st))
             (shell_loop D sess addr sessionID ending lis profile st)
         else if EqualFold command ''tutorial retry'' then
           (case runTutorialFlow D sess ending (li_tutorial li) lis profile True addr sessionID source of
              (Some stop, out, rest, profile) \<Rightarrow> Some (ShellStopped stop, selected @ out
                @ (case stop of StopEOF \<Rightarrow> [] | StopTutorial e \<Rightarrow> [OfferedError (TutorialRetryFailed e)]
                    | _ \<Rightarrow> [OfferedError TutorialInterrupted]), profile, st)
            | (None, out, rest, profile) \<Rightarrow>
                (let shown = selected @ out @ sendStatusAndMenu D (li_now li) sess (Some profile) sessionID st
                 in map_option (\<lambda>(exit, out', profile, st). (exit, shown @ out', profile, st))
                  (shell_loop D sess addr sessionID ending rest profile st)))
         else case handleUserInputWithSession D li sess (Some profile) command sessionID st of
           None \<Rightarrow> None
         | Some (False, out, st) \<Rightarrow> Some (ShellQuit, selected @ out, profile, st)
         | Some (True, out, st) \<Rightarrow> map_option (\<lambda>(exit, out', profile, st). (exit, selected @ out @ out', profile, st))
             (shell_loop D sess addr sessionID ending lis profile st))"
  by pat_completeness auto
termination
  by (relation "measure (\<lambda>(D, sess, addr, sid, ending, lis, p, st). length lis)")
    (auto dest: runTutorialFlow_rest)

declare shell_loop.simps [simp del]

end
