(* ===== verification/ServerConfig.thy ===== *)
theory ServerConfig
  imports GoText Lobby
begin

text \<open>
  The configuration of the server, \<^verbatim>\<open>cmd/server/config.go\<close>: the environment is a function from
  variable names to values (the empty string for one that is not set), \<open>LoadConfigFromEnv\<close> reads it.
  A duration is a 64-bit number of nanoseconds, and the multiplication of a number of seconds that
  makes one wraps around.
\<close>

section \<open>Types\<close>

record server_config =
  cf_DatabaseURL :: string
  cf_SSHAddr :: string
  cf_SSHUsers :: "(string \<times> string) list"
  cf_QueueTimeout :: duration
  cf_TurnTimeout :: duration
  cf_MaxTurns :: int
  cf_WatchWaitTimeout :: duration
  cf_SpectatorMaxPerMatch :: int

datatype config_error = ErrDatabaseURLRequired | ErrUsersRequired | ErrInvalidUsersEntry string
  | ErrNoUsers | ErrNotInteger string | ErrNotPositive string

section \<open>Reading the environment\<close>

definition parseIntEnvDefault :: "(string \<Rightarrow> string) \<Rightarrow> string \<Rightarrow> int \<Rightarrow> config_error + int" where
  "parseIntEnvDefault Getenv name fallback = (let raw = TrimText (Getenv name) in
     if raw = [] then Inr fallback
     else case ParseInt raw of
       None \<Rightarrow> Inl (ErrNotInteger name)
     | Some v \<Rightarrow> if v \<le> 0 then Inl (ErrNotPositive name) else Inr v)"

text \<open>The loop over the entries; a name that comes twice keeps its last password.\<close>

fun parse_entries :: "string list \<Rightarrow> (string \<times> string) list \<Rightarrow> config_error + (string \<times> string) list" where
  "parse_entries [] users = Inr users"
| "parse_entries (pair # pairs) users = (let pair = TrimText pair in
     if pair = [] then parse_entries pairs users
     else case split_first (CHR '':'') pair of
       (_, None) \<Rightarrow> Inl (ErrInvalidUsersEntry pair)
     | (part, Some pass) \<Rightarrow> (let user = TrimText part in
         if user = [] \<or> pass = [] then Inl (ErrInvalidUsersEntry pair)
         else parse_entries pairs (AList.update user pass users)))"

definition parseUsers :: "string \<Rightarrow> config_error + (string \<times> string) list" where
  "parseUsers raw =
     (if raw = [] then Inl ErrUsersRequired
      else case parse_entries (split_at (CHR '','') raw) [] of
        Inl err \<Rightarrow> Inl err
      | Inr users \<Rightarrow> if users = [] then Inl ErrNoUsers else Inr users)"

text \<open>\<^verbatim>\<open>time.Duration(v) * time.Second\<close>.\<close>

definition seconds :: "int \<Rightarrow> duration" where
  "seconds v = sint (word_of_int v * 1000000000 :: 64 word)"

definition LoadConfigFromEnv :: "(string \<Rightarrow> string) \<Rightarrow> config_error + server_config" where
  "LoadConfigFromEnv Getenv =
     (let url = TrimText (Getenv ''TWL_DATABASE_URL'');
          addr = TrimText (Getenv ''TWL_SSH_ADDR'');
          addr = (if addr = [] then '':2222'' else addr)
      in if url = [] then Inl ErrDatabaseURLRequired
      else case parseUsers (TrimText (Getenv ''TWL_SSH_USERS'')) of
        Inl err \<Rightarrow> Inl err
      | Inr users \<Rightarrow> (case parseIntEnvDefault Getenv ''TWL_QUEUE_TIMEOUT_SEC'' 45 of
        Inl err \<Rightarrow> Inl err
      | Inr queueTimeoutSec \<Rightarrow> (case parseIntEnvDefault Getenv ''TWL_TURN_TIMEOUT_SEC'' 5 of
        Inl err \<Rightarrow> Inl err
      | Inr turnTimeoutSec \<Rightarrow> (case parseIntEnvDefault Getenv ''TWL_MAX_TURNS'' 120 of
        Inl err \<Rightarrow> Inl err
      | Inr maxTurns \<Rightarrow> (case parseIntEnvDefault Getenv ''TWL_WATCH_WAIT_TIMEOUT_SEC'' 120 of
        Inl err \<Rightarrow> Inl err
      | Inr watchWaitTimeoutSec \<Rightarrow> (case parseIntEnvDefault Getenv ''TWL_SPECTATOR_MAX_PER_MATCH'' 20 of
        Inl err \<Rightarrow> Inl err
      | Inr spectatorMaxPerMatch \<Rightarrow>
          if maxTurns \<le> 0 then Inl (ErrNotPositive ''TWL_MAX_TURNS'')
          else Inr \<lparr>cf_DatabaseURL = url, cf_SSHAddr = addr, cf_SSHUsers = users,
            cf_QueueTimeout = seconds queueTimeoutSec, cf_TurnTimeout = seconds turnTimeoutSec,
            cf_MaxTurns = maxTurns, cf_WatchWaitTimeout = seconds watchWaitTimeoutSec,
            cf_SpectatorMaxPerMatch = spectatorMaxPerMatch\<rparr>))))))"

section \<open>Lemmas\<close>

text \<open>A numeric setting: its value, if the variable is not set or holds a positive number.\<close>

definition setting :: "(string \<Rightarrow> string) \<Rightarrow> string \<Rightarrow> int \<Rightarrow> int option" where
  "setting Getenv name fallback = (let raw = TrimText (Getenv name) in
     if raw = [] then Some fallback
     else case ParseInt raw of Some v \<Rightarrow> if 0 < v then Some v else None | None \<Rightarrow> None)"

lemma parseIntEnvDefault_setting:
  "(case parseIntEnvDefault Getenv name fallback of Inl _ \<Rightarrow> None | Inr v \<Rightarrow> Some v) = setting Getenv name fallback"
  by (auto simp: parseIntEnvDefault_def setting_def Let_def split: option.split)

lemma parseIntEnvDefault_Inr:
  "parseIntEnvDefault Getenv name fallback = Inr v \<longleftrightarrow> setting Getenv name fallback = Some v"
  by (simp add: parseIntEnvDefault_setting [symmetric] split: sum.split)

lemma setting_pos: "setting Getenv name fallback = Some v \<Longrightarrow> 0 < fallback \<Longrightarrow> 0 < v"
  by (auto simp: setting_def Let_def split: if_splits option.splits)

lemma seconds_exact:
  assumes "0 \<le> v" "v \<le> 9223372036"
  shows "seconds v = v * 1000000000"
proof -
  have "seconds v = sint (word_of_int (v * 1000000000) :: 64 word)"
    by (simp add: seconds_def)
  also have "\<dots> = v * 1000000000"
    using assms by (intro signed_take_bit_int_eq_self [THEN trans [OF sint_sbintrunc']])
      (simp_all add: sint_sbintrunc')
  finally show ?thesis .
qed

text \<open>Users as the server keeps them.\<close>

definition users_ok :: "(string \<times> string) list \<Rightarrow> bool" where
  "users_ok users \<longleftrightarrow> distinct (map fst users)
     \<and> list_all (\<lambda>(user, pass). user \<noteq> [] \<and> pass \<noteq> []) users"

lemma users_ok_update:
  "users_ok users \<Longrightarrow> user \<noteq> [] \<Longrightarrow> pass \<noteq> [] \<Longrightarrow> users_ok (AList.update user pass users)"
  unfolding users_ok_def
  by (intro conjI distinct_update) (auto simp: list_all_iff dest!: set_update_subset)

lemma parse_entries_ok:
  "users_ok users \<Longrightarrow> parse_entries pairs users = Inr users' \<Longrightarrow> users_ok users'"
proof (induction pairs users rule: parse_entries.induct)
  case (2 pair pairs users)
  then show ?case using users_ok_update [OF "2.prems"(1)]
    by (auto simp: Let_def split: if_splits prod.splits option.splits)
qed simp

lemma parseUsers_ok: "parseUsers raw = Inr users \<Longrightarrow> users \<noteq> [] \<and> users_ok users"
  using parse_entries_ok [of "[]"]
  by (auto simp: parseUsers_def users_ok_def split: if_splits sum.splits)

definition user_entry :: "string \<times> string \<Rightarrow> string" where
  "user_entry up = (case up of (user, pass) \<Rightarrow> user @ '':'' @ pass)"

text \<open>An entry that the format can express.\<close>

definition plain_user :: "string \<times> string \<Rightarrow> bool" where
  "plain_user up \<longleftrightarrow> (case up of (user, pass) \<Rightarrow> user \<noteq> [] \<and> pass \<noteq> []
     \<and> CHR '':'' \<notin> set user \<and> CHR '','' \<notin> set user \<and> CHR '','' \<notin> set pass
     \<and> TrimText user = user \<and> TrimText (user_entry up) = user_entry up)"

lemma update_fresh: "k \<notin> fst ` set al \<Longrightarrow> AList.update k v al = al @ [(k, v)]"
  by (induction al) auto

lemma split_first_entry: "sep \<notin> set s \<Longrightarrow> split_first sep (s @ sep # t) = (s, Some t)"
  by (induction s) (auto simp: split_first_def)

lemma parse_entries_plain:
  "list_all plain_user users \<Longrightarrow> distinct (map fst (acc @ users)) \<Longrightarrow>
     parse_entries (map user_entry users) acc = Inr (acc @ users)"
proof (induction users arbitrary: acc)
  case (Cons up users)
  obtain user pass where up: "up = (user, pass)" by force
  with Cons.prems have ok: "user \<noteq> []" "pass \<noteq> []" "CHR '':'' \<notin> set user" "TrimText user = user"
    "TrimText (user_entry up) = user_entry up" and fresh: "user \<notin> fst ` set acc"
    by (auto simp: plain_user_def)
  have "parse_entries (map user_entry (up # users)) acc
      = parse_entries (map user_entry users) (AList.update user pass acc)"
    using ok split_first_entry [of "CHR '':''" user pass] by (simp add: up user_entry_def)
  also have "\<dots> = Inr (acc @ up # users)"
    using Cons by (simp add: up update_fresh [OF fresh])
  finally show ?case .
qed simp

section \<open>Properties\<close>

text \<open>
  A list of users written in the format of the documentation is read back as it is: every list
  of at least one user with distinct names, each written as its name, a colon and its password, and joined by commas, whose names and
  passwords the format can express, gives exactly those users (a password may contain colons).
\<close>

theorem parseUsers_reads_back:
  assumes "users \<noteq> []" "distinct (map fst users)" "list_all plain_user users"
  shows "parseUsers (join_with '','' (map user_entry users)) = Inr users"
proof -
  have "list_all (\<lambda>s. CHR '','' \<notin> set s) (map user_entry users)"
    using assms(3) by (auto simp: list_all_iff plain_user_def user_entry_def)
  then have "split_at (CHR '','') (join_with '','' (map user_entry users)) = map user_entry users"
    using assms(1) by (intro split_at_join) simp_all
  moreover have "join_with '','' (map user_entry users) \<noteq> []"
    using assms(1) by (cases users; cases "tl users") (auto simp: user_entry_def)
  ultimately show ?thesis
    using parse_entries_plain [OF assms(3), of "[]"] assms(1,2) by (simp add: parseUsers_def)
qed

lemma parseUsers_reads_back_witness:
  "parseUsers ''ana:pw,bob:a:b'' = Inr [(''ana'', ''pw''), (''bob'', ''a:b'')]"
  using parseUsers_reads_back [of "[(''ana'', ''pw''), (''bob'', ''a:b'')]"]
  by (simp add: plain_user_def user_entry_def TrimText_def trim_runes_def runes.simps rune_len_def rune_space_def)

text \<open>
  C37: The server starts with a configuration exactly when the database is named, the list of users
  is readable and each numeric variable is unset or a positive number. The configuration then is what
  the variables say: the database and the address named there, or :2222, the users of the list, of whom there
  is at least one and none has an empty name or password, the two limits, which are positive, and
  each timeout as its number of seconds, or 45, 5 and 120 when unset. (Up to 292 years, the longest
  duration; beyond it the product wraps around.)
\<close>

theorem LoadConfigFromEnv_result:
  "case LoadConfigFromEnv Getenv of
     Inl _ \<Rightarrow> TrimText (Getenv ''TWL_DATABASE_URL'') = []
       \<or> (\<exists>err. parseUsers (TrimText (Getenv ''TWL_SSH_USERS'')) = Inl err)
       \<or> None \<in> {setting Getenv ''TWL_QUEUE_TIMEOUT_SEC'' 45, setting Getenv ''TWL_TURN_TIMEOUT_SEC'' 5,
           setting Getenv ''TWL_MAX_TURNS'' 120, setting Getenv ''TWL_WATCH_WAIT_TIMEOUT_SEC'' 120,
           setting Getenv ''TWL_SPECTATOR_MAX_PER_MATCH'' 20}
   | Inr cfg \<Rightarrow> cf_DatabaseURL cfg = TrimText (Getenv ''TWL_DATABASE_URL'') \<and> cf_DatabaseURL cfg \<noteq> []
       \<and> cf_SSHAddr cfg = (let addr = TrimText (Getenv ''TWL_SSH_ADDR'') in if addr = [] then '':2222'' else addr)
       \<and> cf_SSHAddr cfg \<noteq> []
       \<and> parseUsers (TrimText (Getenv ''TWL_SSH_USERS'')) = Inr (cf_SSHUsers cfg)
       \<and> cf_SSHUsers cfg \<noteq> [] \<and> users_ok (cf_SSHUsers cfg)
       \<and> setting Getenv ''TWL_MAX_TURNS'' 120 = Some (cf_MaxTurns cfg) \<and> 0 < cf_MaxTurns cfg
       \<and> setting Getenv ''TWL_SPECTATOR_MAX_PER_MATCH'' 20 = Some (cf_SpectatorMaxPerMatch cfg)
       \<and> 0 < cf_SpectatorMaxPerMatch cfg
       \<and> list_all (\<lambda>(name, fallback, timeout). \<exists>v. setting Getenv name fallback = Some v
             \<and> timeout = (if v \<le> 9223372036 then v * 1000000000 else seconds v))
           [(''TWL_QUEUE_TIMEOUT_SEC'', 45, cf_QueueTimeout cfg), (''TWL_TURN_TIMEOUT_SEC'', 5, cf_TurnTimeout cfg),
            (''TWL_WATCH_WAIT_TIMEOUT_SEC'', 120, cf_WatchWaitTimeout cfg)]"
proof (cases "LoadConfigFromEnv Getenv")
  case (Inl err)
  have "None = setting Getenv name fallback" if "parseIntEnvDefault Getenv name fallback = Inl e" for name fallback e
    using that parseIntEnvDefault_setting [of Getenv name fallback] by simp
  moreover have "\<not> v \<le> 0" if "parseIntEnvDefault Getenv ''TWL_MAX_TURNS'' 120 = Inr v" for v
    using that setting_pos [of Getenv "''TWL_MAX_TURNS''" 120 v] by (simp add: parseIntEnvDefault_Inr)
  ultimately show ?thesis
    using Inl by (simp add: LoadConfigFromEnv_def Let_def split: if_splits sum.splits)
next
  case (Inr cfg)
  have timeout: "\<exists>w. setting Getenv name fallback = Some w
      \<and> seconds v = (if w \<le> 9223372036 then w * 1000000000 else seconds w)"
    if "setting Getenv name fallback = Some v" "0 < fallback" for name fallback v
    using that setting_pos [OF that] seconds_exact [of v] by (intro exI [of _ v]) simp
  from Inr obtain users q t m w sp where p: "parseUsers (TrimText (Getenv ''TWL_SSH_USERS'')) = Inr users"
    and s: "setting Getenv ''TWL_QUEUE_TIMEOUT_SEC'' 45 = Some q" "setting Getenv ''TWL_TURN_TIMEOUT_SEC'' 5 = Some t"
      "setting Getenv ''TWL_MAX_TURNS'' 120 = Some m" "setting Getenv ''TWL_WATCH_WAIT_TIMEOUT_SEC'' 120 = Some w"
      "setting Getenv ''TWL_SPECTATOR_MAX_PER_MATCH'' 20 = Some sp"
    and cfg: "cf_DatabaseURL cfg = TrimText (Getenv ''TWL_DATABASE_URL'')" "cf_DatabaseURL cfg \<noteq> []"
      "cf_SSHAddr cfg = (let addr = TrimText (Getenv ''TWL_SSH_ADDR'') in if addr = [] then '':2222'' else addr)"
      "cf_SSHAddr cfg \<noteq> []" "cf_SSHUsers cfg = users" "cf_QueueTimeout cfg = seconds q"
      "cf_TurnTimeout cfg = seconds t" "cf_MaxTurns cfg = m" "cf_WatchWaitTimeout cfg = seconds w"
      "cf_SpectatorMaxPerMatch cfg = sp"
    by (auto simp: LoadConfigFromEnv_def Let_def parseIntEnvDefault_Inr split: if_splits sum.splits)
  from timeout [OF s(1)] timeout [OF s(2)] timeout [OF s(4)] setting_pos [OF s(3)] setting_pos [OF s(5)]
    parseUsers_ok [OF p] p s cfg show ?thesis
    unfolding Inr sum.case list.pred_inject prod.case by (simp only:) simp
qed

text \<open>A number of seconds beyond the longest duration is accepted and becomes a negative timeout.\<close>

lemma huge_timeout_wraps:
  "parseIntEnvDefault (\<lambda>_. ''9223372037'') name fallback = Inr 9223372037 \<and> seconds 9223372037 < 0"
  by (simp add: parseIntEnvDefault_def ParseInt_def Let_def digits_value_def is_digit_def int64_ok_def seconds_def
      TrimText_def trim_runes_def runes.simps rune_len_def rune_space_def)

end
