(* ===== verification/Session.thy ===== *)
theory Session
  imports Shell ServerConfig
begin

text \<open>
  A session from the password to the cleanup, \<^verbatim>\<open>cmd/server/ssh_server.go\<close>: the login check with its
  limiter (\<open>passwordCallback\<close>), the registration of the player, the tutorial a newcomer has to play, the
  command loop of the theory Shell, and the cleanup every session ends with (\<open>runShell\<close>).

  The lookup of the player is an argument here (\<open>en_ensured\<close>); the theory Accounts models it. So is the
  SHA-256 digest of the remote host. What other sessions and the matches do to the shared state while
  this one runs is the environment's (\<open>li_others\<close>, \<open>en_meanwhile\<close>, \<open>en_after\<close>).
\<close>

section \<open>Login\<close>

text \<open>\<^verbatim>\<open>net.SplitHostPort\<close>, of which the program uses the host; \<open>None\<close> is its error.\<close>

definition SplitHostPort :: "string \<Rightarrow> string option" where
  "SplitHostPort hostport =
     (let front = takeWhile (\<lambda>c. c \<noteq> CHR '':'') (rev hostport);
          i = length hostport - length front - 1 in
      if CHR '':'' \<notin> set hostport then None
      else if hd hostport = CHR ''['' then
        (if CHR '']'' \<notin> set hostport then None
         else let stop = length (takeWhile (\<lambda>c. c \<noteq> CHR '']'') hostport) in
         if stop + 1 \<noteq> i then None
         else if CHR ''['' \<in> set (drop 1 hostport) \<or> CHR '']'' \<in> set (drop (stop + 1) hostport) then None
         else Some (take (stop - 1) (drop 1 hostport)))
      else if CHR '':'' \<in> set (take i hostport) then None
      else if CHR ''['' \<in> set hostport \<or> CHR '']'' \<in> set hostport then None
      else Some (take i hostport))"

definition remote_host :: "string \<Rightarrow> string" where
  "remote_host addr = (case SplitHostPort addr of Some host \<Rightarrow> host | None \<Rightarrow> addr)"

text \<open>The digest of \<^verbatim>\<open>crypto/sha256\<close> in hexadecimal is the argument \<open>sha256_hex\<close>.\<close>

definition hashRemoteAddr :: "(string \<Rightarrow> string) \<Rightarrow> string \<Rightarrow> string" where
  "hashRemoteAddr sha256_hex addr = (case SplitHostPort (TrimText addr) of
     Some host \<Rightarrow> sha256_hex host | None \<Rightarrow> sha256_hex (TrimText addr))"

datatype login_error = ErrLoginRateLimit | ErrInvalidLogin

record login_attempt =
  la_now :: time
  la_addr :: string
  la_user :: string
  la_password :: string

definition passwordCallback :: "'f float64 \<Rightarrow> server_config \<Rightarrow> bool \<Rightarrow> login_attempt \<Rightarrow> 'f limiter
    \<Rightarrow> login_error option \<times> string list \<times> 'f limiter" where
  "passwordCallback F cfg telemetry a l =
     (let count = (\<lambda>name. if telemetry then [name] else []);
          (ok, l) = Allow F (la_now a) (remote_host (la_addr a)) l
      in if \<not> ok then (Some ErrLoginRateLimit, count ''login_attempts'' @ count ''login_rate_limited'', l)
         else if map_of (cf_SSHUsers cfg) (la_user a) \<noteq> Some (la_password a)
         then (Some ErrInvalidLogin, count ''login_attempts'' @ count ''login_denied'', l)
         else (None, count ''login_attempts'', l))"

text \<open>The limiter of \<^verbatim>\<open>newSSHServer\<close>, and the attempts one after the other.\<close>

definition loginLimiter :: "'f float64 \<Rightarrow> 'f limiter" where
  "loginLimiter F = newTokenBucketLimiter F 5 3"

fun login_all :: "'f float64 \<Rightarrow> server_config \<Rightarrow> bool \<Rightarrow> login_attempt list \<Rightarrow> 'f limiter
    \<Rightarrow> login_error option list \<times> 'f limiter" where
  "login_all F cfg telemetry [] l = ([], l)"
| "login_all F cfg telemetry (a # as) l =
     (case passwordCallback F cfg telemetry a l of (res, out, l) \<Rightarrow>
        (case login_all F cfg telemetry as l of (ress, l) \<Rightarrow> (res # ress, l)))"

section \<open>Sessions\<close>

definition trackSession :: "session \<Rightarrow> 'f shell_state \<Rightarrow> 'f shell_state" where
  "trackSession sess st = st\<lparr>ss_sessions := (ss_sessions st)(se_PlayerID sess \<mapsto> sess)\<rparr>"

definition untrackSession :: "string \<Rightarrow> 'f shell_state \<Rightarrow> 'f shell_state" where
  "untrackSession playerID st = st\<lparr>ss_sessions := (ss_sessions st)(playerID := None)\<rparr>"

record 'f session_env =
  en_ensured :: "string \<Rightarrow> (string \<times> player_profile) option"
  en_sha256 :: "string \<Rightarrow> string"
  en_uuid :: string
  en_start :: time
  en_tutorial :: tutorial_call
  en_meanwhile :: "'f shell_state \<Rightarrow> 'f shell_state"
  en_lines :: "'f line_input list"
  en_ending :: scan_end
  en_after :: "'f shell_state \<Rightarrow> 'f shell_state"
  en_close :: time

text \<open>The deferred cleanup.\<close>

definition close_session :: "'f shell_deps \<Rightarrow> session \<Rightarrow> string \<Rightarrow> time \<Rightarrow> 'f shell_state
    \<Rightarrow> 'f shell_output list \<times> 'f shell_state" where
  "close_session D sess addr now st =
     (let (out, s) = Dequeue (sh_matcher D) now (se_PlayerID sess) (ss_service st);
          s = s\<lparr>sv_lobby := Unregister (se_PlayerID sess) (sv_lobby s)\<rparr>;
          st = untrackSession (se_PlayerID sess) (st\<lparr>ss_service := s\<rparr>)
      in (map Matchmaker out @ record_session D \<lparr>sv_PlayerID = Some (se_PlayerID sess), sv_Handle = se_Handle sess,
            sv_RemoteAddrHash = addr, sv_EventType = ''session_closed'', sv_Detail = []\<rparr>, st))"

text \<open>What runs between the registration and the cleanup; the state is the one the cleanup finds.\<close>

definition session_body :: "'f shell_deps \<Rightarrow> 'f session_env \<Rightarrow> session \<Rightarrow> string \<Rightarrow> player_profile \<Rightarrow> 'f shell_state
    \<Rightarrow> ('f shell_output list \<times> 'f shell_state) option" where
  "session_body D E sess addr profile st =
     (let now = en_start E;
          welcome = offer [''Welcome to Terminal Wrestling League!'', help_text]
            @ record_navigation D \<lparr>sn_PlayerID = se_PlayerID sess, sn_SessionID = Some (en_uuid E),
                sn_State = navigationState now sess (Some profile) st, sn_EventType = ''session_started'',
                sn_Source = NavigationSourceSystem, sn_OptionKey = None,
                sn_Detail = [(''tutorial_completed'', DetailBool (pp_TutorialCompleted profile))]\<rparr>;
          (stop, out, lis, profile) =
            (if pp_TutorialCompleted profile then (None, [], en_lines E, profile)
             else runTutorialFlow D sess (en_ending E) (en_tutorial E) (en_lines E) profile False addr (en_uuid E)
               NavigationSourceSystem)
      in case stop of
        Some StopEOF \<Rightarrow> Some (welcome @ out, st)
      | Some (StopTutorial e) \<Rightarrow> Some (welcome @ out @ [OfferedError (TutorialAborted e)], st)
      | Some _ \<Rightarrow> Some (welcome @ out @ [OfferedError TutorialInterrupted], st)
      | None \<Rightarrow>
          (let st = en_meanwhile E st;
               menu = sendStatusAndMenu D now sess (Some profile) (en_uuid E) st
           in map_option (\<lambda>(exit, out', profile, st). (welcome @ out @ menu @ out'
                @ (case (exit, en_ending E) of
                     (ShellInputEnded, ScanFails e) \<Rightarrow> record_session D \<lparr>sv_PlayerID = Some (se_PlayerID sess),
                       sv_Handle = se_Handle sess, sv_RemoteAddrHash = addr, sv_EventType = ''session_io_error'',
                       sv_Detail = [(''error'', DetailText (sh_error_text D (ScanFailed e)))]\<rparr>
                   | _ \<Rightarrow> []), st))
              (shell_loop D sess addr (en_uuid E) (en_ending E) lis profile st)))"

definition runShell :: "'f shell_deps \<Rightarrow> 'f session_env \<Rightarrow> string \<Rightarrow> string \<Rightarrow> 'f shell_state
    \<Rightarrow> ('f shell_output list \<times> 'f shell_state) option" where
  "runShell D E handle remoteAddr st =
     (let addr = hashRemoteAddr (en_sha256 E) remoteAddr;
          event = (\<lambda>pid kind detail. record_session D \<lparr>sv_PlayerID = pid, sv_Handle = handle, sv_RemoteAddrHash = addr,
             sv_EventType = kind, sv_Detail = detail\<rparr>)
      in case en_ensured E handle of
        None \<Rightarrow> Some (event None ''login_failed'' [(''reason'', DetailText ''ensure_player_session_failed'')]
          @ [Wrote ''failed to initialize player''], st)
      | Some (playerID, profile) \<Rightarrow>
          (let login = event (Some playerID) ''login_success''
                 [(''tutorial_completed'', DetailBool (pp_TutorialCompleted profile))];
               sess = \<lparr>se_PlayerID = playerID, se_Handle = handle, se_RemoteAddr = remoteAddr\<rparr>
           in case Register sess (sv_lobby (ss_service st)) of
             (Some err, lb) \<Rightarrow> Some (login @ event (Some playerID) ''session_register_failed''
                 [(''error'', DetailText (sh_error_text D (RegisterFailed err)))]
               @ [Wrote ''failed to register session''], st)
           | (None, lb) \<Rightarrow>
               (let st = trackSession sess (st\<lparr>ss_service := (ss_service st)\<lparr>sv_lobby := lb\<rparr>\<rparr>)
                in map_option (\<lambda>(out, st).
                     (let (closing, st) = close_session D sess addr (en_close E) (en_after E st)
                      in (login @ out @ closing, st)))
                   (session_body D E sess addr profile st))))"

section \<open>What the command loop keeps\<close>

text \<open>What the first line does to the loop.\<close>

lemma shell_loop_cases:
  assumes "shell_loop D sess addr sessionID ending (li # lis) profile st = Some (exit, out, profile', st')"
  defines "st1 \<equiv> li_others li st" and "line \<equiv> sanitizeInputLine (li_text li)"
  obtains (blank) "shell_loop D sess addr sessionID ending lis profile st1 = Some (exit, out, profile', st')"
  | (hint) command source selected out2
    where "menu_step D sess sessionID (navigationState (li_now li) sess (Some profile) st1) line = (command, source, selected)"
      "shell_loop D sess addr sessionID ending lis profile st1 = Some (exit, out2, profile', st')"
      "out = selected @ offer [''During a match use: a <action> <zone>''] @ out2"
  | (stopped) command source selected stop out1 rest out2
    where "menu_step D sess sessionID (navigationState (li_now li) sess (Some profile) st1) line = (command, source, selected)"
      "runTutorialFlow D sess ending (li_tutorial li) lis profile True addr sessionID source = (Some stop, out1, rest, profile')"
      "st' = st1" "out = selected @ out1 @ out2" "\<forall>w \<in> set out2. \<exists>e. w = OfferedError e"
  | (retried) command source selected out1 rest profile1 out2
    where "menu_step D sess sessionID (navigationState (li_now li) sess (Some profile) st1) line = (command, source, selected)"
      "runTutorialFlow D sess ending (li_tutorial li) lis profile True addr sessionID source = (None, out1, rest, profile1)"
      "shell_loop D sess addr sessionID ending rest profile1 st1 = Some (exit, out2, profile', st')"
      "out = selected @ out1 @ sendStatusAndMenu D (li_now li) sess (Some profile1) sessionID st1 @ out2"
  | (quits) command source selected out1
    where "menu_step D sess sessionID (navigationState (li_now li) sess (Some profile) st1) line = (command, source, selected)"
      "handleUserInputWithSession D li sess (Some profile) command sessionID st1 = Some (False, out1, st')"
      "out = selected @ out1"
  | (handled) command source selected out1 st2 out2
    where "menu_step D sess sessionID (navigationState (li_now li) sess (Some profile) st1) line = (command, source, selected)"
      "handleUserInputWithSession D li sess (Some profile) command sessionID st1 = Some (True, out1, st2)"
      "shell_loop D sess addr sessionID ending lis profile st2 = Some (exit, out2, profile', st')"
      "out = selected @ out1 @ out2"
proof -
  let ?state = "navigationState (li_now li) sess (Some profile) st1"
  obtain command source selected where menu: "menu_step D sess sessionID ?state line = (command, source, selected)"
    by (metis prod_cases3)
  note loop = assms(1) [unfolded shell_loop.simps(2) Let_def, folded st1_def line_def, unfolded menu prod.case]
  consider "line = []" | "line \<noteq> []" "source = NavigationSourceMenu \<and> command = ''__action_hint''"
    | (flow) "line \<noteq> []" "\<not> (source = NavigationSourceMenu \<and> command = ''__action_hint'')" "EqualFold command ''tutorial retry''"
    | (cmd) "line \<noteq> []" "\<not> (source = NavigationSourceMenu \<and> command = ''__action_hint'')" "\<not> EqualFold command ''tutorial retry''"
    by blast
  then show ?thesis
  proof cases
    case 1
    with loop blank show ?thesis by simp
  next
    case 2
    with loop hint [OF menu] show ?thesis by auto
  next
    case flow
    obtain stop out1 rest profile1 where run: "runTutorialFlow D sess ending (li_tutorial li) lis profile True addr sessionID source
        = (stop, out1, rest, profile1)" by (metis prod_cases4)
    show ?thesis
    proof (cases stop)
      case None
      from loop flow obtain out2 where
        "shell_loop D sess addr sessionID ending rest profile1 st1 = Some (exit, out2, profile', st')"
        "out = selected @ out1 @ sendStatusAndMenu D (li_now li) sess (Some profile1) sessionID st1 @ out2"
        by (simp only: if_False if_True run None prod.case option.case) auto
      then show ?thesis by (rule retried [OF menu run [unfolded None]])
    next
      case (Some x)
      with loop flow run have "profile1 = profile'" "st' = st1" "out = selected @ out1 @ (case x of StopEOF \<Rightarrow> []
          | StopTutorial e \<Rightarrow> [OfferedError (TutorialRetryFailed e)] | _ \<Rightarrow> [OfferedError TutorialInterrupted])" by simp_all
      moreover from this(1) have "runTutorialFlow D sess ending (li_tutorial li) lis profile True addr sessionID source
          = (Some x, out1, rest, profile')" using run Some by simp
      ultimately show ?thesis by (intro stopped [OF menu]) (auto split: shell_stop.splits)
    qed
  next
    case cmd
    show ?thesis
    proof (cases "handleUserInputWithSession D li sess (Some profile) command sessionID st1")
      case None
      with loop cmd show ?thesis by simp
    next
      case (Some r)
      obtain go out1 st2 where r: "r = (go, out1, st2)" by (metis prod_cases3)
      show ?thesis
      proof (cases go)
        case True
        with loop cmd Some r handled [OF menu, of out1 st2] show ?thesis by auto
      next
        case False
        with loop cmd Some r quits [OF menu, of out1] show ?thesis by auto
      qed
    qed
  qed
qed

text \<open>Whatever every line keeps, and the others keep, holds of the state the loop ends with.\<close>

lemma shell_loop_invariant:
  assumes handler: "\<And>li profile command st go out st'. I st \<Longrightarrow>
      handleUserInputWithSession D li sess (Some profile) command sessionID st = Some (go, out, st') \<Longrightarrow> I st'"
  shows "\<forall>li \<in> set lis. \<forall>st. I st \<longrightarrow> I (li_others li st) \<Longrightarrow> I st \<Longrightarrow>
    shell_loop D sess addr sessionID ending lis profile st = Some (exit, out, profile', st') \<Longrightarrow> I st'"
proof (induction "length lis" arbitrary: lis profile st out rule: less_induct)
  case less
  show ?case
  proof (cases lis)
    case Nil
    with less.prems show ?thesis by (simp add: shell_loop.simps)
  next
    case (Cons li rest)
    have st: "I (li_others li st)" using less.prems(1,2) Cons by simp
    have again: "I st'" if "length lis' \<le> length rest" "set lis' \<subseteq> set rest" "I st2"
      "shell_loop D sess addr sessionID ending lis' profile2 st2 = Some (exit, out2, profile', st')" for lis' st2 profile2 out2
    proof (rule less.hyps [OF _ _ that(3,4)])
      show "length lis' < length lis" using that(1) Cons by simp
      show "\<forall>li \<in> set lis'. \<forall>st. I st \<longrightarrow> I (li_others li st)"
        using less.prems(1) subsetD [OF that(2)] unfolding Cons by simp
    qed
    from less.prems(3) [unfolded Cons] show ?thesis
    proof (cases rule: shell_loop_cases)
      case blank
      from again [OF _ _ st this] show ?thesis by simp
    next
      case hint
      from again [OF _ _ st hint(2)] show ?thesis by simp
    next
      case stopped
      with st show ?thesis by simp
    next
      case (retried command source selected out1 rest1)
      from runTutorialFlow_typed [OF retried(2)] obtain typed where "rest = typed @ rest1" by (elim exE conjE)
      with again [OF _ _ st retried(3)] show ?thesis by simp
    next
      case quits
      from handler [OF st quits(2)] show ?thesis .
    next
      case handled
      from again [OF _ _ handler [OF st handled(2)] handled(3)] show ?thesis by simp
    qed
  qed
qed

text \<open>No command breaks the lobby.\<close>

abbreviation shell_lobby :: "'f shell_state \<Rightarrow> lobby_state" where
  "shell_lobby st \<equiv> sv_lobby (ss_service st)"

lemma wf_Enqueue: "wf_lobby (sv_lobby s) \<Longrightarrow> wf_lobby (sv_lobby (snd (Enqueue C clock now pid s)))"
  using wf_JoinQueue [of "sv_lobby s" clock pid]
  by (auto simp: Enqueue_def Let_def split: prod.split option.split)

lemma wf_Dequeue: "wf_lobby (sv_lobby s) \<Longrightarrow> wf_lobby (sv_lobby (snd (Dequeue C now pid s)))"
  by (simp add: Dequeue_def Let_def wf_LeaveQueue)

lemma wf_StartNPCMatch: "wf_lobby (sv_lobby s) \<Longrightarrow> wf_lobby (sv_lobby (snd (StartNPCMatch C now sess s)))"
  by (auto simp: StartNPCMatch_def claim_practice_def practice_guard_def lock_practice_def start_practice_def Let_def wf_LeaveQueue)

lemma wf_command_queue:
  "command_queue D now sess profile command sessionID st = (out, st') \<Longrightarrow> wf_lobby (shell_lobby st) \<Longrightarrow> wf_lobby (shell_lobby st')"
  using wf_Enqueue [of "ss_service st" "sh_matcher D" now now "se_PlayerID sess"]
  by (auto simp: command_queue_def Let_def split: prod.splits option.splits if_splits)

lemma wf_command_leave:
  "command_leave D now sess sessionID st = (out, st') \<Longrightarrow> wf_lobby (shell_lobby st) \<Longrightarrow> wf_lobby (shell_lobby st')"
  using wf_Dequeue [of "ss_service st" "sh_matcher D" now "se_PlayerID sess"]
  by (auto simp: command_leave_def split: prod.splits)

lemma wf_command_npc:
  "command_npc D now sess profile st = (out, st') \<Longrightarrow> wf_lobby (shell_lobby st) \<Longrightarrow> wf_lobby (shell_lobby st')"
  using wf_StartNPCMatch [of "ss_service st" "sh_matcher D" now sess]
  by (auto simp: command_npc_def split: prod.splits option.splits if_splits)

lemma command_action_service:
  "command_action D now full sess args st = (out, st') \<Longrightarrow> ss_service st' = ss_service st"
  by (auto simp: command_action_def Let_def split: prod.splits sum.splits if_splits)

text \<open>What a line does to the state is what one of the four commands that change it does.\<close>

lemma handler_state:
  assumes "handleUserInputWithSession D li sess profile line sessionID st = Some (go, out, st')"
  obtains "st' = st"
  | command o1 where "command_queue D (li_now li) sess profile command sessionID st = (o1, st')"
  | o1 where "command_leave D (li_now li) sess sessionID st = (o1, st')"
  | o1 where "command_npc D (li_now li) sess profile st = (o1, st')"
  | o1 args where "command_action D (li_now li) (li_input_full li) sess args st = (o1, st')"
  using assms
  by (auto simp: handleUserInputWithSession_def Let_def split: if_splits prod.splits)

lemma wf_handler:
  "handleUserInputWithSession D li sess profile line sessionID st = Some (go, out, st') \<Longrightarrow>
     wf_lobby (shell_lobby st) \<Longrightarrow> wf_lobby (shell_lobby st')"
  by (erule handler_state) (auto dest: wf_command_queue wf_command_leave wf_command_npc command_action_service)

section \<open>The cleanup\<close>

lemma Unregister_gone:
  assumes "wf_lobby s"
  shows "GetSession pid (Unregister pid s) = None" "pid \<notin> set (lo_queue (Unregister pid s))"
proof -
  show "GetSession pid (Unregister pid s) = None"
    by (simp add: GetSession_def Unregister_def removeQueueLocked_def AList.delete_conv')
  then show "pid \<notin> set (lo_queue (Unregister pid s))"
    using wf_lobby_mem(2) [OF wf_Unregister [OF assms]] by (simp add: GetSession_def)
qed

lemma close_session_clean:
  assumes "close_session D sess addr now st = (out, st')" "wf_lobby (shell_lobby st)"
  shows "wf_lobby (shell_lobby st')" "GetSession (se_PlayerID sess) (shell_lobby st') = None"
    "se_PlayerID sess \<notin> set (lo_queue (shell_lobby st'))" "sv_queueJoinedAt (ss_service st') (se_PlayerID sess) = None"
    "ss_sessions st' (se_PlayerID sess) = None" "sv_inMatch (ss_service st') = sv_inMatch (ss_service st)"
proof -
  obtain out1 s1 where leave: "Dequeue (sh_matcher D) now (se_PlayerID sess) (ss_service st) = (out1, s1)" by force
  have s1: "wf_lobby (sv_lobby s1)" using wf_Dequeue [OF assms(2)] leave by (metis snd_conv)
  have facts: "sv_queueJoinedAt s1 (se_PlayerID sess) = None" "sv_inMatch s1 = sv_inMatch (ss_service st)"
    using leave by (auto simp: Dequeue_def Let_def clear_stamp_def)
  have st': "ss_service st' = s1\<lparr>sv_lobby := Unregister (se_PlayerID sess) (sv_lobby s1)\<rparr>"
    "ss_sessions st' = (ss_sessions st)(se_PlayerID sess := None)"
    using assms(1) leave by (auto simp: close_session_def Let_def untrackSession_def)
  show "wf_lobby (shell_lobby st')" "GetSession (se_PlayerID sess) (shell_lobby st') = None"
    "se_PlayerID sess \<notin> set (lo_queue (shell_lobby st'))" "sv_queueJoinedAt (ss_service st') (se_PlayerID sess) = None"
    "ss_sessions st' (se_PlayerID sess) = None" "sv_inMatch (ss_service st') = sv_inMatch (ss_service st)"
    using wf_Unregister [OF s1] Unregister_gone [OF s1] facts by (simp_all add: st')
qed

lemma shell_loop_wf:
  assumes "shell_loop D sess addr sessionID ending lis profile st = Some (exit, out, profile', st')"
    and "wf_lobby (shell_lobby st)"
    and "\<forall>li \<in> set lis. \<forall>st. wf_lobby (shell_lobby st) \<longrightarrow> wf_lobby (shell_lobby (li_others li st))"
  shows "wf_lobby (shell_lobby st')"
  by (rule shell_loop_invariant [where I = "\<lambda>st. wf_lobby (shell_lobby st)", OF _ assms(3,2,1)]) (rule wf_handler)

lemma session_body_wf:
  assumes "session_body D E sess addr profile st = Some (out, st')" "wf_lobby (shell_lobby st)"
    and quiet: "\<And>st. wf_lobby (shell_lobby st) \<Longrightarrow> wf_lobby (shell_lobby (en_meanwhile E st))"
      "\<And>li st. li \<in> set (en_lines E) \<Longrightarrow> wf_lobby (shell_lobby st) \<Longrightarrow> wf_lobby (shell_lobby (li_others li st))"
  shows "wf_lobby (shell_lobby st')"
proof -
  obtain stop out1 lis profile1 where flow: "(if pp_TutorialCompleted profile then (None, [], en_lines E, profile)
      else runTutorialFlow D sess (en_ending E) (en_tutorial E) (en_lines E) profile False addr (en_uuid E)
        NavigationSourceSystem) = (stop, out1, lis, profile1)" (is "?flow = _")
    by (metis prod_cases4)
  have lis: "set lis \<subseteq> set (en_lines E)"
    using flow runTutorialFlow_typed [of D sess "en_ending E" "en_tutorial E" "en_lines E" profile False addr "en_uuid E"
        NavigationSourceSystem stop out1 lis profile1] by (auto split: if_splits)
  show ?thesis
  proof (cases stop)
    case None
    with assms(1) flow obtain exit out2 profile2 where
      "shell_loop D sess addr (en_uuid E) (en_ending E) lis profile1 (en_meanwhile E st) = Some (exit, out2, profile2, st')"
      by (auto simp: session_body_def Let_def simp del: if_split)
    from shell_loop_wf [OF this] show ?thesis using quiet lis assms(2) by blast
  next
    case (Some x)
    with assms(1) flow have "st' = st"
      by (cases x) (auto simp: session_body_def Let_def simp del: if_split)
    with assms(2) show ?thesis by simp
  qed
qed

text \<open>The state in which the session starts, once registered.\<close>

definition registered :: "session \<Rightarrow> 'f shell_state \<Rightarrow> 'f shell_state" where
  "registered sess st = trackSession sess
     (st\<lparr>ss_service := (ss_service st)\<lparr>sv_lobby := snd (Register sess (shell_lobby st))\<rparr>\<rparr>)"

lemma registered_lobby [simp]: "shell_lobby (registered sess st) = snd (Register sess (shell_lobby st))"
  by (simp add: registered_def trackSession_def)

lemma runShell_cases:
  assumes "runShell D E handle remoteAddr st = Some (out, st')" "en_ensured E handle = Some (playerID, profile)"
  defines "sess \<equiv> \<lparr>se_PlayerID = playerID, se_Handle = handle, se_RemoteAddr = remoteAddr\<rparr>"
    and "addr \<equiv> hashRemoteAddr (en_sha256 E) remoteAddr"
  obtains (refused) err where "fst (Register sess (shell_lobby st)) = Some err" "st' = st"
  | (ran) o1 st1 o2 login where "fst (Register sess (shell_lobby st)) = None"
    "session_body D E sess addr profile (registered sess st) = Some (o1, st1)"
    "close_session D sess addr (en_close E) (en_after E st1) = (o2, st')" "out = login @ o1 @ o2"
    "\<forall>w \<in> set login. \<exists>ev. w = SessionRecorded ev"
proof (cases "Register sess (shell_lobby st)")
  case (Pair err lb)
  show thesis
  proof (cases err)
    case None
    let ?login = "record_session D \<lparr>sv_PlayerID = Some playerID, sv_Handle = handle, sv_RemoteAddrHash = addr,
       sv_EventType = ''login_success'', sv_Detail = [(''tutorial_completed'', DetailBool (pp_TutorialCompleted profile))]\<rparr>"
    have reg: "trackSession sess (st\<lparr>ss_service := (ss_service st)\<lparr>sv_lobby := lb\<rparr>\<rparr>) = registered sess st"
      by (simp add: registered_def Pair)
    have run: "runShell D E handle remoteAddr st = map_option (\<lambda>(out, st).
        (let (closing, st) = close_session D sess addr (en_close E) (en_after E st) in (?login @ out @ closing, st)))
        (session_body D E sess addr profile (registered sess st))"
      using Pair None assms(2) by (simp add: runShell_def Let_def sess_def addr_def reg [unfolded sess_def])
    with assms(1) obtain r where r: "session_body D E sess addr profile (registered sess st) = Some r"
      "(case r of (out, st) \<Rightarrow> let (closing, st) = close_session D sess addr (en_close E) (en_after E st)
         in (?login @ out @ closing, st)) = (out, st')" by auto
    obtain o1 st1 where r1: "r = (o1, st1)" by force
    obtain o2 st2 where c: "close_session D sess addr (en_close E) (en_after E st1) = (o2, st2)" by force
    have "out = ?login @ o1 @ o2" "st2 = st'" using r(2) r1 c by (simp_all add: Let_def)
    moreover have "\<forall>w \<in> set ?login. \<exists>ev. w = SessionRecorded ev" by (simp add: record_session_def)
    ultimately show thesis using ran [of o1 st1 o2 ?login] r(1) r1 c None Pair by simp
  next
    case (Some e)
    with Pair assms(1,2) have "st' = st" by (simp add: runShell_def Let_def sess_def)
    with refused Some Pair show thesis by simp
  qed
qed

text \<open>
  C25: However a session ends, and whatever was typed in it, when it is over its player is neither
  registered nor in the queue nor tracked, no waiting time of the player is kept, and the lobby is
  consistent; a session that could not register leaves the state as it was. (The others are assumed to
  keep the lobby consistent.)
\<close>

theorem session_leaves_nothing_behind:
  assumes "runShell D E handle remoteAddr st = Some (out, st')" "wf_lobby (shell_lobby st)"
    and "\<forall>st. wf_lobby (shell_lobby st) \<longrightarrow> wf_lobby (shell_lobby (en_meanwhile E st))
      \<and> wf_lobby (shell_lobby (en_after E st)) \<and> (\<forall>li \<in> set (en_lines E). wf_lobby (shell_lobby (li_others li st)))"
    and "en_ensured E handle = Some (playerID, profile)"
  shows "wf_lobby (shell_lobby st')
    \<and> (if handle = [] \<or> playerID = [] \<or> GetSession playerID (shell_lobby st) \<noteq> None then st' = st
       else GetSession playerID (shell_lobby st') = None \<and> playerID \<notin> set (lo_queue (shell_lobby st'))
         \<and> ss_sessions st' playerID = None \<and> sv_queueJoinedAt (ss_service st') playerID = None)"
  using assms(1,4)
proof (cases rule: runShell_cases)
  case (refused err)
  with assms(2) show ?thesis by (auto simp: Register_def GetSession_def split: if_splits)
next
  case (ran o1 st1 o2 login)
  let ?sess = "\<lparr>se_PlayerID = playerID, se_Handle = handle, se_RemoteAddr = remoteAddr\<rparr>"
  have "wf_lobby (shell_lobby (registered ?sess st))" by (simp add: wf_Register assms(2))
  with session_body_wf [OF ran(2)] assms(3) have "wf_lobby (shell_lobby (en_after E st1))" by blast
  from close_session_clean [OF ran(3) this] ran(1) show ?thesis
    by (auto simp: Register_def GetSession_def split: if_splits)
qed

text \<open>A small server and a session on it.\<close>

definition demo_shell :: "rat option shell_deps" where
  "demo_shell = \<lparr>sh_float = exact_float, sh_matcher = demo_service_config, sh_match = demo_deps, sh_events = True,
     sh_wait_text = itoa, sh_error_text = (\<lambda>e. ''error''), sh_watch_store = None, sh_tutorial_store = None,
     sh_WatchWaitTimeout = 5, sh_SpectatorMaxPerMatch = 20\<rparr>"

definition demo_shell_state :: "rat option shell_state" where
  "demo_shell_state = \<lparr>ss_service = NewService NewLobby, ss_queueLimiter = newTokenBucketLimiter exact_float 10 10,
     ss_actionLimiter = newTokenBucketLimiter exact_float 30 30, ss_sessions = Map.empty\<rparr>"

definition demo_profile :: "bool \<Rightarrow> player_profile" where
  "demo_profile done_before = \<lparr>pp_PlayerID = ''p1'', pp_TutorialCompleted = done_before, pp_TutorialCompletedAt = None,
     pp_TutorialRuns = 0, pp_CreatedAt = 1, pp_UpdatedAt = 1\<rparr>"

definition demo_line :: "string \<Rightarrow> rat option line_input" where
  "demo_line text = \<lparr>li_text = text, li_canceled = False, li_now = 1000, li_input_full = False,
     li_watch = \<lparr>we_polls = [], we_later = 0, we_uuid = ''u'', we_chan = 1, we_hub = demo_hub, we_events = []\<rparr>,
     li_tutorial = \<lparr>tc_startedAt = 1, tc_endedAt = 2, tc_env = (\<lambda>_. \<lparr>ue_canceled = False, ue_cut = None\<rparr>), tc_now = 3\<rparr>,
     li_others = (\<lambda>st. st)\<rparr>"

definition demo_session_env :: "bool \<Rightarrow> string list \<Rightarrow> rat option session_env" where
  "demo_session_env done_before texts = \<lparr>en_ensured = (\<lambda>h. Some (''p1'', demo_profile done_before)),
     en_sha256 = (\<lambda>s. ''00''), en_uuid = ''s1'', en_start = 500,
     en_tutorial = li_tutorial (demo_line []), en_meanwhile = (\<lambda>st. st), en_lines = map demo_line texts,
     en_ending = ScanEOF, en_after = (\<lambda>st. st), en_close = 2000\<rparr>"

lemma session_leaves_nothing_behind_witness:
  "\<exists>out st'. runShell demo_shell (demo_session_env True [''q'']) ''ana'' ''1.2.3.4:99'' demo_shell_state = Some (out, st')
     \<and> wf_lobby (shell_lobby st') \<and> GetSession ''p1'' (shell_lobby st') = None \<and> ''p1'' \<notin> set (lo_queue (shell_lobby st'))"
proof -
  have "runShell demo_shell (demo_session_env True [''q'']) ''ana'' ''1.2.3.4:99'' demo_shell_state \<noteq> None" by code_simp
  then obtain out st' where run:
    "runShell demo_shell (demo_session_env True [''q'']) ''ana'' ''1.2.3.4:99'' demo_shell_state = Some (out, st')" by auto
  have wf: "wf_lobby (shell_lobby demo_shell_state)"
    by (simp add: demo_shell_state_def NewService_def NewLobby_def wf_lobby_def)
  show ?thesis
    using session_leaves_nothing_behind [OF run wf, of "''p1''" "demo_profile True"] run
    by (simp add: demo_session_env_def demo_line_def demo_shell_state_def NewService_def NewLobby_def GetSession_def)
qed

section \<open>The tutorial comes first\<close>

lemma await_command_out: "await_command command ending lis = (stop, out, rest) \<Longrightarrow> \<forall>w \<in> set out. \<exists>ls. w = Offered ls"
  by (induction lis arbitrary: out) (auto simp: Let_def offer_def split: if_splits prod.splits)

lemma follow_steps_out: "follow_steps steps ending lis = (stop, out, rest) \<Longrightarrow> \<forall>w \<in> set out. \<exists>ls. w = Offered ls"
proof (induction steps arbitrary: lis stop out rest)
  case (Cons step steps)
  obtain command prompt where step: "step = (command, prompt)" by (cases step)
  obtain stop1 out1 rest1 where one: "await_command command ending lis = (stop1, out1, rest1)" by (metis prod_cases3)
  obtain stop2 out2 rest2 where two: "follow_steps steps ending rest1 = (stop2, out2, rest2)" by (metis prod_cases3)
  from Cons.prems one two step have "set out \<subseteq> {Offered [prompt]} \<union> set out1 \<union> set out2"
    by (auto simp: offer_def split: option.splits)
  with await_command_out [OF one] Cons.IH [OF two] show ?case by blast
qed simp

text \<open>What a session does to the game: it plays for its player in a match, or it starts one.\<close>

fun plays :: "'f shell_output \<Rightarrow> bool" where
  "plays (CommandSent c) = True"
| "plays (Matchmaker (StartedPvP s1 s2 w1 w2)) = True"
| "plays (Matchmaker (StartedPractice sess)) = True"
| "plays _ = False"

lemma plays_simps [simp]:
  "\<not> list_ex plays (offer ls)" "\<not> list_ex plays (record_session D ev)"
  "\<not> list_ex plays (record_navigation D nv)" "\<not> list_ex plays (tutorial_session_event D sess addr k d)"
  "\<not> list_ex plays (tutorial_navigation_event D sess sid src k d)"
  "\<not> list_ex plays (map TutorialDid did)" "\<not> list_ex plays (map TutorialWrote wrote)"
  by (auto simp: list_ex_iff offer_def record_session_def record_navigation_def tutorial_session_event_def tutorial_navigation_event_def)

lemma runTutorialFlow_stopped:
  assumes "runTutorialFlow D sess ending tc lis profile retry addr sessionID source = (stop, out, rest, profile')"
  shows "\<not> list_ex plays out"
    and "stop = None \<Longrightarrow> \<exists>run did wrote. RunTutorial (sh_match D) (sh_tutorial_store D) (tc_startedAt tc) (tc_endedAt tc)
      (tc_env tc) sess = (Inr run, did, wrote)"
proof -
  obtain stop1 out1 rest1 where steps: "follow_steps tutorial_steps ending lis = (stop1, out1, rest1)" by (metis prod_cases3)
  have out1: "\<not> list_ex plays out1" using follow_steps_out [OF steps] by (force simp: list_ex_iff)
  obtain r did wrote where run: "RunTutorial (sh_match D) (sh_tutorial_store D) (tc_startedAt tc) (tc_endedAt tc)
      (tc_env tc) sess = (r, did, wrote)" by (metis prod_cases3)
  show "\<not> list_ex plays out"
    using assms steps run out1
    by (cases stop1; cases r) (auto simp: runTutorialFlow_def Let_def)
  show "stop = None \<Longrightarrow> \<exists>run did wrote. RunTutorial (sh_match D) (sh_tutorial_store D) (tc_startedAt tc) (tc_endedAt tc)
      (tc_env tc) sess = (Inr run, did, wrote)"
    using assms steps run by (cases stop1; cases r) (auto simp: runTutorialFlow_def Let_def)
qed

lemma plays_Dequeue: "\<not> list_ex plays (map Matchmaker (fst (Dequeue C now pid s)))"
  by (auto simp: Dequeue_def Let_def queue_event_def frame_to_def sendFrame_def list_ex_iff split: option.split)

lemma registered_then_closed:
  assumes "close_session D sess addr now (registered sess st) = (out, st')" "wf_lobby (shell_lobby st)"
    and "fst (Register sess (shell_lobby st)) = None"
  shows "shell_lobby st' = shell_lobby st" "sv_inMatch (ss_service st') = sv_inMatch (ss_service st)" "\<not> list_ex plays out"
proof -
  let ?pid = "se_PlayerID sess" and ?lb = "shell_lobby st"
  have fresh: "map_of (lo_sessions ?lb) ?pid = None" using assms(3) by (auto simp: Register_def split: if_splits)
  then have fresh': "?pid \<notin> fst ` set (lo_sessions ?lb)" by (simp add: map_of_eq_None_iff)
  have reg: "snd (Register sess ?lb) = ?lb\<lparr>lo_sessions := lo_sessions ?lb @ [(?pid, sess)]\<rparr>"
    using assms(3) fresh fresh' by (auto simp: Register_def update_fresh split: if_splits)
  have unqueued: "map_of (lo_queuedAt ?lb) ?pid = None"
    using wf_lobby_mem [OF assms(2), of ?pid] fresh by simp
  have forget: "AList.delete ?pid (lo_sessions ?lb @ [(?pid, sess)]) = lo_sessions ?lb"
    using fresh' by (auto simp: AList.delete_eq filter_id_conv intro: rev_image_eqI)
  have close: "shell_lobby st' = Unregister ?pid (snd (LeaveQueue ?pid (snd (Register sess ?lb))))"
    "sv_inMatch (ss_service st') = sv_inMatch (ss_service (registered sess st))"
    using assms(1) by (auto simp: close_session_def Let_def Dequeue_def untrackSession_def clear_stamp_def)
  show "shell_lobby st' = ?lb"
    unfolding close(1) reg using unqueued forget by (simp add: LeaveQueue_def removeQueueLocked_def Unregister_def)
  show "sv_inMatch (ss_service st') = sv_inMatch (ss_service st)"
    by (simp add: close(2) registered_def trackSession_def)
  show "\<not> list_ex plays out"
    using assms(1) plays_Dequeue [of "sh_matcher D" now ?pid "ss_service (registered sess st)"]
    by (auto simp: close_session_def Let_def split_beta)
qed

lemma session_body_newcomer:
  assumes "session_body D E sess addr profile st = Some (out, st')" "\<not> pp_TutorialCompleted profile"
  shows "subseq [''help'', ''a strike head'', ''q''] (map (\<lambda>li. canonicalTutorialCommand (li_text li)) (en_lines E))
      \<and> (\<exists>run did wrote. RunTutorial (sh_match D) (sh_tutorial_store D) (tc_startedAt (en_tutorial E))
           (tc_endedAt (en_tutorial E)) (tc_env (en_tutorial E)) sess = (Inr run, did, wrote))
    \<or> st' = st \<and> \<not> list_ex plays out"
proof -
  obtain stop out1 lis profile1 where flow: "runTutorialFlow D sess (en_ending E) (en_tutorial E) (en_lines E) profile
      False addr (en_uuid E) NavigationSourceSystem = (stop, out1, lis, profile1)" by (metis prod_cases4)
  show ?thesis
  proof (cases stop)
    case None
    from runTutorialFlow_typed [OF flow] None obtain typed where typed: "en_lines E = typed @ lis"
      "subseq [''help'', ''a strike head'', ''q''] (map (\<lambda>li. canonicalTutorialCommand (li_text li)) typed)" by blast
    then have "subseq [''help'', ''a strike head'', ''q''] (map (\<lambda>li. canonicalTutorialCommand (li_text li)) (en_lines E))"
      by (auto intro: list_emb_append2)
    with runTutorialFlow_stopped(2) [OF flow None] show ?thesis by blast
  next
    case (Some x)
    with assms flow runTutorialFlow_stopped(1) [OF flow] show ?thesis
      by (cases x) (auto simp: session_body_def Let_def)
  qed
qed

text \<open>
  C8: A player whose tutorial is not completed plays nothing before completing it. In a session of
  such a player, either the commands of the guided dialogue were typed, in their order, and the fight
  against the training NPC was finished, or the session sends no command to a match, starts none,
  and leaves the lobby and the players in matches exactly as they were (when nobody else moves
  between its end and the cleanup).
\<close>

theorem no_play_before_tutorial:
  assumes "runShell D E handle remoteAddr st = Some (out, st')"
    and "en_ensured E handle = Some (playerID, profile)" "\<not> pp_TutorialCompleted profile"
    and "wf_lobby (shell_lobby st)" "en_after E = (\<lambda>st. st)"
  defines "sess \<equiv> \<lparr>se_PlayerID = playerID, se_Handle = handle, se_RemoteAddr = remoteAddr\<rparr>"
  shows "subseq [''help'', ''a strike head'', ''q''] (map (\<lambda>li. canonicalTutorialCommand (li_text li)) (en_lines E))
      \<and> (\<exists>run did wrote. RunTutorial (sh_match D) (sh_tutorial_store D) (tc_startedAt (en_tutorial E))
           (tc_endedAt (en_tutorial E)) (tc_env (en_tutorial E)) sess = (Inr run, did, wrote))
    \<or> \<not> list_ex plays out \<and> shell_lobby st' = shell_lobby st
      \<and> sv_inMatch (ss_service st') = sv_inMatch (ss_service st)"
  using assms(1,2)
proof (cases rule: runShell_cases)
  case (refused err)
  then obtain lb where "Register \<lparr>se_PlayerID = playerID, se_Handle = handle, se_RemoteAddr = remoteAddr\<rparr> (shell_lobby st)
      = (Some err, lb)" by (metis prod.collapse)
  then have "\<not> list_ex plays out"
    using assms(1,2) by (auto simp: runShell_def Let_def)
  with refused show ?thesis by simp
next
  case (ran o1 st1 o2 login)
  from session_body_newcomer [OF ran(2) assms(3)] show ?thesis
  proof (elim disjE conjE)
    assume "st1 = registered \<lparr>se_PlayerID = playerID, se_Handle = handle, se_RemoteAddr = remoteAddr\<rparr> st"
    with ran(3) assms(5) have "close_session D \<lparr>se_PlayerID = playerID, se_Handle = handle, se_RemoteAddr = remoteAddr\<rparr>
        (hashRemoteAddr (en_sha256 E) remoteAddr) (en_close E)
        (registered \<lparr>se_PlayerID = playerID, se_Handle = handle, se_RemoteAddr = remoteAddr\<rparr> st) = (o2, st')" by simp
    note closed = registered_then_closed [OF this assms(4) ran(1)]
    moreover assume "\<not> list_ex plays o1"
    moreover have "\<not> list_ex plays login" using ran(5) by (force simp: list_ex_iff)
    ultimately show ?thesis by (simp add: ran(4))
  qed (simp add: sess_def)
qed

lemma no_play_before_tutorial_witness:
  "\<exists>out st'. runShell demo_shell (demo_session_env False [''quit'']) ''ana'' ''1.2.3.4:99'' demo_shell_state
      = Some (out, st') \<and> \<not> list_ex plays out \<and> shell_lobby st' = shell_lobby demo_shell_state"
proof -
  let ?E = "demo_session_env False [''quit'']"
  have "runShell demo_shell ?E ''ana'' ''1.2.3.4:99'' demo_shell_state \<noteq> None" by code_simp
  then obtain out st' where run: "runShell demo_shell ?E ''ana'' ''1.2.3.4:99'' demo_shell_state = Some (out, st')" by auto
  have wf: "wf_lobby (shell_lobby demo_shell_state)"
    by (simp add: demo_shell_state_def NewService_def NewLobby_def wf_lobby_def)
  have "\<not> subseq [''help'', ''a strike head'', ''q''] (map (\<lambda>li. canonicalTutorialCommand (li_text li)) (en_lines ?E))"
    by (auto simp: demo_session_env_def dest: list_emb_length)
  with no_play_before_tutorial [OF run, of "''p1''" "demo_profile False"] wf run show ?thesis
    by (simp add: demo_session_env_def demo_profile_def)
qed

section \<open>Guessing passwords\<close>

lemma login_all_limiter:
  "login_all F cfg telemetry as l = (ress, l') \<Longrightarrow>
     allow_all F (map (\<lambda>a. (la_now a, remote_host (la_addr a))) as) l = (map (\<lambda>r. r \<noteq> Some ErrLoginRateLimit) ress, l')
     \<and> length ress = length as
     \<and> list_all2 (\<lambda>a res. res = None \<longrightarrow> map_of (cf_SSHUsers cfg) (la_user a) = Some (la_password a)) as ress"
proof (induction as arbitrary: l ress l')
  case (Cons a as)
  obtain res out l1 where one: "passwordCallback F cfg telemetry a l = (res, out, l1)" by (metis prod_cases3)
  obtain ress2 l2 where two: "login_all F cfg telemetry as l1 = (ress2, l2)" by force
  have "Allow F (la_now a) (remote_host (la_addr a)) l = (res \<noteq> Some ErrLoginRateLimit, l1)"
    "res = None \<longrightarrow> map_of (cf_SSHUsers cfg) (la_user a) = Some (la_password a)"
    using one by (auto simp: passwordCallback_def Let_def split: prod.splits if_splits)
  with Cons.IH [of l1 ress2 l2] Cons.prems one two show ?case by auto
qed simp

text \<open>The host of an address is its part before the port.\<close>

lemma takeWhile_rev_port: "CHR '':'' \<notin> set port \<Longrightarrow> takeWhile (\<lambda>c. c \<noteq> CHR '':'') (rev port @ CHR '':'' # rest) = rev port"
proof -
  assume "CHR '':'' \<notin> set port"
  then have "\<forall>c \<in> set (rev port). c \<noteq> CHR '':''" by auto
  then show ?thesis by (subst takeWhile_append2) auto
qed

lemma remote_host_plain:
  assumes "{CHR '':'', CHR ''['', CHR '']''} \<inter> set host = {}" "{CHR '':'', CHR ''['', CHR '']''} \<inter> set port = {}"
  shows "remote_host (host @ CHR '':'' # port) = host"
proof -
  have "hd (host @ CHR '':'' # port) \<noteq> CHR ''[''" using assms(1) by (cases host) auto
  with assms takeWhile_rev_port [of port] show ?thesis
    by (simp add: remote_host_def SplitHostPort_def Let_def)
qed

text \<open>
  However many ports and users an attacker tries, in one instant at most three passwords from
  one host are compared with the configured ones; every other attempt is refused by the limiter, and
  a login succeeds only with the password configured for its user.
\<close>

theorem password_guesses_are_limited:
  assumes "counting_float F num (f_div F (f_of_int F 5) (f_of_int F 60)) 3"
    and "login_all F cfg telemetry earlier (loginLimiter F) = (ress0, l)"
    and "login_all F cfg telemetry attempts l = (ress, l')"
    and "\<forall>a \<in> set attempts. la_now a = now
      \<and> (\<exists>port. la_addr a = host @ CHR '':'' # port \<and> {CHR '':'', CHR ''['', CHR '']''} \<inter> set port = {})"
    and "{CHR '':'', CHR ''['', CHR '']''} \<inter> set host = {}" "host \<noteq> []"
  shows "length (filter (\<lambda>res. res \<noteq> Some ErrLoginRateLimit) ress) \<le> 3
    \<and> list_all2 (\<lambda>a res. res = None \<longrightarrow> map_of (cf_SSHUsers cfg) (la_user a) = Some (la_password a)) attempts ress"
proof -
  have calls: "map (\<lambda>a. (la_now a, remote_host (la_addr a))) attempts = map (\<lambda>a. (now, host)) attempts"
    using assms(4) remote_host_plain [OF assms(5)] by fastforce
  note login = login_all_limiter [OF assms(3), unfolded calls]
  have granted: "granted host (map (\<lambda>a. (now, host)) as) (map (\<lambda>r. r \<noteq> Some ErrLoginRateLimit) rs)
      = length (filter (\<lambda>res. res \<noteq> Some ErrLoginRateLimit) rs)" if "length as = length rs" for as :: "login_attempt list" and rs
    using that by (induction as rs rule: list_induct2) auto
  have "limiter_ok F num (f_div F (f_of_int F 5) (f_of_int F 60)) 3 (loginLimiter F)"
    unfolding loginLimiter_def by (rule new_limiter_ok) simp_all
  then have l: "limiter_ok F num (f_div F (f_of_int F 5) (f_of_int F 60)) 3 l"
    using allow_all_ok [OF assms(1)] login_all_limiter [OF assms(2)] by fastforce
  have "int (granted host (map (\<lambda>a. (now, host)) attempts) (map (\<lambda>r. r \<noteq> Some ErrLoginRateLimit) ress)) \<le> 3"
    by (rule granted_at_most_burst [OF assms(1,6) _ l]) (use login in auto)
  with login granted [of attempts ress] show ?thesis by simp
qed

definition demo_config :: server_config where
  "demo_config = \<lparr>cf_DatabaseURL = ''db'', cf_SSHAddr = '':2222'', cf_SSHUsers = [(''ana'', ''secret'')],
     cf_QueueTimeout = 1, cf_TurnTimeout = 1, cf_MaxTurns = 1, cf_WatchWaitTimeout = 1, cf_SpectatorMaxPerMatch = 1\<rparr>"

lemma password_guesses_are_limited_witness:
  "length (filter (\<lambda>res. res \<noteq> Some ErrLoginRateLimit) (fst (login_all exact_float demo_config True
     (map (\<lambda>port. \<lparr>la_now = 7, la_addr = ''10.0.0.1:'' @ port, la_user = ''ana'', la_password = port\<rparr>)
        [''1'', ''2'', ''3'', ''4'', ''5'']) (loginLimiter exact_float)))) \<le> 3"
proof -
  let ?as = "map (\<lambda>port. \<lparr>la_now = 7, la_addr = ''10.0.0.1:'' @ port, la_user = ''ana'', la_password = port\<rparr>)
        [''1'', ''2'', ''3'', ''4'', ''5'']"
  obtain ress l' where r: "login_all exact_float demo_config True ?as (loginLimiter exact_float) = (ress, l')" by force
  have div: "f_div exact_float (f_of_int exact_float 5) (f_of_int exact_float 60) = Some (5 / 60)"
    by (simp add: exact_float_def exact_op_def)
  have empty: "login_all exact_float demo_config True [] (loginLimiter exact_float) = ([], loginLimiter exact_float)" by simp
  have "length (filter (\<lambda>res. res \<noteq> Some ErrLoginRateLimit) ress) \<le> 3"
    by (rule conjunct1 [OF password_guesses_are_limited [OF _ empty r, of "\<lambda>a. a \<noteq> None" 7 "''10.0.0.1''"]])
      (simp_all only: div exact_counting, auto)
  then show ?thesis unfolding r fst_conv .
qed

end
