(* ===== verification/Ranking.thy ===== *)
theory Ranking
  imports Telemetry
begin

text \<open>
  The Glicko-2 ratings of \<^verbatim>\<open>internal/ranking\<close>: the update of a rating after the games of a period
  (\<open>Update\<close>), with the iteration for the new volatility (\<open>solveSigmaPrime\<close>), and the reset between seasons
  (\<open>ApplySeasonSoftReset\<close>).

  The arithmetic is a parameter, a \<open>float64\<close> record with the functions of \<^verbatim>\<open>math\<close> the code calls; the
  operations are in the order of the source. The iteration for the volatility may not end in an
  arithmetic about which nothing is known, so its result is an option, with \<open>None\<close> for not returning;
  the search for its lower bound is cut off by the code. \<open>real_math\<close> is the exact arithmetic, in which
  the theorems about the direction of an update and about the search are stated.
\<close>

section \<open>Ratings\<close>

record 'f math64 = "'f float64" +
  f_sqrt :: "'f \<Rightarrow> 'f"
  f_exp :: "'f \<Rightarrow> 'f"
  f_log :: "'f \<Rightarrow> 'f"
  f_pow :: "'f \<Rightarrow> 'f \<Rightarrow> 'f"
  f_pi_squared :: 'f
  f_neg :: "'f \<Rightarrow> 'f"
  f_abs :: "'f \<Rightarrow> 'f"
  f_min :: "'f \<Rightarrow> 'f \<Rightarrow> 'f"
  f_eq :: "'f \<Rightarrow> 'f \<Rightarrow> bool"
  f_is_nan :: "'f \<Rightarrow> bool"
  f_is_inf :: "'f \<Rightarrow> bool"

record 'f rating =
  ra_R :: 'f
  ra_RD :: 'f
  ra_Sigma :: 'f

record 'f glicko_config =
  gc_Tau :: 'f
  gc_Epsilon :: 'f
  gc_DefaultRating :: "'f rating"

record 'f opponent_result =
  op_Opponent :: "'f rating"
  op_Score :: 'f

datatype ranking_error = ErrTau | ErrEpsilon | ErrRatingR | ErrRatingRD | ErrRatingSigma
  | ErrOpponent nat ranking_error | ErrScore nat | ErrVariance | ErrBracket | ErrSigmaNaN | ErrSigmaResult

definition ScoreLoss :: "'f math64 \<Rightarrow> 'f" where "ScoreLoss M = f_lit M 0 1"
definition ScoreDraw :: "'f math64 \<Rightarrow> 'f" where "ScoreDraw M = f_lit M 5 10"
definition ScoreWin :: "'f math64 \<Rightarrow> 'f" where "ScoreWin M = f_lit M 1 1"

definition IsValid :: "'f math64 \<Rightarrow> 'f \<Rightarrow> bool" where
  "IsValid M s \<longleftrightarrow> f_eq M s (ScoreLoss M) \<or> f_eq M s (ScoreDraw M) \<or> f_eq M s (ScoreWin M)"

definition glickoScale :: "'f math64 \<Rightarrow> 'f" where
  "glickoScale M = f_lit M 1737178 10000"

definition defaultRating :: "'f math64 \<Rightarrow> 'f rating" where
  "defaultRating M = \<lparr>ra_R = f_lit M 1500 1, ra_RD = f_lit M 350 1, ra_Sigma = f_lit M 6 100\<rparr>"

definition DefaultConfig :: "'f math64 \<Rightarrow> 'f glicko_config" where
  "DefaultConfig M = \<lparr>gc_Tau = f_lit M 5 10, gc_Epsilon = f_lit M 1 1000000, gc_DefaultRating = defaultRating M\<rparr>"

text \<open>Comparison with the zero value \<^verbatim>\<open>Rating{}\<close>.\<close>

definition no_rating :: "'f math64 \<Rightarrow> 'f rating \<Rightarrow> bool" where
  "no_rating M r \<longleftrightarrow> f_eq M (ra_R r) (f_lit M 0 1) \<and> f_eq M (ra_RD r) (f_lit M 0 1) \<and> f_eq M (ra_Sigma r) (f_lit M 0 1)"

definition NewGlicko2Service :: "'f math64 \<Rightarrow> 'f glicko_config \<Rightarrow> 'f glicko_config" where
  "NewGlicko2Service M cfg =
     (let cfg = (if f_eq M (gc_Tau cfg) (f_lit M 0 1) then cfg\<lparr>gc_Tau := gc_Tau (DefaultConfig M)\<rparr> else cfg);
          cfg = (if f_eq M (gc_Epsilon cfg) (f_lit M 0 1) then cfg\<lparr>gc_Epsilon := gc_Epsilon (DefaultConfig M)\<rparr> else cfg)
      in if no_rating M (gc_DefaultRating cfg) then cfg\<lparr>gc_DefaultRating := defaultRating M\<rparr> else cfg)"

definition validateRating :: "'f math64 \<Rightarrow> 'f rating \<Rightarrow> ranking_error option" where
  "validateRating M r =
     (if f_is_nan M (ra_R r) \<or> f_is_inf M (ra_R r) then Some ErrRatingR
      else if f_le M (ra_RD r) (f_lit M 0 1) \<or> f_is_nan M (ra_RD r) \<or> f_is_inf M (ra_RD r) then Some ErrRatingRD
      else if f_le M (ra_Sigma r) (f_lit M 0 1) \<or> f_is_nan M (ra_Sigma r) \<or> f_is_inf M (ra_Sigma r) then Some ErrRatingSigma
      else None)"

definition validateConfig :: "'f math64 \<Rightarrow> 'f glicko_config \<Rightarrow> ranking_error option" where
  "validateConfig M cfg =
     (if f_le M (gc_Tau cfg) (f_lit M 0 1) then Some ErrTau
      else if f_le M (gc_Epsilon cfg) (f_lit M 0 1) then Some ErrEpsilon
      else validateRating M (gc_DefaultRating cfg))"

fun validate_opponents :: "'f math64 \<Rightarrow> nat \<Rightarrow> 'f opponent_result list \<Rightarrow> ranking_error option" where
  "validate_opponents M i [] = None"
| "validate_opponents M i (opp # opps) = (case validateRating M (op_Opponent opp) of
     Some err \<Rightarrow> Some (ErrOpponent i err)
   | None \<Rightarrow> if \<not> IsValid M (op_Score opp) then Some (ErrScore i) else validate_opponents M (i + 1) opps)"

definition normalizeRating :: "'f math64 \<Rightarrow> 'f rating \<Rightarrow> 'f rating" where
  "normalizeRating M r =
     (let r = (if f_less M (ra_RD r) (f_lit M 30 1) then r\<lparr>ra_RD := f_lit M 30 1\<rparr> else r);
          r = (if f_less M (f_lit M 350 1) (ra_RD r) then r\<lparr>ra_RD := f_lit M 350 1\<rparr> else r)
      in if f_less M (ra_Sigma r) (f_lit M 1 10000) then r\<lparr>ra_Sigma := f_lit M 1 10000\<rparr> else r)"

definition ApplySeasonSoftReset :: "'f math64 \<Rightarrow> 'f rating \<Rightarrow> 'f rating" where
  "ApplySeasonSoftReset M previous =
     (if no_rating M previous then defaultRating M
      else normalizeRating M \<lparr>ra_R = f_add M (f_mul M (f_lit M 75 100) (ra_R previous)) (f_lit M 375 1),
        ra_RD = f_min M (f_lit M 350 1) (f_add M (ra_RD previous) (f_lit M 30 1)), ra_Sigma = ra_Sigma previous\<rparr>)"

section \<open>The update\<close>

definition toMu :: "'f math64 \<Rightarrow> 'f \<Rightarrow> 'f" where
  "toMu M r = f_div M (f_sub M r (f_lit M 1500 1)) (glickoScale M)"

definition fromMu :: "'f math64 \<Rightarrow> 'f \<Rightarrow> 'f" where
  "fromMu M mu = f_add M (f_mul M mu (glickoScale M)) (f_lit M 1500 1)"

definition toPhi :: "'f math64 \<Rightarrow> 'f \<Rightarrow> 'f" where
  "toPhi M rd = f_div M rd (glickoScale M)"

definition fromPhi :: "'f math64 \<Rightarrow> 'f \<Rightarrow> 'f" where
  "fromPhi M phi = f_mul M phi (glickoScale M)"

definition glicko_g :: "'f math64 \<Rightarrow> 'f \<Rightarrow> 'f" where
  "glicko_g M phi = f_div M (f_lit M 1 1) (f_sqrt M (f_add M (f_lit M 1 1)
     (f_div M (f_mul M (f_mul M (f_lit M 3 1) phi) phi) (f_pi_squared M))))"

definition glicko_E :: "'f math64 \<Rightarrow> 'f \<Rightarrow> 'f \<Rightarrow> 'f \<Rightarrow> 'f" where
  "glicko_E M mu muJ phiJ = f_div M (f_lit M 1 1) (f_add M (f_lit M 1 1)
     (f_exp M (f_mul M (f_neg M (glicko_g M phiJ)) (f_sub M mu muJ))))"

text \<open>The function whose root is the logarithm of the new squared volatility.\<close>

definition sigma_f :: "'f math64 \<Rightarrow> 'f \<Rightarrow> 'f \<Rightarrow> 'f \<Rightarrow> 'f \<Rightarrow> 'f \<Rightarrow> 'f \<Rightarrow> 'f" where
  "sigma_f M phi delta v tau a x =
     (let ex = f_exp M x;
          num = f_mul M ex (f_sub M (f_sub M (f_sub M (f_mul M delta delta) (f_mul M phi phi)) v) ex);
          den = f_mul M (f_lit M 2 1) (f_pow M (f_add M (f_add M (f_mul M phi phi) v) ex) (f_lit M 2 1))
      in f_sub M (f_div M num den) (f_div M (f_sub M x a) (f_mul M tau tau)))"

function find_bracket :: "'f math64 \<Rightarrow> ('f \<Rightarrow> 'f) \<Rightarrow> 'f \<Rightarrow> 'f \<Rightarrow> int \<Rightarrow> 'f option" where
  "find_bracket M f a tau k =
     (let B = f_sub M a (f_mul M (f_of_int M k) tau) in
      if f_le M (f_lit M 0 1) (f B) then Some B
      else if 1000 < k + 1 then None
      else find_bracket M f a tau (k + 1))"
  by pat_completeness auto
termination
  by (relation "measure (\<lambda>(M, f, a, tau, k). nat (1000 - k))") auto

declare find_bracket.simps [simp del]

partial_function (option) illinois_loop :: "'f math64 \<Rightarrow> ('f \<Rightarrow> 'f) \<Rightarrow> 'f \<Rightarrow> 'f \<Rightarrow> 'f \<Rightarrow> 'f \<Rightarrow> 'f \<Rightarrow> 'f option" where
  "illinois_loop M f epsilon A B fA fB =
     (if f_less M epsilon (f_abs M (f_sub M B A))
      then let C = f_add M A (f_div M (f_mul M (f_sub M A B) fA) (f_sub M fB fA)); fC = f C in
        if f_le M (f_mul M fC fB) (f_lit M 0 1)
        then illinois_loop M f epsilon B C fB fC
        else illinois_loop M f epsilon A C (f_div M fA (f_lit M 2 1)) fC
      else Some A)"

definition solveSigmaPrime :: "'f math64 \<Rightarrow> 'f \<Rightarrow> 'f \<Rightarrow> 'f \<Rightarrow> 'f \<Rightarrow> 'f \<Rightarrow> 'f \<Rightarrow> (ranking_error + 'f) option" where
  "solveSigmaPrime M phi sigma delta v tau epsilon =
     (let a = f_log M (f_mul M sigma sigma); f = sigma_f M phi delta v tau a;
          bracket = (if f_less M (f_add M (f_mul M phi phi) v) (f_mul M delta delta)
            then Some (f_log M (f_sub M (f_sub M (f_mul M delta delta) (f_mul M phi phi)) v))
            else find_bracket M f a tau 1)
      in case bracket of
        None \<Rightarrow> Some (Inl ErrBracket)
      | Some B \<Rightarrow>
          if f_is_nan M (f a) \<or> f_is_nan M (f B) then Some (Inl ErrSigmaNaN)
          else map_option (\<lambda>A. let sigmaPrime = f_exp M (f_div M A (f_lit M 2 1)) in
              if f_le M sigmaPrime (f_lit M 0 1) \<or> f_is_nan M sigmaPrime \<or> f_is_inf M sigmaPrime
              then Inl ErrSigmaResult else Inr sigmaPrime)
            (illinois_loop M f epsilon a B (f a) (f B)))"

text \<open>The sums over the opponents: of \<open>1 / v\<close> and of the weighted differences.\<close>

definition add_opponent :: "'f math64 \<Rightarrow> 'f \<Rightarrow> 'f opponent_result \<Rightarrow> 'f \<times> 'f \<Rightarrow> 'f \<times> 'f" where
  "add_opponent M mu opp acc =
     (let muJ = toMu M (ra_R (op_Opponent opp)); phiJ = toPhi M (ra_RD (op_Opponent opp));
          g = glicko_g M phiJ; e = glicko_E M mu muJ phiJ
      in (f_add M (fst acc) (f_mul M (f_mul M (f_mul M g g) e) (f_sub M (f_lit M 1 1) e)),
          f_add M (snd acc) (f_mul M g (f_sub M (op_Score opp) e))))"

definition update_rating :: "'f math64 \<Rightarrow> 'f glicko_config \<Rightarrow> 'f rating \<Rightarrow> 'f opponent_result list
    \<Rightarrow> (ranking_error + 'f rating) option" where
  "update_rating M cfg current opponents =
     (let mu = toMu M (ra_R current); phi = toPhi M (ra_RD current); sigma = ra_Sigma current in
      if opponents = [] then
        let phiPrime = f_sqrt M (f_add M (f_mul M phi phi) (f_mul M sigma sigma))
        in Some (Inr (normalizeRating M \<lparr>ra_R = fromMu M mu, ra_RD = fromPhi M phiPrime, ra_Sigma = sigma\<rparr>))
      else let (sumInvV, sumDelta) = fold (add_opponent M mu) opponents (f_lit M 0 1, f_lit M 0 1) in
        if f_le M sumInvV (f_lit M 0 1) then Some (Inl ErrVariance)
        else let v = f_div M (f_lit M 1 1) sumInvV; delta = f_mul M v sumDelta in
        map_option (\<lambda>solved. case solved of
            Inl err \<Rightarrow> Inl err
          | Inr sigmaPrime \<Rightarrow>
              let phiStar = f_sqrt M (f_add M (f_mul M phi phi) (f_mul M sigmaPrime sigmaPrime));
                  phiPrime = f_div M (f_lit M 1 1) (f_sqrt M (f_add M
                    (f_div M (f_lit M 1 1) (f_mul M phiStar phiStar)) (f_div M (f_lit M 1 1) v)));
                  muPrime = f_add M mu (f_mul M (f_mul M phiPrime phiPrime) sumDelta)
              in Inr (normalizeRating M \<lparr>ra_R = fromMu M muPrime, ra_RD = fromPhi M phiPrime, ra_Sigma = sigmaPrime\<rparr>))
          (solveSigmaPrime M phi sigma delta v (gc_Tau cfg) (gc_Epsilon cfg)))"

definition Update :: "'f math64 \<Rightarrow> 'f glicko_config \<Rightarrow> 'f rating \<Rightarrow> 'f opponent_result list
    \<Rightarrow> (ranking_error + 'f rating) option" where
  "Update M cfg current opponents = (case validateConfig M cfg of
     Some err \<Rightarrow> Some (Inl err)
   | None \<Rightarrow>
       (let current = (if no_rating M current then gc_DefaultRating cfg else current) in
        case validateRating M current of
          Some err \<Rightarrow> Some (Inl err)
        | None \<Rightarrow> (case validate_opponents M 0 opponents of
            Some err \<Rightarrow> Some (Inl err)
          | None \<Rightarrow> update_rating M cfg current opponents)))"

section \<open>Exact arithmetic\<close>

definition real_math :: "real math64" where
  "real_math = \<lparr>f_of_int = real_of_int, f_lit = (\<lambda>p q. real_of_int p / real_of_int q),
     f_add = (+), f_sub = (-), f_mul = (*), f_div = (/), f_round = (\<lambda>x. real_of_int \<lfloor>x + 1 / 2\<rfloor>),
     f_le = (\<le>), f_less = (<), f_neg_inf = 0, f_is_neg_inf = (\<lambda>x. False),
     f_sqrt = sqrt, f_exp = exp, f_log = ln, f_pow = (powr), f_pi_squared = pi * pi,
     f_neg = uminus, f_abs = abs, f_min = min, f_eq = (=), f_is_nan = (\<lambda>x. False), f_is_inf = (\<lambda>x. False)\<rparr>"

lemma real_math_simps [simp]:
  "f_of_int real_math = real_of_int" "f_lit real_math p q = real_of_int p / real_of_int q"
  "f_add real_math = (+)" "f_sub real_math = (-)" "f_mul real_math = (*)" "f_div real_math = (/)"
  "f_le real_math = (\<le>)" "f_less real_math = (<)" "f_sqrt real_math = sqrt" "f_exp real_math = exp"
  "f_log real_math = ln" "f_pow real_math = (powr)" "f_pi_squared real_math = pi * pi" "f_neg real_math = uminus"
  "f_abs real_math = abs" "f_min real_math = min" "f_eq real_math = (=)"
  "f_is_nan real_math x = False" "f_is_inf real_math x = False"
  by (simp_all add: real_math_def)

lemma glicko_g_pos: "0 < glicko_g real_math phi"
proof -
  have "0 \<le> 3 * phi * phi / (pi * pi)" by (intro divide_nonneg_nonneg) (simp_all add: mult.assoc)
  then have "0 < 1 + 3 * phi * phi / (pi * pi)" by (rule add_pos_nonneg [OF zero_less_one])
  then show ?thesis by (simp only: glicko_g_def real_math_simps) simp
qed

lemma glicko_E_bounds: "0 < glicko_E real_math mu muJ phiJ" "glicko_E real_math mu muJ phiJ < 1"
  by (simp_all add: glicko_E_def add_pos_pos)

lemma glicko_E_equal: "glicko_E real_math mu mu phiJ = 1 / 2"
  by (simp add: glicko_E_def)

lemma glicko_E_less: "muJ < mu \<Longrightarrow> 1 / 2 < glicko_E real_math mu muJ phiJ"
  and glicko_E_greater: "mu < muJ \<Longrightarrow> glicko_E real_math mu muJ phiJ < 1 / 2"
proof -
  let ?x = "glicko_g real_math phiJ * (mu - muJ)"
  have E: "glicko_E real_math mu muJ phiJ = 1 / (1 + exp (- ?x))" by (simp add: glicko_E_def)
  show "1 / 2 < glicko_E real_math mu muJ phiJ" if "muJ < mu"
  proof -
    have "0 < ?x" using that glicko_g_pos by simp
    then have "exp (- ?x) < 1" by simp
    then show ?thesis unfolding E by (simp add: divide_simps add_pos_pos)
  qed
  show "glicko_E real_math mu muJ phiJ < 1 / 2" if "mu < muJ"
  proof -
    have "?x < 0" using that glicko_g_pos [of phiJ] by (simp add: mult_less_0_iff)
    then have "1 < exp (- ?x)" by simp
    then show ?thesis unfolding E by (simp add: divide_simps add_pos_pos)
  qed
qed

section \<open>The search for the volatility\<close>

lemma sigma_f_real:
  "sigma_f real_math phi delta v tau a x =
     exp x * (delta * delta - phi * phi - v - exp x) / (2 * (phi * phi + v + exp x) powr 2) - (x - a) / (tau * tau)"
  by (simp add: sigma_f_def Let_def)

lemma sigma_f_lower:
  assumes "0 < v"
  shows "- (1 / 2) - (x - a) / (tau * tau) \<le> sigma_f real_math phi delta v tau a x"
proof -
  let ?E = "exp x" and ?S = "phi * phi + v + exp x"
  have S: "0 < ?S" "?E \<le> ?S" using assms by (simp_all add: add_nonneg_pos)
  have "delta * delta - phi * phi - v - ?E \<ge> - ?S" by simp
  then have "?E * (delta * delta - phi * phi - v - ?E) \<ge> ?E * (- ?S)" by (intro mult_left_mono) simp_all
  moreover have "?E * ?S \<le> ?S * ?S" using S by (intro mult_right_mono) simp_all
  ultimately have "- (?S * ?S) \<le> ?E * (delta * delta - phi * phi - v - ?E)" by linarith
  then have "- (1 / 2) \<le> ?E * (delta * delta - phi * phi - v - ?E) / (2 * (?S * ?S))"
    using S(1) by (simp add: pos_le_divide_eq)
  moreover have "?S powr 2 = ?S * ?S" using S(1) by (simp add: powr_numeral power2_eq_square)
  ultimately show ?thesis unfolding sigma_f_real by simp
qed

lemma find_bracket_real:
  assumes "0 < v" "0 < tau" "tau \<le> 2"
  shows "find_bracket real_math (sigma_f real_math phi delta v tau a) a tau 1 = Some (a - tau)"
    and "0 \<le> sigma_f real_math phi delta v tau a (a - tau)"
proof -
  have "1 / 2 \<le> 1 / tau" using assms by (simp add: field_simps)
  moreover have "1 / tau - 1 / 2 \<le> sigma_f real_math phi delta v tau a (a - tau)"
    using sigma_f_lower [OF assms(1), of "a - tau" a tau phi delta] assms(2) by simp
  ultimately show "0 \<le> sigma_f real_math phi delta v tau a (a - tau)" by linarith
  then show "find_bracket real_math (sigma_f real_math phi delta v tau a) a tau 1 = Some (a - tau)"
    by (simp add: find_bracket.simps)
qed

text \<open>At the start the function has opposite signs at the two ends of the interval.\<close>

lemma sigma_interval:
  assumes "0 < sigma" "0 < v" "0 < tau" "tau \<le> 2"
  defines "a \<equiv> ln (sigma * sigma)"
  obtains B where "(if phi * phi + v < delta * delta then Some (ln (delta * delta - phi * phi - v))
      else find_bracket real_math (sigma_f real_math phi delta v tau a) a tau 1) = Some B"
    and "sigma_f real_math phi delta v tau a a * sigma_f real_math phi delta v tau a B \<le> 0"
proof -
  let ?f = "sigma_f real_math phi delta v tau a"
  have exp_a: "exp a = sigma * sigma" using assms(1) by (simp add: a_def)
  have den: "0 < 2 * (phi * phi + v + exp x) powr 2" for x :: real
  proof -
    have "0 < phi * phi + v + exp x" using assms(2) by (intro add_nonneg_pos) simp_all
    then show ?thesis by simp
  qed
  show thesis
  proof (cases "phi * phi + v < delta * delta")
    case True
    define B where "B = ln (delta * delta - phi * phi - v)"
    have expB: "exp B = delta * delta - phi * phi - v" using True by (simp add: B_def)
    have fB: "?f B = (a - B) / (tau * tau)" unfolding sigma_f_real by (simp add: expB minus_divide_left)
    have fa: "?f a = exp a * (exp B - exp a) / (2 * (phi * phi + v + exp a) powr 2)"
      unfolding sigma_f_real by (simp add: expB)
    have tt: "0 < tau * tau" using assms(3) by simp
    show thesis
    proof (rule that)
      show "(if phi * phi + v < delta * delta then Some (ln (delta * delta - phi * phi - v))
          else find_bracket real_math ?f a tau 1) = Some B" using True by (simp add: B_def)
      show "?f a * ?f B \<le> 0"
      proof (cases "a \<le> B")
        case True
        then have "0 \<le> ?f a" unfolding fa using den [of a] by (intro divide_nonneg_pos mult_nonneg_nonneg) simp_all
        moreover have "?f B \<le> 0" unfolding fB using True tt by (intro divide_nonpos_pos) simp_all
        ultimately show ?thesis by (rule mult_nonneg_nonpos)
      next
        case False
        then have "?f a \<le> 0" unfolding fa using den [of a]
          by (intro divide_nonpos_pos mult_nonneg_nonpos) simp_all
        moreover have "0 \<le> ?f B" unfolding fB using False tt by (intro divide_nonneg_pos) simp_all
        ultimately show ?thesis by (rule mult_nonpos_nonneg)
      qed
    qed
  next
    case False
    have "exp a * (delta * delta - phi * phi - v - exp a) \<le> 0"
      using False exp_gt_zero [of a] by (intro mult_nonneg_nonpos) linarith+
    then have "?f a \<le> 0" unfolding sigma_f_real using den [of a] by (simp add: divide_nonpos_pos)
    then have "?f a * ?f (a - tau) \<le> 0"
      using find_bracket_real(2) [OF assms(2-4)] by (rule mult_nonpos_nonneg)
    with False find_bracket_real(1) [OF assms(2-4)] show thesis by (intro that [of "a - tau"]) simp_all
  qed
qed

lemma sigma_f_continuous:
  assumes "0 < v" "0 < tau"
  shows "continuous_on S (sigma_f real_math phi delta v tau a)"
proof -
  have pos: "phi * phi + v + exp x \<noteq> 0" for x :: real
  proof -
    have "0 < phi * phi + v + exp x" using assms by (intro add_nonneg_pos) simp_all
    then show ?thesis by simp
  qed
  have "continuous_on S (\<lambda>x. exp x * (delta * delta - phi * phi - v - exp x) / (2 * (phi * phi + v + exp x) powr 2)
      - (x - a) / (tau * tau))"
    by (intro continuous_intros) (use pos assms(2) in auto)
  then show ?thesis by (simp add: sigma_f_real [abs_def])
qed

text \<open>The interval always holds a root, whatever the loop does to the value it keeps at the old end.\<close>

lemma root_between:
  fixes f :: "real \<Rightarrow> real"
  assumes "\<And>S. continuous_on S f" "f A * f B \<le> 0"
  shows "\<exists>x. f x = 0 \<and> \<bar>x - A\<bar> \<le> \<bar>B - A\<bar>"
proof -
  have "\<exists>x. f x = 0 \<and> min A B \<le> x \<and> x \<le> max A B"
  proof (cases "f (min A B) \<le> 0")
    case True
    then have "0 \<le> f (max A B) \<or> f (min A B) = 0"
      using assms(2) by (cases "A \<le> B") (auto simp: min_def max_def mult_le_0_iff)
    then show ?thesis
    proof
      assume "0 \<le> f (max A B)"
        have "min A B \<le> max A B" by simp
      from IVT' [OF True \<open>0 \<le> f (max A B)\<close> this assms(1)] show ?thesis by blast
    qed (intro exI [of _ "min A B"], simp)
  next
    case False
    then have "f (max A B) \<le> 0"
      using assms(2) by (cases "A \<le> B") (auto simp: min_def max_def mult_le_0_iff)
    moreover have "min A B \<le> max A B" "0 \<le> f (min A B)" using False by simp_all
    ultimately show ?thesis using IVT2' [of f "max A B" 0 "min A B"] assms(1) by blast
  qed
  then show ?thesis by (auto simp: min_def max_def split: if_splits)
qed

definition bracketed :: "real math64 \<Rightarrow> (real \<Rightarrow> real) \<Rightarrow> real \<Rightarrow> real \<Rightarrow> real \<Rightarrow> real \<Rightarrow> bool" where
  "bracketed M f A B fA fB \<longleftrightarrow> M = real_math \<and> (\<forall>S. continuous_on S f) \<and> fB = f B
     \<and> (\<exists>n::nat. fA = f A / 2 ^ n) \<and> fA * fB \<le> 0"

lemma bracketed_step:
  assumes "bracketed M f A B fA fB"
  shows "f C * fB \<le> 0 \<Longrightarrow> bracketed M f B C fB (f C)" "\<not> f C * fB \<le> 0 \<Longrightarrow> bracketed M f A C (fA / 2) (f C)"
proof -
  from assms obtain n where n: "fA = f A / 2 ^ n" "fA * fB \<le> 0" unfolding bracketed_def by blast
  have "\<exists>n::nat. f B = f B / 2 ^ n" by (rule exI [of _ 0]) simp
  then show "f C * fB \<le> 0 \<Longrightarrow> bracketed M f B C fB (f C)"
    using assms by (simp add: bracketed_def mult.commute)
  have "\<exists>n::nat. fA / 2 = f A / 2 ^ n" by (rule exI [of _ "Suc n"]) (simp add: n(1))
  moreover have "fA / 2 * f C \<le> 0" if "\<not> f C * fB \<le> 0"
    using that n(2) by (auto simp: not_le zero_less_mult_iff mult_le_0_iff)
  ultimately show "\<not> f C * fB \<le> 0 \<Longrightarrow> bracketed M f A C (fA / 2) (f C)"
    using assms by (simp add: bracketed_def)
qed

lemma bracketed_root:
  assumes "bracketed M f A B fA fB"
  shows "\<exists>x. f x = 0 \<and> \<bar>x - A\<bar> \<le> \<bar>B - A\<bar>"
proof -
  have "f A * f B \<le> 0"
    using assms by (auto simp: bracketed_def divide_le_0_iff power_le_zero_eq)
  with assms show ?thesis by (intro root_between) (simp_all add: bracketed_def)
qed

lemma illinois_root:
  assumes "illinois_loop M f epsilon A B fA fB = Some A'"
  shows "bracketed M f A B fA fB \<longrightarrow> (\<exists>x. f x = 0 \<and> \<bar>x - A'\<bar> \<le> epsilon)"
proof (rule illinois_loop.raw_induct [OF _ assms], rule impI, goal_cases)
  case (1 loop M f epsilon A B fA fB A')
  let ?C = "A + (A - B) * fA / (fB - fA)"
  from 1(3) have M: "M = real_math" by (simp add: bracketed_def)
  show ?case
  proof (cases "epsilon < \<bar>B - A\<bar>")
    case False
    with 1(2) M have "A' = A" by simp
    moreover from bracketed_root [OF 1(3)] obtain x where "f x = 0" "\<bar>x - A\<bar> \<le> \<bar>B - A\<bar>" by blast
    ultimately show ?thesis using False by (intro exI [of _ x]) simp
  next
    case True
    have "(if f ?C * fB \<le> 0 then loop M f epsilon B ?C fB (f ?C)
        else loop M f epsilon A ?C (fA / 2) (f ?C)) = Some A'" using 1(2) True unfolding M by (simp add: Let_def cong: if_cong)
    then show ?thesis using 1(1) bracketed_step [OF 1(3), of ?C] by (metis (full_types))
  qed
qed

text \<open>What the search returns, if it ends.\<close>

lemma solveSigmaPrime_root:
  assumes "0 < sigma" "0 < v" "0 < tau" "tau \<le> 2" "0 < epsilon"
    and "solveSigmaPrime real_math phi sigma delta v tau epsilon = Some res"
  shows "\<exists>sigma' x. res = Inr sigma' \<and> 0 < sigma'
    \<and> sigma_f real_math phi delta v tau (ln (sigma * sigma)) x = 0 \<and> \<bar>x - ln (sigma' * sigma')\<bar> \<le> epsilon"
proof -
  let ?a = "ln (sigma * sigma)" and ?f = "sigma_f real_math phi delta v tau (ln (sigma * sigma))"
  obtain B where B: "(if phi * phi + v < delta * delta then Some (ln (delta * delta - phi * phi - v))
      else find_bracket real_math ?f ?a tau 1) = Some B" "?f ?a * ?f B \<le> 0"
    by (rule sigma_interval [OF assms(1-4), where phi = phi and delta = delta])
  from assms(6) B(1) obtain A where A: "illinois_loop real_math ?f epsilon ?a B (?f ?a) (?f B) = Some A"
    "res = Inr (exp (A / 2))"
    by (auto simp: solveSigmaPrime_def Let_def split: if_splits)
  have "\<exists>n::nat. ?f ?a = ?f ?a / 2 ^ n" by (rule exI [of _ 0]) simp
  then have "bracketed real_math ?f ?a B (?f ?a) (?f B)"
    using sigma_f_continuous [OF assms(2,3)] B(2) by (simp add: bracketed_def)
  with illinois_root [OF A(1)] obtain x where "?f x = 0" "\<bar>x - A\<bar> \<le> epsilon" by blast
  moreover have "ln (exp (A / 2) * exp (A / 2)) = A" by (simp flip: exp_add)
  ultimately show ?thesis using A(2) by (intro exI [of _ "exp (A / 2)"] exI [of _ x]) simp
qed

text \<open>An interval no longer than the tolerance is returned at once.\<close>

lemma solveSigmaPrime_wide:
  assumes "0 < sigma" "0 < v" "0 < tau" "tau \<le> 2" "tau \<le> epsilon" "delta * delta \<le> phi * phi + v"
  shows "solveSigmaPrime real_math phi sigma delta v tau epsilon = Some (Inr sigma)"
proof -
  let ?a = "ln (sigma * sigma)"
  have half: "ln (sigma * sigma) / 2 = ln sigma" using assms(1) by (simp add: ln_mult)
  show ?thesis
    using assms find_bracket_real(1) [OF assms(2-4)] half
    by (simp add: solveSigmaPrime_def Let_def illinois_loop.simps)
qed

section \<open>The direction of an update\<close>

lemma normalizeRating_R [simp]: "ra_R (normalizeRating M r) = ra_R r"
  by (simp add: normalizeRating_def Let_def)

lemma normalizeRating_real:
  "30 \<le> ra_RD (normalizeRating real_math r)" "ra_RD (normalizeRating real_math r) \<le> 350"
  "1 / 10000 \<le> ra_Sigma (normalizeRating real_math r)"
  by (auto simp: normalizeRating_def Let_def)

lemma solveSigmaPrime_pos:
  "solveSigmaPrime real_math phi sigma delta v tau epsilon = Some (Inr sigma') \<Longrightarrow> 0 < sigma'"
  by (auto simp: solveSigmaPrime_def Let_def split: option.splits if_splits)

lemma fromMu_shift: "fromMu real_math (toMu real_math R + x) = R + 1737178 / 10000 * x"
  by (simp add: fromMu_def toMu_def glickoScale_def field_simps)

lemma update_rating_one:
  assumes "update_rating real_math cfg r [opp] = Some (Inr r')"
  obtains c where "0 < c" "ra_R r' = ra_R r + c * (op_Score opp
      - glicko_E real_math (toMu real_math (ra_R r)) (toMu real_math (ra_R (op_Opponent opp)))
          (toPhi real_math (ra_RD (op_Opponent opp))))"
    and "30 \<le> ra_RD r'" "ra_RD r' \<le> 350" "1 / 10000 \<le> ra_Sigma r'"
proof -
  define e where "e = glicko_E real_math (toMu real_math (ra_R r)) (toMu real_math (ra_R (op_Opponent opp)))
    (toPhi real_math (ra_RD (op_Opponent opp)))"
  define g where "g = glicko_g real_math (toPhi real_math (ra_RD (op_Opponent opp)))"
  define I where "I = g * g * e * (1 - e)"
  define S where "S = g * (op_Score opp - e)"
  define phi where "phi = toPhi real_math (ra_RD r)"
  define P where "P = (\<lambda>s. 1 / sqrt (1 / (sqrt (phi * phi + s * s) * sqrt (phi * phi + s * s)) + 1 / (1 / I)))"
  have pos: "0 < g" "0 < I" using glicko_g_pos glicko_E_bounds by (simp_all add: g_def I_def e_def)
  have sum: "add_opponent real_math (toMu real_math (ra_R r)) opp (0, 0) = (I, S)"
    by (simp add: add_opponent_def Let_def I_def S_def g_def e_def)
  have "map_option (\<lambda>solved. case solved of Inl err \<Rightarrow> Inl err
      | Inr s \<Rightarrow> Inr (normalizeRating real_math \<lparr>ra_R = fromMu real_math (toMu real_math (ra_R r) + P s * P s * S),
          ra_RD = fromPhi real_math (P s), ra_Sigma = s\<rparr>))
      (solveSigmaPrime real_math phi (ra_Sigma r) (1 / I * S) (1 / I) (gc_Tau cfg) (gc_Epsilon cfg)) = Some (Inr r')"
    using assms pos(2) unfolding P_def phi_def by (simp add: update_rating_def Let_def sum cong: sum.case_cong)
  then obtain s' where s': "solveSigmaPrime real_math phi (ra_Sigma r) (1 / I * S) (1 / I) (gc_Tau cfg) (gc_Epsilon cfg)
      = Some (Inr s')"
    and r': "r' = normalizeRating real_math \<lparr>ra_R = fromMu real_math (toMu real_math (ra_R r) + P s' * P s' * S),
          ra_RD = fromPhi real_math (P s'), ra_Sigma = s'\<rparr>"
    by (cases "solveSigmaPrime real_math phi (ra_Sigma r) (1 / I * S) (1 / I) (gc_Tau cfg) (gc_Epsilon cfg)")
      (auto split: sum.split_asm simp del: mult.right_neutral times_divide_eq_left)
  have "0 < s'" by (rule solveSigmaPrime_pos [OF s'])
  then have "0 < phi * phi + s' * s'" by (intro add_nonneg_pos) simp_all
  then have "0 < 1 / (sqrt (phi * phi + s' * s') * sqrt (phi * phi + s' * s')) + 1 / (1 / I)"
    using pos(2) by (intro add_pos_pos) simp_all
  then have P: "0 < P s'" unfolding P_def by (intro divide_pos_pos) simp_all
  have "ra_R r' = ra_R r + 1737178 / 10000 * (P s' * P s' * g) * (op_Score opp - e)"
    unfolding r' by (simp add: fromMu_shift S_def mult_ac)
  moreover have "0 < 1737178 / 10000 * (P s' * P s' * g)" using P pos(1) by simp
  ultimately show thesis using that normalizeRating_real r' unfolding e_def by blast
qed

text \<open>
  C21: In exact arithmetic the update after one game moves a rating the right way: a win raises it and
  a loss lowers it, a draw moves it towards the opponent's, up exactly when the opponent's is higher
  and down exactly when it is lower. The deviation stays between 30 and 350 and the volatility above
  its floor.
\<close>

theorem rating_moves_with_the_result:
  assumes "Update real_math cfg r [opp] = Some (Inr r')" "\<not> no_rating real_math r"
  shows "(op_Score opp = ScoreWin real_math \<longrightarrow> ra_R r < ra_R r') \<and> (op_Score opp = ScoreLoss real_math \<longrightarrow> ra_R r' < ra_R r)
    \<and> (op_Score opp = ScoreDraw real_math \<longrightarrow> (ra_R r < ra_R r' \<longleftrightarrow> ra_R r < ra_R (op_Opponent opp))
        \<and> (ra_R r' < ra_R r \<longleftrightarrow> ra_R (op_Opponent opp) < ra_R r))
    \<and> 30 \<le> ra_RD r' \<and> ra_RD r' \<le> 350 \<and> 1 / 10000 \<le> ra_Sigma r'"
proof -
  from assms have "update_rating real_math cfg r [opp] = Some (Inr r')"
    by (auto simp: Update_def Let_def split: option.splits)
  then obtain c where c: "0 < c" and R: "ra_R r' = ra_R r + c * (op_Score opp
      - glicko_E real_math (toMu real_math (ra_R r)) (toMu real_math (ra_R (op_Opponent opp)))
          (toPhi real_math (ra_RD (op_Opponent opp))))" (is "_ = _ + c * (_ - ?e)")
    and range: "30 \<le> ra_RD r'" "ra_RD r' \<le> 350" "1 / 10000 \<le> ra_Sigma r'"
    by (rule update_rating_one)
  have up: "ra_R r < ra_R r' \<longleftrightarrow> ?e < op_Score opp" and down: "ra_R r' < ra_R r \<longleftrightarrow> op_Score opp < ?e"
    unfolding R using c by (simp_all add: zero_less_mult_iff mult_less_0_iff)
  have mu: "toMu real_math x < toMu real_math y \<longleftrightarrow> x < y" for x y
    by (simp add: toMu_def glickoScale_def divide_strict_right_mono)
  have draw: "?e < 1 / 2 \<longleftrightarrow> ra_R r < ra_R (op_Opponent opp)" "1 / 2 < ?e \<longleftrightarrow> ra_R (op_Opponent opp) < ra_R r"
    using glicko_E_less glicko_E_greater glicko_E_equal mu
    by (metis less_asym less_irrefl linorder_neqE_linordered_idom)+
  show ?thesis
    using up down draw range glicko_E_bounds
    by (auto simp: ScoreWin_def ScoreLoss_def ScoreDraw_def)
qed

text \<open>Two equal players, with a tolerance wide enough for the search to stop at once.\<close>

definition wide_config :: "real glicko_config" where
  "wide_config = \<lparr>gc_Tau = 1 / 2, gc_Epsilon = 1, gc_DefaultRating = defaultRating real_math\<rparr>"

definition even_rating :: "real rating" where
  "even_rating = \<lparr>ra_R = 1500, ra_RD = 200, ra_Sigma = 6 / 100\<rparr>"

lemma even_update:
  "\<exists>r'. Update real_math wide_config even_rating [\<lparr>op_Opponent = even_rating, op_Score = ScoreWin real_math\<rparr>] = Some (Inr r')"
proof -
  define g where "g = glicko_g real_math (toPhi real_math 200)"
  have g: "0 < g" by (simp add: g_def glicko_g_pos)
  then have gg: "\<not> g * g \<le> 0" by (simp add: not_le)
  have E: "glicko_E real_math 0 0 (toPhi real_math 200) = 1 / 2" by (rule glicko_E_equal)
  have sum: "add_opponent real_math (toMu real_math 1500) \<lparr>op_Opponent = even_rating, op_Score = ScoreWin real_math\<rparr> (0, 0)
      = (g * g / 4, g / 2)"
    by (simp add: add_opponent_def Let_def even_rating_def toMu_def E ScoreWin_def flip: g_def)
  have "solveSigmaPrime real_math (toPhi real_math 200) (6 / 100) (1 / (g * g / 4) * (g / 2)) (1 / (g * g / 4)) (1 / 2) 1
      = Some (Inr (6 / 100))"
    by (rule solveSigmaPrime_wide) (use g in \<open>simp_all add: field_simps\<close>)
  then show ?thesis
    using g gg sum
    by (simp add: Update_def validateConfig_def validateRating_def wide_config_def defaultRating_def even_rating_def
        no_rating_def IsValid_def update_rating_def Let_def)
qed

lemma rating_moves_with_the_result_witness:
  "\<exists>r'. Update real_math wide_config even_rating [\<lparr>op_Opponent = even_rating, op_Score = ScoreWin real_math\<rparr>] = Some (Inr r')
     \<and> 1500 < ra_R r' \<and> ra_RD r' \<le> 350"
proof -
  from even_update obtain r' where r': "Update real_math wide_config even_rating
      [\<lparr>op_Opponent = even_rating, op_Score = ScoreWin real_math\<rparr>] = Some (Inr r')" by blast
  have "\<not> no_rating real_math even_rating" by (simp add: no_rating_def even_rating_def)
  from rating_moves_with_the_result [OF r' this] r' show ?thesis by (simp add: even_rating_def)
qed

section \<open>The reset between seasons\<close>

text \<open>
  The reset between seasons keeps the order of the ratings and brings each three quarters of
  the way from its old distance to 1500; the uncertainty grows by at most 30 and stays in its range.
\<close>

theorem soft_reset_compresses:
  assumes "\<not> no_rating real_math r" "\<not> no_rating real_math s" "0 < ra_RD r"
  defines "r' \<equiv> ApplySeasonSoftReset real_math r" and "s' \<equiv> ApplySeasonSoftReset real_math s"
  shows "ra_R r' - 1500 = 3 / 4 * (ra_R r - 1500) \<and> (ra_R r' < ra_R s' \<longleftrightarrow> ra_R r < ra_R s)
    \<and> 30 \<le> ra_RD r' \<and> ra_RD r' \<le> 350 \<and> ra_RD r' \<le> ra_RD r + 30"
  using assms(1-3)
  by (auto simp: r'_def s'_def ApplySeasonSoftReset_def normalizeRating_def Let_def)

lemma soft_reset_compresses_witness:
  "ra_R (ApplySeasonSoftReset real_math \<lparr>ra_R = 1600, ra_RD = 340, ra_Sigma = 7 / 100\<rparr>) - 1500 = 75
    \<and> ra_RD (ApplySeasonSoftReset real_math \<lparr>ra_R = 1600, ra_RD = 340, ra_Sigma = 7 / 100\<rparr>) \<le> 350"
  using soft_reset_compresses [of "\<lparr>ra_R = 1600, ra_RD = 340, ra_Sigma = 7 / 100\<rparr>" even_rating]
  by (simp add: no_rating_def even_rating_def)

end
