(* ===== verification/Seasons.thy ===== *)
theory Seasons
  imports Database Ranking
begin

text \<open>
  Seasons and the ratings of a season, \<^verbatim>\<open>internal/storage/repositories.go\<close>: the active season
  (\<open>ensureActiveSeasonTx\<close>), which is closed and followed by the next one when it is over, and a player's
  rating in it (\<open>getOrCreateRatingTx\<close>), which starts from the rating of the last season the player took
  part in.

  The seasons of a database form a chain (\<open>seasons_ok\<close>): numbered from 1, each beginning where the one
  before it ends, all closed but the last.
\<close>

section \<open>Seasons\<close>

definition first_by :: "('r \<Rightarrow> int) \<Rightarrow> ('r \<Rightarrow> bool) \<Rightarrow> 'r list \<Rightarrow> 'r option" where
  "first_by key P rows = (case sort_key (\<lambda>r. - key r) (filter P rows) of [] \<Rightarrow> None | r # _ \<Rightarrow> Some r)"

definition is_active :: "season \<Rightarrow> bool" where
  "is_active s \<longleftrightarrow> sa_Status s = SeasonStatusActive"

definition active_season :: "('f, 'z) database_scheme \<Rightarrow> season option" where
  "active_season d = first_by sa_Number is_active (db_seasons d)"

definition getActiveSeasonForUpdate :: "(('f, 'z) database_scheme, season) query" where
  "getActiveSeasonForUpdate = select_row (\<lambda>d. case active_season d of None \<Rightarrow> Inl ErrNoRows | Some s \<Rightarrow> Inr s)"

definition getActiveSeasonFromQuerier :: "(('f, 'z) database_scheme, season) query" where
  "getActiveSeasonFromQuerier = select_row (\<lambda>d. case active_season d of None \<Rightarrow> Inl ErrNoRows | Some s \<Rightarrow> Inr s)"

definition GetActive :: "store_deps \<Rightarrow> (('f, 'z) database_scheme, season) query" where
  "GetActive D = with_pool D getActiveSeasonFromQuerier"

definition insert_season :: "season \<Rightarrow> ('f, 'z) database_scheme \<Rightarrow> store_error + ('f, 'z) database_scheme" where
  "insert_season s d =
     (if sa_ID s \<in> sa_ID ` set (db_seasons d) then Inl (ErrUniqueViolation ''seasons_pkey'')
      else if sa_Number s \<in> sa_Number ` set (db_seasons d) then Inl (ErrUniqueViolation ''seasons_number_key'')
      else if is_active s \<and> (\<exists>t \<in> set (db_seasons d). is_active t)
        then Inl (ErrUniqueViolation ''seasons_single_active_idx'')
      else if \<not> int4 (sa_Number s) then Inl (ErrCheckFailed ''number'')
      else if \<not> sa_StartsAt s < sa_EndsAt s then Inl (ErrCheckFailed ''starts_at'')
      else Inr (d\<lparr>db_seasons := db_seasons d @ [s]\<rparr>))"

definition close_season :: "string \<Rightarrow> time \<Rightarrow> ('f, 'z) database_scheme \<Rightarrow> store_error + ('f, 'z) database_scheme" where
  "close_season seasonID now d = Inr (d\<lparr>db_seasons := map (\<lambda>s. if sa_ID s = seasonID
     then s\<lparr>sa_Status := SeasonStatusClosed, sa_UpdatedAt := now\<rparr> else s) (db_seasons d)\<rparr>)"

definition createNextSeasonTx :: "store_deps \<Rightarrow> string \<Rightarrow> int \<Rightarrow> time \<Rightarrow> time \<Rightarrow> (('f, 'z) database_scheme, season) query" where
  "createNextSeasonTx D uuid number startsAt nowUTC =
     (let s = \<lparr>sa_ID = uuid, sa_Number = number, sa_StartsAt = startsAt, sa_EndsAt = startsAt + sd_seasonDuration D,
          sa_Status = SeasonStatusActive, sa_CreatedAt = nowUTC, sa_UpdatedAt = nowUTC\<rparr>
      in and_then (exec (insert_season (s\<lparr>sa_StartsAt := sd_tz D (sa_StartsAt s), sa_EndsAt := sd_tz D (sa_EndsAt s),
            sa_CreatedAt := sd_tz D nowUTC, sa_UpdatedAt := sd_tz D nowUTC\<rparr>)))
          (\<lambda>_. give s))"

definition ensureActiveSeasonTx :: "store_deps \<Rightarrow> string \<Rightarrow> time \<Rightarrow> (('f, 'z) database_scheme, season) query" where
  "ensureActiveSeasonTx D uuid nowUTC = attempt getActiveSeasonForUpdate
     (\<lambda>season. if nowUTC < sa_EndsAt season then give season
        else and_then (exec (close_season (sa_ID season) (sd_tz D nowUTC)))
          (\<lambda>_. createNextSeasonTx D uuid (sa_Number season + 1) (sa_EndsAt season) nowUTC))
     (\<lambda>err. if err = ErrNoRows then createNextSeasonTx D uuid 1 nowUTC nowUTC else fail err)"

text \<open>\<^verbatim>\<open>Begin\<close> on a missing pool panics.\<close>

definition begin_tx :: "store_deps \<Rightarrow> ('d, 'a) query \<Rightarrow> ('d, 'a) query" where
  "begin_tx D m = (if sd_pool D then transaction m else fail ErrPanicked)"

definition EnsureActive :: "store_deps \<Rightarrow> string \<Rightarrow> time \<Rightarrow> (('f, 'z) database_scheme, season) query" where
  "EnsureActive D uuid now = begin_tx D (ensureActiveSeasonTx D uuid now)"

definition CloseExpiredAndCreateNext :: "store_deps \<Rightarrow> string \<Rightarrow> time \<Rightarrow> (('f, 'z) database_scheme, season) query" where
  "CloseExpiredAndCreateNext D uuid now = EnsureActive D uuid now"

section \<open>Ratings\<close>

definition rating_key :: "'f rating_entry \<Rightarrow> string \<times> string" where
  "rating_key e = (rg_PlayerID e, rg_SeasonID e)"

definition getRatingBySeasonTx :: "string \<Rightarrow> string \<Rightarrow> (('f, 'z) database_scheme, 'f rating_entry) query" where
  "getRatingBySeasonTx playerID seasonID = select_row (\<lambda>d.
     case find (\<lambda>e. rg_PlayerID e = playerID \<and> rg_SeasonID e = seasonID) (db_ratings d) of
       None \<Rightarrow> Inl ErrNoRows | Some e \<Rightarrow> Inr e)"

text \<open>The join with the seasons: the numbers of the seasons with the rating's identifier.\<close>

definition getLatestRatingBeforeSeasonTx :: "string \<Rightarrow> int \<Rightarrow> (('f, 'z) database_scheme, 'f rating_entry) query" where
  "getLatestRatingBeforeSeasonTx playerID seasonNumber = select_row (\<lambda>d.
     case first_by (\<lambda>(e, s). sa_Number s)
         (\<lambda>(e, s). sa_ID s = rg_SeasonID e \<and> rg_PlayerID e = playerID \<and> sa_Number s < seasonNumber)
         (List.product (db_ratings d) (db_seasons d)) of
       None \<Rightarrow> Inl ErrNoRows | Some (e, s) \<Rightarrow> Inr e)"

definition upsert_rating :: "'f rating_entry \<Rightarrow> ('f, 'z) database_scheme \<Rightarrow> store_error + ('f, 'z) database_scheme" where
  "upsert_rating e d =
     (if rating_key e \<in> rating_key ` set (db_ratings d)
      then Inr (d\<lparr>db_ratings := map (\<lambda>q. if rating_key q = rating_key e then e else q) (db_ratings d)\<rparr>)
      else if rg_PlayerID e \<notin> pl_ID ` set (db_players d) then Inl (ErrForeignKey ''player_id'')
      else if rg_SeasonID e \<notin> sa_ID ` set (db_seasons d) then Inl (ErrForeignKey ''season_id'')
      else Inr (d\<lparr>db_ratings := db_ratings d @ [e]\<rparr>))"

definition stored_rating :: "store_deps \<Rightarrow> 'f rating_entry \<Rightarrow> 'f rating_entry" where
  "stored_rating D e = e\<lparr>rg_LastMatchAt := map_option (sd_tz D) (rg_LastMatchAt e), rg_UpdatedAt := sd_tz D (rg_UpdatedAt e)\<rparr>"

definition upsertRatingTx :: "store_deps \<Rightarrow> 'f rating_entry \<Rightarrow> (('f, 'z) database_scheme, unit) query" where
  "upsertRatingTx D e = exec (upsert_rating (stored_rating D e))"

definition upsertRatingExec :: "store_deps \<Rightarrow> 'f rating_entry \<Rightarrow> (('f, 'z) database_scheme, unit) query" where
  "upsertRatingExec D e = exec (upsert_rating (stored_rating D e))"

definition Upsert :: "store_deps \<Rightarrow> 'f rating_entry \<Rightarrow> (('f, 'z) database_scheme, unit) query" where
  "Upsert D e = with_pool D (upsertRatingExec D e)"

definition rating_of :: "'f rating_entry \<Rightarrow> 'f rating" where
  "rating_of e = \<lparr>ra_R = rg_Rating e, ra_RD = rg_RD e, ra_Sigma = rg_Sigma e\<rparr>"

definition fresh_entry :: "store_deps \<Rightarrow> string \<Rightarrow> season \<Rightarrow> time \<Rightarrow> 'f rating \<Rightarrow> (('f, 'z) database_scheme, 'f rating_entry) query" where
  "fresh_entry D playerID season nowUTC base =
     (let entry = \<lparr>rg_PlayerID = playerID, rg_SeasonID = sa_ID season, rg_Rating = ra_R base, rg_RD = ra_RD base,
          rg_Sigma = ra_Sigma base, rg_LastMatchAt = None, rg_UpdatedAt = nowUTC\<rparr>
      in and_then (upsertRatingTx D entry) (\<lambda>_. give entry))"

definition getOrCreateRatingTx :: "'f math64 \<Rightarrow> store_deps \<Rightarrow> string \<Rightarrow> season \<Rightarrow> time
    \<Rightarrow> (('f, 'z) database_scheme, 'f rating_entry) query" where
  "getOrCreateRatingTx M D playerID season nowUTC = attempt (getRatingBySeasonTx playerID (sa_ID season)) give
     (\<lambda>err. if err \<noteq> ErrNoRows then fail err
        else attempt (getLatestRatingBeforeSeasonTx playerID (sa_Number season))
          (\<lambda>prev. fresh_entry D playerID season nowUTC (ApplySeasonSoftReset M (rating_of prev)))
          (\<lambda>err. if err \<noteq> ErrNoRows then fail err
             else fresh_entry D playerID season nowUTC (gc_DefaultRating (DefaultConfig M))))"

definition GetOrCreateForActiveSeason :: "'f math64 \<Rightarrow> store_deps \<Rightarrow> string \<Rightarrow> string \<Rightarrow> time
    \<Rightarrow> (('f, 'z) database_scheme, 'f rating_entry) query" where
  "GetOrCreateForActiveSeason M D uuid playerID now = begin_tx D
     (and_then (ensureActiveSeasonTx D uuid now) (\<lambda>season. getOrCreateRatingTx M D playerID season now))"

section \<open>The chain of the seasons\<close>

definition season_chain :: "season list \<Rightarrow> bool" where
  "season_chain ss \<longleftrightarrow> map sa_Number ss = map (\<lambda>i. int i + 1) [0..<length ss]
     \<and> (\<forall>i. Suc i < length ss \<longrightarrow> sa_StartsAt (ss ! Suc i) = sa_EndsAt (ss ! i) \<and> \<not> is_active (ss ! i))
     \<and> (ss \<noteq> [] \<longrightarrow> is_active (last ss)) \<and> (\<forall>s \<in> set ss. sa_StartsAt s < sa_EndsAt s) \<and> distinct (map sa_ID ss)"

definition seasons_ok :: "store_deps \<Rightarrow> ('f, 'z) database_scheme \<Rightarrow> bool" where
  "seasons_ok D d \<longleftrightarrow> season_chain (db_seasons d)
     \<and> (\<forall>s \<in> set (db_seasons d). sd_tz D (sa_StartsAt s) = sa_StartsAt s \<and> sd_tz D (sa_EndsAt s) = sa_EndsAt s)"

lemma season_chain_active:
  assumes "season_chain ss"
  shows "filter is_active ss = (if ss = [] then [] else [last ss])"
proof (cases ss rule: rev_cases)
  case (snoc ts s)
  have "\<not> is_active t" if "t \<in> set ts" for t
  proof -
    from that obtain i where "i < length ts" "ts ! i = t" by (auto simp: in_set_conv_nth)
    with assms snoc show ?thesis by (auto simp: season_chain_def nth_append)
  qed
  moreover have "is_active s" using assms snoc by (simp add: season_chain_def)
  ultimately show ?thesis using snoc by simp
qed simp

lemma active_season_chain:
  "season_chain (db_seasons d) \<Longrightarrow> active_season d = (if db_seasons d = [] then None else Some (last (db_seasons d)))"
  by (simp add: active_season_def first_by_def season_chain_active)

lemma season_chain_last_number:
  "season_chain ss \<Longrightarrow> ss \<noteq> [] \<Longrightarrow> sa_Number (last ss) = int (length ss)"
proof -
  assume "season_chain ss" "ss \<noteq> []"
  then have "map sa_Number ss ! (length ss - 1) = map (\<lambda>i. int i + 1) [0..<length ss] ! (length ss - 1)"
    by (simp add: season_chain_def)
  with \<open>ss \<noteq> []\<close> show ?thesis by (cases ss rule: rev_cases) (simp_all add: nth_append)
qed

text \<open>The next link: the last season is closed and a season that begins at its end is appended.\<close>

lemma season_chain_snoc:
  assumes "season_chain ss" "ss \<noteq> []" "sa_StartsAt s = sa_EndsAt (last ss)" "sa_Number s = sa_Number (last ss) + 1"
    and "is_active s" "sa_StartsAt s < sa_EndsAt s" "sa_ID s \<notin> sa_ID ` set ss"
  shows "season_chain (map (\<lambda>t. if sa_ID t = sa_ID (last ss)
     then t\<lparr>sa_Status := SeasonStatusClosed, sa_UpdatedAt := now\<rparr> else t) ss @ [s])" (is "season_chain (map ?upd ss @ [s])")
proof -
  have upd: "sa_Number (?upd t) = sa_Number t" "sa_StartsAt (?upd t) = sa_StartsAt t" "sa_EndsAt (?upd t) = sa_EndsAt t"
    "sa_ID (?upd t) = sa_ID t" for t by simp_all
  have inactive: "\<not> is_active (?upd t)" if "t \<in> set ss" for t
  proof -
    have "t = last ss \<or> \<not> is_active t"
    proof (cases "is_active t")
      case True
      with that have "t \<in> set (filter is_active ss)" by simp
      then show ?thesis unfolding season_chain_active [OF assms(1)] by (simp add: assms(2))
    qed simp
    then show ?thesis by (auto simp: is_active_def)
  qed
  have "map sa_Number (map ?upd ss @ [s]) = map sa_Number ss @ [int (length ss) + 1]"
    using assms(4) season_chain_last_number [OF assms(1,2)] by (simp add: o_def)
  also have "\<dots> = map (\<lambda>i. int i + 1) [0..<length (map ?upd ss @ [s])]"
    using assms(1) by (simp add: season_chain_def)
  finally have numbers: "map sa_Number (map ?upd ss @ [s]) = \<dots>" .
  have links: "sa_StartsAt ((map ?upd ss @ [s]) ! Suc i) = sa_EndsAt ((map ?upd ss @ [s]) ! i)
      \<and> \<not> is_active ((map ?upd ss @ [s]) ! i)" if "Suc i < length (map ?upd ss @ [s])" for i
  proof (cases "Suc i < length ss")
    case True
    with assms(1) inactive [of "ss ! i"] show ?thesis
      by (simp only: nth_append nth_map length_map Suc_lessD upd if_True season_chain_def) (simp add: upd)
  next
    case False
    with that have i: "i = length ss - 1" "i < length ss" "Suc i = length ss" using assms(2) by auto
    with assms(2,3) inactive [of "last ss"] show ?thesis
      by (simp add: nth_append last_conv_nth)
  qed
  have ids: "map sa_ID (map ?upd ss) = map sa_ID ss" by simp
  show ?thesis
    unfolding season_chain_def
  proof (intro conjI allI impI)
    show "distinct (map sa_ID (map ?upd ss @ [s]))"
      using assms(1,7) by (simp only: map_append ids) (simp add: season_chain_def)
    show "\<forall>t \<in> set (map ?upd ss @ [s]). sa_StartsAt t < sa_EndsAt t"
      using assms(1,6) by (auto simp: season_chain_def)
  qed (use numbers links assms(5) in auto)
qed

lemma getActiveSeason_result:
  assumes "getActiveSeasonForUpdate (d, rs) = (res, w)" "season_chain (db_seasons d)"
  shows "fst w = d" "res = Inr s \<Longrightarrow> db_seasons d \<noteq> [] \<and> s = last (db_seasons d)"
    "res = Inl ErrNoRows \<Longrightarrow> db_seasons d = []"
  using assms(1) active_season_chain [OF assms(2)]
  by (auto simp: getActiveSeasonForUpdate_def select_row_def split: prod.splits reply.splits if_splits)

lemma createNextSeason_result:
  assumes "createNextSeasonTx D uuid number startsAt now (d, rs) = (Inr s, w)"
  obtains t where "insert_season t d = Inr (fst w)" "sa_ID t = uuid" "sa_Number t = number"
    "sa_StartsAt t = sd_tz D startsAt" "sa_EndsAt t = sd_tz D (startsAt + sd_seasonDuration D)" "is_active t"
    "sa_ID s = uuid" "sa_Number s = number" "sa_EndsAt s = startsAt + sd_seasonDuration D"
proof -
  let ?s = "\<lparr>sa_ID = uuid, sa_Number = number, sa_StartsAt = startsAt, sa_EndsAt = startsAt + sd_seasonDuration D,
    sa_Status = SeasonStatusActive, sa_CreatedAt = now, sa_UpdatedAt = now\<rparr>"
  let ?t = "?s\<lparr>sa_StartsAt := sd_tz D startsAt, sa_EndsAt := sd_tz D (startsAt + sd_seasonDuration D),
    sa_CreatedAt := sd_tz D now, sa_UpdatedAt := sd_tz D now\<rparr>"
  from and_then_Inr [OF assms [unfolded createNextSeasonTx_def Let_def]] obtain w1 where
    "exec (insert_season ?t) (d, rs) = (Inr (), w1)" "s = ?s" "w = w1" by (auto simp: give_def)
  with exec_Inr [of "insert_season ?t" "(d, rs)"] show thesis by (intro that [of ?t]) (auto simp: is_active_def)
qed

lemma insert_season_Inr:
  "insert_season s d = Inr d' \<Longrightarrow> d' = d\<lparr>db_seasons := db_seasons d @ [s]\<rparr> \<and> sa_StartsAt s < sa_EndsAt s
     \<and> sa_ID s \<notin> sa_ID ` set (db_seasons d)"
  by (auto simp: insert_season_def split: if_splits)

lemma ensureActiveSeasonTx_commits:
  assumes "timestamps_ok (sd_tz D)"
  shows "commits (seasons_ok D) (ensureActiveSeasonTx D uuid now)"
  unfolding commits_def
proof (intro allI impI)
  fix d :: "('f, 'z) database_scheme" and rs s d' rs'
  assume ok: "seasons_ok D d" and run: "ensureActiveSeasonTx D uuid now (d, rs) = (Inr s, (d', rs'))"
  have idem: "sd_tz D (sd_tz D t) = sd_tz D t" for t using assms by (simp add: timestamps_ok_def)
  have chain: "season_chain (db_seasons d)" using ok by (simp add: seasons_ok_def)
  from attempt_Inr [OF run [unfolded ensureActiveSeasonTx_def]] show "seasons_ok D d'"
  proof (elim disjE exE conjE)
    fix cur w1
    assume get: "getActiveSeasonForUpdate (d, rs) = (Inr cur, w1)"
      and k: "(if now < sa_EndsAt cur then give cur
        else and_then (exec (close_season (sa_ID cur) (sd_tz D now)))
          (\<lambda>_. createNextSeasonTx D uuid (sa_Number cur + 1) (sa_EndsAt cur) now)) w1 = (Inr s, (d', rs'))"
    from getActiveSeason_result [OF get chain] have w1: "fst w1 = d" and cur: "db_seasons d \<noteq> []" "cur = last (db_seasons d)"
      by simp_all
    show ?thesis
    proof (cases "now < sa_EndsAt cur")
      case True
      with k w1 ok show ?thesis by (auto simp: give_def)
    next
      case False
      with k obtain w2 where closed: "exec (close_season (sa_ID cur) (sd_tz D now)) w1 = (Inr (), w2)"
        and created: "createNextSeasonTx D uuid (sa_Number cur + 1) (sa_EndsAt cur) now w2 = (Inr s, (d', rs'))"
        by (auto dest: and_then_Inr)
      let ?upd = "\<lambda>t. if sa_ID t = sa_ID cur then t\<lparr>sa_Status := SeasonStatusClosed, sa_UpdatedAt := sd_tz D now\<rparr> else t"
      have d2: "fst w2 = d\<lparr>db_seasons := map ?upd (db_seasons d)\<rparr>"
        using exec_Inr [OF closed] w1 by (simp add: close_season_def)
      have made: "createNextSeasonTx D uuid (sa_Number cur + 1) (sa_EndsAt cur) now (fst w2, snd w2) = (Inr s, (d', rs'))"
        using created by simp
      obtain t where t: "insert_season t (fst w2) = Inr d'" "sa_Number t = sa_Number cur + 1"
        "sa_StartsAt t = sd_tz D (sa_EndsAt cur)" "sa_EndsAt t = sd_tz D (sa_EndsAt cur + sd_seasonDuration D)" "is_active t"
        by (rule createNextSeason_result [OF made]) (rule that, simp_all)
      have "map sa_ID (map ?upd (db_seasons d)) = map sa_ID (db_seasons d)" by simp
      then have ids: "sa_ID ` set (map ?upd (db_seasons d)) = sa_ID ` set (db_seasons d)" by (metis set_map)
      from insert_season_Inr [OF t(1)] have "d' = (fst w2)\<lparr>db_seasons := db_seasons (fst w2) @ [t]\<rparr>"
        and fresh: "sa_StartsAt t < sa_EndsAt t" and new: "sa_ID t \<notin> sa_ID ` set (db_seasons (fst w2))"
        by blast+
      then have d': "d' = d\<lparr>db_seasons := map ?upd (db_seasons d) @ [t]\<rparr>" by (simp add: d2)
      have fresh: "sa_StartsAt t < sa_EndsAt t" "sa_ID t \<notin> sa_ID ` set (db_seasons d)"
        using fresh new ids by (simp_all add: d2)
      have cur_in: "cur \<in> set (db_seasons d)" using cur by simp
      then have starts: "sa_StartsAt t = sa_EndsAt cur" using ok t(3) by (simp add: seasons_ok_def)
      have "season_chain (map ?upd (db_seasons d) @ [t])"
        using season_chain_snoc [OF chain cur(1), of t "sd_tz D now"] starts t(2,5) fresh cur(2) by simp
      with ok t(3,4) starts idem cur_in show ?thesis by (auto simp: seasons_ok_def d')
    qed
  next
    fix err w1
    assume get: "getActiveSeasonForUpdate (d, rs) = (Inl err, w1)"
      and k: "(if err = ErrNoRows then createNextSeasonTx D uuid 1 now now else fail err) w1 = (Inr s, (d', rs'))"
    then have err: "err = ErrNoRows" by (simp add: fail_def split: if_splits)
    from getActiveSeason_result [OF get chain] err have w1: "fst w1 = d" and none: "db_seasons d = []" by simp_all
    have made: "createNextSeasonTx D uuid 1 now now (d, snd w1) = (Inr s, (d', rs'))"
      using k err w1 by (cases w1) simp
    obtain t where t: "insert_season t d = Inr d'" "sa_Number t = 1"
      "sa_StartsAt t = sd_tz D now" "sa_EndsAt t = sd_tz D (now + sd_seasonDuration D)" "is_active t"
      by (rule createNextSeason_result [OF made]) (rule that, simp_all)
    from insert_season_Inr [OF t(1)] t none idem show ?thesis
      by (simp add: seasons_ok_def season_chain_def)
  qed
qed

lemma keeps_begin_tx: "keeps I m \<Longrightarrow> keeps I (begin_tx D m)"
  by (auto simp: begin_tx_def intro: wf_intros)

lemma commits_begin_tx: "commits I m \<Longrightarrow> keeps I (begin_tx D m)"
  by (auto simp: begin_tx_def intro: commits_transaction wf_intros)

text \<open>The ratings do not touch the seasons.\<close>

lemma upsertRatingTx_keeps: "keeps (seasons_ok D) (upsertRatingTx D e)"
  unfolding upsertRatingTx_def
  by (rule keeps_exec) (auto simp: seasons_ok_def upsert_rating_def split: if_splits)

lemma getOrCreateRatingTx_keeps: "keeps (seasons_ok D) (getOrCreateRatingTx M D pid season now)"
  unfolding getOrCreateRatingTx_def fresh_entry_def getRatingBySeasonTx_def getLatestRatingBeforeSeasonTx_def Let_def
  by (intro keeps_attempt keeps_and_then keeps_if keeps_select keeps_give keeps_fail upsertRatingTx_keeps)

lemma EnsureActive_keeps:
  "timestamps_ok (sd_tz D) \<Longrightarrow> keeps (seasons_ok D) (EnsureActive D uuid now)"
  unfolding EnsureActive_def by (intro commits_begin_tx ensureActiveSeasonTx_commits)

lemma GetOrCreateForActiveSeason_keeps:
  "timestamps_ok (sd_tz D) \<Longrightarrow> keeps (seasons_ok D) (GetOrCreateForActiveSeason M D uuid pid now)"
  unfolding GetOrCreateForActiveSeason_def
  by (intro commits_begin_tx commits_and_then ensureActiveSeasonTx_commits keeps_commits getOrCreateRatingTx_keeps)

lemma Upsert_keeps: "keeps (seasons_ok D) (Upsert D e)"
  unfolding Upsert_def upsertRatingExec_def upsertRatingTx_def [symmetric] by (intro keeps_with_pool upsertRatingTx_keeps)

lemma GetActive_keeps: "keeps (seasons_ok D) (GetActive D)"
  unfolding GetActive_def getActiveSeasonFromQuerier_def by (intro keeps_with_pool keeps_select)

section \<open>The season that a call gets\<close>

lemma tz_less: "timestamps_ok tz \<Longrightarrow> 2000 \<le> d \<Longrightarrow> tz t < tz (t + d)"
  by (simp add: timestamps_ok_def) (smt (verit))

lemma season_number_new:
  assumes "season_chain ss"
  shows "int (length ss) + 1 \<notin> sa_Number ` set ss"
proof -
  have "sa_Number ` set ss = set (map (\<lambda>i. int i + 1) [0..<length ss])"
    using assms unfolding season_chain_def by (metis set_map)
  then show ?thesis by auto
qed

text \<open>A season that begins now or where the last one ended, the last one being closed.\<close>

lemma createNextSeason_healthy:
  assumes "timestamps_ok (sd_tz D)" "2000 \<le> sd_seasonDuration D" "uuid \<notin> sa_ID ` set (db_seasons d)"
    and "number \<notin> sa_Number ` set (db_seasons d)" "int4 number" "\<not> list_ex is_active (db_seasons d)"
  shows "\<exists>s t. createNextSeasonTx D uuid number startsAt now (d, []) = (Inr s, (d\<lparr>db_seasons := db_seasons d @ [t]\<rparr>, []))
    \<and> sa_ID s = uuid \<and> sa_Number s = number \<and> sa_StartsAt s = startsAt \<and> sa_EndsAt s = startsAt + sd_seasonDuration D
    \<and> sa_ID t = uuid \<and> sa_Number t = number \<and> is_active t"
proof -
  let ?s = "\<lparr>sa_ID = uuid, sa_Number = number, sa_StartsAt = startsAt, sa_EndsAt = startsAt + sd_seasonDuration D,
    sa_Status = SeasonStatusActive, sa_CreatedAt = now, sa_UpdatedAt = now\<rparr>"
  let ?t = "\<lparr>sa_ID = uuid, sa_Number = number, sa_StartsAt = sd_tz D startsAt,
    sa_EndsAt = sd_tz D (startsAt + sd_seasonDuration D), sa_Status = SeasonStatusActive,
    sa_CreatedAt = sd_tz D now, sa_UpdatedAt = sd_tz D now\<rparr>"
  have "insert_season ?t d = Inr (d\<lparr>db_seasons := db_seasons d @ [?t]\<rparr>)"
    using assms(3-6) tz_less [OF assms(1,2), of startsAt] by (simp add: insert_season_def list_ex_iff)
  then show ?thesis
    by - (rule exI [of _ ?s], rule exI [of _ ?t], simp add: createNextSeasonTx_def Let_def query_simps is_active_def)
qed

lemma ensureActiveSeasonTx_healthy:
  assumes "seasons_ok D d" "timestamps_ok (sd_tz D)" "2000 \<le> sd_seasonDuration D" "uuid \<notin> sa_ID ` set (db_seasons d)"
    and "int4 (int (length (db_seasons d)) + 1)"
  shows "\<exists>s d'. ensureActiveSeasonTx D uuid now (d, []) = (Inr s, (d', [])) \<and> db_seasons d' \<noteq> []
    \<and> sa_ID (last (db_seasons d')) = sa_ID s \<and> sa_Number s = int (length (db_seasons d'))
    \<and> (if db_seasons d = [] then length (db_seasons d') = 1 \<and> sa_StartsAt s = now \<and> sa_EndsAt s = now + sd_seasonDuration D
       else if now < sa_EndsAt (last (db_seasons d)) then d' = d \<and> s = last (db_seasons d)
       else length (db_seasons d') = length (db_seasons d) + 1 \<and> sa_StartsAt s = sa_EndsAt (last (db_seasons d))
         \<and> sa_EndsAt s = sa_EndsAt (last (db_seasons d)) + sd_seasonDuration D)"
proof -
  have chain: "season_chain (db_seasons d)" using assms(1) by (simp add: seasons_ok_def)
  note active = active_season_chain [OF chain] and number = season_number_new [OF chain]
  consider (none) "db_seasons d = []" | (current) "db_seasons d \<noteq> []" "now < sa_EndsAt (last (db_seasons d))"
    | (over) "db_seasons d \<noteq> []" "\<not> now < sa_EndsAt (last (db_seasons d))" by blast
  then show ?thesis
  proof cases
    case none
    with createNextSeason_healthy [OF assms(2-4), of 1 now now] assms(5)
    obtain s t where made: "createNextSeasonTx D uuid 1 now now (d, []) = (Inr s, (d\<lparr>db_seasons := db_seasons d @ [t]\<rparr>, []))"
      "sa_ID s = uuid" "sa_ID t = uuid" "sa_Number s = 1" "sa_StartsAt s = now" "sa_EndsAt s = now + sd_seasonDuration D" by auto
    have "ensureActiveSeasonTx D uuid now (d, []) = (Inr s, (d\<lparr>db_seasons := db_seasons d @ [t]\<rparr>, []))"
      using none active made(1) by (simp add: ensureActiveSeasonTx_def getActiveSeasonForUpdate_def query_simps)
    with none made show ?thesis by auto
  next
    case current
    have "ensureActiveSeasonTx D uuid now (d, []) = (Inr (last (db_seasons d)), (d, []))"
      using current active by (simp add: ensureActiveSeasonTx_def getActiveSeasonForUpdate_def query_simps)
    with current season_chain_last_number [OF chain] show ?thesis by auto
  next
    case over
    let ?cur = "last (db_seasons d)"
    let ?upd = "\<lambda>t. if sa_ID t = sa_ID ?cur then t\<lparr>sa_Status := SeasonStatusClosed, sa_UpdatedAt := sd_tz D now\<rparr> else t"
    let ?d = "d\<lparr>db_seasons := map ?upd (db_seasons d)\<rparr>"
    have "map sa_ID (db_seasons ?d) = map sa_ID (db_seasons d)" "map sa_Number (db_seasons ?d) = map sa_Number (db_seasons d)"
      by simp_all
    from this [THEN arg_cong, of set] have same: "sa_ID ` set (db_seasons ?d) = sa_ID ` set (db_seasons d)"
      "sa_Number ` set (db_seasons ?d) = sa_Number ` set (db_seasons d)" by (simp_all only: set_map)
    have closed: "\<not> list_ex is_active (db_seasons ?d)"
    proof -
      have one: "{t \<in> set (db_seasons d). is_active t} = {?cur}"
        using arg_cong [OF season_chain_active [OF chain], of set] over(1) by simp
      have "sa_ID t = sa_ID ?cur" if "t \<in> set (db_seasons d)" "is_active t" for t
      proof -
        from that have "t \<in> {t \<in> set (db_seasons d). is_active t}" by simp
        then show ?thesis unfolding one by simp
      qed
      then show ?thesis by (auto simp: list_ex_iff is_active_def)
    qed
    from createNextSeason_healthy [OF assms(2,3) _ _ assms(5) closed, of uuid "sa_EndsAt ?cur" now] same assms(4) number
    obtain s t where made: "createNextSeasonTx D uuid (int (length (db_seasons d)) + 1) (sa_EndsAt ?cur) now (?d, [])
        = (Inr s, (?d\<lparr>db_seasons := db_seasons ?d @ [t]\<rparr>, []))" "sa_ID s = uuid" "sa_ID t = uuid"
        "sa_Number s = int (length (db_seasons d)) + 1" "sa_StartsAt s = sa_EndsAt ?cur"
        "sa_EndsAt s = sa_EndsAt ?cur + sd_seasonDuration D" by auto
    have "ensureActiveSeasonTx D uuid now (d, []) = (Inr s, (?d\<lparr>db_seasons := db_seasons ?d @ [t]\<rparr>, []))"
      using over active made(1) season_chain_last_number [OF chain over(1)]
      by (simp add: ensureActiveSeasonTx_def getActiveSeasonForUpdate_def query_simps close_season_def)
    with over made show ?thesis by auto
  qed
qed

text \<open>
  C29: Over a connection that works, asking for the active season always gives one: the last of the
  chain, current or new. But one call moves the chain by one season at most. So the season it gives is
  already over exactly when the last season ended more than the length of a season ago.
\<close>

theorem active_season_advances_once:
  assumes "seasons_ok D d" "timestamps_ok (sd_tz D)" "2000 \<le> sd_seasonDuration D" "sd_pool D"
    and "uuid \<notin> sa_ID ` set (db_seasons d)" "int4 (int (length (db_seasons d)) + 1)"
  shows "\<exists>s d'. EnsureActive D uuid now (d, []) = (Inr s, (d', [])) \<and> seasons_ok D d'
    \<and> sa_ID s = sa_ID (last (db_seasons d')) \<and> sa_Number s = int (length (db_seasons d'))
    \<and> length (db_seasons d') \<le> length (db_seasons d) + 1
    \<and> (sa_EndsAt s \<le> now \<longleftrightarrow> db_seasons d \<noteq> [] \<and> sa_EndsAt (last (db_seasons d)) + sd_seasonDuration D \<le> now)"
proof -
  from ensureActiveSeasonTx_healthy [OF assms(1-3,5,6), of now] obtain s d' where
    s: "ensureActiveSeasonTx D uuid now (d, []) = (Inr s, (d', []))" "sa_ID (last (db_seasons d')) = sa_ID s"
      "sa_Number s = int (length (db_seasons d'))" "(if db_seasons d = [] then length (db_seasons d') = 1
         \<and> sa_StartsAt s = now \<and> sa_EndsAt s = now + sd_seasonDuration D
       else if now < sa_EndsAt (last (db_seasons d)) then d' = d \<and> s = last (db_seasons d)
       else length (db_seasons d') = length (db_seasons d) + 1 \<and> sa_StartsAt s = sa_EndsAt (last (db_seasons d))
         \<and> sa_EndsAt s = sa_EndsAt (last (db_seasons d)) + sd_seasonDuration D)" by blast
  have run: "EnsureActive D uuid now (d, []) = (Inr s, (d', []))"
    using s(1) assms(4) by (simp add: EnsureActive_def begin_tx_def query_simps)
  have "seasons_ok D d'" by (rule keepsD [OF EnsureActive_keeps [OF assms(2)] run assms(1)])
  moreover have "length (db_seasons d') \<le> length (db_seasons d) + 1
    \<and> (sa_EndsAt s \<le> now \<longleftrightarrow> db_seasons d \<noteq> [] \<and> sa_EndsAt (last (db_seasons d)) + sd_seasonDuration D \<le> now)"
    using s(4) assms(3) by (auto split: if_splits)
  ultimately show ?thesis using run s(2,3) by metis
qed

text \<open>A server that nobody visited for the length of a season: the season it hands out has ended.\<close>

definition idle_season :: season where
  "idle_season = \<lparr>sa_ID = ''s1'', sa_Number = 1, sa_StartsAt = 0, sa_EndsAt = 2592000000000000,
     sa_Status = SeasonStatusActive, sa_CreatedAt = 0, sa_UpdatedAt = 0\<rparr>"

lemma active_season_advances_once_witness:
  "\<exists>s d'. EnsureActive (NewSQLRepositories True micros) ''s2'' 5184000000000000
      (empty_database\<lparr>db_seasons := [idle_season]\<rparr>, []) = (Inr s, (d', [])) \<and> sa_Number s = int (length (db_seasons d'))
    \<and> sa_EndsAt s \<le> 5184000000000000"
proof -
  let ?D = "NewSQLRepositories True micros" and ?d = "empty_database\<lparr>db_seasons := [idle_season]\<rparr>"
  have ok: "seasons_ok ?D ?d"
    by (simp add: seasons_ok_def season_chain_def idle_season_def is_active_def NewSQLRepositories_def micros_def)
  show ?thesis
    using active_season_advances_once [OF ok, of "''s2''" 5184000000000000] timestamps_ok_micros
    by (auto simp: NewSQLRepositories_def idle_season_def int4_def)
qed

end
