(* ===== verification/ReplayJson.thy ===== *)
theory ReplayJson
  imports Database GoText "HOL-Library.Monad_Syntax"
begin

text \<open>
  How a recorded match is written into its rows: \<^verbatim>\<open>json.Marshal\<close> and \<^verbatim>\<open>json.Unmarshal\<close> of a
  \<open>match_state\<close> and of the inputs of a turn (\<^verbatim>\<open>internal/combat/types.go\<close> has no field tags, so the
  fields have their Go names), and \<^verbatim>\<open>strconv.FormatUint\<close> and \<^verbatim>\<open>ParseUint\<close> of the seed and the checksums.

  A JSON value is a tree; its text is not modelled. Go writes an invalid byte of a string as U+FFFD
  (\<open>json_text\<close>). The numbers of a tree are whole.
\<close>

section \<open>Decimal texts\<close>

definition FormatUint :: "u64 \<Rightarrow> string" where
  "FormatUint v = itoa (uint v)"

definition ParseUint :: "string \<Rightarrow> u64 option" where
  "ParseUint s = (if s = [] \<or> \<not> list_all is_digit s \<or> digits_value s \<ge> 2 ^ 64 then None
     else Some (word_of_int (digits_value s)))"

lemma of_char_digit: "n < 10 \<Longrightarrow> of_char (char_of (48 + n :: nat)) = 48 + int n"
  using of_nat_of_char [of "char_of (48 + n :: nat)", where 'a = int] by simp

lemma nat_digits_value: "digits_value (nat_digits n) = int n"
proof (induction n rule: nat_digits.induct)
  case (1 n)
  show ?case
  proof (cases "n < 10")
    case True
    then show ?thesis by (subst nat_digits.simps) (simp add: digits_value_def of_char_digit)
  next
    case False
    have "digits_value (nat_digits n) = 10 * digits_value (nat_digits (n div 10)) + int (n mod 10)"
      using False by (subst nat_digits.simps) (simp add: digits_value_def of_char_digit)
    also have "\<dots> = 10 * int (n div 10) + int (n mod 10)" using 1 [OF False] by simp
    also have "\<dots> = int n" using mult_div_mod_eq [of 10 n] by linarith
    finally show ?thesis .
  qed
qed

lemma is_digit_char_of: "n < 10 \<Longrightarrow> is_digit (char_of (48 + n :: nat))"
  by (simp add: is_digit_def less_eq_char_def)

lemma nat_digits_digits: "nat_digits n \<noteq> [] \<and> list_all is_digit (nat_digits n)"
  by (induction n rule: nat_digits.induct) (subst nat_digits.simps, simp add: is_digit_char_of)+

lemma FormatUint_digits: "FormatUint v \<noteq> [] \<and> list_all is_digit (FormatUint v)"
  using nat_digits_digits [of "nat (uint v)"] by (simp add: FormatUint_def itoa_def)

lemma ParseUint_FormatUint [simp]: "ParseUint (FormatUint v) = Some v"
proof -
  have "digits_value (FormatUint v) = uint v"
    using nat_digits_value [of "nat (uint v)"] by (simp add: FormatUint_def itoa_def)
  moreover have "uint v < 2 ^ 64" using uint_lt2p [of v] by simp
  ultimately show ?thesis using FormatUint_digits [of v] by (simp add: ParseUint_def)
qed

section \<open>Values and fields\<close>

text \<open>A rune of a string is valid unless it is a byte alone that is not ASCII.\<close>

definition good_rune :: "string \<Rightarrow> bool" where
  "good_rune r \<longleftrightarrow> 1 < length r \<or> r \<noteq> [] \<and> (of_char (hd r) :: nat) < 128"

definition json_text :: "string \<Rightarrow> string" where
  "json_text s = concat (map (\<lambda>r. if good_rune r then r else map char_of [0xEF, 0xBF, 0xBD :: nat]) (runes s))"

definition text_ok :: "string \<Rightarrow> bool" where
  "text_ok s \<longleftrightarrow> list_all good_rune (runes s)"

lemma json_text_ok [simp]: "text_ok s \<Longrightarrow> json_text s = s"
proof -
  assume "text_ok s"
  then have "map (\<lambda>r. if good_rune r then r else map char_of [0xEF, 0xBF, 0xBD :: nat]) (runes s) = runes s"
    by (intro map_idI) (simp add: text_ok_def list_all_iff)
  then show ?thesis by (simp add: json_text_def concat_runes)
qed

text \<open>
  The value of a struct's field: under its name or, failing that, under a name that differs from it in
  case only. A missing field and \<open>JNull\<close> leave the zero value; \<open>None\<close> is an error.
\<close>

type_synonym 'a decoder = "json \<Rightarrow> 'a option"

definition json_field :: "'a decoder \<Rightarrow> 'a \<Rightarrow> (string \<times> json) list \<Rightarrow> string \<Rightarrow> 'a option" where
  "json_field dec zero fs name = (case map_of fs name of
     Some j \<Rightarrow> dec j
   | None \<Rightarrow> (case find (\<lambda>f. EqualFold (fst f) name) fs of None \<Rightarrow> Some zero | Some f \<Rightarrow> dec (snd f)))"

lemma json_field_exact [simp]: "map_of fs name = Some j \<Longrightarrow> json_field dec zero fs name = dec j"
  by (simp add: json_field_def)

fun json_struct :: "((string \<times> json) list \<Rightarrow> 'a option) \<Rightarrow> 'a \<Rightarrow> 'a decoder" where
  "json_struct dec zero (JObject fs) = dec fs"
| "json_struct dec zero JNull = Some zero"
| "json_struct dec zero _ = None"

fun json_int :: "int decoder" where
  "json_int (JInt i) = (if int64_ok i then Some i else None)"
| "json_int JNull = Some 0"
| "json_int _ = None"

fun json_u64 :: "u64 decoder" where
  "json_u64 (JInt i) = (if 0 \<le> i \<and> i < 2 ^ 64 then Some (word_of_int i) else None)"
| "json_u64 JNull = Some 0"
| "json_u64 _ = None"

fun json_bool :: "bool decoder" where
  "json_bool (JBool b) = Some b"
| "json_bool JNull = Some False"
| "json_bool _ = None"

fun json_string :: "string decoder" where
  "json_string (JString s) = Some s"
| "json_string JNull = Some []"
| "json_string _ = None"

text \<open>The enumerations are \<^verbatim>\<open>uint8\<close>.\<close>

fun json_u8 :: "(int \<Rightarrow> 'a) \<Rightarrow> 'a decoder" where
  "json_u8 of_code (JInt i) = (if 0 \<le> i \<and> i < 256 then Some (of_code i) else None)"
| "json_u8 of_code JNull = Some (of_code 0)"
| "json_u8 of_code _ = None"

definition state_of_code :: "int \<Rightarrow> combat_state" where
  "state_of_code i = (if i = 0 then StateNeutral else if i = 1 then StateClinch else if i = 2 then StateGround
     else if i = 3 then StateDominant else if i = 4 then StateStunned else if i = 5 then StateSubmissionAttempt
     else StateOther (nat (i - 6)))"

definition action_of_code :: "int \<Rightarrow> action" where
  "action_of_code i = (if i = 0 then ActionNone else if i = 1 then ActionStrike else if i = 2 then ActionGrapple
     else if i = 3 then ActionBlock else if i = 4 then ActionDodge else if i = 5 then ActionCounter
     else if i = 6 then ActionFeint else if i = 7 then ActionBreak else ActionOther (nat (i - 8)))"

definition zone_of_code :: "int \<Rightarrow> zone" where
  "zone_of_code i = (if i = 0 then ZoneHead else if i = 1 then ZoneTorso else if i = 2 then ZoneLegs
     else ZoneOther (nat (i - 3)))"

definition archetype_of_code :: "int \<Rightarrow> archetype" where
  "archetype_of_code i = (if i = 0 then ArchetypeBalanced else if i = 1 then ArchetypePowerhouse
     else if i = 2 then ArchetypeTechnician else if i = 3 then ArchetypeHighFlyer else ArchetypeOther (nat (i - 4)))"

lemma of_codes [simp]: "state_of_code (state_code s) = s"
  by (cases s) (simp_all add: state_of_code_def)

lemma of_action_code [simp]: "action_of_code (action_code a) = a"
  by (cases a) (simp_all add: action_of_code_def)

lemma of_zone_code [simp]: "zone_of_code (zone_code z) = z"
  by (cases z) (simp_all add: zone_of_code_def)

lemma of_archetype_code [simp]: "archetype_of_code (archetype_code t) = t"
  by (cases t) (simp_all add: archetype_of_code_def)

lemma codes_nonneg [simp]: "0 \<le> state_code s" "0 \<le> action_code a" "0 \<le> zone_code z" "0 \<le> archetype_code t"
proof -
  show "0 \<le> state_code s" by (cases s) simp_all
  show "0 \<le> action_code a" by (cases a) simp_all
  show "0 \<le> zone_code z" by (cases z) simp_all
  show "0 \<le> archetype_code t" by (cases t) simp_all
qed

section \<open>The state of a match\<close>

definition marshal_stats :: "fighter_stats \<Rightarrow> json" where
  "marshal_stats s = JObject [(''Power'', JInt (Power s)), (''Technique'', JInt (Technique s)),
     (''Agility'', JInt (Agility s)), (''Endurance'', JInt (Endurance s))]"

definition no_stats :: fighter_stats where
  "no_stats = \<lparr>Power = 0, Technique = 0, Agility = 0, Endurance = 0\<rparr>"

definition unmarshal_stats :: "fighter_stats decoder" where
  "unmarshal_stats = json_struct (\<lambda>fs. do {
     p \<leftarrow> json_field json_int 0 fs ''Power''; t \<leftarrow> json_field json_int 0 fs ''Technique'';
     a \<leftarrow> json_field json_int 0 fs ''Agility''; e \<leftarrow> json_field json_int 0 fs ''Endurance'';
     Some \<lparr>Power = p, Technique = t, Agility = a, Endurance = e\<rparr> }) no_stats"

definition marshal_effects :: "status_effects \<Rightarrow> json" where
  "marshal_effects e = JObject [(''StunnedFor'', JInt (StunnedFor e)),
     (''TorsoRegenPenaltyFor'', JInt (TorsoRegenPenaltyFor e)), (''LegsDodgePenaltyFor'', JInt (LegsDodgePenaltyFor e))]"

definition unmarshal_effects :: "status_effects decoder" where
  "unmarshal_effects = json_struct (\<lambda>fs. do {
     s \<leftarrow> json_field json_int 0 fs ''StunnedFor''; t \<leftarrow> json_field json_int 0 fs ''TorsoRegenPenaltyFor'';
     l \<leftarrow> json_field json_int 0 fs ''LegsDodgePenaltyFor'';
     Some \<lparr>StunnedFor = s, TorsoRegenPenaltyFor = t, LegsDodgePenaltyFor = l\<rparr> }) no_effects"

definition marshal_fighter :: "fighter_state \<Rightarrow> json" where
  "marshal_fighter f = JObject [(''PlayerID'', JString (json_text (fs_PlayerID f))),
     (''Archetype'', JInt (archetype_code (fs_Archetype f))), (''Stats'', marshal_stats (fs_Stats f)),
     (''HP'', JInt (fs_HP f)), (''Stamina'', JInt (fs_Stamina f)), (''Momentum'', JInt (fs_Momentum f)),
     (''State'', JInt (state_code (fs_State f))), (''Effects'', marshal_effects (fs_Effects f)),
     (''LastAction'', JInt (action_code (fs_LastAction f))), (''LastActionSuccess'', JBool (fs_LastActionSuccess f)),
     (''LastOffensiveHitTurn'', JInt (fs_LastOffensiveHitTurn f))]"

definition no_fighter :: fighter_state where
  "no_fighter = \<lparr>fs_PlayerID = [], fs_Archetype = ArchetypeBalanced, fs_Stats = no_stats, fs_HP = 0, fs_Stamina = 0,
     fs_Momentum = 0, fs_State = StateNeutral, fs_Effects = no_effects, fs_LastAction = ActionNone,
     fs_LastActionSuccess = False, fs_LastOffensiveHitTurn = 0\<rparr>"

definition unmarshal_fighter :: "fighter_state decoder" where
  "unmarshal_fighter = json_struct (\<lambda>fs. do {
     pid \<leftarrow> json_field json_string [] fs ''PlayerID'';
     arch \<leftarrow> json_field (json_u8 archetype_of_code) ArchetypeBalanced fs ''Archetype'';
     stats \<leftarrow> json_field unmarshal_stats no_stats fs ''Stats'';
     hp \<leftarrow> json_field json_int 0 fs ''HP''; stamina \<leftarrow> json_field json_int 0 fs ''Stamina'';
     momentum \<leftarrow> json_field json_int 0 fs ''Momentum'';
     st \<leftarrow> json_field (json_u8 state_of_code) StateNeutral fs ''State'';
     effects \<leftarrow> json_field unmarshal_effects no_effects fs ''Effects'';
     last_action \<leftarrow> json_field (json_u8 action_of_code) ActionNone fs ''LastAction'';
     success \<leftarrow> json_field json_bool False fs ''LastActionSuccess'';
     hit \<leftarrow> json_field json_int 0 fs ''LastOffensiveHitTurn'';
     Some \<lparr>fs_PlayerID = pid, fs_Archetype = arch, fs_Stats = stats, fs_HP = hp, fs_Stamina = stamina,
       fs_Momentum = momentum, fs_State = st, fs_Effects = effects, fs_LastAction = last_action,
       fs_LastActionSuccess = success, fs_LastOffensiveHitTurn = hit\<rparr> }) no_fighter"

definition marshal_outcome :: "match_outcome \<Rightarrow> json" where
  "marshal_outcome m = JObject [(''Finished'', JBool (mo_Finished m)), (''WinnerID'', JString (json_text (mo_WinnerID m))),
     (''Method'', JString (json_text (mo_Method m)))]"

definition unmarshal_outcome :: "match_outcome decoder" where
  "unmarshal_outcome = json_struct (\<lambda>fs. do {
     f \<leftarrow> json_field json_bool False fs ''Finished''; w \<leftarrow> json_field json_string [] fs ''WinnerID'';
     m \<leftarrow> json_field json_string [] fs ''Method'';
     Some \<lparr>mo_Finished = f, mo_WinnerID = w, mo_Method = m\<rparr> }) no_outcome"

definition marshal_state :: "match_state \<Rightarrow> json" where
  "marshal_state s = JObject [(''Turn'', JInt (ms_Turn s)), (''P1'', marshal_fighter (ms_P1 s)),
     (''P2'', marshal_fighter (ms_P2 s)), (''CombatState'', JInt (state_code (ms_CombatState s))),
     (''Distance'', JInt (ms_Distance s)), (''RNGState'', JInt (uint (ms_RNGState s))),
     (''Outcome'', marshal_outcome (ms_Outcome s))]"

definition no_state :: match_state where
  "no_state = \<lparr>ms_Turn = 0, ms_P1 = no_fighter, ms_P2 = no_fighter, ms_CombatState = StateNeutral, ms_Distance = 0,
     ms_RNGState = 0, ms_Outcome = no_outcome\<rparr>"

definition unmarshal_state :: "match_state decoder" where
  "unmarshal_state = json_struct (\<lambda>fs. do {
     t \<leftarrow> json_field json_int 0 fs ''Turn''; p1 \<leftarrow> json_field unmarshal_fighter no_fighter fs ''P1'';
     p2 \<leftarrow> json_field unmarshal_fighter no_fighter fs ''P2'';
     st \<leftarrow> json_field (json_u8 state_of_code) StateNeutral fs ''CombatState'';
     dist \<leftarrow> json_field json_int 0 fs ''Distance''; rng \<leftarrow> json_field json_u64 0 fs ''RNGState'';
     outcome \<leftarrow> json_field unmarshal_outcome no_outcome fs ''Outcome'';
     Some \<lparr>ms_Turn = t, ms_P1 = p1, ms_P2 = p2, ms_CombatState = st, ms_Distance = dist, ms_RNGState = rng,
       ms_Outcome = outcome\<rparr> }) no_state"

section \<open>The inputs of a turn\<close>

definition marshal_input :: "turn_input \<Rightarrow> json" where
  "marshal_input i = JObject [(''PlayerID'', JString (json_text (ti_PlayerID i))),
     (''Action'', JInt (action_code (ti_Action i))), (''Target'', JInt (zone_code (ti_Target i))),
     (''DecisionMS'', JInt (ti_DecisionMS i))]"

definition no_input :: turn_input where
  "no_input = \<lparr>ti_PlayerID = [], ti_Action = ActionNone, ti_Target = ZoneHead, ti_DecisionMS = 0\<rparr>"

definition unmarshal_input :: "turn_input decoder" where
  "unmarshal_input = json_struct (\<lambda>fs. do {
     pid \<leftarrow> json_field json_string [] fs ''PlayerID'';
     a \<leftarrow> json_field (json_u8 action_of_code) ActionNone fs ''Action'';
     z \<leftarrow> json_field (json_u8 zone_of_code) ZoneHead fs ''Target'';
     ms \<leftarrow> json_field json_int 0 fs ''DecisionMS'';
     Some \<lparr>ti_PlayerID = pid, ti_Action = a, ti_Target = z, ti_DecisionMS = ms\<rparr> }) no_input"

text \<open>A slice; the nil slice is not told from the empty one.\<close>

definition marshal_inputs :: "turn_input list \<Rightarrow> json" where
  "marshal_inputs inputs = JArray (map marshal_input inputs)"

fun unmarshal_list :: "'a decoder \<Rightarrow> json list \<Rightarrow> 'a list option" where
  "unmarshal_list dec [] = Some []"
| "unmarshal_list dec (j # js) = do { x \<leftarrow> dec j; xs \<leftarrow> unmarshal_list dec js; Some (x # xs) }"

fun unmarshal_inputs :: "turn_input list decoder" where
  "unmarshal_inputs (JArray js) = unmarshal_list unmarshal_input js"
| "unmarshal_inputs JNull = Some []"
| "unmarshal_inputs _ = None"

section \<open>Reading back\<close>

text \<open>What the types of the source say of a value: the widths of its numbers; and texts without bad bytes.\<close>

definition fighter_fits :: "fighter_state \<Rightarrow> bool" where
  "fighter_fits f \<longleftrightarrow> text_ok (fs_PlayerID f) \<and> archetype_code (fs_Archetype f) < 256 \<and> state_code (fs_State f) < 256
     \<and> action_code (fs_LastAction f) < 256
     \<and> list_all int64_ok [Power (fs_Stats f), Technique (fs_Stats f), Agility (fs_Stats f), Endurance (fs_Stats f),
         fs_HP f, fs_Stamina f, fs_Momentum f, StunnedFor (fs_Effects f), TorsoRegenPenaltyFor (fs_Effects f),
         LegsDodgePenaltyFor (fs_Effects f), fs_LastOffensiveHitTurn f]"

definition state_fits :: "match_state \<Rightarrow> bool" where
  "state_fits s \<longleftrightarrow> fighter_fits (ms_P1 s) \<and> fighter_fits (ms_P2 s) \<and> int64_ok (ms_Turn s) \<and> int64_ok (ms_Distance s)
     \<and> state_code (ms_CombatState s) < 256 \<and> text_ok (mo_WinnerID (ms_Outcome s)) \<and> text_ok (mo_Method (ms_Outcome s))"

definition input_fits :: "turn_input \<Rightarrow> bool" where
  "input_fits i \<longleftrightarrow> text_ok (ti_PlayerID i) \<and> action_code (ti_Action i) < 256 \<and> zone_code (ti_Target i) < 256
     \<and> int64_ok (ti_DecisionMS i)"

lemma unmarshal_fighter_marshal: "fighter_fits f \<Longrightarrow> unmarshal_fighter (marshal_fighter f) = Some f"
  by (simp add: fighter_fits_def unmarshal_fighter_def marshal_fighter_def unmarshal_stats_def marshal_stats_def
      unmarshal_effects_def marshal_effects_def)

lemma unmarshal_state_marshal: "state_fits s \<Longrightarrow> unmarshal_state (marshal_state s) = Some s"
  using uint_lt2p [of "ms_RNGState s"]
  by (simp add: state_fits_def unmarshal_state_def marshal_state_def unmarshal_fighter_marshal unmarshal_outcome_def
      marshal_outcome_def)

lemma unmarshal_input_marshal: "input_fits i \<Longrightarrow> unmarshal_input (marshal_input i) = Some i"
  by (simp add: input_fits_def unmarshal_input_def marshal_input_def)

lemma unmarshal_inputs_marshal: "list_all input_fits inputs \<Longrightarrow> unmarshal_inputs (marshal_inputs inputs) = Some inputs"
  unfolding marshal_inputs_def unmarshal_inputs.simps by (induction inputs) (simp_all add: unmarshal_input_marshal)

end
