(* ===== verification/Archive.thy ===== *)
theory Archive
  imports Seasons ReplayJson
begin

text \<open>
  The archive of the matches, \<^verbatim>\<open>internal/storage/repositories.go\<close>: \<open>FinalizeMatch\<close> records a finished match,
  its replay, its two results and the new ratings of its players in one transaction; \<open>GetMatchReplay\<close>
  reads the replay back.

  The rating service is a parameter, a function of the old rating and the games (the interface
  \<^verbatim>\<open>ranking.Service\<close>); \<open>seasonID\<close> and \<open>matchID\<close> are the identifiers that \<^verbatim>\<open>uuid.NewString\<close> draws,
  \<open>clock\<close> what \<^verbatim>\<open>nowFn\<close> reads.

  The tables refer to each other (\<open>archive_ok\<close>): a result, a replay and a turn of a replay belong to a
  match that is there.
\<close>

section \<open>Recording a match\<close>

type_synonym 'f rank_service = "'f rating \<Rightarrow> 'f opponent_result list \<Rightarrow> ranking_error + 'f rating"

record 'f match_finalized =
  fz_Match :: match_row
  fz_Season :: season
  fz_Player1Old :: "'f rating"
  fz_Player1New :: "'f rating"
  fz_Player2Old :: "'f rating"
  fz_Player2New :: "'f rating"
  fz_Player1ID :: string
  fz_Player2ID :: string
  fz_Player1Score :: 'f
  fz_Player2Score :: 'f

definition scoresForResult :: "'f math64 \<Rightarrow> finalize_match_params \<Rightarrow> store_error + 'f \<times> 'f" where
  "scoresForResult M params = (case fm_ResultType params of
     MatchResultDraw \<Rightarrow> (case fm_WinnerID params of
         Some _ \<Rightarrow> Inl (ErrInvalidField ''draw result cannot have winner'') | None \<Rightarrow> Inr (ScoreDraw M, ScoreDraw M))
   | _ \<Rightarrow> (case fm_WinnerID params of
         None \<Rightarrow> Inl (ErrRequiredField ''winner'')
       | Some w \<Rightarrow> if w = fm_Player1ID params then Inr (ScoreWin M, ScoreLoss M)
           else if w = fm_Player2ID params then Inr (ScoreLoss M, ScoreWin M)
           else Inl (ErrInvalidField ''winner'')))"

definition known_player :: "('f, 'z) database_scheme \<Rightarrow> string \<Rightarrow> bool" where
  "known_player d pid \<longleftrightarrow> pid \<in> pl_ID ` set (db_players d)"

definition insert_match :: "match_row \<Rightarrow> ('f, 'z) database_scheme \<Rightarrow> store_error + ('f, 'z) database_scheme" where
  "insert_match m d =
     (if mt_ID m \<in> mt_ID ` set (db_matches d) then Inl (ErrUniqueViolation ''matches_pkey'')
      else if mt_SeasonID m \<notin> sa_ID ` set (db_seasons d) then Inl (ErrForeignKey ''season_id'')
      else if \<not> known_player d (mt_Player1ID m) then Inl (ErrForeignKey ''player1_id'')
      else if \<not> known_player d (mt_Player2ID m) then Inl (ErrForeignKey ''player2_id'')
      else if (case mt_WinnerID m of None \<Rightarrow> False | Some w \<Rightarrow> \<not> known_player d w) then Inl (ErrForeignKey ''winner_id'')
      else if \<not> int4 (mt_DurationMS m) \<or> mt_DurationMS m < 0 then Inl (ErrCheckFailed ''duration_ms'')
      else if mt_Player1ID m = mt_Player2ID m then Inl (ErrCheckFailed ''player1_id'')
      else if mt_EndedAt m < mt_StartedAt m then Inl (ErrCheckFailed ''ended_at'')
      else Inr (d\<lparr>db_matches := db_matches d @ [m]\<rparr>))"

definition stored_match :: "store_deps \<Rightarrow> match_row \<Rightarrow> match_row" where
  "stored_match D m = m\<lparr>mt_StartedAt := sd_tz D (mt_StartedAt m), mt_EndedAt := sd_tz D (mt_EndedAt m),
     mt_CreatedAt := sd_tz D (mt_CreatedAt m)\<rparr>"

definition insertMatchTx :: "store_deps \<Rightarrow> match_row \<Rightarrow> (('f, 'z) database_scheme, unit) query" where
  "insertMatchTx D m = exec (insert_match (stored_match D m))"

definition CreateMatch :: "store_deps \<Rightarrow> time \<Rightarrow> string \<Rightarrow> match_row \<Rightarrow> (('f, 'z) database_scheme, match_row) query" where
  "CreateMatch D clock matchID m = with_pool D
     (let m = (if mt_ID m = [] then m\<lparr>mt_ID := matchID\<rparr> else m);
          m = (if IsZero (mt_CreatedAt m) then m\<lparr>mt_CreatedAt := clock\<rparr> else m)
      in if IsZero (mt_StartedAt m) \<or> IsZero (mt_EndedAt m) then fail (ErrRequiredField ''started_at and ended_at'')
         else if mt_DurationMS m < 0 then fail (ErrInvalidField ''duration'')
         else and_then (insertMatchTx D m) (\<lambda>_. give m))"

definition all_digits :: "string \<Rightarrow> bool" where
  "all_digits s \<longleftrightarrow> s \<noteq> [] \<and> list_all is_digit s"

definition insert_replay :: "replay_row \<Rightarrow> ('f, 'z) database_scheme \<Rightarrow> store_error + ('f, 'z) database_scheme" where
  "insert_replay r d =
     (if rp_MatchID r \<in> rp_MatchID ` set (db_replays d) then Inl (ErrUniqueViolation ''match_replays_pkey'')
      else if rp_MatchID r \<notin> mt_ID ` set (db_matches d) then Inl (ErrForeignKey ''match_id'')
      else if \<not> all_digits (rp_SeedText r) then Inl (ErrCheckFailed ''seed_text'')
      else if \<not> int4 (rp_TurnCount r) \<or> rp_TurnCount r < 0 then Inl (ErrCheckFailed ''turn_count'')
      else Inr (d\<lparr>db_replays := db_replays d @ [r]\<rparr>))"

definition replay_turn_key :: "replay_turn_row \<Rightarrow> string \<times> int" where
  "replay_turn_key t = (ro_MatchID t, ro_Turn t)"

definition insert_replay_turn :: "replay_turn_row \<Rightarrow> ('f, 'z) database_scheme \<Rightarrow> store_error + ('f, 'z) database_scheme" where
  "insert_replay_turn t d =
     (if replay_turn_key t \<in> replay_turn_key ` set (db_replay_turns d) then Inl (ErrUniqueViolation ''match_replay_turns_pkey'')
      else if ro_MatchID t \<notin> rp_MatchID ` set (db_replays d) then Inl (ErrForeignKey ''match_id'')
      else if \<not> int4 (ro_Turn t) \<or> ro_Turn t \<le> 0 then Inl (ErrCheckFailed ''turn'')
      else if \<not> int64_ok (ro_RelativeMS t) \<or> ro_RelativeMS t < 0 then Inl (ErrCheckFailed ''relative_ms'')
      else if \<not> all_digits (ro_StateHashText t) then Inl (ErrCheckFailed ''state_hash_text'')
      else if \<not> all_digits (ro_RollHashText t) then Inl (ErrCheckFailed ''roll_hash_text'')
      else Inr (d\<lparr>db_replay_turns := db_replay_turns d @ [t]\<rparr>))"

definition replay_row_of :: "store_deps \<Rightarrow> string \<Rightarrow> match_replay_write \<Rightarrow> time \<Rightarrow> replay_row" where
  "replay_row_of D matchID replay createdAt = \<lparr>rp_MatchID = matchID, rp_SeedText = FormatUint (rw_Seed replay),
     rp_InitialState = marshal_state (rw_InitialState replay), rp_TurnCount = int (length (rw_Turns replay)),
     rp_CreatedAt = sd_tz D createdAt\<rparr>"

definition turn_row_of :: "store_deps \<Rightarrow> string \<Rightarrow> time \<Rightarrow> replay_turn_write \<Rightarrow> replay_turn_row" where
  "turn_row_of D matchID createdAt t = \<lparr>ro_MatchID = matchID, ro_Turn = rt_Turn t, ro_RelativeMS = rt_RelativeMS t,
     ro_Inputs = marshal_inputs (rt_Inputs t), ro_StateHashText = FormatUint (StateHash (rt_Checksums t)),
     ro_RollHashText = FormatUint (RollHash (rt_Checksums t)), ro_CreatedAt = sd_tz D createdAt\<rparr>"

definition insertMatchReplayTx :: "store_deps \<Rightarrow> string \<Rightarrow> match_replay_write \<Rightarrow> time \<Rightarrow> (('f, 'z) database_scheme, unit) query" where
  "insertMatchReplayTx D matchID replay createdAt = and_then (exec (insert_replay (replay_row_of D matchID replay createdAt)))
     (\<lambda>_. do_all (map (\<lambda>t. exec (insert_replay_turn (turn_row_of D matchID createdAt t))) (rw_Turns replay)))"

definition result_key :: "'f result_row \<Rightarrow> string \<times> string" where
  "result_key r = (rr_MatchID r, rr_PlayerID r)"

definition insert_result :: "'f math64 \<Rightarrow> 'f result_row \<Rightarrow> ('f, 'z) database_scheme \<Rightarrow> store_error + ('f, 'z) database_scheme" where
  "insert_result M r d =
     (if result_key r \<in> result_key ` set (db_results d) then Inl (ErrUniqueViolation ''match_results_pkey'')
      else if rr_MatchID r \<notin> mt_ID ` set (db_matches d) then Inl (ErrForeignKey ''match_id'')
      else if \<not> known_player d (rr_PlayerID r) then Inl (ErrForeignKey ''player_id'')
      else if \<not> known_player d (rr_OpponentID r) then Inl (ErrForeignKey ''opponent_id'')
      else if \<not> IsValid M (rr_Score r) then Inl (ErrCheckFailed ''score'')
      else if rr_PlayerID r = rr_OpponentID r then Inl (ErrCheckFailed ''player_id'')
      else Inr (d\<lparr>db_results := db_results d @ [r]\<rparr>))"

definition result_row_of :: "store_deps \<Rightarrow> string \<Rightarrow> string \<Rightarrow> string \<Rightarrow> 'f \<Rightarrow> 'f rating \<Rightarrow> 'f rating \<Rightarrow> time \<Rightarrow> 'f result_row" where
  "result_row_of D matchID playerID opponentID score earlier later createdAt = \<lparr>rr_MatchID = matchID, rr_PlayerID = playerID,
     rr_OpponentID = opponentID, rr_Score = score, rr_RatingBefore = ra_R earlier, rr_RDBefore = ra_RD earlier,
     rr_SigmaBefore = ra_Sigma earlier, rr_RatingAfter = ra_R later, rr_RDAfter = ra_RD later,
     rr_SigmaAfter = ra_Sigma later, rr_CreatedAt = sd_tz D createdAt\<rparr>"

definition insertMatchResultTx :: "'f math64 \<Rightarrow> 'f result_row \<Rightarrow> (('f, 'z) database_scheme, unit) query" where
  "insertMatchResultTx M r = exec (insert_result M r)"

text \<open>Both new ratings are computed from the old ones.\<close>

definition rate_players :: "'f rank_service \<Rightarrow> 'f rating \<Rightarrow> 'f rating \<Rightarrow> 'f \<times> 'f \<Rightarrow> ranking_error + 'f rating \<times> 'f rating" where
  "rate_players rank old1 old2 scores = (case rank old1 [\<lparr>op_Opponent = old2, op_Score = fst scores\<rparr>] of
     Inl err \<Rightarrow> Inl err
   | Inr new1 \<Rightarrow> (case rank old2 [\<lparr>op_Opponent = old1, op_Score = snd scores\<rparr>] of
       Inl err \<Rightarrow> Inl err | Inr new2 \<Rightarrow> Inr (new1, new2)))"

definition rated_entry :: "'f rating_entry \<Rightarrow> 'f rating \<Rightarrow> time \<Rightarrow> time \<Rightarrow> 'f rating_entry" where
  "rated_entry e new endedAt createdAt = e\<lparr>rg_Rating := ra_R new, rg_RD := ra_RD new, rg_Sigma := ra_Sigma new,
     rg_LastMatchAt := Some endedAt, rg_UpdatedAt := createdAt\<rparr>"

definition match_of :: "finalize_match_params \<Rightarrow> string \<Rightarrow> time \<Rightarrow> match_row" where
  "match_of params seasonID createdAt = \<lparr>mt_ID = fm_MatchID params, mt_SeasonID = seasonID,
     mt_Player1ID = fm_Player1ID params, mt_Player2ID = fm_Player2ID params, mt_WinnerID = fm_WinnerID params,
     mt_ResultType = fm_ResultType params, mt_StartedAt = fm_StartedAt params, mt_EndedAt = fm_EndedAt params,
     mt_DurationMS = Milliseconds (time_sub (fm_EndedAt params) (fm_StartedAt params)), mt_CreatedAt = createdAt\<rparr>"

definition record_match :: "'f math64 \<Rightarrow> store_deps \<Rightarrow> time \<Rightarrow> finalize_match_params \<Rightarrow> season \<Rightarrow> 'f \<times> 'f
    \<Rightarrow> 'f rating_entry \<times> 'f rating_entry \<Rightarrow> 'f rating \<times> 'f rating \<Rightarrow> (('f, 'z) database_scheme, 'f match_finalized) query" where
  "record_match M D createdAt params season scores entries news =
     (let m = match_of params (sa_ID season) createdAt; p1 = fm_Player1ID params; p2 = fm_Player2ID params;
          old1 = rating_of (fst entries); old2 = rating_of (snd entries)
      in and_then (insertMatchTx D m) (\<lambda>_.
         and_then (case fm_Replay params of None \<Rightarrow> give () | Some replay \<Rightarrow> insertMatchReplayTx D (mt_ID m) replay createdAt) (\<lambda>_.
         and_then (insertMatchResultTx M (result_row_of D (mt_ID m) p1 p2 (fst scores) old1 (fst news) createdAt)) (\<lambda>_.
         and_then (insertMatchResultTx M (result_row_of D (mt_ID m) p2 p1 (snd scores) old2 (snd news) createdAt)) (\<lambda>_.
         and_then (upsertRatingTx D (rated_entry (fst entries) (fst news) (fm_EndedAt params) createdAt)) (\<lambda>_.
         and_then (upsertRatingTx D (rated_entry (snd entries) (snd news) (fm_EndedAt params) createdAt)) (\<lambda>_.
         give \<lparr>fz_Match = m, fz_Season = season, fz_Player1Old = old1, fz_Player1New = fst news, fz_Player2Old = old2,
           fz_Player2New = snd news, fz_Player1ID = p1, fz_Player2ID = p2, fz_Player1Score = fst scores,
           fz_Player2Score = snd scores\<rparr>)))))))"

definition finalize_tx :: "'f math64 \<Rightarrow> store_deps \<Rightarrow> 'f rank_service \<Rightarrow> string \<Rightarrow> time \<Rightarrow> finalize_match_params \<Rightarrow> 'f \<times> 'f
    \<Rightarrow> (('f, 'z) database_scheme, 'f match_finalized) query" where
  "finalize_tx M D rank seasonID createdAt params scores =
     and_then (ensureActiveSeasonTx D seasonID (fm_EndedAt params)) (\<lambda>season.
     and_then (getOrCreateRatingTx M D (fm_Player1ID params) season (fm_EndedAt params)) (\<lambda>entry1.
     and_then (getOrCreateRatingTx M D (fm_Player2ID params) season (fm_EndedAt params)) (\<lambda>entry2.
       case rate_players rank (rating_of entry1) (rating_of entry2) scores of
         Inl err \<Rightarrow> fail ErrRankingFailed
       | Inr news \<Rightarrow> record_match M D createdAt params season scores (entry1, entry2) news)))"

definition FinalizeMatch :: "'f math64 \<Rightarrow> store_deps \<Rightarrow> 'f rank_service \<Rightarrow> string \<Rightarrow> string \<Rightarrow> time \<Rightarrow> finalize_match_params
    \<Rightarrow> (('f, 'z) database_scheme, 'f match_finalized) query" where
  "FinalizeMatch M D rank seasonID matchID clock params = with_pool D
     (if fm_Player1ID params = [] \<or> fm_Player2ID params = [] then fail (ErrRequiredField ''both players'')
      else if fm_Player1ID params = fm_Player2ID params then fail (ErrInvalidField ''player ids must be different'')
      else if IsZero (fm_StartedAt params) \<or> IsZero (fm_EndedAt params) then fail (ErrRequiredField ''started_at and ended_at'')
      else if fm_EndedAt params < fm_StartedAt params then fail (ErrInvalidField ''ended_at'')
      else let params = (if fm_MatchID params = [] then params\<lparr>fm_MatchID := matchID\<rparr> else params)
        in case scoresForResult M params of
             Inl err \<Rightarrow> fail err
           | Inr scores \<Rightarrow> transaction (finalize_tx M D rank seasonID clock params scores))"

section \<open>Reading a replay\<close>

record match_replay_turn =
  me_Turn :: int
  me_RelativeMS :: int
  me_Inputs :: "turn_input list"
  me_Checksums :: turn_checksum
  me_CreatedAt :: time

record match_replay =
  ml_MatchID :: string
  ml_Seed :: u64
  ml_InitialState :: match_state
  ml_Turns :: "match_replay_turn list"
  ml_CreatedAt :: time

definition read_turn :: "replay_turn_row \<Rightarrow> match_replay_turn option" where
  "read_turn row = do {
     inputs \<leftarrow> unmarshal_inputs (ro_Inputs row);
     stateHash \<leftarrow> ParseUint (ro_StateHashText row);
     rollHash \<leftarrow> ParseUint (ro_RollHashText row);
     Some \<lparr>me_Turn = ro_Turn row, me_RelativeMS = ro_RelativeMS row, me_Inputs = inputs,
       me_Checksums = \<lparr>StateHash = stateHash, RollHash = rollHash\<rparr>, me_CreatedAt = ro_CreatedAt row\<rparr> }"

fun read_turns :: "replay_turn_row list \<Rightarrow> match_replay_turn list option" where
  "read_turns [] = Some []"
| "read_turns (row # rows) = do { turn \<leftarrow> read_turn row; turns \<leftarrow> read_turns rows; Some (turn # turns) }"

definition GetMatchReplay :: "store_deps \<Rightarrow> string \<Rightarrow> (('f, 'z) database_scheme, match_replay) query" where
  "GetMatchReplay D matchID = with_pool D
     (if matchID = [] then fail (ErrRequiredField ''match id'')
      else and_then (select_row (\<lambda>d. case find (\<lambda>r. rp_MatchID r = matchID) (db_replays d) of
            None \<Rightarrow> Inl ErrNoRows | Some r \<Rightarrow> Inr r))
        (\<lambda>row. case (ParseUint (rp_SeedText row), unmarshal_state (rp_InitialState row)) of
            (None, _) \<Rightarrow> fail (ErrDecode ''seed'')
          | (_, None) \<Rightarrow> fail (ErrDecode ''initial state'')
          | (Some seed, Some initialState) \<Rightarrow>
              and_then (select_row (\<lambda>d. Inr (sort_key ro_Turn (filter (\<lambda>t. ro_MatchID t = matchID) (db_replay_turns d)))))
                (\<lambda>rows. case read_turns rows of
                    None \<Rightarrow> fail (ErrDecode ''turn'')
                  | Some turns \<Rightarrow> give \<lparr>ml_MatchID = matchID, ml_Seed = seed, ml_InitialState = initialState,
                      ml_Turns = turns, ml_CreatedAt = rp_CreatedAt row\<rparr>)))"

section \<open>The references between the tables\<close>

definition archive_ok :: "('f, 'z) database_scheme \<Rightarrow> bool" where
  "archive_ok d \<longleftrightarrow> distinct (map mt_ID (db_matches d)) \<and> distinct (map result_key (db_results d))
     \<and> distinct (map rp_MatchID (db_replays d)) \<and> distinct (map replay_turn_key (db_replay_turns d))
     \<and> rr_MatchID ` set (db_results d) \<subseteq> mt_ID ` set (db_matches d)
     \<and> rp_MatchID ` set (db_replays d) \<subseteq> mt_ID ` set (db_matches d)
     \<and> ro_MatchID ` set (db_replay_turns d) \<subseteq> rp_MatchID ` set (db_replays d)"

text \<open>The tables that the seasons and the ratings do not touch.\<close>

definition archive :: "('f, 'z) database_scheme \<Rightarrow> _" where
  "archive d = (db_players d, db_matches d, db_results d, db_replays d, db_replay_turns d)"

lemma archive_ok_cong: "archive d = archive d' \<Longrightarrow> archive_ok d \<longleftrightarrow> archive_ok d'"
  by (simp add: archive_def archive_ok_def)

lemma ensureActiveSeasonTx_archive: "keeps (\<lambda>d. archive d = a) (ensureActiveSeasonTx D uuid now)"
  unfolding ensureActiveSeasonTx_def getActiveSeasonForUpdate_def createNextSeasonTx_def Let_def
  by (intro keeps_attempt keeps_and_then keeps_if keeps_select keeps_give keeps_fail keeps_exec)
    (auto simp: archive_def close_season_def insert_season_def split: if_splits)

lemma upsert_rating_archive: "upsert_rating e d = Inr d' \<Longrightarrow> archive d' = archive d"
  by (auto simp: archive_def upsert_rating_def split: if_splits)

lemma upsertRatingTx_archive: "keeps (\<lambda>d. archive d = a) (upsertRatingTx D e)"
  unfolding upsertRatingTx_def
  by (rule keeps_exec) (simp add: upsert_rating_archive)

lemma getOrCreateRatingTx_archive: "keeps (\<lambda>d. archive d = a) (getOrCreateRatingTx M D pid season now)"
  unfolding getOrCreateRatingTx_def fresh_entry_def getRatingBySeasonTx_def getLatestRatingBeforeSeasonTx_def Let_def
  by (intro keeps_attempt keeps_and_then keeps_if keeps_select keeps_give keeps_fail upsertRatingTx_archive)

lemma keeps_archive_ok: "(\<And>a. keeps (\<lambda>d. archive d = a) m) \<Longrightarrow> keeps archive_ok m"
  unfolding keeps_def by (metis archive_ok_cong)

lemma exec_archive_ok:
  "keeps archive_ok (exec (insert_match m))" "keeps archive_ok (exec (insert_replay r))"
  "keeps archive_ok (exec (insert_replay_turn t))" "keeps archive_ok (exec (insert_result M q))"
  by (rule keeps_exec; force simp: archive_ok_def insert_match_def insert_replay_def insert_replay_turn_def insert_result_def
      split: if_splits)+

lemma record_match_archive_ok: "keeps archive_ok (record_match M D createdAt params season scores entries news)"
  unfolding record_match_def insertMatchTx_def insertMatchReplayTx_def insertMatchResultTx_def Let_def
  by (intro keeps_and_then keeps_give exec_archive_ok keeps_archive_ok [OF upsertRatingTx_archive])
    (auto split: option.split intro!: keeps_and_then keeps_give exec_archive_ok keeps_do_all)

lemma finalize_tx_archive_ok: "keeps archive_ok (finalize_tx M D rank sid createdAt params scores)"
  unfolding finalize_tx_def
  by (intro keeps_and_then keeps_archive_ok [OF ensureActiveSeasonTx_archive] keeps_archive_ok [OF getOrCreateRatingTx_archive])
    (auto split: sum.split intro: keeps_fail record_match_archive_ok)

lemma FinalizeMatch_archive_ok: "keeps archive_ok (FinalizeMatch M D rank sid mid clock params)"
  unfolding FinalizeMatch_def Let_def
  by (intro keeps_with_pool keeps_if keeps_fail)
    (auto split: sum.split intro!: keeps_fail keeps_transaction finalize_tx_archive_ok)

lemma CreateMatch_archive_ok: "keeps archive_ok (CreateMatch D clock mid m)"
  unfolding CreateMatch_def insertMatchTx_def Let_def
  by (intro keeps_with_pool keeps_if keeps_fail keeps_and_then keeps_give exec_archive_ok)

section \<open>What a finished transaction has written\<close>

lemma insert_match_Inr: "insert_match m d = Inr d' \<Longrightarrow>
    d' = d\<lparr>db_matches := db_matches d @ [m]\<rparr> \<and> mt_ID m \<notin> mt_ID ` set (db_matches d)"
  by (auto simp: insert_match_def split: if_splits)

lemma insert_replay_Inr: "insert_replay r d = Inr d' \<Longrightarrow> d' = d\<lparr>db_replays := db_replays d @ [r]\<rparr>"
  by (auto simp: insert_replay_def split: if_splits)

lemma insert_result_Inr: "insert_result M r d = Inr d' \<Longrightarrow> d' = d\<lparr>db_results := db_results d @ [r]\<rparr>"
  by (auto simp: insert_result_def split: if_splits)

lemma insert_turns_Inr:
  "do_all (map (\<lambda>t. exec (insert_replay_turn (g t))) ts) w = (Inr u, w') \<Longrightarrow>
     fst w' = (fst w)\<lparr>db_replay_turns := db_replay_turns (fst w) @ map g ts\<rparr>"
proof (induction ts arbitrary: w)
  case (Cons t ts)
  from and_then_Inr [OF Cons.prems [simplified]] obtain w1 where one: "exec (insert_replay_turn (g t)) w = (Inr (), w1)"
    and rest: "do_all (map (\<lambda>t. exec (insert_replay_turn (g t))) ts) w1 = (Inr u, w')" by auto
  have "fst w1 = (fst w)\<lparr>db_replay_turns := db_replay_turns (fst w) @ [g t]\<rparr>"
    using exec_Inr [OF one] by (auto simp: insert_replay_turn_def split: if_splits)
  with Cons.IH [OF rest] show ?case by simp
qed (simp add: give_def)

lemma insertMatchReplayTx_Inr:
  assumes "insertMatchReplayTx D mid replay createdAt w = (Inr u, w')"
  shows "fst w' = (fst w)\<lparr>db_replays := db_replays (fst w) @ [replay_row_of D mid replay createdAt],
    db_replay_turns := db_replay_turns (fst w) @ map (turn_row_of D mid createdAt) (rw_Turns replay)\<rparr>"
proof -
  from and_then_Inr [OF assms [unfolded insertMatchReplayTx_def]] obtain w1 where
    one: "exec (insert_replay (replay_row_of D mid replay createdAt)) w = (Inr (), w1)"
    and rest: "do_all (map (\<lambda>t. exec (insert_replay_turn (turn_row_of D mid createdAt t))) (rw_Turns replay)) w1 = (Inr u, w')"
    by auto
  from insert_replay_Inr [OF exec_Inr [OF one]] insert_turns_Inr [OF rest] show ?thesis by simp
qed

text \<open>The stored rating of a player in a season.\<close>

definition rating_row :: "('f, 'z) database_scheme \<Rightarrow> string \<times> string \<Rightarrow> 'f rating_entry option" where
  "rating_row d k = find (\<lambda>q. rating_key q = k) (db_ratings d)"

lemma find_upsert:
  "find (\<lambda>q. key q = k) (map (\<lambda>q. if key q = key e then e else q) qs)
    = (if k = key e \<and> key e \<in> key ` set qs then Some e else find (\<lambda>q. key q = k) qs)"
  by (induction qs) auto

lemma find_key_append: "key e \<notin> key ` set qs \<Longrightarrow>
    find (\<lambda>q. key q = k) (qs @ [e]) = (if k = key e then Some e else find (\<lambda>q. key q = k) qs)"
  by (induction qs) auto

lemma upsert_rating_row:
  assumes "upsert_rating e d = Inr d'"
  shows "rating_row d' k = (if k = rating_key e then Some e else rating_row d k)"
  using assms find_upsert [of rating_key k e "db_ratings d"] find_key_append [of rating_key e "db_ratings d" k]
  by (auto simp: upsert_rating_def rating_row_def split: if_splits)

lemma upsertRatingTx_Inr:
  assumes "upsertRatingTx D e w = (Inr u, w')"
  shows "archive (fst w') = archive (fst w)"
    "rating_row (fst w') k = (if k = rating_key e then Some (stored_rating D e) else rating_row (fst w) k)"
proof -
  note one = exec_Inr [OF assms [unfolded upsertRatingTx_def]]
  from one show "archive (fst w') = archive (fst w)" by (rule upsert_rating_archive)
  from upsert_rating_row [OF one, of k] show
    "rating_row (fst w') k = (if k = rating_key e then Some (stored_rating D e) else rating_row (fst w) k)"
    by (simp add: stored_rating_def rating_key_def)
qed

lemma getOrCreateRatingTx_key:
  assumes "getOrCreateRatingTx M D pid season now w = (Inr e, w')"
  shows "rating_key e = (pid, sa_ID season)"
proof -
  have fresh: "rating_key e = (pid, sa_ID season)" if "fresh_entry D pid season now base w1 = (Inr e, w')" for base w1
    using that by (auto simp: fresh_entry_def Let_def give_def rating_key_def dest!: and_then_Inr)
  from attempt_Inr [OF assms [unfolded getOrCreateRatingTx_def]] show ?thesis
  proof (elim disjE exE conjE)
    fix e1 w1
    assume "getRatingBySeasonTx pid (sa_ID season) w = (Inr e1, w1)" "give e1 w1 = (Inr e, w')"
    then show ?thesis
      by (auto simp: getRatingBySeasonTx_def give_def rating_key_def dest!: select_row_Inr find_SomeD split: option.splits)
  next
    fix err w1
    assume "(if err \<noteq> ErrNoRows then fail err
        else attempt (getLatestRatingBeforeSeasonTx pid (sa_Number season))
          (\<lambda>prev. fresh_entry D pid season now (ApplySeasonSoftReset M (rating_of prev)))
          (\<lambda>err. if err \<noteq> ErrNoRows then fail err
             else fresh_entry D pid season now (gc_DefaultRating (DefaultConfig M)))) w1 = (Inr e, w')"
    then have "attempt (getLatestRatingBeforeSeasonTx pid (sa_Number season))
          (\<lambda>prev. fresh_entry D pid season now (ApplySeasonSoftReset M (rating_of prev)))
          (\<lambda>err. if err \<noteq> ErrNoRows then fail err
             else fresh_entry D pid season now (gc_DefaultRating (DefaultConfig M))) w1 = (Inr e, w')"
      by (simp add: fail_def split: if_splits)
    from attempt_Inr [OF this] show ?thesis
      by (elim disjE exE conjE) (auto simp: fail_def dest: fresh split: if_splits)
  qed
qed

lemma rating_of_rated: "rating_of (stored_rating D (rated_entry e new endedAt createdAt)) = new"
  by (cases new) (simp add: rating_of_def stored_rating_def rated_entry_def)

lemma record_match_Inr:
  fixes w :: "('f, 'z) database_scheme \<times> reply list"
  assumes "record_match M D createdAt params season scores entries news w = (Inr fz, w')"
    and "rating_key (fst entries) = (fm_Player1ID params, sa_ID season)"
    and "rating_key (snd entries) = (fm_Player2ID params, sa_ID season)" "fm_Player1ID params \<noteq> fm_Player2ID params"
  defines "m \<equiv> match_of params (sa_ID season) createdAt" and "d \<equiv> fst w" and "d' \<equiv> fst w'"
  shows "db_players d' = db_players d" "db_matches d' = db_matches d @ [stored_match D m]"
    "fm_MatchID params \<notin> mt_ID ` set (db_matches d)"
    "db_results d' = db_results d @
       [result_row_of D (fm_MatchID params) (fm_Player1ID params) (fm_Player2ID params) (fst scores)
          (rating_of (fst entries)) (fst news) createdAt,
        result_row_of D (fm_MatchID params) (fm_Player2ID params) (fm_Player1ID params) (snd scores)
          (rating_of (snd entries)) (snd news) createdAt]"
    "db_replays d' = db_replays d @ (case fm_Replay params of None \<Rightarrow> []
       | Some replay \<Rightarrow> [replay_row_of D (fm_MatchID params) replay createdAt])"
    "db_replay_turns d' = db_replay_turns d @ (case fm_Replay params of None \<Rightarrow> []
       | Some replay \<Rightarrow> map (turn_row_of D (fm_MatchID params) createdAt) (rw_Turns replay))"
    "map_option rating_of (rating_row d' (fm_Player1ID params, sa_ID season)) = Some (fst news)"
    "map_option rating_of (rating_row d' (fm_Player2ID params, sa_ID season)) = Some (snd news)"
    "fz_Match fz = m" "fz_Season fz = season" "fz_Player1New fz = fst news" "fz_Player2New fz = snd news"
proof -
  let ?id = "fm_MatchID params" and ?p1 = "fm_Player1ID params" and ?p2 = "fm_Player2ID params"
  let ?r1 = "result_row_of D ?id ?p1 ?p2 (fst scores) (rating_of (fst entries)) (fst news) createdAt"
  let ?r2 = "result_row_of D ?id ?p2 ?p1 (snd scores) (rating_of (snd entries)) (snd news) createdAt"
  have id: "mt_ID m = ?id" by (simp add: m_def match_of_def)
  from assms(1) obtain w1 w2 w3 w4 w5 where one: "insertMatchTx D m w = (Inr (), w1)"
    and two: "(case fm_Replay params of None \<Rightarrow> give ()
        | Some replay \<Rightarrow> insertMatchReplayTx D ?id replay createdAt) w1 = (Inr (), w2)"
    and three: "insertMatchResultTx M ?r1 w2 = (Inr (), w3)" and four: "insertMatchResultTx M ?r2 w3 = (Inr (), w4)"
    and five: "upsertRatingTx D (rated_entry (fst entries) (fst news) (fm_EndedAt params) createdAt) w4 = (Inr (), w5)"
    and six: "upsertRatingTx D (rated_entry (snd entries) (snd news) (fm_EndedAt params) createdAt) w5 = (Inr (), w')"
    and fz: "fz_Match fz = m" "fz_Season fz = season" "fz_Player1New fz = fst news" "fz_Player2New fz = snd news"
    unfolding record_match_def Let_def m_def [symmetric] id by (auto simp: give_def dest!: and_then_Inr)
  from insert_match_Inr [OF exec_Inr [OF one [unfolded insertMatchTx_def]]] have d1:
    "fst w1 = d\<lparr>db_matches := db_matches d @ [stored_match D m]\<rparr>" "fm_MatchID params \<notin> mt_ID ` set (db_matches d)"
    by (simp_all add: d_def stored_match_def id)
  have d2: "db_players (fst w2) = db_players d \<and> db_matches (fst w2) = db_matches d @ [stored_match D m]
    \<and> db_results (fst w2) = db_results d
    \<and> db_replays (fst w2) = db_replays d @ (case fm_Replay params of None \<Rightarrow> []
        | Some replay \<Rightarrow> [replay_row_of D (fm_MatchID params) replay createdAt])
    \<and> db_replay_turns (fst w2) = db_replay_turns d @ (case fm_Replay params of None \<Rightarrow> []
        | Some replay \<Rightarrow> map (turn_row_of D (fm_MatchID params) createdAt) (rw_Turns replay))"
    using two d1(1) by (cases "fm_Replay params") (auto simp: give_def dest!: insertMatchReplayTx_Inr)
  note d4 = insert_result_Inr [OF exec_Inr [OF three [unfolded insertMatchResultTx_def]]]
    insert_result_Inr [OF exec_Inr [OF four [unfolded insertMatchResultTx_def]]]
  note d6 = upsertRatingTx_Inr [OF five] upsertRatingTx_Inr [OF six]
  from d6(1,3) have same: "archive d' = archive (fst w4)" by (simp add: d'_def)
  show "db_players d' = db_players d" "db_matches d' = db_matches d @ [stored_match D m]"
    "db_results d' = db_results d @
       [result_row_of D (fm_MatchID params) (fm_Player1ID params) (fm_Player2ID params) (fst scores)
          (rating_of (fst entries)) (fst news) createdAt,
        result_row_of D (fm_MatchID params) (fm_Player2ID params) (fm_Player1ID params) (snd scores)
          (rating_of (snd entries)) (snd news) createdAt]"
    "db_replays d' = db_replays d @ (case fm_Replay params of None \<Rightarrow> []
       | Some replay \<Rightarrow> [replay_row_of D (fm_MatchID params) replay createdAt])"
    "db_replay_turns d' = db_replay_turns d @ (case fm_Replay params of None \<Rightarrow> []
       | Some replay \<Rightarrow> map (turn_row_of D (fm_MatchID params) createdAt) (rw_Turns replay))"
    using same d4 d2 by (simp_all add: archive_def)
  have keys: "rating_key (rated_entry (fst entries) (fst news) (fm_EndedAt params) createdAt) = (fm_Player1ID params, sa_ID season)"
    "rating_key (rated_entry (snd entries) (snd news) (fm_EndedAt params) createdAt) = (fm_Player2ID params, sa_ID season)"
    using assms(2,3) by (simp_all add: rating_key_def rated_entry_def)
  show "map_option rating_of (rating_row d' (fm_Player1ID params, sa_ID season)) = Some (fst news)"
    "map_option rating_of (rating_row d' (fm_Player2ID params, sa_ID season)) = Some (snd news)"
    using assms(4) by (simp_all add: d'_def d6(2,4) keys rating_of_rated)
  show "fm_MatchID params \<notin> mt_ID ` set (db_matches d)" by (rule d1(2))
  show "fz_Match fz = m" "fz_Season fz = season" "fz_Player1New fz = fst news" "fz_Player2New fz = snd news" by (rule fz)+
qed

section \<open>All or nothing\<close>

text \<open>What the archive holds of a recorded match: its row, its two results and the ratings they led to.\<close>

definition rating_before :: "'f result_row \<Rightarrow> 'f rating" where
  "rating_before r = \<lparr>ra_R = rr_RatingBefore r, ra_RD = rr_RDBefore r, ra_Sigma = rr_SigmaBefore r\<rparr>"

definition rating_after :: "'f result_row \<Rightarrow> 'f rating" where
  "rating_after r = \<lparr>ra_R = rr_RatingAfter r, ra_RD = rr_RDAfter r, ra_Sigma = rr_SigmaAfter r\<rparr>"

definition match_on_record :: "'f math64 \<Rightarrow> 'f rank_service \<Rightarrow> finalize_match_params \<Rightarrow> string
    \<Rightarrow> ('f, 'z) database_scheme \<Rightarrow> bool" where
  "match_on_record M rank p mid d \<longleftrightarrow> (\<exists>m r1 r2. filter (\<lambda>m. mt_ID m = mid) (db_matches d) = [m]
     \<and> mt_Player1ID m = fm_Player1ID p \<and> mt_Player2ID m = fm_Player2ID p \<and> mt_WinnerID m = fm_WinnerID p
     \<and> mt_ResultType m = fm_ResultType p
     \<and> filter (\<lambda>r. rr_MatchID r = mid) (db_results d) = [r1, r2]
     \<and> rr_PlayerID r1 = fm_Player1ID p \<and> rr_PlayerID r2 = fm_Player2ID p
     \<and> scoresForResult M p = Inr (rr_Score r1, rr_Score r2)
     \<and> rate_players rank (rating_before r1) (rating_before r2) (rr_Score r1, rr_Score r2)
         = Inr (rating_after r1, rating_after r2)
     \<and> map_option rating_of (rating_row d (fm_Player1ID p, mt_SeasonID m)) = Some (rating_after r1)
     \<and> map_option rating_of (rating_row d (fm_Player2ID p, mt_SeasonID m)) = Some (rating_after r2))"

lemma filter_fresh: "k \<notin> f ` set xs \<Longrightarrow> filter (\<lambda>x. f x = k) xs = []"
  by (auto simp: filter_empty_conv)

lemma result_row_ratings:
  "rating_before (result_row_of D mid p q s r r' t) = r" "rating_after (result_row_of D mid p q s r r' t) = r'"
  by (cases r; cases r'; simp add: rating_before_def rating_after_def result_row_of_def)+

lemma archive_fresh:
  assumes "archive_ok d" "mid \<notin> mt_ID ` set (db_matches d)"
  shows "mid \<notin> rr_MatchID ` set (db_results d)" "mid \<notin> rp_MatchID ` set (db_replays d)"
    "mid \<notin> ro_MatchID ` set (db_replay_turns d)"
  using assms unfolding archive_ok_def by blast+

lemma finalize_tx_Inr:
  fixes w :: "('f, 'z) database_scheme \<times> reply list"
  assumes "finalize_tx M D rank sid createdAt params scores w = (Inr fz, w')" "fm_Player1ID params \<noteq> fm_Player2ID params"
  obtains season e1 e2 news w1 where "archive (fst w1) = archive (fst w)"
    "rate_players rank (rating_of e1) (rating_of e2) scores = Inr news"
    "rating_key e1 = (fm_Player1ID params, sa_ID season)" "rating_key e2 = (fm_Player2ID params, sa_ID season)"
    "record_match M D createdAt params season scores (e1, e2) news w1 = (Inr fz, w')"
proof -
  from assms(1) [unfolded finalize_tx_def, THEN and_then_Inr] obtain season wa where
    a: "ensureActiveSeasonTx D sid (fm_EndedAt params) w = (Inr season, wa)"
    and run: "and_then (getOrCreateRatingTx M D (fm_Player1ID params) season (fm_EndedAt params)) (\<lambda>entry1.
       and_then (getOrCreateRatingTx M D (fm_Player2ID params) season (fm_EndedAt params)) (\<lambda>entry2.
         case rate_players rank (rating_of entry1) (rating_of entry2) scores of
           Inl err \<Rightarrow> fail ErrRankingFailed
         | Inr news \<Rightarrow> record_match M D createdAt params season scores (entry1, entry2) news)) wa = (Inr fz, w')" by blast
  from and_then_Inr [OF run] obtain e1 wb where
    b: "getOrCreateRatingTx M D (fm_Player1ID params) season (fm_EndedAt params) wa = (Inr e1, wb)"
    and run: "and_then (getOrCreateRatingTx M D (fm_Player2ID params) season (fm_EndedAt params)) (\<lambda>entry2.
         case rate_players rank (rating_of e1) (rating_of entry2) scores of
           Inl err \<Rightarrow> fail ErrRankingFailed
         | Inr news \<Rightarrow> record_match M D createdAt params season scores (e1, entry2) news) wb = (Inr fz, w')" by blast
  from and_then_Inr [OF run] obtain e2 wc where
    c: "getOrCreateRatingTx M D (fm_Player2ID params) season (fm_EndedAt params) wb = (Inr e2, wc)"
    and run: "(case rate_players rank (rating_of e1) (rating_of e2) scores of
           Inl err \<Rightarrow> fail ErrRankingFailed
         | Inr news \<Rightarrow> record_match M D createdAt params season scores (e1, e2) news) wc = (Inr fz, w')" by blast
  have "archive (fst wa) = archive (fst w)"
    using ensureActiveSeasonTx_archive [of "archive (fst w)" D sid "fm_EndedAt params"] a unfolding keeps_def
    by (metis fst_conv snd_conv)
  moreover have "archive (fst wb) = archive (fst wa)"
    using getOrCreateRatingTx_archive [of "archive (fst wa)" M D "fm_Player1ID params" season "fm_EndedAt params"] b
    unfolding keeps_def by (metis fst_conv snd_conv)
  moreover have "archive (fst wc) = archive (fst wb)"
    using getOrCreateRatingTx_archive [of "archive (fst wb)" M D "fm_Player2ID params" season "fm_EndedAt params"] c
    unfolding keeps_def by (metis fst_conv snd_conv)
  ultimately have same: "archive (fst wc) = archive (fst w)" by simp
  from run obtain news where "rate_players rank (rating_of e1) (rating_of e2) scores = Inr news"
    "record_match M D createdAt params season scores (e1, e2) news wc = (Inr fz, w')"
    by (auto simp: fail_def split: sum.splits)
  with that same getOrCreateRatingTx_key [OF b] getOrCreateRatingTx_key [OF c] show thesis by blast
qed

lemma finalize_tx_record:
  fixes w :: "('f, 'z) database_scheme \<times> reply list"
  assumes "archive_ok (fst w)" "scoresForResult M params = Inr scores" "fm_Player1ID params \<noteq> fm_Player2ID params"
    and "finalize_tx M D rank sid createdAt params scores w = (Inr fz, w')"
  shows "match_on_record M rank params (fm_MatchID params) (fst w')" "mt_ID (fz_Match fz) = fm_MatchID params"
    "fm_MatchID params \<notin> mt_ID ` set (db_matches (fst w))"
    "db_replays (fst w') = db_replays (fst w) @ (case fm_Replay params of None \<Rightarrow> []
       | Some replay \<Rightarrow> [replay_row_of D (fm_MatchID params) replay createdAt])"
    "db_replay_turns (fst w') = db_replay_turns (fst w) @ (case fm_Replay params of None \<Rightarrow> []
       | Some replay \<Rightarrow> map (turn_row_of D (fm_MatchID params) createdAt) (rw_Turns replay))"
proof -
  obtain season e1 e2 news w1 where same: "archive (fst w1) = archive (fst w)"
    and rated: "rate_players rank (rating_of e1) (rating_of e2) scores = Inr news"
    and keys: "rating_key (fst (e1, e2)) = (fm_Player1ID params, sa_ID season)"
      "rating_key (snd (e1, e2)) = (fm_Player2ID params, sa_ID season)"
    and run: "record_match M D createdAt params season scores (e1, e2) news w1 = (Inr fz, w')"
    by (rule finalize_tx_Inr [OF assms(4,3)]) (rule that, simp_all)
  note rec = record_match_Inr [OF run keys assms(3)]
  have tables: "db_matches (fst w1) = db_matches (fst w)" "db_results (fst w1) = db_results (fst w)"
    "db_replays (fst w1) = db_replays (fst w)" "db_replay_turns (fst w1) = db_replay_turns (fst w)"
    using same by (simp_all add: archive_def)
  from rec(3) tables(1) show new: "fm_MatchID params \<notin> mt_ID ` set (db_matches (fst w))" by simp
  note none = filter_fresh [OF new] filter_fresh [OF archive_fresh(1) [OF assms(1) new]]
  show "match_on_record M rank params (fm_MatchID params) (fst w')"
  proof -
    let ?m = "stored_match D (match_of params (sa_ID season) createdAt)"
    let ?r1 = "result_row_of D (fm_MatchID params) (fm_Player1ID params) (fm_Player2ID params) (fst scores)
      (rating_of e1) (fst news) createdAt"
    let ?r2 = "result_row_of D (fm_MatchID params) (fm_Player2ID params) (fm_Player1ID params) (snd scores)
      (rating_of e2) (snd news) createdAt"
    have m: "mt_ID ?m = fm_MatchID params" "mt_SeasonID ?m = sa_ID season" "mt_Player1ID ?m = fm_Player1ID params"
      "mt_Player2ID ?m = fm_Player2ID params" "mt_WinnerID ?m = fm_WinnerID params" "mt_ResultType ?m = fm_ResultType params"
      by (simp_all add: stored_match_def match_of_def)
    have r: "rr_MatchID ?r1 = fm_MatchID params" "rr_MatchID ?r2 = fm_MatchID params" "rr_PlayerID ?r1 = fm_Player1ID params"
      "rr_PlayerID ?r2 = fm_Player2ID params" "rr_Score ?r1 = fst scores" "rr_Score ?r2 = snd scores"
      by (simp_all add: result_row_of_def)
    have "filter (\<lambda>m. mt_ID m = fm_MatchID params) (db_matches (fst w')) = [?m]"
      by (simp only: rec(2) tables filter_append none filter.simps m append.simps simp_thms if_True)
    moreover have "filter (\<lambda>r. rr_MatchID r = fm_MatchID params) (db_results (fst w')) = [?r1, ?r2]"
      by (simp only: rec(4) tables filter_append none fst_conv snd_conv filter.simps r append.simps simp_thms if_True)
    ultimately show ?thesis
      unfolding match_on_record_def
      using rec(7,8) rated assms(2)
      by (intro exI [of _ ?m] exI [of _ ?r1] exI [of _ ?r2]) (simp only: m r result_row_ratings prod.collapse simp_thms)
  qed
  show "mt_ID (fz_Match fz) = fm_MatchID params" using rec(9) by (simp add: match_of_def)
  show "db_replays (fst w') = db_replays (fst w) @ (case fm_Replay params of None \<Rightarrow> []
       | Some replay \<Rightarrow> [replay_row_of D (fm_MatchID params) replay createdAt])"
    "db_replay_turns (fst w') = db_replay_turns (fst w) @ (case fm_Replay params of None \<Rightarrow> []
       | Some replay \<Rightarrow> map (turn_row_of D (fm_MatchID params) createdAt) (rw_Turns replay))"
    using rec(5,6) by (simp_all add: tables)
qed

definition match_id :: "finalize_match_params \<Rightarrow> string \<Rightarrow> string" where
  "match_id p drawn = (if fm_MatchID p = [] then drawn else fm_MatchID p)"

lemma scoresForResult_id [simp]: "scoresForResult M (p\<lparr>fm_MatchID := i\<rparr>) = scoresForResult M p"
  by (cases "fm_ResultType p"; cases "fm_WinnerID p") (simp_all add: scoresForResult_def)

lemma FinalizeMatch_cases:
  assumes "FinalizeMatch M D rank sid mid clock p (d, rs) = (res, (d', rs'))"
  obtains (undone) e where "res = Inl e" "d' = d"
  | (recorded) scores fz rs1 rs2 where "scoresForResult M p = Inr scores" "fm_Player1ID p \<noteq> fm_Player2ID p"
      "finalize_tx M D rank sid clock (p\<lparr>fm_MatchID := match_id p mid\<rparr>) scores (d, rs1) = (Inr fz, (d', rs2))"
      "res = Inr fz \<or> res = Inl ErrConnectionLost"
proof -
  have id: "(if fm_MatchID p = [] then p\<lparr>fm_MatchID := mid\<rparr> else p) = p\<lparr>fm_MatchID := match_id p mid\<rparr>"
    by (cases p) (simp add: match_id_def)
  consider (early) e where "res = Inl e" "d' = d"
    | (run) scores where "scoresForResult M p = Inr scores" "fm_Player1ID p \<noteq> fm_Player2ID p"
      "transaction (finalize_tx M D rank sid clock (p\<lparr>fm_MatchID := match_id p mid\<rparr>) scores) (d, rs) = (res, (d', rs'))"
    using assms unfolding FinalizeMatch_def with_pool_def Let_def id scoresForResult_id
    by (auto simp: fail_def split: if_splits sum.splits)
  then show thesis
  proof cases
    case early
    then show thesis by (rule undone)
  next
    case run
    from run(3) show thesis
      by (cases rule: transaction_atomic) (auto intro: undone recorded [OF run(1,2)])
  qed
qed

lemma FinalizeMatch_record:
  assumes "archive_ok d" "FinalizeMatch M D rank sid mid clock p (d, rs) = (res, (d', rs'))"
  shows "(\<exists>e. res = Inl e) \<and> d' = d
    \<or> match_on_record M rank p (match_id p mid) d' \<and> archive_ok d' \<and> match_id p mid \<notin> mt_ID ` set (db_matches d)
      \<and> (res = Inl ErrConnectionLost \<or> (\<exists>fz. res = Inr fz \<and> mt_ID (fz_Match fz) = match_id p mid))"
  using assms(2)
proof (cases rule: FinalizeMatch_cases)
  case (recorded scores fz rs1 rs2)
  let ?p = "p\<lparr>fm_MatchID := match_id p mid\<rparr>"
  from recorded have ids: "scoresForResult M ?p = Inr scores" "fm_Player1ID ?p \<noteq> fm_Player2ID ?p"
    by simp_all
  have "archive_ok (fst (d, rs1))" using assms(1) by simp
  note rec = finalize_tx_record [OF this ids recorded(3)]
  have "match_on_record M rank p (match_id p mid) d'"
    using rec(1) by (simp add: match_on_record_def)
  moreover have "archive_ok d'" by (rule keepsD [OF finalize_tx_archive_ok recorded(3) assms(1)])
  ultimately show ?thesis using rec(2,3) recorded(4) by auto
qed simp

text \<open>
  C11: A finished match is recorded all or not at all, whatever the connection does and wherever it breaks:
  either the database is as it was, or it holds the match, its two results with scores that fit the
  outcome, and for both players the rating that the results say the rating service gave them. When
  the caller is told so, it is recorded; only a lost answer to the commit leaves the caller in doubt.
\<close>

theorem finalize_is_all_or_nothing:
  assumes "archive_ok d" "FinalizeMatch M D rank sid mid clock p (d, rs) = (res, (d', rs'))"
  shows "(\<exists>e. res = Inl e) \<and> d' = d
    \<or> match_on_record M rank p (match_id p mid) d' \<and> archive_ok d' \<and> match_id p mid \<notin> mt_ID ` set (db_matches d)
      \<and> (res = Inl ErrConnectionLost \<or> (\<exists>fz. res = Inr fz \<and> mt_ID (fz_Match fz) = match_id p mid))"
  by (rule FinalizeMatch_record [OF assms])

section \<open>Later calls\<close>

datatype 'f store_call = CallFinalizeMatch string string time finalize_match_params
  | CallCreateMatch time string match_row | CallEnsureActive string time
  | CallGetRating string string time | CallUpsertRating "'f rating_entry"

fun run_store_call :: "'f math64 \<Rightarrow> store_deps \<Rightarrow> 'f rank_service \<Rightarrow> 'f store_call \<Rightarrow> (('f, 'z) database_scheme, unit) query" where
  "run_store_call M D rank (CallFinalizeMatch sid mid clock p) =
     and_then (FinalizeMatch M D rank sid mid clock p) (\<lambda>_. give ())"
| "run_store_call M D rank (CallCreateMatch clock mid m) = and_then (CreateMatch D clock mid m) (\<lambda>_. give ())"
| "run_store_call M D rank (CallEnsureActive sid now) = and_then (EnsureActive D sid now) (\<lambda>_. give ())"
| "run_store_call M D rank (CallGetRating sid pid now) = and_then (GetOrCreateForActiveSeason M D sid pid now) (\<lambda>_. give ())"
| "run_store_call M D rank (CallUpsertRating e) = Upsert D e"

fun store_calls :: "'f math64 \<Rightarrow> store_deps \<Rightarrow> 'f rank_service \<Rightarrow> 'f store_call list
    \<Rightarrow> ('f, 'z) database_scheme \<times> reply list \<Rightarrow> ('f, 'z) database_scheme \<times> reply list" where
  "store_calls M D rank [] w = w"
| "store_calls M D rank (c # cs) w = store_calls M D rank cs (snd (run_store_call M D rank c w))"

lemma store_calls_keep:
  "(\<And>c. keeps I (run_store_call M D rank c)) \<Longrightarrow> I (fst w) \<Longrightarrow> I (fst (store_calls M D rank cs w))"
proof (induction cs arbitrary: w)
  case (Cons c cs)
  have "I (fst (snd (run_store_call M D rank c w)))"
    using Cons.prems unfolding keeps_def by blast
  with Cons.IH Cons.prems(1) show ?case by simp
qed simp

lemma EnsureActive_archive: "keeps (\<lambda>d. archive d = a) (EnsureActive D sid now)"
  unfolding EnsureActive_def by (intro keeps_begin_tx ensureActiveSeasonTx_archive)

lemma GetOrCreateForActiveSeason_archive: "keeps (\<lambda>d. archive d = a) (GetOrCreateForActiveSeason M D sid pid now)"
  unfolding GetOrCreateForActiveSeason_def
  by (intro keeps_begin_tx keeps_and_then ensureActiveSeasonTx_archive getOrCreateRatingTx_archive)

lemma Upsert_archive: "keeps (\<lambda>d. archive d = a) (Upsert D e)"
  unfolding Upsert_def upsertRatingExec_def upsertRatingTx_def [symmetric]
  by (intro keeps_with_pool upsertRatingTx_archive)

text \<open>What the archive calls keep, from what the archive's tables keep and what a recorded match keeps.\<close>

lemma store_call_keeps:
  assumes "\<And>d d'. archive d = archive d' \<Longrightarrow> I d \<Longrightarrow> I d'"
    and "\<And>sid mid clock p. keeps I (FinalizeMatch M D rank sid mid clock p)" "\<And>clock mid m. keeps I (CreateMatch D clock mid m)"
  shows "keeps I (run_store_call M D rank c)"
proof -
  have lift: "keeps I m" if "\<And>a. keeps (\<lambda>d. archive d = a) m" for m :: "(('a, 'b) database_scheme, 'c) query"
    using that unfolding keeps_def by (metis assms(1))
  show ?thesis
    by (cases c) (auto intro!: keeps_and_then keeps_give assms(2,3) lift [OF EnsureActive_archive]
        lift [OF GetOrCreateForActiveSeason_archive] lift [OF Upsert_archive])
qed

section \<open>The replay of a recorded match\<close>

definition replay_on_record :: "store_deps \<Rightarrow> string \<Rightarrow> match_replay_write \<Rightarrow> time \<Rightarrow> ('f, 'z) database_scheme \<Rightarrow> bool" where
  "replay_on_record D mid replay createdAt d \<longleftrightarrow> archive_ok d
     \<and> filter (\<lambda>r. rp_MatchID r = mid) (db_replays d) = [replay_row_of D mid replay createdAt]
     \<and> filter (\<lambda>t. ro_MatchID t = mid) (db_replay_turns d) = map (turn_row_of D mid createdAt) (rw_Turns replay)"

lemma replay_on_record_match:
  "replay_on_record D mid replay createdAt d \<Longrightarrow> mid \<in> mt_ID ` set (db_matches d)"
proof -
  assume rec: "replay_on_record D mid replay createdAt d"
  then have "replay_row_of D mid replay createdAt \<in> set (filter (\<lambda>r. rp_MatchID r = mid) (db_replays d))"
    by (simp add: replay_on_record_def)
  then have "mid \<in> rp_MatchID ` set (db_replays d)" by force
  with rec show ?thesis unfolding replay_on_record_def archive_ok_def by blast
qed

lemma FinalizeMatch_new_replay:
  assumes "archive_ok d" "FinalizeMatch M D rank sid mid clock p (d, rs) = (Inr fz, (d', rs'))" "fm_Replay p = Some replay"
  shows "replay_on_record D (match_id p mid) replay clock d'" "mt_ID (fz_Match fz) = match_id p mid" "sd_pool D"
  using assms(2)
proof (atomize(full), cases rule: FinalizeMatch_cases)
  case (recorded scores fz' rs1 rs2)
  let ?p = "p\<lparr>fm_MatchID := match_id p mid\<rparr>"
  from recorded have ids: "scoresForResult M ?p = Inr scores" "fm_Player1ID ?p \<noteq> fm_Player2ID ?p" by simp_all
  have ok: "archive_ok (fst (d, rs1))" using assms(1) by simp
  note rec = finalize_tx_record [OF ok ids recorded(3)]
  have new: "match_id p mid \<notin> mt_ID ` set (db_matches d)" using rec(3) by simp
  note none = filter_fresh [OF archive_fresh(2) [OF assms(1) new]] filter_fresh [OF archive_fresh(3) [OF assms(1) new]]
  have "filter (\<lambda>t. ro_MatchID t = match_id p mid) (map (turn_row_of D (match_id p mid) clock) ts)
      = map (turn_row_of D (match_id p mid) clock) ts" for ts
    by (induction ts) (simp_all add: turn_row_of_def)
  with rec(4,5) assms(3) none keepsD [OF finalize_tx_archive_ok recorded(3) assms(1)]
  have "replay_on_record D (match_id p mid) replay clock d'"
    by (simp add: replay_on_record_def replay_row_of_def)
  moreover have "sd_pool D" using assms(2) unfolding FinalizeMatch_def by (auto dest: with_pool_Inr)
  ultimately show "replay_on_record D (match_id p mid) replay clock d' \<and> mt_ID (fz_Match fz) = match_id p mid \<and> sd_pool D"
    using rec(2) recorded(4) by auto
qed simp

lemma FinalizeMatch_keeps_replay: "keeps (replay_on_record D mid replay createdAt) (FinalizeMatch M D rank sid mid' clock p)"
proof (rule keepsI)
  fix d rs res d' rs'
  assume rec: "replay_on_record D mid replay createdAt d"
    and "FinalizeMatch M D rank sid mid' clock p (d, rs) = (res, (d', rs'))"
  from this(2) show "replay_on_record D mid replay createdAt d'"
  proof (cases rule: FinalizeMatch_cases)
    case (recorded scores fz rs1 rs2)
    let ?p = "p\<lparr>fm_MatchID := match_id p mid'\<rparr>"
    from recorded have ids: "scoresForResult M ?p = Inr scores" "fm_Player1ID ?p \<noteq> fm_Player2ID ?p" by simp_all
    have ok: "archive_ok d" using rec by (simp add: replay_on_record_def)
    then have "archive_ok (fst (d, rs1))" by simp
    note new = finalize_tx_record [OF this ids recorded(3)]
    have other: "match_id p mid' \<noteq> mid" using new(3) replay_on_record_match [OF rec] by auto
    have "filter (\<lambda>r. rp_MatchID r = mid) (db_replays d') = filter (\<lambda>r. rp_MatchID r = mid) (db_replays d)"
      using new(4) other by (simp add: replay_row_of_def split: option.split)
    moreover have "filter (\<lambda>t. ro_MatchID t = mid) (db_replay_turns d') = filter (\<lambda>t. ro_MatchID t = mid) (db_replay_turns d)"
      using new(5) other by (cases "fm_Replay p") (auto simp: turn_row_of_def filter_empty_conv)
    ultimately show ?thesis
      using rec keepsD [OF finalize_tx_archive_ok recorded(3) ok] by (simp add: replay_on_record_def)
  qed (use rec in simp)
qed

lemma CreateMatch_keeps_replay: "keeps (replay_on_record D mid replay createdAt) (CreateMatch D clock mid' m)"
proof -
  have "keeps (replay_on_record D mid replay createdAt) (insertMatchTx D m)" for m
    unfolding insertMatchTx_def
  proof (rule keeps_exec)
    fix d d'
    assume "replay_on_record D mid replay createdAt d" "insert_match (stored_match D m) d = Inr d'"
    then show "replay_on_record D mid replay createdAt d'"
      using insert_match_Inr [of "stored_match D m" d d'] by (auto simp: replay_on_record_def archive_ok_def)
  qed
  then show ?thesis
    unfolding CreateMatch_def Let_def
    by (intro keeps_with_pool keeps_if keeps_fail keeps_and_then keeps_give)
qed

lemma store_call_keeps_replay: "keeps (replay_on_record D mid replay createdAt) (run_store_call M D rank c)"
  by (rule store_call_keeps [OF _ FinalizeMatch_keeps_replay CreateMatch_keeps_replay])
    (simp add: replay_on_record_def archive_ok_def archive_def)

lemma filter_hd_find: "filter P xs = [x] \<Longrightarrow> find P xs = Some x"
  by (induction xs) (auto split: if_splits)

definition replay_fits :: "match_replay_write \<Rightarrow> bool" where
  "replay_fits r \<longleftrightarrow> state_fits (rw_InitialState r) \<and> list_all (\<lambda>t. list_all input_fits (rt_Inputs t)) (rw_Turns r)"

text \<open>What is read of a recorded turn.\<close>

definition read_back :: "replay_turn_write \<Rightarrow> time \<Rightarrow> match_replay_turn" where
  "read_back t createdAt = \<lparr>me_Turn = rt_Turn t, me_RelativeMS = rt_RelativeMS t, me_Inputs = rt_Inputs t,
     me_Checksums = rt_Checksums t, me_CreatedAt = createdAt\<rparr>"

lemma read_turns_rows:
  "list_all (\<lambda>t. list_all input_fits (rt_Inputs t)) ts \<Longrightarrow>
     read_turns (map (turn_row_of D mid createdAt) ts) = Some (map (\<lambda>t. read_back t (sd_tz D createdAt)) ts)"
  by (induction ts) (simp_all add: read_turn_def turn_row_of_def unmarshal_inputs_marshal read_back_def)

lemma GetMatchReplay_recorded:
  assumes "replay_on_record D mid replay createdAt d" "replay_fits replay" "sorted (map rt_Turn (rw_Turns replay))"
    and "sd_pool D" "mid \<noteq> []"
  shows "GetMatchReplay D mid (d, []) = (Inr \<lparr>ml_MatchID = mid, ml_Seed = rw_Seed replay,
    ml_InitialState = rw_InitialState replay, ml_Turns = map (\<lambda>t. read_back t (sd_tz D createdAt)) (rw_Turns replay),
    ml_CreatedAt = sd_tz D createdAt\<rparr>, (d, []))"
proof -
  let ?rows = "map (turn_row_of D mid createdAt) (rw_Turns replay)"
  have "map ro_Turn ?rows = map rt_Turn (rw_Turns replay)" by (simp add: turn_row_of_def)
  with assms(3) have "sort_key ro_Turn ?rows = ?rows" by (intro sort_key_id_if_sorted) (simp only:)
  moreover have "find (\<lambda>r. rp_MatchID r = mid) (db_replays d) = Some (replay_row_of D mid replay createdAt)"
    using assms(1) by (intro filter_hd_find) (simp add: replay_on_record_def)
  moreover have "filter (\<lambda>t. ro_MatchID t = mid) (db_replay_turns d) = ?rows"
    using assms(1) by (simp add: replay_on_record_def)
  moreover have "unmarshal_state (rp_InitialState (replay_row_of D mid replay createdAt)) = Some (rw_InitialState replay)"
    "ParseUint (rp_SeedText (replay_row_of D mid replay createdAt)) = Some (rw_Seed replay)"
    "rp_CreatedAt (replay_row_of D mid replay createdAt) = sd_tz D createdAt"
    using assms(2) by (simp_all add: replay_row_of_def unmarshal_state_marshal replay_fits_def)
  moreover have "read_turns ?rows = Some (map (\<lambda>t. read_back t (sd_tz D createdAt)) (rw_Turns replay))"
    using assms(2) by (intro read_turns_rows) (simp add: replay_fits_def)
  ultimately show ?thesis
    using assms(4,5) by (simp add: GetMatchReplay_def with_pool_def query_simps)
qed

section \<open>A finished match is accepted\<close>

lemma upsertRatingTx_healthy:
  assumes "known_player d (rg_PlayerID e)" "rg_SeasonID e \<in> sa_ID ` set (db_seasons d)"
  obtains d' where "upsertRatingTx D e (d, []) = (Inr (), (d', []))" "archive d' = archive d" "db_seasons d' = db_seasons d"
proof -
  have "rg_PlayerID (stored_rating D e) = rg_PlayerID e" "rg_SeasonID (stored_rating D e) = rg_SeasonID e"
    by (simp_all add: stored_rating_def)
  with assms have "\<exists>d'. upsert_rating (stored_rating D e) d = Inr d' \<and> db_seasons d' = db_seasons d"
    by (cases "rating_key (stored_rating D e) \<in> rating_key ` set (db_ratings d)")
      (simp_all add: upsert_rating_def known_player_def)
  then obtain d' where d': "upsert_rating (stored_rating D e) d = Inr d'" "db_seasons d' = db_seasons d" by blast
  then show thesis
    by (intro that [of d'] upsert_rating_archive [OF d'(1)]) (simp_all add: upsertRatingTx_def query_simps)
qed

lemma known_player_archive: "archive d' = archive d \<Longrightarrow> known_player d' pid \<longleftrightarrow> known_player d pid"
  by (simp add: archive_def known_player_def)

lemma getOrCreateRatingTx_healthy:
  assumes "known_player d pid" "sa_ID season \<in> sa_ID ` set (db_seasons d)"
  obtains e d' where "getOrCreateRatingTx M D pid season now (d, []) = (Inr e, (d', []))"
    "archive d' = archive d" "db_seasons d' = db_seasons d" "rating_key e = (pid, sa_ID season)"
proof -
  have fresh: "\<exists>e d'. fresh_entry D pid season now base (d, []) = (Inr e, (d', [])) \<and> archive d' = archive d
      \<and> db_seasons d' = db_seasons d" for base :: "'a rating"
  proof -
    let ?e = "\<lparr>rg_PlayerID = pid, rg_SeasonID = sa_ID season, rg_Rating = ra_R base, rg_RD = ra_RD base,
      rg_Sigma = ra_Sigma base, rg_LastMatchAt = None, rg_UpdatedAt = now\<rparr>"
    obtain d' where "upsertRatingTx D ?e (d, []) = (Inr (), (d', []))" "archive d' = archive d" "db_seasons d' = db_seasons d"
      by (rule upsertRatingTx_healthy [of d ?e D]) (use assms in simp_all)
    then show ?thesis by (simp add: fresh_entry_def Let_def query_simps)
  qed
  have "\<exists>e d'. getOrCreateRatingTx M D pid season now (d, []) = (Inr e, (d', [])) \<and> archive d' = archive d
      \<and> db_seasons d' = db_seasons d"
  proof (cases "fst (getRatingBySeasonTx pid (sa_ID season) (d, []))")
    case (Inr e)
    then show ?thesis
      by (auto simp: getOrCreateRatingTx_def getRatingBySeasonTx_def query_simps split: option.splits)
  next
    case (Inl err)
    then have none: "getRatingBySeasonTx pid (sa_ID season) (d, []) = (Inl ErrNoRows, (d, []))"
      by (auto simp: getRatingBySeasonTx_def query_simps split: option.splits)
    show ?thesis
    proof (cases "fst (getLatestRatingBeforeSeasonTx pid (sa_Number season) (d, []))")
      case (Inr prev)
      then have "getLatestRatingBeforeSeasonTx pid (sa_Number season) (d, []) = (Inr prev, (d, []))"
        by (auto simp: getLatestRatingBeforeSeasonTx_def query_simps split: option.splits)
      with none fresh [of "ApplySeasonSoftReset M (rating_of prev)"] show ?thesis
        by (simp add: getOrCreateRatingTx_def query_simps)
    next
      case (Inl err)
      then have "getLatestRatingBeforeSeasonTx pid (sa_Number season) (d, []) = (Inl ErrNoRows, (d, []))"
        by (auto simp: getLatestRatingBeforeSeasonTx_def query_simps split: option.splits)
      with none fresh [of "gc_DefaultRating (DefaultConfig M)"] show ?thesis
        by (simp add: getOrCreateRatingTx_def query_simps)
    qed
  qed
  then obtain e d' where run: "getOrCreateRatingTx M D pid season now (d, []) = (Inr e, (d', []))"
    "archive d' = archive d" "db_seasons d' = db_seasons d" by blast
  show thesis by (rule that [OF run getOrCreateRatingTx_key [OF run(1)]])
qed

definition turns_ok :: "replay_turn_write list \<Rightarrow> bool" where
  "turns_ok ts \<longleftrightarrow> distinct (map rt_Turn ts) \<and> list_all (\<lambda>t. int4 (rt_Turn t) \<and> 0 < rt_Turn t
     \<and> int64_ok (rt_RelativeMS t) \<and> 0 \<le> rt_RelativeMS t) ts"

lemma insert_turns_healthy:
  assumes "turns_ok ts" "mid \<in> rp_MatchID ` set (db_replays d)"
    and "\<forall>t \<in> set ts. (mid, rt_Turn t) \<notin> replay_turn_key ` set (db_replay_turns d)"
  shows "do_all (map (\<lambda>t. exec (insert_replay_turn (turn_row_of D mid createdAt t))) ts) (d, [])
    = (Inr (), (d\<lparr>db_replay_turns := db_replay_turns d @ map (turn_row_of D mid createdAt) ts\<rparr>, []))"
  using assms
proof (induction ts arbitrary: d)
  case (Cons t ts)
  let ?d = "d\<lparr>db_replay_turns := db_replay_turns d @ [turn_row_of D mid createdAt t]\<rparr>"
  have key: "replay_turn_key (turn_row_of D mid createdAt t) = (mid, rt_Turn t)" for t
    by (simp add: replay_turn_key_def turn_row_of_def)
  have "insert_replay_turn (turn_row_of D mid createdAt t) d = Inr ?d"
    using Cons.prems FormatUint_digits
    by (simp add: insert_replay_turn_def key) (simp add: turn_row_of_def turns_ok_def all_digits_def)
  moreover have "do_all (map (\<lambda>t. exec (insert_replay_turn (turn_row_of D mid createdAt t))) ts) (?d, [])
      = (Inr (), (?d\<lparr>db_replay_turns := db_replay_turns ?d @ map (turn_row_of D mid createdAt) ts\<rparr>, []))"
    using Cons.prems by (intro Cons.IH) (auto simp: turns_ok_def key, metis imageI)
  ultimately show ?case by (simp add: query_simps)
qed (simp add: query_simps)

definition replay_ok :: "match_replay_write \<Rightarrow> bool" where
  "replay_ok r \<longleftrightarrow> turns_ok (rw_Turns r) \<and> int4 (int (length (rw_Turns r)))"

lemma insertMatchReplayTx_healthy:
  assumes "replay_ok replay" "mid \<in> mt_ID ` set (db_matches d)" "mid \<notin> rp_MatchID ` set (db_replays d)"
    and "mid \<notin> ro_MatchID ` set (db_replay_turns d)"
  shows "insertMatchReplayTx D mid replay createdAt (d, [])
    = (Inr (), (d\<lparr>db_replays := db_replays d @ [replay_row_of D mid replay createdAt],
        db_replay_turns := db_replay_turns d @ map (turn_row_of D mid createdAt) (rw_Turns replay)\<rparr>, []))"
proof -
  let ?d = "d\<lparr>db_replays := db_replays d @ [replay_row_of D mid replay createdAt]\<rparr>"
  have "insert_replay (replay_row_of D mid replay createdAt) d = Inr ?d"
    using assms FormatUint_digits [of "rw_Seed replay"]
    by (simp add: insert_replay_def replay_row_of_def replay_ok_def all_digits_def)
  moreover have "do_all (map (\<lambda>t. exec (insert_replay_turn (turn_row_of D mid createdAt t))) (rw_Turns replay)) (?d, [])
      = (Inr (), (?d\<lparr>db_replay_turns := db_replay_turns ?d @ map (turn_row_of D mid createdAt) (rw_Turns replay)\<rparr>, []))"
    using assms by (intro insert_turns_healthy) (auto simp: replay_ok_def replay_row_of_def replay_turn_key_def)
  ultimately show ?thesis by (simp add: insertMatchReplayTx_def query_simps)
qed

text \<open>What a match must be for the tables to take it.\<close>

definition params_ok :: "'f math64 \<Rightarrow> ('f, 'z) database_scheme \<Rightarrow> finalize_match_params \<Rightarrow> bool" where
  "params_ok M d p \<longleftrightarrow> fm_Player1ID p \<noteq> [] \<and> fm_Player2ID p \<noteq> [] \<and> fm_Player1ID p \<noteq> fm_Player2ID p
     \<and> known_player d (fm_Player1ID p) \<and> known_player d (fm_Player2ID p)
     \<and> fm_StartedAt p \<noteq> 0 \<and> fm_EndedAt p \<noteq> 0 \<and> fm_StartedAt p \<le> fm_EndedAt p
     \<and> fm_EndedAt p - fm_StartedAt p < 1000000 * 2 ^ 31
     \<and> (\<exists>scores. scoresForResult M p = Inr scores) \<and> pred_option replay_ok (fm_Replay p)"

definition scores_valid :: "'f math64 \<Rightarrow> bool" where
  "scores_valid M \<longleftrightarrow> IsValid M (ScoreLoss M) \<and> IsValid M (ScoreDraw M) \<and> IsValid M (ScoreWin M)"

lemma scoresForResult_Inr:
  assumes "scoresForResult M p = Inr scores"
  shows "scores \<in> {(ScoreDraw M, ScoreDraw M), (ScoreWin M, ScoreLoss M), (ScoreLoss M, ScoreWin M)}"
    "fm_WinnerID p = Some w \<Longrightarrow> w = fm_Player1ID p \<or> w = fm_Player2ID p"
  using assms by (cases "fm_ResultType p"; cases "fm_WinnerID p"; auto simp: scoresForResult_def split: if_splits)+

lemma match_duration:
  "s \<le> e \<Longrightarrow> e - s < 1000000 * 2 ^ 31 \<Longrightarrow> int4 (Milliseconds (time_sub e s)) \<and> 0 \<le> Milliseconds (time_sub e s)"
proof -
  assume *: "s \<le> e" "e - s < 1000000 * 2 ^ 31"
  then have "time_sub e s = e - s" by (simp add: time_sub_def)
  moreover have "(e - s) div 1000000 < 2147483648" "0 \<le> (e - s) div 1000000" using * by simp_all
  ultimately show ?thesis using * by (simp add: Milliseconds_def int4_def sdiv_nonneg_eq)
qed

lemma insert_match_healthy:
  assumes "params_ok M d p" "timestamps_ok (sd_tz D)" "sid \<in> sa_ID ` set (db_seasons d)"
    and "fm_MatchID p \<notin> mt_ID ` set (db_matches d)"
  shows "insertMatchTx D (match_of p sid createdAt) (d, [])
    = (Inr (), (d\<lparr>db_matches := db_matches d @ [stored_match D (match_of p sid createdAt)]\<rparr>, []))"
proof -
  obtain scores where scores: "scoresForResult M p = Inr scores" using assms(1) by (auto simp: params_ok_def)
  have "sd_tz D (fm_StartedAt p) \<le> sd_tz D (fm_EndedAt p)"
    using assms(1,2) by (simp add: timestamps_ok_def params_ok_def monoD)
  moreover have "case fm_WinnerID p of None \<Rightarrow> True | Some w \<Rightarrow> known_player d w"
    using scoresForResult_Inr(2) [OF scores] assms(1) by (auto simp: params_ok_def split: option.split)
  ultimately have "insert_match (stored_match D (match_of p sid createdAt)) d
      = Inr (d\<lparr>db_matches := db_matches d @ [stored_match D (match_of p sid createdAt)]\<rparr>)"
    using assms(1,3,4) match_duration [of "fm_StartedAt p" "fm_EndedAt p"]
    by (simp add: insert_match_def stored_match_def match_of_def params_ok_def split: option.splits)
  then show ?thesis by (simp add: insertMatchTx_def query_simps)
qed

lemma insert_result_healthy:
  assumes "(mid, pid) \<notin> result_key ` set (db_results d)" "mid \<in> mt_ID ` set (db_matches d)" "known_player d pid"
    and "known_player d opp" "IsValid M score" "pid \<noteq> opp"
  shows "insertMatchResultTx M (result_row_of D mid pid opp score r r' t) (d, [])
    = (Inr (), (d\<lparr>db_results := db_results d @ [result_row_of D mid pid opp score r r' t]\<rparr>, []))"
  using assms
  by (simp add: insertMatchResultTx_def query_simps insert_result_def result_key_def) (simp add: result_row_of_def)

lemma record_match_healthy:
  assumes "params_ok M d p" "archive_ok d" "timestamps_ok (sd_tz D)" "sa_ID season \<in> sa_ID ` set (db_seasons d)"
    and "fm_MatchID p \<notin> mt_ID ` set (db_matches d)" "IsValid M (fst scores)" "IsValid M (snd scores)"
    and "rating_key (fst entries) = (fm_Player1ID p, sa_ID season)" "rating_key (snd entries) = (fm_Player2ID p, sa_ID season)"
  obtains fz d' where "record_match M D createdAt p season scores entries news (d, []) = (Inr fz, (d', []))"
proof -
  let ?id = "fm_MatchID p" and ?p1 = "fm_Player1ID p" and ?p2 = "fm_Player2ID p"
  let ?m = "match_of p (sa_ID season) createdAt"
  let ?r1 = "result_row_of D ?id ?p1 ?p2 (fst scores) (rating_of (fst entries)) (fst news) createdAt"
  let ?r2 = "result_row_of D ?id ?p2 ?p1 (snd scores) (rating_of (snd entries)) (snd news) createdAt"
  let ?e1 = "rated_entry (fst entries) (fst news) (fm_EndedAt p) createdAt"
  let ?e2 = "rated_entry (snd entries) (snd news) (fm_EndedAt p) createdAt"
  let ?d1 = "d\<lparr>db_matches := db_matches d @ [stored_match D ?m]\<rparr>"
  note fresh = archive_fresh [OF assms(2,5)]
  have ids: "mt_ID ?m = ?id" "mt_ID (stored_match D ?m) = ?id" by (simp_all add: match_of_def stored_match_def)
  have players: "known_player d ?p1" "known_player d ?p2" "?p1 \<noteq> ?p2" using assms(1) by (simp_all add: params_ok_def)
  have entry: "rg_PlayerID ?e1 = ?p1" "rg_SeasonID ?e1 = sa_ID season" "rg_PlayerID ?e2 = ?p2" "rg_SeasonID ?e2 = sa_ID season"
    using assms(8,9) by (simp_all add: rated_entry_def rating_key_def)
  note one = insert_match_healthy [OF assms(1,3,4,5), of createdAt]
  have "\<exists>d2. (case fm_Replay p of None \<Rightarrow> give () | Some replay \<Rightarrow> insertMatchReplayTx D ?id replay createdAt) (?d1, [])
      = (Inr (), (d2, [])) \<and> db_players d2 = db_players d \<and> db_seasons d2 = db_seasons d
      \<and> db_matches d2 = db_matches ?d1 \<and> db_results d2 = db_results d"
  proof (cases "fm_Replay p")
    case (Some replay)
    then have "replay_ok replay" using assms(1) by (simp add: params_ok_def)
    from insertMatchReplayTx_healthy [OF this, of ?id ?d1 D createdAt] fresh ids Some show ?thesis by auto
  qed (simp add: query_simps)
  then obtain d2 where two: "(case fm_Replay p of None \<Rightarrow> give ()
        | Some replay \<Rightarrow> insertMatchReplayTx D ?id replay createdAt) (?d1, []) = (Inr (), (d2, []))"
    and d2: "db_players d2 = db_players d" "db_seasons d2 = db_seasons d" "db_matches d2 = db_matches ?d1"
      "db_results d2 = db_results d" by blast
  have known: "known_player d' pid \<longleftrightarrow> known_player d pid" if "db_players d' = db_players d" for d' pid
    using that by (simp add: known_player_def)
  let ?d3 = "d2\<lparr>db_results := db_results d2 @ [?r1]\<rparr>" and ?d4 = "d2\<lparr>db_results := db_results d2 @ [?r1, ?r2]\<rparr>"
  have keys: "(?id, pid) \<notin> result_key ` set (db_results d)" for pid
    using fresh(1) by (auto simp: result_key_def)
  have three: "insertMatchResultTx M ?r1 (d2, []) = (Inr (), (?d3, []))"
    by (rule insert_result_healthy) (use keys players assms(6) known [OF d2(1)] ids in \<open>simp_all add: d2\<close>)
  have "insertMatchResultTx M ?r2 (?d3, []) = (Inr (), (?d3\<lparr>db_results := db_results ?d3 @ [?r2]\<rparr>, []))"
    by (rule insert_result_healthy)
      (use keys players assms(7) known [of ?d3] ids in \<open>simp_all add: d2 result_key_def result_row_of_def\<close>)
  then have four: "insertMatchResultTx M ?r2 (?d3, []) = (Inr (), (?d4, []))" by simp
  obtain d5 where five: "upsertRatingTx D ?e1 (?d4, []) = (Inr (), (d5, []))" "archive d5 = archive ?d4" "db_seasons d5 = db_seasons ?d4"
    by (rule upsertRatingTx_healthy [of ?d4 ?e1 D])
      (use players assms(4) known [of ?d4] in \<open>simp_all add: entry d2\<close>)
  obtain d6 where six: "upsertRatingTx D ?e2 (d5, []) = (Inr (), (d6, []))"
    by (rule upsertRatingTx_healthy [of d5 ?e2 D])
      (use players assms(4) known [of ?d4] known_player_archive [OF five(2)] five(3) in \<open>simp_all add: entry d2\<close>)
  show thesis
    by (rule that) (simp only: record_match_def Let_def and_then_def ids one two three four five(1) six prod.case sum.case, rule give_def)
qed

text \<open>The ratings a match may start from: the default, one the player has, or one reset for a new season.\<close>

definition own_entries :: "('f, 'z) database_scheme \<Rightarrow> string \<Rightarrow> 'f rating_entry list" where
  "own_entries d pid = filter (\<lambda>e. rg_PlayerID e = pid) (db_ratings d)"

definition may_start :: "'f math64 \<Rightarrow> 'f rating_entry list \<Rightarrow> 'f rating \<Rightarrow> bool" where
  "may_start M own r \<longleftrightarrow> r = gc_DefaultRating (DefaultConfig M)
     \<or> (\<exists>e \<in> set own. r = rating_of e \<or> r = ApplySeasonSoftReset M (rating_of e))"

lemma upsert_rating_others:
  assumes "upsert_rating e d = Inr d'" "rg_PlayerID e \<noteq> q"
  shows "own_entries d' q = own_entries d q"
proof -
  have "filter (\<lambda>e. rg_PlayerID e = q) (map (\<lambda>x. if rating_key x = rating_key e then e else x) es)
      = filter (\<lambda>e. rg_PlayerID e = q) es" for es
    using assms(2) by (induction es) (auto simp: rating_key_def)
  with assms show ?thesis by (auto simp: upsert_rating_def own_entries_def split: if_splits)
qed

lemma getOrCreateRatingTx_others:
  assumes "q \<noteq> pid"
  shows "keeps (\<lambda>d. own_entries d q = es) (getOrCreateRatingTx M D pid season now)"
proof -
  have upsert: "keeps (\<lambda>d. own_entries d q = es) (upsertRatingTx D e)" if "rg_PlayerID e = pid" for e
    unfolding upsertRatingTx_def
    by (rule keeps_exec) (use that assms in \<open>simp add: upsert_rating_others stored_rating_def\<close>)
  show ?thesis
    unfolding getOrCreateRatingTx_def fresh_entry_def getRatingBySeasonTx_def getLatestRatingBeforeSeasonTx_def Let_def
    by (intro keeps_attempt keeps_and_then keeps_if keeps_select keeps_give keeps_fail upsert) simp_all
qed

lemma ensureActiveSeasonTx_entries: "keeps (\<lambda>d. own_entries d q = es) (ensureActiveSeasonTx D uuid now)"
  unfolding ensureActiveSeasonTx_def getActiveSeasonForUpdate_def createNextSeasonTx_def Let_def
  by (intro keeps_attempt keeps_and_then keeps_if keeps_select keeps_give keeps_fail keeps_exec)
    (auto simp: own_entries_def close_season_def insert_season_def split: if_splits)

lemma first_by_Some: "first_by key P rows = Some r \<Longrightarrow> r \<in> set rows \<and> P r"
proof -
  assume "first_by key P rows = Some r"
  then obtain rest where "sort_key (\<lambda>r. - key r) (filter P rows) = r # rest"
    by (auto simp: first_by_def split: list.splits)
  then have "r \<in> set (sort_key (\<lambda>r. - key r) (filter P rows))" by (simp only: list.set_intros(1))
  then show ?thesis by (simp only: set_sort set_filter mem_Collect_eq)
qed

lemma getOrCreateRatingTx_start:
  assumes "getOrCreateRatingTx M D pid season now (d, []) = (Inr e, w')"
  shows "may_start M (own_entries d pid) (rating_of e)"
proof (cases "find (\<lambda>e. rg_PlayerID e = pid \<and> rg_SeasonID e = sa_ID season) (db_ratings d)")
  case (Some e')
  then have "e' \<in> set (own_entries d pid)" by (auto simp: own_entries_def dest: find_SomeD)
  moreover have "e = e'"
    using assms Some by (simp add: getOrCreateRatingTx_def getRatingBySeasonTx_def query_simps)
  ultimately show ?thesis by (auto simp: may_start_def)
next
  case None
  have fresh: "rating_of e = base" if "fresh_entry D pid season now base (d, []) = (Inr e, w')" for base
    using that by (auto simp: fresh_entry_def Let_def give_def rating_of_def dest!: and_then_Inr)
  let ?earlier = "first_by (\<lambda>(e, s). sa_Number s)
    (\<lambda>(e, s). sa_ID s = rg_SeasonID e \<and> rg_PlayerID e = pid \<and> sa_Number s < sa_Number season)
    (List.product (db_ratings d) (db_seasons d))"
  show ?thesis
  proof (cases ?earlier)
    case (Some es)
    obtain e' s where es: "es = (e', s)" by (cases es)
    from first_by_Some [OF Some] es have "e' \<in> set (own_entries d pid)" by (auto simp: own_entries_def)
    moreover have "rating_of e = ApplySeasonSoftReset M (rating_of e')"
      by (rule fresh) (use assms None Some es in \<open>simp add: getOrCreateRatingTx_def getRatingBySeasonTx_def
        getLatestRatingBeforeSeasonTx_def query_simps\<close>)
    ultimately show ?thesis by (auto simp: may_start_def)
  next
    case none: None
    have "rating_of e = gc_DefaultRating (DefaultConfig M)"
      by (rule fresh) (use assms None none in \<open>simp add: getOrCreateRatingTx_def getRatingBySeasonTx_def
        getLatestRatingBeforeSeasonTx_def query_simps\<close>)
    then show ?thesis by (simp add: may_start_def)
  qed
qed

lemma finalize_tx_healthy:
  assumes "params_ok M d p" "archive_ok d" "seasons_ok D d" "timestamps_ok (sd_tz D)" "2000 \<le> sd_seasonDuration D"
    and "sid \<notin> sa_ID ` set (db_seasons d)" "int4 (int (length (db_seasons d)) + 1)"
    and "fm_MatchID p \<notin> mt_ID ` set (db_matches d)" "IsValid M (fst scores)" "IsValid M (snd scores)"
  obtains (recorded) fz d' where "finalize_tx M D rank sid createdAt p scores (d, []) = (Inr fz, (d', []))"
  | (refused) r1 r2 err d' where "finalize_tx M D rank sid createdAt p scores (d, []) = (Inl ErrRankingFailed, (d', []))"
    "may_start M (own_entries d (fm_Player1ID p)) r1" "may_start M (own_entries d (fm_Player2ID p)) r2"
    "rate_players rank r1 r2 scores = Inl err"
proof -
  from ensureActiveSeasonTx_healthy [OF assms(3-7), of "fm_EndedAt p"] obtain season d1 where
    one: "ensureActiveSeasonTx D sid (fm_EndedAt p) (d, []) = (Inr season, (d1, []))"
    and d1: "db_seasons d1 \<noteq> []" "sa_ID (last (db_seasons d1)) = sa_ID season" by blast
  have in1: "sa_ID season \<in> sa_ID ` set (db_seasons d1)" using d1 by (metis image_eqI last_in_set)
  have a1: "archive d1 = archive d"
    using keepsD [OF ensureActiveSeasonTx_archive one, of "archive d"] by simp
  have known: "known_player d (fm_Player1ID p)" "known_player d (fm_Player2ID p)" using assms(1) by (simp_all add: params_ok_def)
  obtain e1 d2 where two: "getOrCreateRatingTx M D (fm_Player1ID p) season (fm_EndedAt p) (d1, []) = (Inr e1, (d2, []))"
    "archive d2 = archive d1" "db_seasons d2 = db_seasons d1" "rating_key e1 = (fm_Player1ID p, sa_ID season)"
    by (rule getOrCreateRatingTx_healthy [of d1 "fm_Player1ID p" season M D "fm_EndedAt p"])
      (use known known_player_archive [OF a1] in1 in simp_all)
  obtain e2 d3 where three: "getOrCreateRatingTx M D (fm_Player2ID p) season (fm_EndedAt p) (d2, []) = (Inr e2, (d3, []))"
    "archive d3 = archive d2" "db_seasons d3 = db_seasons d2" "rating_key e2 = (fm_Player2ID p, sa_ID season)"
    by (rule getOrCreateRatingTx_healthy [of d2 "fm_Player2ID p" season M D "fm_EndedAt p"])
      (use known known_player_archive [OF a1] known_player_archive [OF two(2)] in1 two(3) in simp_all)
  have players: "fm_Player1ID p \<noteq> fm_Player2ID p" using assms(1) by (simp add: params_ok_def)
  have own: "own_entries d1 q = own_entries d q" for q
    using keepsD [OF ensureActiveSeasonTx_entries one, of q "own_entries d q"] by simp
  have own2: "own_entries d2 (fm_Player2ID p) = own_entries d1 (fm_Player2ID p)"
    using keepsD [OF getOrCreateRatingTx_others two(1), of "fm_Player2ID p"] players by simp
  note start = getOrCreateRatingTx_start [OF two(1), unfolded own] getOrCreateRatingTx_start [OF three(1), unfolded own2 own]
  show thesis
  proof (cases "rate_players rank (rating_of e1) (rating_of e2) scores")
    case (Inl err)
    show thesis
      by (rule refused [OF _ start Inl]) (simp add: finalize_tx_def query_simps one two(1) three(1) Inl)
  next
  case (Inr news)
    note rated = this
    have a3: "archive d3 = archive d" using a1 two(2) three(2) by simp
    have ok: "params_ok M d3 p" "archive_ok d3" "fm_MatchID p \<notin> mt_ID ` set (db_matches d3)"
      using assms(1,2,8) archive_ok_cong [OF a3] known_player_archive [OF a3] a3
      by (simp_all add: params_ok_def archive_def)
    have in3: "sa_ID season \<in> sa_ID ` set (db_seasons d3)" using in1 two(3) three(3) by simp
    obtain fz d' where "record_match M D createdAt p season scores (e1, e2) news (d3, []) = (Inr fz, (d', []))"
      by (rule record_match_healthy [OF ok(1,2) assms(4) in3 ok(3) assms(9,10), of "(e1, e2)"])
        (simp_all add: two(4) three(4))
    then show thesis
      by (intro recorded) (simp add: finalize_tx_def query_simps one two(1) three(1) rated)
  qed
qed

lemma FinalizeMatch_healthy:
  assumes "params_ok M d p" "archive_ok d" "seasons_ok D d" "timestamps_ok (sd_tz D)" "2000 \<le> sd_seasonDuration D" "sd_pool D"
    and "sid \<notin> sa_ID ` set (db_seasons d)" "int4 (int (length (db_seasons d)) + 1)"
    and "match_id p mid \<notin> mt_ID ` set (db_matches d)" "scores_valid M"
  obtains (recorded) fz d' where "FinalizeMatch M D rank sid mid clock p (d, []) = (Inr fz, (d', []))"
  | (refused) r1 r2 scores err where "FinalizeMatch M D rank sid mid clock p (d, []) = (Inl ErrRankingFailed, (d, []))"
    "may_start M (own_entries d (fm_Player1ID p)) r1" "may_start M (own_entries d (fm_Player2ID p)) r2"
    "scoresForResult M p = Inr scores" "rate_players rank r1 r2 scores = Inl err"
proof -
  let ?p = "p\<lparr>fm_MatchID := match_id p mid\<rparr>"
  obtain scores where scores: "scoresForResult M ?p = Inr scores" using assms(1) by (auto simp: params_ok_def)
  have valid: "IsValid M (fst scores)" "IsValid M (snd scores)"
    using scoresForResult_Inr(1) [OF scores] assms(10) by (auto simp: scores_valid_def)
  have ok: "params_ok M d ?p" "fm_MatchID ?p \<notin> mt_ID ` set (db_matches d)" using assms(1,9) by (simp_all add: params_ok_def)
  have id: "(if fm_MatchID p = [] then p\<lparr>fm_MatchID := mid\<rparr> else p) = ?p"
    by (cases p) (simp add: match_id_def)
  from assms(1) scores have run: "FinalizeMatch M D rank sid mid clock p (d, [])
      = transaction (finalize_tx M D rank sid clock ?p scores) (d, [])"
    unfolding FinalizeMatch_def Let_def id with_pool_def
    by (simp add: assms(6) params_ok_def IsZero_def not_less)
  have scores': "scoresForResult M p = Inr scores" using scores by simp
  show thesis
  proof (rule finalize_tx_healthy [OF ok(1) assms(2-5,7,8) ok(2) valid, of rank clock])
    fix fz d'
    assume "finalize_tx M D rank sid clock ?p scores (d, []) = (Inr fz, (d', []))"
    with run show thesis by (intro recorded) (simp add: transaction_def)
  next
    fix r1 r2 err d'
    assume "finalize_tx M D rank sid clock ?p scores (d, []) = (Inl ErrRankingFailed, (d', []))"
      and r: "may_start M (own_entries d (fm_Player1ID ?p)) r1" "may_start M (own_entries d (fm_Player2ID ?p)) r2"
        "rate_players rank r1 r2 scores = Inl err"
    with run have "FinalizeMatch M D rank sid mid clock p (d, []) = (Inl ErrRankingFailed, (d, []))"
      by (simp add: transaction_def)
    from refused [OF this _ _ scores' r(3)] r(1,2) show thesis by simp
  qed
qed

end
