(* ===== verification/EventStore.thy ===== *)
theory EventStore
  imports Session Archive
begin

text \<open>
  The telemetry tables: the statements of \<^verbatim>\<open>internal/storage/repositories_m5.go\<close> on the tables of the
  migrations 0003 and 0004, and the writer of \<^verbatim>\<open>internal/telemetry/sql_writer.go\<close> in front of them.

  The database of theory Database is extended by the tables, with their keys, references and checks. An
  event is the record the session or the service makes, extended by its identifier and its time; its row
  holds the detail as JSON. The theorems are about the events of a session: which of them the tables take.
\<close>

section \<open>Tables\<close>

record session_telemetry_event = session_event +
  xs_ID :: string
  xs_CreatedAt :: time

record queue_telemetry_event =
  xq_ID :: string
  xq_PlayerID :: string
  xq_EventType :: string
  xq_QueueWaitMS :: int
  xq_CreatedAt :: time

record spectator_telemetry_event = spectator_event +
  xw_ID :: string
  xw_CreatedAt :: time

record navigation_telemetry_event = shell_navigation +
  xn_ID :: string
  xn_CreatedAt :: time

record turn_telemetry = match_turn_telemetry +
  xt_CreatedAt :: time

record 'f summary_telemetry = "'f match_summary_telemetry" +
  xm_CreatedAt :: time

record 'f stored_flag = "'f anti_bot_flag" +
  xf_ID :: string
  xf_CreatedAt :: time

text \<open>A row whose detail is stored next to it as JSON.\<close>

type_synonym 'e detailed = "'e \<times> json"

record 'f event_database = "'f database" +
  dt_turns :: "turn_telemetry list"
  dt_summaries :: "'f summary_telemetry list"
  dt_config :: "(string \<times> 'f option) list"
  dt_flags :: "'f stored_flag list"
  dt_sessions :: "session_telemetry_event detailed list"
  dt_queue :: "queue_telemetry_event list"
  dt_spectators :: "spectator_telemetry_event detailed list"
  dt_navigation :: "navigation_telemetry_event detailed list"

text \<open>\<^verbatim>\<open>json.Marshal\<close> of a detail writes the keys in order. A missing detail is the empty one.\<close>

fun marshal_value :: "detail_value \<Rightarrow> json" where
  "marshal_value (DetailText s) = JString (json_text s)"
| "marshal_value (DetailInt i) = JInt i"
| "marshal_value (DetailBool b) = JBool b"

definition marshalDetail :: "detail \<Rightarrow> json" where
  "marshalDetail detail = JObject (map (\<lambda>(key, v). (json_text key, marshal_value v)) (sort_key fst detail))"

fun source_name :: "navigation_source \<Rightarrow> string" where
  "source_name NavigationSourceSystem = ''system''"
| "source_name NavigationSourceCommand = ''command''"
| "source_name NavigationSourceMenu = ''menu''"

definition queue_event_types :: "string list" where
  "queue_event_types = [''join'', ''leave'', ''timeout'', ''matched'']"

definition spectator_event_types :: "string list" where
  "spectator_event_types = [''watch_requested'', ''watch_attached'', ''watch_timeout'', ''watch_ended'', ''watch_rejected'']"

definition navigation_states :: "string list" where
  "navigation_states = [''tutorial'', ''lobby'', ''queue'', ''match'', ''spectator'']"

definition navigation_event_types :: "string list" where
  "navigation_event_types = [''session_started'', ''menu_shown'', ''menu_selected'', ''status_shown'', ''help_shown'',
     ''command_invalid'', ''queue_joined'', ''queue_left'', ''queue_matched'', ''tutorial_started'', ''tutorial_completed'',
     ''practice_started'', ''pvp_started'']"

definition known_match :: "('f, 'z) database_scheme \<Rightarrow> string \<Rightarrow> bool" where
  "known_match d m \<longleftrightarrow> m \<in> mt_ID ` set (db_matches d)"

definition known_season :: "('f, 'z) database_scheme \<Rightarrow> string \<Rightarrow> bool" where
  "known_season d s \<longleftrightarrow> s \<in> sa_ID ` set (db_seasons d)"

text \<open>A reference that may be missing.\<close>

definition refers :: "(string \<Rightarrow> bool) \<Rightarrow> string option \<Rightarrow> bool" where
  "refers known r = (case r of None \<Rightarrow> True | Some x \<Rightarrow> known x)"

definition count4 :: "int \<Rightarrow> bool" where
  "count4 v \<longleftrightarrow> int4 v \<and> 0 \<le> v"

definition count8 :: "int \<Rightarrow> bool" where
  "count8 v \<longleftrightarrow> int64_ok v \<and> 0 \<le> v"

section \<open>Statements\<close>

definition insert_session_event :: "session_telemetry_event \<Rightarrow> json \<Rightarrow> ('f, 'z) event_database_scheme
    \<Rightarrow> store_error + ('f, 'z) event_database_scheme" where
  "insert_session_event ev js d =
     (if xs_ID ev \<in> (xs_ID \<circ> fst) ` set (dt_sessions d) then Inl (ErrUniqueViolation ''telemetry_session_events_pkey'')
      else if \<not> refers (known_player d) (sv_PlayerID ev) then Inl (ErrForeignKey ''player_id'')
      else Inr (d\<lparr>dt_sessions := dt_sessions d @ [(ev, js)]\<rparr>))"

definition insert_queue_event :: "queue_telemetry_event \<Rightarrow> ('f, 'z) event_database_scheme
    \<Rightarrow> store_error + ('f, 'z) event_database_scheme" where
  "insert_queue_event ev d =
     (if xq_ID ev \<in> xq_ID ` set (dt_queue d) then Inl (ErrUniqueViolation ''telemetry_queue_events_pkey'')
      else if \<not> known_player d (xq_PlayerID ev) then Inl (ErrForeignKey ''player_id'')
      else if xq_EventType ev \<notin> set queue_event_types then Inl (ErrCheckFailed ''event_type'')
      else if \<not> count8 (xq_QueueWaitMS ev) then Inl (ErrCheckFailed ''queue_wait_ms'')
      else Inr (d\<lparr>dt_queue := dt_queue d @ [ev]\<rparr>))"

definition insert_spectator_event :: "spectator_telemetry_event \<Rightarrow> json \<Rightarrow> ('f, 'z) event_database_scheme
    \<Rightarrow> store_error + ('f, 'z) event_database_scheme" where
  "insert_spectator_event ev js d =
     (if xw_ID ev \<in> (xw_ID \<circ> fst) ` set (dt_spectators d) then Inl (ErrUniqueViolation ''telemetry_spectator_events_pkey'')
      else if \<not> known_player d (sp_SpectatorPlayerID ev) then Inl (ErrForeignKey ''spectator_player_id'')
      else if \<not> known_player d (sp_TargetPlayerID ev) then Inl (ErrForeignKey ''target_player_id'')
      else if \<not> refers (known_match d) (sp_MatchID ev) then Inl (ErrForeignKey ''match_id'')
      else if sp_EventType ev \<notin> set spectator_event_types then Inl (ErrCheckFailed ''event_type'')
      else if \<not> count8 (sp_WaitMS ev) then Inl (ErrCheckFailed ''wait_ms'')
      else Inr (d\<lparr>dt_spectators := dt_spectators d @ [(ev, js)]\<rparr>))"

definition insert_navigation_event :: "navigation_telemetry_event \<Rightarrow> json \<Rightarrow> ('f, 'z) event_database_scheme
    \<Rightarrow> store_error + ('f, 'z) event_database_scheme" where
  "insert_navigation_event ev js d =
     (if xn_ID ev \<in> (xn_ID \<circ> fst) ` set (dt_navigation d) then Inl (ErrUniqueViolation ''telemetry_navigation_events_pkey'')
      else if \<not> known_player d (sn_PlayerID ev) then Inl (ErrForeignKey ''player_id'')
      else if state_name (sn_State ev) \<notin> set navigation_states then Inl (ErrCheckFailed ''state'')
      else if sn_EventType ev \<notin> set navigation_event_types then Inl (ErrCheckFailed ''event_type'')
      else Inr (d\<lparr>dt_navigation := dt_navigation d @ [(ev, js)]\<rparr>))"

definition turn_key :: "turn_telemetry \<Rightarrow> string \<times> int \<times> string" where
  "turn_key row = (mtt_MatchID row, mtt_Turn row, mtt_PlayerID row)"

definition insert_turn :: "turn_telemetry \<Rightarrow> ('f, 'z) event_database_scheme
    \<Rightarrow> store_error + ('f, 'z) event_database_scheme" where
  "insert_turn row d =
     (if turn_key row \<in> turn_key ` set (dt_turns d) then Inl (ErrUniqueViolation ''telemetry_match_turns_pkey'')
      else if \<not> known_match d (mtt_MatchID row) then Inl (ErrForeignKey ''match_id'')
      else if \<not> known_player d (mtt_PlayerID row) then Inl (ErrForeignKey ''player_id'')
      else if \<not> int4 (mtt_Turn row) \<or> mtt_Turn row \<le> 0 then Inl (ErrCheckFailed ''turn'')
      else if \<not> count4 (mtt_DecisionMS row) then Inl (ErrCheckFailed ''decision_ms'')
      else if \<not> list_all int4 [mtt_HPBefore row, mtt_HPAfter row, mtt_StaminaBefore row, mtt_StaminaAfter row,
          mtt_MomentumBefore row, mtt_MomentumAfter row] then Inl (ErrCheckFailed ''integer'')
      else Inr (d\<lparr>dt_turns := dt_turns d @ [row]\<rparr>))"

definition summary_counts :: "('f, 'z) summary_telemetry_scheme \<Rightarrow> int list" where
  "summary_counts s = [su_TurnCount s, su_DurationMS s, su_MaxComboP1 s, su_MaxComboP2 s, su_StunEvents s,
     su_SubmissionAttempts s]"

definition upsert_summary :: "'f summary_telemetry \<Rightarrow> ('f, 'z) event_database_scheme
    \<Rightarrow> store_error + ('f, 'z) event_database_scheme" where
  "upsert_summary s d =
     (if \<not> known_match d (su_MatchID s) then Inl (ErrForeignKey ''match_id'')
      else if \<not> known_season d (su_SeasonID s) then Inl (ErrForeignKey ''season_id'')
      else if \<not> known_player d (su_Player1ID s) then Inl (ErrForeignKey ''player1_id'')
      else if \<not> known_player d (su_Player2ID s) then Inl (ErrForeignKey ''player2_id'')
      else if \<not> refers (known_player d) (su_WinnerID s) then Inl (ErrForeignKey ''winner_id'')
      else if \<not> list_all count4 (summary_counts s) then Inl (ErrCheckFailed ''count'')
      else if \<not> list_all count8 [su_QueueWaitMSP1 s, su_QueueWaitMSP2 s] then Inl (ErrCheckFailed ''queue_wait_ms'')
      else if su_MatchID s \<in> su_MatchID ` set (dt_summaries d)
        then Inr (d\<lparr>dt_summaries := map (\<lambda>q. if su_MatchID q = su_MatchID s then s else q) (dt_summaries d)\<rparr>)
      else Inr (d\<lparr>dt_summaries := dt_summaries d @ [s]\<rparr>))"

definition insert_flag :: "'f stored_flag \<Rightarrow> ('f, 'z) event_database_scheme
    \<Rightarrow> store_error + ('f, 'z) event_database_scheme" where
  "insert_flag fl d =
     (if xf_ID fl \<in> xf_ID ` set (dt_flags d) then Inl (ErrUniqueViolation ''anti_bot_flags_pkey'')
      else if \<not> known_player d (ab_PlayerID fl) then Inl (ErrForeignKey ''player_id'')
      else if \<not> known_season d (ab_SeasonID fl) then Inl (ErrForeignKey ''season_id'')
      else if \<not> known_match d (ab_MatchID fl) then Inl (ErrForeignKey ''match_id'')
      else if \<not> count4 (am_DecisionCount (ae_Metrics (ab_Evaluation fl))) then Inl (ErrCheckFailed ''decision_count'')
      else Inr (d\<lparr>dt_flags := dt_flags d @ [fl]\<rparr>))"

section \<open>Repository operations\<close>

text \<open>An identifier or a time that is missing is filled in.\<close>

definition or_uuid :: "string \<Rightarrow> string \<Rightarrow> string" where
  "or_uuid uuid eid = (if eid = [] then uuid else eid)"

definition or_now :: "time \<Rightarrow> time \<Rightarrow> time" where
  "or_now clock t = (if IsZero t then clock else t)"

definition CreateSessionTelemetryEvent :: "store_deps \<Rightarrow> time \<Rightarrow> string \<Rightarrow> session_telemetry_event
    \<Rightarrow> (('f, 'z) event_database_scheme, session_telemetry_event) query" where
  "CreateSessionTelemetryEvent D clock uuid ev = with_pool D
     (if sv_Handle ev = [] \<or> sv_RemoteAddrHash ev = [] \<or> sv_EventType ev = []
      then fail (ErrRequiredField ''handle, remote addr hash and event type'')
      else let ev = ev\<lparr>xs_ID := or_uuid uuid (xs_ID ev), xs_CreatedAt := or_now clock (xs_CreatedAt ev)\<rparr>
        in and_then (exec (insert_session_event (ev\<lparr>xs_CreatedAt := sd_tz D (xs_CreatedAt ev)\<rparr>)
            (marshalDetail (sv_Detail ev)))) (\<lambda>_. give ev))"

definition CreateQueueTelemetryEvent :: "store_deps \<Rightarrow> time \<Rightarrow> string \<Rightarrow> queue_telemetry_event
    \<Rightarrow> (('f, 'z) event_database_scheme, queue_telemetry_event) query" where
  "CreateQueueTelemetryEvent D clock uuid ev = with_pool D
     (if xq_PlayerID ev = [] \<or> xq_EventType ev = [] then fail (ErrRequiredField ''player id and event type'')
      else let ev = ev\<lparr>xq_ID := or_uuid uuid (xq_ID ev), xq_CreatedAt := or_now clock (xq_CreatedAt ev)\<rparr>
        in and_then (exec (insert_queue_event (ev\<lparr>xq_CreatedAt := sd_tz D (xq_CreatedAt ev)\<rparr>))) (\<lambda>_. give ev))"

definition CreateSpectatorTelemetryEvent :: "store_deps \<Rightarrow> time \<Rightarrow> string \<Rightarrow> spectator_telemetry_event
    \<Rightarrow> (('f, 'z) event_database_scheme, spectator_telemetry_event) query" where
  "CreateSpectatorTelemetryEvent D clock uuid ev = with_pool D
     (if sp_SpectatorPlayerID ev = [] \<or> sp_TargetPlayerID ev = [] \<or> sp_EventType ev = []
      then fail (ErrRequiredField ''spectator id, target id and event type'')
      else let ev = ev\<lparr>xw_ID := or_uuid uuid (xw_ID ev), xw_CreatedAt := or_now clock (xw_CreatedAt ev)\<rparr>
        in and_then (exec (insert_spectator_event (ev\<lparr>xw_CreatedAt := sd_tz D (xw_CreatedAt ev)\<rparr>)
            (marshalDetail (sp_Detail ev)))) (\<lambda>_. give ev))"

definition CreateNavigationTelemetryEvent :: "store_deps \<Rightarrow> time \<Rightarrow> string \<Rightarrow> navigation_telemetry_event
    \<Rightarrow> (('f, 'z) event_database_scheme, navigation_telemetry_event) query" where
  "CreateNavigationTelemetryEvent D clock uuid ev = with_pool D
     (if sn_PlayerID ev = [] then fail (ErrRequiredField ''player id'')
      else if state_name (sn_State ev) = [] \<or> sn_EventType ev = [] \<or> source_name (sn_Source ev) = []
      then fail (ErrRequiredField ''state, event type and source'')
      else let ev = ev\<lparr>xn_ID := or_uuid uuid (xn_ID ev), xn_CreatedAt := or_now clock (xn_CreatedAt ev)\<rparr>
        in and_then (exec (insert_navigation_event (ev\<lparr>xn_CreatedAt := sd_tz D (xn_CreatedAt ev)\<rparr>)
            (marshalDetail (sn_Detail ev)))) (\<lambda>_. give ev))"

text \<open>One row of the batch: a row that is not valid ends the transaction.\<close>

definition insert_batch_row :: "store_deps \<Rightarrow> time \<Rightarrow> turn_telemetry \<Rightarrow> (('f, 'z) event_database_scheme, unit) query" where
  "insert_batch_row D clock row =
     (if mtt_MatchID row = [] \<or> mtt_PlayerID row = [] \<or> mtt_Turn row \<le> 0 then fail (ErrInvalidField ''turn telemetry row'')
      else exec (insert_turn (row\<lparr>xt_CreatedAt := sd_tz D (or_now clock (xt_CreatedAt row))\<rparr>)))"

definition InsertTurnTelemetryBatch :: "store_deps \<Rightarrow> time \<Rightarrow> turn_telemetry list
    \<Rightarrow> (('f, 'z) event_database_scheme, unit) query" where
  "InsertTurnTelemetryBatch D clock rows = with_pool D
     (if rows = [] then give () else transaction (do_all (map (insert_batch_row D clock) rows)))"

definition InsertMatchSummaryTelemetry :: "store_deps \<Rightarrow> time \<Rightarrow> 'f summary_telemetry
    \<Rightarrow> (('f, 'z) event_database_scheme, 'f summary_telemetry) query" where
  "InsertMatchSummaryTelemetry D clock s = with_pool D
     (if su_MatchID s = [] \<or> su_SeasonID s = [] \<or> su_Player1ID s = [] \<or> su_Player2ID s = []
      then fail (ErrRequiredField ''match_id, season_id and player ids'')
      else let s = s\<lparr>xm_CreatedAt := or_now clock (xm_CreatedAt s)\<rparr>
        in and_then (exec (upsert_summary (s\<lparr>xm_CreatedAt := sd_tz D (xm_CreatedAt s)\<rparr>))) (\<lambda>_. give s))"

definition CreateAntiBotFlag :: "store_deps \<Rightarrow> time \<Rightarrow> string \<Rightarrow> 'f stored_flag
    \<Rightarrow> (('f, 'z) event_database_scheme, 'f stored_flag) query" where
  "CreateAntiBotFlag D clock uuid fl = with_pool D
     (if ab_PlayerID fl = [] \<or> ab_SeasonID fl = [] \<or> ab_MatchID fl = []
      then fail (ErrRequiredField ''player_id, season_id and match_id'')
      else let fl = fl\<lparr>xf_ID := or_uuid uuid (xf_ID fl), xf_CreatedAt := or_now clock (xf_CreatedAt fl)\<rparr>
        in and_then (exec (insert_flag (fl\<lparr>xf_CreatedAt := sd_tz D (xf_CreatedAt fl)\<rparr>))) (\<lambda>_. give fl))"

text \<open>\<open>trunc\<close> is the conversion of a \<^verbatim>\<open>float64\<close> to \<^verbatim>\<open>int\<close>.\<close>

definition config_row :: "'f math64 \<Rightarrow> ('f \<Rightarrow> int) \<Rightarrow> string \<times> 'f option \<Rightarrow> 'f anti_bot_config \<Rightarrow> 'f anti_bot_config" where
  "config_row M trunc row cfg = (case row of (key, r) \<Rightarrow> (case r of
       None \<Rightarrow> cfg
     | Some v \<Rightarrow>
         if f_is_nan M v \<or> f_is_inf M v then cfg
         else if key = ''min_decisions'' then cfg\<lparr>ac_MinDecisions := trunc v\<rparr>
         else if key = ''max_mean_decision_ms'' then cfg\<lparr>ac_MaxMeanDecisionMS := v\<rparr>
         else if key = ''min_decision_variance_ms2'' then cfg\<lparr>ac_MinDecisionVarianceMS2 := v\<rparr>
         else if key = ''min_optimal_pick_rate'' then cfg\<lparr>ac_MinOptimalPickRate := v\<rparr>
         else if key = ''suspicion_score_threshold'' then cfg\<lparr>ac_SuspicionScoreThreshold := v\<rparr>
         else if key = ''optimality_epsilon'' then cfg\<lparr>ac_OptimalityEpsilon := v\<rparr>
         else cfg))"

definition LoadAntiBotConfig :: "'f math64 \<Rightarrow> ('f \<Rightarrow> int) \<Rightarrow> store_deps
    \<Rightarrow> (('f, 'z) event_database_scheme, 'f anti_bot_config) query" where
  "LoadAntiBotConfig M trunc D = with_pool D (and_then (select_row (\<lambda>d. Inr (dt_config d)))
     (\<lambda>rows. give (fold (config_row M trunc) rows (DefaultAntiBotConfig (float64.truncate M)))))"

text \<open>The rows that the migration inserts are the defaults of the code.\<close>

definition migrated_config :: "'f math64 \<Rightarrow> (string \<times> 'f option) list" where
  "migrated_config M = [(''min_decisions'', Some (f_lit M 12 1)), (''max_mean_decision_ms'', Some (f_lit M 180 1)),
     (''min_decision_variance_ms2'', Some (f_lit M 2500 1)), (''min_optimal_pick_rate'', Some (f_lit M 82 100)),
     (''suspicion_score_threshold'', Some (f_lit M 75 100)), (''optimality_epsilon'', Some (f_lit M 5 100))]"

lemma LoadAntiBotConfig_migrated:
  assumes "sd_pool D" "dt_config d = migrated_config M" "trunc (f_lit M 12 1) = 12"
    and "\<And>p q. \<not> f_is_nan M (f_lit M p q) \<and> \<not> f_is_inf M (f_lit M p q)"
  shows "LoadAntiBotConfig M trunc D (d, []) = (Inr (DefaultAntiBotConfig (float64.truncate M)), (d, []))"
  using assms
  by (simp add: LoadAntiBotConfig_def with_pool_def query_simps migrated_config_def config_row_def DefaultAntiBotConfig_def
      float64.defs)

section \<open>The writer\<close>

text \<open>The interface \<^verbatim>\<open>sqlWriterStore\<close>, and the repositories as its implementation.\<close>

record ('d, 'f) writer_store =
  ws_session :: "session_telemetry_event \<Rightarrow> ('d, session_telemetry_event) query"
  ws_queue :: "queue_telemetry_event \<Rightarrow> ('d, queue_telemetry_event) query"
  ws_spectator :: "spectator_telemetry_event \<Rightarrow> ('d, spectator_telemetry_event) query"
  ws_navigation :: "navigation_telemetry_event \<Rightarrow> ('d, navigation_telemetry_event) query"
  ws_turns :: "turn_telemetry list \<Rightarrow> ('d, unit) query"
  ws_summary :: "'f summary_telemetry \<Rightarrow> ('d, 'f summary_telemetry) query"
  ws_flag :: "'f stored_flag \<Rightarrow> ('d, 'f stored_flag) query"

definition repositories_store :: "store_deps \<Rightarrow> time \<Rightarrow> string \<Rightarrow> (('f, 'z) event_database_scheme, 'f) writer_store" where
  "repositories_store D clock uuid = \<lparr>ws_session = CreateSessionTelemetryEvent D clock uuid,
     ws_queue = CreateQueueTelemetryEvent D clock uuid, ws_spectator = CreateSpectatorTelemetryEvent D clock uuid,
     ws_navigation = CreateNavigationTelemetryEvent D clock uuid, ws_turns = InsertTurnTelemetryBatch D clock,
     ws_summary = InsertMatchSummaryTelemetry D clock, ws_flag = CreateAntiBotFlag D clock uuid\<rparr>"

definition without_result :: "('d, 'a) query \<Rightarrow> ('d, unit) query" where
  "without_result m = and_then m (\<lambda>_. give ())"

text \<open>Without a store the writer does nothing.\<close>

definition RecordSessionEvent :: "('d, 'f) writer_store option \<Rightarrow> session_telemetry_event \<Rightarrow> ('d, unit) query" where
  "RecordSessionEvent w ev = (case w of None \<Rightarrow> give () | Some store \<Rightarrow> without_result (ws_session store ev))"

definition RecordQueueEvent :: "('d, 'f) writer_store option \<Rightarrow> queue_telemetry_event \<Rightarrow> ('d, unit) query" where
  "RecordQueueEvent w ev = (case w of None \<Rightarrow> give () | Some store \<Rightarrow> without_result (ws_queue store ev))"

definition RecordSpectatorEvent :: "('d, 'f) writer_store option \<Rightarrow> spectator_telemetry_event \<Rightarrow> ('d, unit) query" where
  "RecordSpectatorEvent w ev = (case w of None \<Rightarrow> give () | Some store \<Rightarrow> without_result (ws_spectator store ev))"

definition RecordNavigationEvent :: "('d, 'f) writer_store option \<Rightarrow> navigation_telemetry_event \<Rightarrow> ('d, unit) query" where
  "RecordNavigationEvent w ev = (case w of None \<Rightarrow> give () | Some store \<Rightarrow> without_result (ws_navigation store ev))"

definition PersistMatchTurnBatch :: "('d, 'f) writer_store option \<Rightarrow> turn_telemetry list \<Rightarrow> ('d, unit) query" where
  "PersistMatchTurnBatch w rows = (case w of None \<Rightarrow> give () | Some store \<Rightarrow> ws_turns store rows)"

definition PersistMatchSummary :: "('d, 'f) writer_store option \<Rightarrow> 'f summary_telemetry \<Rightarrow> ('d, unit) query" where
  "PersistMatchSummary w s = (case w of None \<Rightarrow> give () | Some store \<Rightarrow> without_result (ws_summary store s))"

definition RecordAntiBotFlag :: "('d, 'f) writer_store option \<Rightarrow> 'f stored_flag \<Rightarrow> ('d, unit) query" where
  "RecordAntiBotFlag w fl = (case w of None \<Rightarrow> give () | Some store \<Rightarrow> without_result (ws_flag store fl))"

section \<open>What the writer keeps\<close>

text \<open>
  The contract between the writer and its store: the operations keep an invariant of the database,
  whatever the connection does. Then the writer keeps it, whatever it is asked to write.
\<close>

datatype 'f writer_call = WriteSession session_telemetry_event | WriteQueue queue_telemetry_event
  | WriteSpectator spectator_telemetry_event | WriteNavigation navigation_telemetry_event
  | WriteTurns "turn_telemetry list" | WriteSummary "'f summary_telemetry" | WriteFlag "'f stored_flag"

fun writer_query :: "('d, 'f) writer_store option \<Rightarrow> 'f writer_call \<Rightarrow> ('d, unit) query" where
  "writer_query w (WriteSession ev) = RecordSessionEvent w ev"
| "writer_query w (WriteQueue ev) = RecordQueueEvent w ev"
| "writer_query w (WriteSpectator ev) = RecordSpectatorEvent w ev"
| "writer_query w (WriteNavigation ev) = RecordNavigationEvent w ev"
| "writer_query w (WriteTurns rows) = PersistMatchTurnBatch w rows"
| "writer_query w (WriteSummary s) = PersistMatchSummary w s"
| "writer_query w (WriteFlag fl) = RecordAntiBotFlag w fl"

locale telemetry_store =
  fixes store :: "('d, 'f) writer_store" and I :: "'d \<Rightarrow> bool"
  assumes session_keeps: "keeps I (ws_session store ev)"
    and queue_keeps: "keeps I (ws_queue store qev)"
    and spectator_keeps: "keeps I (ws_spectator store wev)"
    and navigation_keeps: "keeps I (ws_navigation store nev)"
    and turns_keep: "keeps I (ws_turns store rows)"
    and summary_keeps: "keeps I (ws_summary store s)"
    and flag_keeps: "keeps I (ws_flag store fl)"
begin

lemma without_result_keeps: "keeps I m \<Longrightarrow> keeps I (without_result m)"
  unfolding without_result_def by (intro wf_intros)

lemma writer_keeps: "keeps I (writer_query (Some store) c)"
  by (cases c) (simp_all add: RecordSessionEvent_def RecordQueueEvent_def RecordSpectatorEvent_def RecordNavigationEvent_def
      PersistMatchTurnBatch_def PersistMatchSummary_def RecordAntiBotFlag_def without_result_keeps session_keeps queue_keeps
      spectator_keeps navigation_keeps turns_keep summary_keeps flag_keeps)

end

text \<open>The tables of the game, which the telemetry only refers to.\<close>

definition game_tables :: "('f, 'z) database_scheme \<Rightarrow> 'f database" where
  "game_tables d = \<lparr>db_players = db_players d, db_profiles = db_profiles d, db_tutorial_runs = db_tutorial_runs d,
     db_seasons = db_seasons d, db_ratings = db_ratings d, db_matches = db_matches d, db_results = db_results d,
     db_replays = db_replays d, db_replay_turns = db_replay_turns d\<rparr>"

lemma event_inserts_game_tables:
  "insert_session_event ev js d = Inr d' \<Longrightarrow> game_tables d' = game_tables d"
  "insert_queue_event qev d = Inr d' \<Longrightarrow> game_tables d' = game_tables d"
  "insert_spectator_event wev js d = Inr d' \<Longrightarrow> game_tables d' = game_tables d"
  "insert_navigation_event nev js d = Inr d' \<Longrightarrow> game_tables d' = game_tables d"
  "insert_turn row d = Inr d' \<Longrightarrow> game_tables d' = game_tables d"
  "upsert_summary s d = Inr d' \<Longrightarrow> game_tables d' = game_tables d"
  "insert_flag fl d = Inr d' \<Longrightarrow> game_tables d' = game_tables d"
  by (auto simp: insert_session_event_def insert_queue_event_def insert_spectator_event_def insert_navigation_event_def
      insert_turn_def upsert_summary_def insert_flag_def game_tables_def split: if_splits)

interpretation telemetry: telemetry_store "repositories_store D clock uuid" "\<lambda>d. game_tables d = g"
proof
  have row: "keeps (\<lambda>d. game_tables d = g) (insert_batch_row D clock row)" for row
    unfolding insert_batch_row_def by (intro wf_intros) (simp add: event_inserts_game_tables)
  show "keeps (\<lambda>d. game_tables d = g) (ws_session (repositories_store D clock uuid) ev)" for ev
    unfolding repositories_store_def CreateSessionTelemetryEvent_def Let_def writer_store.simps
    by (intro wf_intros) (simp add: event_inserts_game_tables)
  show "keeps (\<lambda>d. game_tables d = g) (ws_queue (repositories_store D clock uuid) qev)" for qev
    unfolding repositories_store_def CreateQueueTelemetryEvent_def Let_def writer_store.simps
    by (intro wf_intros) (simp add: event_inserts_game_tables)
  show "keeps (\<lambda>d. game_tables d = g) (ws_spectator (repositories_store D clock uuid) wev)" for wev
    unfolding repositories_store_def CreateSpectatorTelemetryEvent_def Let_def writer_store.simps
    by (intro wf_intros) (simp add: event_inserts_game_tables)
  show "keeps (\<lambda>d. game_tables d = g) (ws_navigation (repositories_store D clock uuid) nev)" for nev
    unfolding repositories_store_def CreateNavigationTelemetryEvent_def Let_def writer_store.simps
    by (intro wf_intros) (simp add: event_inserts_game_tables)
  show "keeps (\<lambda>d. game_tables d = g) (ws_turns (repositories_store D clock uuid) rows)" for rows
    unfolding repositories_store_def InsertTurnTelemetryBatch_def writer_store.simps
    by (intro wf_intros) (use row in auto)
  show "keeps (\<lambda>d. game_tables d = g) (ws_summary (repositories_store D clock uuid) s)" for s
    unfolding repositories_store_def InsertMatchSummaryTelemetry_def Let_def writer_store.simps
    by (intro wf_intros) (simp add: event_inserts_game_tables)
  show "keeps (\<lambda>d. game_tables d = g) (ws_flag (repositories_store D clock uuid) fl)" for fl
    unfolding repositories_store_def CreateAntiBotFlag_def Let_def writer_store.simps
    by (intro wf_intros) (simp add: event_inserts_game_tables)
qed

text \<open>Whatever the server records, over whatever connection, the game's own tables stay as they are.\<close>

lemma telemetry_leaves_the_game_alone:
  assumes "writer_query (Some (repositories_store D clock uuid)) c (d, rs) = (res, (d', rs'))"
  shows "game_tables d' = game_tables d"
  by (rule keepsD [OF telemetry.writer_keeps assms]) simp

section \<open>The events of a session\<close>

text \<open>
  Identifier and time of a new event are missing. The server hands its own events to the writer, the
  matchmaker gives its events to the store.
\<close>

definition new_session_event :: "session_event \<Rightarrow> session_telemetry_event" where
  "new_session_event ev = session_event.extend ev \<lparr>xs_ID = [], xs_CreatedAt = 0\<rparr>"

definition new_navigation_event :: "shell_navigation \<Rightarrow> navigation_telemetry_event" where
  "new_navigation_event ev = shell_navigation.extend ev \<lparr>xn_ID = [], xn_CreatedAt = 0\<rparr>"

definition new_spectator_event :: "spectator_event \<Rightarrow> spectator_telemetry_event" where
  "new_spectator_event ev = spectator_event.extend ev \<lparr>xw_ID = [], xw_CreatedAt = 0\<rparr>"

definition new_queue_event :: "string \<Rightarrow> string \<Rightarrow> int \<Rightarrow> queue_telemetry_event" where
  "new_queue_event playerID kind wait = \<lparr>xq_ID = [], xq_PlayerID = playerID, xq_EventType = kind,
     xq_QueueWaitMS = wait, xq_CreatedAt = 0\<rparr>"

definition service_navigation :: "string \<Rightarrow> string \<Rightarrow> string \<Rightarrow> detail \<Rightarrow> shell_navigation" where
  "service_navigation playerID state kind detail = \<lparr>sn_PlayerID = playerID, sn_SessionID = None,
     sn_State = NavigationStateOther state, sn_EventType = kind, sn_Source = NavigationSourceSystem, sn_OptionKey = None,
     sn_Detail = detail\<rparr>"

text \<open>The statement an output of a session stands for, if it is an event.\<close>

fun event_query :: "('d, 'f) writer_store \<Rightarrow> 'g shell_output \<Rightarrow> ('d, unit) query option" where
  "event_query store (SessionRecorded ev) = Some (RecordSessionEvent (Some store) (new_session_event ev))"
| "event_query store (NavigationRecorded ev) = Some (RecordNavigationEvent (Some store) (new_navigation_event ev))"
| "event_query store (Matchmaker (QueueEvent pid kind wait)) =
     Some (without_result (ws_queue store (new_queue_event pid kind wait)))"
| "event_query store (Matchmaker (NavEvent pid state kind detail)) =
     Some (without_result (ws_navigation store (new_navigation_event (service_navigation pid state kind detail))))"
| "event_query store (Watcher (SpectatorRecorded ev)) =
     Some (without_result (ws_spectator store (new_spectator_event ev)))"
| "event_query store _ = None"

fun event_players :: "'g shell_output \<Rightarrow> string list" where
  "event_players (SessionRecorded ev) = (case sv_PlayerID ev of None \<Rightarrow> [] | Some pid \<Rightarrow> [pid])"
| "event_players (NavigationRecorded ev) = [sn_PlayerID ev]"
| "event_players (Matchmaker (QueueEvent pid kind wait)) = [pid]"
| "event_players (Matchmaker (NavEvent pid state kind detail)) = [pid]"
| "event_players (Watcher (SpectatorRecorded ev)) = [sp_SpectatorPlayerID ev, sp_TargetPlayerID ev]"
| "event_players _ = []"

fun event_match :: "'g shell_output \<Rightarrow> string option" where
  "event_match (Watcher (SpectatorRecorded ev)) = sp_MatchID ev"
| "event_match _ = None"

text \<open>What a session makes sure of itself.\<close>

fun event_fits :: "'g shell_output \<Rightarrow> bool" where
  "event_fits (SessionRecorded ev) \<longleftrightarrow> sv_Handle ev \<noteq> [] \<and> sv_RemoteAddrHash ev \<noteq> [] \<and> sv_EventType ev \<noteq> []"
| "event_fits (NavigationRecorded ev) \<longleftrightarrow>
     state_name (sn_State ev) \<in> set navigation_states \<and> sn_EventType ev \<in> set navigation_event_types"
| "event_fits (Matchmaker (QueueEvent pid kind wait)) \<longleftrightarrow> kind \<in> set queue_event_types \<and> count8 wait"
| "event_fits (Matchmaker (NavEvent pid state kind detail)) \<longleftrightarrow>
     state \<in> set navigation_states \<and> kind \<in> set navigation_event_types"
| "event_fits (Watcher (SpectatorRecorded ev)) \<longleftrightarrow> sp_EventType ev \<in> set spectator_event_types \<and> count8 (sp_WaitMS ev)"
| "event_fits _ \<longleftrightarrow> True"

text \<open>Every handler's outputs fit.\<close>

lemma navigationState_names: "state_name (navigationState now sess profile st) \<in> set navigation_states"
  by (simp add: navigationState_def navigation_states_def)

lemma wait_ms_count8 [simp]: "count8 (wait_ms now t)" "count8 0"
proof -
  have "time_sub now t sdiv 1000000 < 2 ^ 63"
    by (simp add: time_sub_def signed_divide_int_def sgn_if abs_if) (auto simp: max_def min_def)
  then show "count8 (wait_ms now t)"
    by (simp add: wait_ms_def Milliseconds_def count8_def int64_ok_def Let_def)
qed (simp add: count8_def int64_ok_def)

named_theorems fits \<open>the outputs whose events fit\<close>

lemma fits_basic [fits]:
  "list_all event_fits (offer ls)" "list_all event_fits (map TutorialDid did)" "list_all event_fits (map TutorialWrote wrote)"
  "event_fits (OfferedError e)" "event_fits (CommandSent c)" "event_fits (Wrote t)"
  by (simp_all add: offer_def list_all_iff)

lemma fits_navigation [fits]:
  assumes "state_name (sn_State ev) \<in> set navigation_states" "sn_EventType ev \<in> set navigation_event_types"
  shows "list_all event_fits (record_navigation D ev)"
  using assms by (simp add: record_navigation_def)

lemma fits_session [fits]:
  assumes "sv_Handle ev \<noteq> []" "sv_RemoteAddrHash ev \<noteq> []" "sv_EventType ev \<noteq> []"
  shows "list_all event_fits (record_session D ev)"
  using assms by (simp add: record_session_def)

lemma fits_events [fits]:
  assumes "state_name state \<in> set navigation_states" "kind \<in> set navigation_event_types"
  shows "list_all event_fits (command_event D sess sid state kind detail)"
    "list_all event_fits (tutorial_navigation_event D sess sid source kind detail)"
  using assms by (simp_all add: command_event_def tutorial_navigation_event_def fits navigation_states_def)

lemma fits_tutorial_session [fits]:
  assumes "se_Handle sess \<noteq> []" "addr \<noteq> []" "kind \<noteq> []"
  shows "list_all event_fits (tutorial_session_event D sess addr kind detail)"
  using assms by (simp add: tutorial_session_event_def fits)

lemma fits_status [fits]: "list_all event_fits (sendStatusFrame D now sess profile sid source st)"
  by (simp add: sendStatusFrame_def Let_def split_beta fits navigationState_names navigation_event_types_def)

lemma fits_menu [fits]: "list_all event_fits (sendMenuFrame D now sess profile sid source st)"
  by (simp add: sendMenuFrame_def Let_def fits navigationState_names navigation_event_types_def)

lemma fits_both [fits]: "list_all event_fits (sendStatusAndMenu D now sess profile sid st)"
  by (simp add: sendStatusAndMenu_def fits)

lemma fits_menu_step:
  assumes "menu_step D sess sid (navigationState now sess' profile st) line = (command, source, selected)"
  shows "list_all event_fits selected"
  using assms by (auto simp: menu_step_def fits navigationState_names navigation_event_types_def split: option.splits)

text \<open>The outputs of the matchmaker.\<close>

lemma fits_service_basic [fits]:
  "kind \<in> set queue_event_types \<Longrightarrow> count8 wait \<Longrightarrow> list_all event_fits (map Matchmaker (queue_event C pid kind wait))"
  "state \<in> set navigation_states \<Longrightarrow> kind2 \<in> set navigation_event_types \<Longrightarrow>
     list_all event_fits (map Matchmaker (nav_event C pid state kind2 detail))"
  "list_all event_fits (map Matchmaker (inc_counter C name))"
  "list_all event_fits (map Matchmaker (frame_to pid lines s))"
  "list_all event_fits (map (Matchmaker \<circ> (\<lambda>(p, ls). FrameSent p ls)) frames)"
  by (auto simp: queue_event_def nav_event_def inc_counter_def frame_to_def list_all_iff split: option.split)

lemma fits_Enqueue: "list_all event_fits (map Matchmaker (snd (fst (Enqueue C clock now pid s))))"
  by (simp add: Enqueue_def Let_def fits queue_event_types_def split: prod.split option.split)

lemma fits_Dequeue: "list_all event_fits (map Matchmaker (fst (Dequeue C now pid s)))"
  by (simp add: Dequeue_def Let_def fits queue_event_types_def split: option.split)

lemma fits_StartNPCMatch: "list_all event_fits (map Matchmaker (snd (fst (StartNPCMatch C now sess s))))"
  by (simp add: StartNPCMatch_def start_practice_def Let_def fits queue_event_types_def navigation_states_def
      navigation_event_types_def split: prod.split option.split)

lemma fits_spectator [fits]:
  "kind \<in> set spectator_event_types \<Longrightarrow> count8 wait \<Longrightarrow>
    list_all event_fits (map Watcher (spectator_out store sess target m kind wait detail))"
  "list_all event_fits (map (Watcher \<circ> (\<lambda>(p, ls). WatchFrame ls)) frames)"
  by (auto simp: spectator_out_def list_all_iff)

lemma fits_stream: "stream_loop sess events = Some (out, reason) \<Longrightarrow> list_all event_fits (map Watcher out)"
  by (induction sess events arbitrary: out rule: stream_loop.induct) (auto simp: fits)

lemma fits_WatchByHandle:
  assumes "WatchByHandle store sess handle timeout maxSpectators s requestedAt polls later uuid c h events = Some (err, out)"
  shows "list_all event_fits (map Watcher out)"
  using assms
  by (auto simp: WatchByHandle_def Let_def fits spectator_event_types_def dest: fits_stream
      split: if_splits option.splits sum.splits prod.splits)

section \<open>The handlers\<close>

lemma fits_handler:
  assumes "handleUserInputWithSession D li sess profile line sid st = Some (go, out, st')"
  shows "list_all event_fits out"
proof -
  have queue: "list_all event_fits out1" if "command_queue D now sess profile command sid st1 = (out1, st2)" for now command st1 out1 st2
    using that fits_Enqueue [of "sh_matcher D" now now "se_PlayerID sess" "ss_service st1"]
    by (auto simp: command_queue_def Let_def fits navigation_states_def navigation_event_types_def
        split: if_splits prod.splits option.splits)
  have leave: "list_all event_fits (fst (command_leave D now sess sid st1))" for now st1
    using fits_Dequeue [of "sh_matcher D" now "se_PlayerID sess" "ss_service st1"]
    by (auto simp: command_leave_def fits navigation_states_def navigation_event_types_def split: prod.split)
  have npc: "list_all event_fits (fst (command_npc D now sess profile st1))" for now st1
    using fits_StartNPCMatch [of "sh_matcher D" now sess "ss_service st1"]
    by (auto simp: command_npc_def fits split: prod.split option.split)
  have watch: "list_all event_fits out1" if "command_watch D now we sess args st1 = Some out1" for now we args st1 out1
    using that by (auto simp: command_watch_def fits dest: fits_WatchByHandle split: if_splits option.splits prod.splits)
  have action: "list_all event_fits (fst (command_action D now full sess args st1))" for now full args st1
    by (simp add: command_action_def Let_def fits split: prod.split sum.split)
  have snap: "list_all event_fits (command_snapshot st1)" for st1 by (simp add: command_snapshot_def Let_def fits)
  show ?thesis
    using assms leave [of "li_now li" st] npc [of "li_now li" st] snap [of st]
      action [of "li_now li" "li_input_full li" "Fields (TrimText line)" st]
    by (auto simp: handleUserInputWithSession_def Let_def fits navigationState_names navigation_event_types_def
        dest: watch queue split: if_splits prod.splits)
qed

lemma fits_steps: "follow_steps steps ending lis = (stop, out, rest) \<Longrightarrow> list_all event_fits out"
  using follow_steps_out [of steps ending lis stop out rest] by (force simp: list_all_iff)

lemma fits_flow:
  assumes "runTutorialFlow D sess ending tc lis profile retry addr sid source = (stop, out, rest, profile')"
    and "se_Handle sess \<noteq> []" "addr \<noteq> []"
  shows "list_all event_fits out"
proof -
  obtain stop1 out1 rest1 where steps: "follow_steps tutorial_steps ending lis = (stop1, out1, rest1)" by (metis prod_cases3)
  obtain r did wrote where run: "RunTutorial (sh_match D) (sh_tutorial_store D) (tc_startedAt tc) (tc_endedAt tc)
      (tc_env tc) sess = (r, did, wrote)" by (metis prod_cases3)
  note out1 = fits_steps [OF steps]
  have nav: "list_all event_fits (tutorial_navigation_event D sess sid source kind detail)"
    if "kind = ''tutorial_started'' \<or> kind = ''tutorial_completed''" for kind detail
    using that by (auto simp: navigation_states_def navigation_event_types_def
        intro!: fits_events(2) [where state = NavigationStateTutorial])
  show ?thesis
    using assms out1 nav
    by (cases stop1; cases r) (auto simp: runTutorialFlow_def Let_def steps run fits)
qed

lemma fits_loop:
  assumes "se_Handle sess \<noteq> []" "addr \<noteq> []"
  shows "shell_loop D sess addr sid ending lis profile st = Some (exit, out, profile', st') \<Longrightarrow> list_all event_fits out"
proof (induction "length lis" arbitrary: lis profile st out rule: less_induct)
  case less
  show ?case
  proof (cases lis)
    case Nil
    with less.prems show ?thesis by (simp add: shell_loop.simps)
  next
    case (Cons li rest)
    have again: "list_all event_fits out2" if "length lis' \<le> length rest"
      "shell_loop D sess addr sid ending lis' profile2 st2 = Some (exit, out2, profile', st')" for lis' profile2 st2 out2
      by (rule less.hyps [OF _ that(2)]) (simp add: Cons that(1) le_imp_less_Suc)
    from less.prems [unfolded Cons] show ?thesis
    proof (cases rule: shell_loop_cases)
      case blank
      from again [OF _ this] show ?thesis by simp
    next
      case hint
      from again [OF _ hint(2)] fits_menu_step [OF hint(1)] hint(3) show ?thesis by (simp add: fits)
    next
      case (stopped command source selected stop out1 rest1 out2)
      from stopped(5) have "list_all event_fits out2" by (force simp: list_all_iff)
      with fits_flow [OF stopped(2) assms] fits_menu_step [OF stopped(1)] stopped(4) show ?thesis by simp
    next
      case (retried command source selected out1 rest1)
      from runTutorialFlow_typed [OF retried(2)] obtain typed where "rest = typed @ rest1" by (elim exE conjE)
      with again [OF _ retried(3)] fits_flow [OF retried(2) assms] fits_menu_step [OF retried(1)] retried(4)
      show ?thesis by (simp add: fits)
    next
      case quits
      from fits_handler [OF quits(2)] fits_menu_step [OF quits(1)] quits(3) show ?thesis by simp
    next
      case handled
      from again [OF _ handled(3)] fits_handler [OF handled(2)] fits_menu_step [OF handled(1)] handled(4) show ?thesis by simp
    qed
  qed
qed

lemma fits_session_body:
  assumes "session_body D E sess addr profile st = Some (out, st')" "se_Handle sess \<noteq> []" "addr \<noteq> []"
  shows "list_all event_fits out"
proof -
  obtain stop out1 lis profile1 where flow: "(if pp_TutorialCompleted profile then (None, [], en_lines E, profile)
      else runTutorialFlow D sess (en_ending E) (en_tutorial E) (en_lines E) profile False addr (en_uuid E)
        NavigationSourceSystem) = (stop, out1, lis, profile1)" (is "?flow = _")
    by (metis prod_cases4)
  have out1: "list_all event_fits out1"
    using flow fits_flow [OF _ assms(2,3)] by (auto split: if_splits)
  have failed: "list_all event_fits (record_session D \<lparr>sv_PlayerID = p, sv_Handle = se_Handle sess, sv_RemoteAddrHash = addr,
      sv_EventType = ''session_io_error'', sv_Detail = detail\<rparr>)" for p detail
    by (rule fits_session) (simp_all add: assms)
  show ?thesis
  proof (cases stop)
    case None
    with assms(1) flow show ?thesis using out1 failed
      by (auto simp: session_body_def Let_def fits navigationState_names navigation_event_types_def simp del: if_split
          dest!: fits_loop [OF assms(2,3)] split: shell_exit.split scan_end.split)
  next
    case (Some x)
    with assms(1) flow out1 show ?thesis
      by (cases x) (auto simp: session_body_def Let_def fits navigationState_names navigation_event_types_def simp del: if_split)
  qed
qed

lemma fits_runShell:
  assumes "runShell D E handle remoteAddr st = Some (out, st')" "handle \<noteq> []" "\<forall>x. en_sha256 E x \<noteq> []"
  shows "list_all event_fits out"
proof -
  have addr: "hashRemoteAddr (en_sha256 E) remoteAddr \<noteq> []" using assms(3) by (simp add: hashRemoteAddr_def split: option.split)
  have event: "list_all event_fits (record_session D \<lparr>sv_PlayerID = p, sv_Handle = handle,
      sv_RemoteAddrHash = hashRemoteAddr (en_sha256 E) remoteAddr, sv_EventType = kind, sv_Detail = detail\<rparr>)"
    if "kind \<noteq> []" for p kind detail
    by (rule fits_session) (simp_all add: assms addr that)
  have close: "list_all event_fits (fst (close_session D \<lparr>se_PlayerID = pid, se_Handle = handle, se_RemoteAddr = remoteAddr\<rparr>
      (hashRemoteAddr (en_sha256 E) remoteAddr) now st1))" for pid now st1
    using fits_Dequeue [of "sh_matcher D" now pid "ss_service st1"] event
    by (auto simp: close_session_def Let_def split: prod.split)
  show ?thesis
  proof (cases "en_ensured E handle")
    case None
    with assms(1) event show ?thesis by (auto simp: runShell_def Let_def fits)
  next
    case (Some r)
    obtain playerID profile where r: "r = (playerID, profile)" by force
    let ?sess = "\<lparr>se_PlayerID = playerID, se_Handle = handle, se_RemoteAddr = remoteAddr\<rparr>"
    obtain err lb where reg: "Register ?sess (shell_lobby st) = (err, lb)" by force
    show ?thesis
    proof (cases err)
      case None
      let ?addr = "hashRemoteAddr (en_sha256 E) remoteAddr"
      let ?st = "trackSession ?sess (st\<lparr>ss_service := (ss_service st)\<lparr>sv_lobby := lb\<rparr>\<rparr>)"
      obtain o1 st1 where body: "session_body D E ?sess ?addr profile ?st = Some (o1, st1)"
        using assms(1) Some r reg None by (auto simp: runShell_def Let_def)
      have "out = record_session D \<lparr>sv_PlayerID = Some playerID, sv_Handle = handle, sv_RemoteAddrHash = ?addr,
          sv_EventType = ''login_success'', sv_Detail = [(''tutorial_completed'', DetailBool (pp_TutorialCompleted profile))]\<rparr>
        @ o1 @ fst (close_session D ?sess ?addr (en_close E) (en_after E st1))"
        using assms(1) Some r reg None body by (simp add: runShell_def Let_def split_beta)
      then show ?thesis
        using event close fits_session_body [OF body _ addr] assms(2) by simp
    next
      case (Some e)
      with assms(1) \<open>en_ensured E handle = Some r\<close> r reg event show ?thesis by (auto simp: runShell_def Let_def fits)
    qed
  qed
qed

text \<open>The tick of the queue.\<close>

lemma fits_timeout_all: "list_all event_fits (map Matchmaker (fst (timeout_all C now ids s)))"
proof (induction ids arbitrary: s)
  case (Cons pid ids)
  have "count8 (fst (queueWaitAndClear pid now s))" by (simp add: queueWaitAndClear_def split: option.split)
  then have "list_all event_fits (map Matchmaker (fst (timeout_one C now pid s)))"
    by (simp add: timeout_one_def fits queue_event_types_def split_beta)
  with Cons.IH show ?case by (simp add: split_beta)
qed simp

lemma fits_requeue [fits]: "list_all event_fits (map Matchmaker (fst (requeueAfterPairFailure clock sess s)))"
  by (simp add: requeueAfterPairFailure_def fits split: prod.split option.split)

lemma fits_processQueue: "list_all event_fits (map Matchmaker (fst (processQueue C clock now s)))"
proof -
  have wait: "count8 (fst (queueWaitAndClear pid now s1))" for pid s1 by (simp add: queueWaitAndClear_def split: option.split)
  have matched: "list_all event_fits (map Matchmaker (matched_events C a b w1 w2))" if "count8 w1" "count8 w2" for a b w1 w2
    using that by (simp add: matched_events_def fits queue_event_types_def navigation_states_def navigation_event_types_def)
  have pop: "list_all event_fits (map Matchmaker (snd (fst (pop_pair C clock now s))))"
    by (simp add: pop_pair_def Let_def split_beta fits_timeout_all wait matched split: option.split)
  have launch: "list_all event_fits (map Matchmaker (fst (launch_pair C clock a b w1 w2 s1)))" for a b w1 w2 s1
    by (simp add: launch_pair_def Let_def fits split_beta split: option.split)
  show ?thesis
    using pop launch by (auto simp: processQueue_def Let_def split_beta split: option.split prod.split)
qed

section \<open>Which events are stored\<close>

definition new_event_id :: "('f, 'z) event_database_scheme \<Rightarrow> string \<Rightarrow> bool" where
  "new_event_id d uuid \<longleftrightarrow> uuid \<noteq> [] \<and> uuid \<notin> (xs_ID \<circ> fst) ` set (dt_sessions d) \<and> uuid \<notin> xq_ID ` set (dt_queue d)
     \<and> uuid \<notin> (xw_ID \<circ> fst) ` set (dt_spectators d) \<and> uuid \<notin> (xn_ID \<circ> fst) ` set (dt_navigation d)"

definition event_count :: "('f, 'z) event_database_scheme \<Rightarrow> nat" where
  "event_count d = length (dt_sessions d) + length (dt_queue d) + length (dt_spectators d) + length (dt_navigation d)"

lemmas event_operations = CreateSessionTelemetryEvent_def CreateQueueTelemetryEvent_def CreateSpectatorTelemetryEvent_def
  CreateNavigationTelemetryEvent_def insert_session_event_def insert_queue_event_def insert_spectator_event_def
  insert_navigation_event_def

lemmas event_records = new_session_event_def new_navigation_event_def new_spectator_event_def new_queue_event_def
  service_navigation_def session_event.defs shell_navigation.defs spectator_event.defs

lemma source_name_named [simp]: "source_name src \<noteq> []"
  by (cases src) simp_all

lemma event_type_named:
  "kind \<in> set navigation_event_types \<Longrightarrow> kind \<noteq> []" "kind \<in> set navigation_states \<Longrightarrow> kind \<noteq> []"
  "kind \<in> set queue_event_types \<Longrightarrow> kind \<noteq> []" "kind \<in> set spectator_event_types \<Longrightarrow> kind \<noteq> []"
  by (auto simp: navigation_event_types_def navigation_states_def queue_event_types_def spectator_event_types_def)

lemma event_stored:
  assumes "event_fits w" "event_query (repositories_store S clock uuid) w = Some q" "sd_pool S" "new_event_id d uuid"
    and "\<forall>pid \<in> set (event_players w). pid \<noteq> [] \<and> known_player d pid"
  shows "if refers (known_match d) (event_match w)
    then \<exists>d'. q (d, []) = (Inr (), (d', [])) \<and> event_count d' = event_count d + 1
    else q (d, []) = (Inl (ErrForeignKey ''match_id''), (d, []))"
proof (cases w)
  case (SessionRecorded ev)
  have "refers (known_player d) (sv_PlayerID ev)" using assms(5) SessionRecorded by (auto simp: refers_def split: option.split)
  with SessionRecorded assms show ?thesis
    by (auto simp: event_operations event_records repositories_store_def RecordSessionEvent_def without_result_def with_pool_def
        query_simps Let_def or_uuid_def new_event_id_def event_count_def refers_def [where r = None])
next
  case (NavigationRecorded ev)
  with assms event_type_named show ?thesis
    by (auto simp: event_operations event_records repositories_store_def RecordNavigationEvent_def without_result_def
        with_pool_def query_simps Let_def or_uuid_def new_event_id_def event_count_def refers_def)
next
  case (Matchmaker o1)
  with assms event_type_named show ?thesis
    by (cases o1) (auto simp: event_operations event_records repositories_store_def without_result_def
        with_pool_def query_simps Let_def or_uuid_def new_event_id_def event_count_def refers_def)
next
  case (Watcher o1)
  with assms event_type_named show ?thesis
    by (cases o1) (auto simp: event_operations event_records repositories_store_def without_result_def
        with_pool_def query_simps Let_def or_uuid_def new_event_id_def event_count_def)
qed (use assms(2) in simp_all)

text \<open>
  C14: The tables take what the server records. Every event of a session, whatever is typed in it, and
  every event of a tick of the queue is one that its table takes: the names of its states, types and sources
  are on the lists of the migrations and its times fit, so that over a connection that works its statement
  adds one row. There is one exception: an event about a match is refused until the match has been
  finalized, because its row refers to the table of the matches.
\<close>

theorem session_events_are_stored:
  assumes "runShell D E handle remoteAddr st = Some (out, st')" "handle \<noteq> []" "\<forall>x. en_sha256 E x \<noteq> []"
    and "w \<in> set out \<union> Matchmaker ` set (fst (processQueue C popAt now s))"
    and "event_query (repositories_store S clock uuid) w = Some q" "sd_pool S" "new_event_id d uuid"
    and "\<forall>pid \<in> set (event_players w). pid \<noteq> [] \<and> known_player d pid"
  shows "if refers (known_match d) (event_match w)
    then \<exists>d'. q (d, []) = (Inr (), (d', [])) \<and> event_count d' = event_count d + 1
    else q (d, []) = (Inl (ErrForeignKey ''match_id''), (d, []))"
proof (rule event_stored [OF _ assms(5-8)])
  show "event_fits w"
    using assms(4) fits_runShell [OF assms(1-3)] fits_processQueue [of C popAt now s] by (auto simp: list_all_iff)
qed

text \<open>A player who logs in and joins the queue, and a database that knows the player.\<close>

definition demo_event_database :: "rat option event_database" where
  "demo_event_database = database.extend
     (empty_database\<lparr>db_players := [\<lparr>pl_ID = ''p1'', pl_Handle = ''ana'', pl_CreatedAt = 1, pl_UpdatedAt = 1\<rparr>]\<rparr>)
     \<lparr>dt_turns = [], dt_summaries = [], dt_config = [], dt_flags = [], dt_sessions = [], dt_queue = [],
      dt_spectators = [], dt_navigation = []\<rparr>"

lemma session_events_are_stored_witness:
  "\<exists>out st' d'. runShell demo_shell (demo_session_env True [''q'']) ''ana'' ''1.2.3.4:99'' demo_shell_state = Some (out, st')
     \<and> Matchmaker (QueueEvent ''p1'' ''join'' 0) \<in> set out
     \<and> without_result (CreateQueueTelemetryEvent (NewSQLRepositories True micros) 5 ''u1'' (new_queue_event ''p1'' ''join'' 0))
         (demo_event_database, []) = (Inr (), (d', [])) \<and> event_count d' = 1"
proof -
  let ?run = "runShell demo_shell (demo_session_env True [''q'']) ''ana'' ''1.2.3.4:99'' demo_shell_state"
  have "case ?run of Some (out, st') \<Rightarrow> list_ex (\<lambda>w. w = Matchmaker (QueueEvent ''p1'' ''join'' 0)) out | None \<Rightarrow> False"
    by code_simp
  then obtain out st' where run: "?run = Some (out, st')" and join: "Matchmaker (QueueEvent ''p1'' ''join'' 0) \<in> set out"
    by (cases ?run) (auto simp: list_ex_iff)
  have "new_event_id demo_event_database ''u1''" "known_player demo_event_database ''p1''"
    "event_count demo_event_database = 0"
    by (simp_all add: demo_event_database_def new_event_id_def known_player_def event_count_def database.defs empty_database_def)
  with session_events_are_stored [OF run, of "Matchmaker (QueueEvent ''p1'' ''join'' 0)" C popAt now s
      "NewSQLRepositories True micros" 5 "''u1''" _ demo_event_database] join run
  show ?thesis
    by (simp add: demo_session_env_def NewSQLRepositories_def repositories_store_def refers_def)
qed

end
