(* ===== verification/Illinois.thy ===== *)
theory Illinois
  imports Complex_Main
begin

text \<open>
  The method of false position in the variant called Illinois, by which the program looks for a root:
  the proof that on a steeply falling real function the interval becomes as short as one likes. The
  interval has an old end, with the value kept for it, and a new end; a step puts a point between them.
  When the root lies between the new end and the point, the old end stays and its value is halved;
  otherwise the new end becomes the old one. In both cases the point becomes the new end.
\<close>

section \<open>The distances\<close>

text \<open>
  With \<open>a\<close> and \<open>b\<close> the distances of the old and the new end to the root and \<open>u\<close> and \<open>w\<close> the sizes of the
  values kept for them, a step is one of the two cases below. An interval that stays longer than \<open>eps\<close>
  would shrink by less and less; so would the value its shrinking is proportional to; but then the
  old end cannot stay, as its value is halved until it is too small to keep the point on its own side,
  nor change in every step, as then both distances would be small.
\<close>

definition stays :: "(nat \<Rightarrow> real) \<Rightarrow> (nat \<Rightarrow> real) \<Rightarrow> (nat \<Rightarrow> real) \<Rightarrow> (nat \<Rightarrow> real) \<Rightarrow> nat \<Rightarrow> bool" where
  "stays a b u w n \<longleftrightarrow> a (Suc n) = a n \<and> u (Suc n) = u n / 2 \<and> b (Suc n) = b n - (a n + b n) * w n / (u n + w n)"

definition switches :: "(nat \<Rightarrow> real) \<Rightarrow> (nat \<Rightarrow> real) \<Rightarrow> (nat \<Rightarrow> real) \<Rightarrow> (nat \<Rightarrow> real) \<Rightarrow> nat \<Rightarrow> bool" where
  "switches a b u w n \<longleftrightarrow> a (Suc n) = b n \<and> u (Suc n) = w n \<and> b (Suc n) = a n - (a n + b n) * u n / (u n + w n)"

lemma vanishing_steps:
  fixes S :: "nat \<Rightarrow> real"
  assumes "\<And>n. S (Suc n) \<le> S n" "\<And>n. 0 \<le> S n" "0 < e"
  obtains N where "\<And>n. N \<le> n \<Longrightarrow> S n - S (Suc n) < e"
proof -
  have "decseq S" by (rule decseq_SucI) (rule assms(1))
  then obtain L where "S \<longlonglongrightarrow> L" by (rule decseq_convergent [where B = 0]) (use assms(2) in simp)
  then have "Cauchy S" by (rule LIMSEQ_imp_Cauchy)
  from metric_CauchyD [OF this assms(3)] obtain N where N: "\<forall>m\<ge>N. \<forall>n\<ge>N. dist (S m) (S n) < e" by blast
  have "S n - S (Suc n) < e" if "N \<le> n" for n
    using N [rule_format, OF that, of "Suc n"] that assms(1) [of n] by (simp add: dist_real_def)
  then show thesis by (rule that)
qed

lemma shrink_large:
  fixes S u w x :: real
  assumes "eps \<le> S" "0 < eps" "0 \<le> x" "0 < u" "0 < w" "u \<le> M" "w \<le> M"
  shows "eps * x / (2 * M) \<le> S * x / (u + w)"
proof -
  have "eps * x / (2 * M) \<le> eps * x / (u + w)"
    using assms by (intro divide_left_mono mult_pos_pos) auto
  also have "\<dots> \<le> S * x / (u + w)"
    using assms by (intro divide_right_mono mult_right_mono) auto
  finally show ?thesis .
qed

lemma illinois_distances:
  fixes a b u w :: "nat \<Rightarrow> real"
  assumes pos: "\<And>n. 0 \<le> a n" "\<And>n. 0 \<le> b n" "\<And>n. 0 < u n" "\<And>n. 0 < w n"
    and bound: "\<And>n. u n \<le> M" "\<And>n. w n \<le> M" and steep: "0 < m" "\<And>n. m * b n \<le> w n"
    and step: "\<And>n. stays a b u w n \<or> switches a b u w n" and eps: "0 < eps"
  shows "\<exists>n. a n + b n \<le> eps"
proof (rule ccontr)
  assume "\<not> ?thesis"
  then have long: "eps < a n + b n" for n by (simp add: not_le)
  define e where "e = m * eps / 8"
  have e: "0 < e" using steep(1) eps by (simp add: e_def)
  have M: "0 < M" using pos(3) [of 0] bound(1) [of 0] by linarith
  have shrinks: "a (Suc n) + b (Suc n) \<le> a n + b n" for n
    using step [of n] pos(1-4) [of n] by (auto simp: stays_def switches_def)
  obtain N where N: "\<And>n. N \<le> n \<Longrightarrow> (a n + b n) - (a (Suc n) + b (Suc n)) < eps * e / (2 * M)"
    by (rule vanishing_steps [of "\<lambda>n. a n + b n" "eps * e / (2 * M)"]) (use shrinks pos eps e M in auto)
  have small: "x < e" if "N \<le> n" "(a n + b n) - (a (Suc n) + b (Suc n)) = (a n + b n) * x / (u n + w n)" "0 < x" for n x
  proof -
    have "eps * x / (2 * M) \<le> (a n + b n) * x / (u n + w n)"
      using long [of n] eps that(3) pos(3,4) bound by (intro shrink_large) auto
    then have "eps * x / (2 * M) < eps * e / (2 * M)" using N [OF that(1)] that(2) by linarith
    then show "x < e" using eps M by (simp add: divide_less_cancel)
  qed
  have stayed: "w n < e \<and> 7 * e \<le> u n" if "N \<le> n" "stays a b u w n" for n
  proof
    show w: "w n < e" by (rule small [OF that(1) _ pos(4)]) (use that(2) in \<open>simp add: stays_def\<close>)
    have "(a n + b n) * w n / (u n + w n) \<le> b n" using that(2) pos(2) [of "Suc n"] by (simp add: stays_def)
    then have "m * ((a n + b n) * w n / (u n + w n)) \<le> m * b n"
      by (rule mult_left_mono) (use steep(1) in simp)
    then have "m * ((a n + b n) * w n / (u n + w n)) \<le> w n" using steep(2) [of n] by linarith
    then have "m * (a n + b n) * w n \<le> w n * (u n + w n)"
      using pos(3,4) [of n] by (simp add: field_simps)
    then have "m * (a n + b n) \<le> u n + w n" using pos(4) [of n] by (simp add: mult.commute)
    moreover have "m * eps \<le> m * (a n + b n)" using long [of n] steep(1) by simp
    ultimately show "7 * e \<le> u n" using w unfolding e_def by linarith
  qed
  have switched: "u n < e" if "N \<le> n" "switches a b u w n" for n
    by (rule small [OF that(1) _ pos(3)]) (use that(2) in \<open>simp add: switches_def\<close>)
  have forever: "stays a b u w (n + k) \<and> u (n + k) = u n / 2 ^ k" if "N \<le> n" "stays a b u w n" for n k
  proof (induction k)
    case (Suc k)
    then have st: "stays a b u w (n + k)" by simp
    from stayed [OF _ st] that(1) have "7 * e \<le> u (n + k)" by simp
    moreover have half: "u (Suc (n + k)) = u (n + k) / 2" using st by (simp add: stays_def)
    ultimately have "\<not> switches a b u w (Suc (n + k))" using switched [of "Suc (n + k)"] that(1) e by force
    then show ?case using step [of "Suc (n + k)"] half Suc by simp
  qed (use that in simp)
  have "\<not> stays a b u w n" if "N \<le> n" for n
  proof
    assume st: "stays a b u w n"
    have "7 * e \<le> u n / 2 ^ k" for k
      using stayed [of "n + k"] forever [OF that st, of k] that by simp
    moreover obtain k where "M / (7 * e) < 2 ^ k" using real_arch_pow [of 2 "M / (7 * e)"] by auto
    then have "u n / 2 ^ k < 7 * e" using bound(1) [of n] e by (simp add: field_simps)
    ultimately show False by (meson not_le)
  qed
  then have sw: "switches a b u w n" if "N \<le> n" for n using step that by blast
  have "m * a (Suc N) < e" "m * b (Suc N) < e"
    using sw [of N] sw [of "Suc N"] switched [of "Suc N"] switched [of "Suc (Suc N)"] steep(2) [of N] steep(2) [of "Suc N"] sw [of "Suc (Suc N)"]
    by (auto simp: switches_def)
  then have "m * a (Suc N) + m * b (Suc N) < m * eps" using e unfolding e_def by linarith
  then have "m * (a (Suc N) + b (Suc N)) < m * eps" by (simp only: distrib_left)
  then show False using long [of "Suc N"] steep(1) by simp
qed

end
