(* ===== verification/Volatility.thy ===== *)
theory Volatility
  imports Ranking Illinois
begin

text \<open>
  The search for the new volatility of \<^verbatim>\<open>internal/ranking/glicko2.go\<close> ends in exact arithmetic, unless the
  result is a surprise beyond measure, and what it returns solves the volatility's equation. So the
  program's own rating service takes every valid update of that kind.
\<close>

section \<open>The loop as an iteration\<close>

fun illinois_step :: "(real \<Rightarrow> real) \<Rightarrow> real \<times> real \<times> real \<times> real \<Rightarrow> real \<times> real \<times> real \<times> real" where
  "illinois_step f (A, B, fA, fB) =
     (let C = A + (A - B) * fA / (fB - fA) in if f C * fB \<le> 0 then (B, C, fB, f C) else (A, C, fA / 2, f C))"

fun interval_length :: "real \<times> real \<times> real \<times> real \<Rightarrow> real" where
  "interval_length (A, B, _, _) = \<bar>B - A\<bar>"

lemma illinois_loop_returns:
  "interval_length ((illinois_step f ^^ n) (A, B, fA, fB)) \<le> epsilon \<Longrightarrow>
     illinois_loop real_math f epsilon A B fA fB \<noteq> None"
proof (induction n arbitrary: A B fA fB)
  case 0
  then show ?case by (subst illinois_loop.simps) simp
next
  case (Suc n)
  obtain A' B' fA' fB' where step: "illinois_step f (A, B, fA, fB) = (A', B', fA', fB')" by (metis prod_cases4)
  with Suc.prems have "interval_length ((illinois_step f ^^ n) (A', B', fA', fB')) \<le> epsilon"
    by (simp only: funpow_Suc_right o_apply)
  from Suc.IH [OF this] step show ?case
    by (subst illinois_loop.simps) (auto simp: Let_def split: if_splits)
qed

section \<open>A steeply falling function\<close>

definition steep :: "real \<Rightarrow> (real \<Rightarrow> real) \<Rightarrow> bool" where
  "steep m f \<longleftrightarrow> 0 < m \<and> (\<forall>x y. x < y \<longrightarrow> m * (y - x) \<le> f x - f y)"

lemma steep_less:
  assumes "steep m f" "x < y"
  shows "f y < f x"
proof -
  have "0 < m * (y - x)" using assms by (simp add: steep_def)
  moreover have "m * (y - x) \<le> f x - f y" using assms by (simp add: steep_def)
  ultimately show ?thesis by linarith
qed

lemma steep_root:
  assumes "steep m f" "f r = 0"
  shows "m * \<bar>x - r\<bar> \<le> \<bar>f x\<bar>" "f x < 0 \<longleftrightarrow> r < x" "0 < f x \<longleftrightarrow> x < r"
proof -
  consider "x < r" | "x = r" | "r < x" by linarith
  then show "m * \<bar>x - r\<bar> \<le> \<bar>f x\<bar>"
  proof cases
    case 1
    then have "m * (r - x) \<le> f x - f r" using assms(1) by (simp add: steep_def)
    with 1 show ?thesis using assms(2) by simp
  next
    case 3
    then have "m * (x - r) \<le> f r - f x" using assms(1) by (simp add: steep_def)
    with 3 show ?thesis using assms(2) by simp
  qed (simp add: assms(2))
  show "f x < 0 \<longleftrightarrow> r < x" "0 < f x \<longleftrightarrow> x < r"
    using steep_less [OF assms(1), of x r] steep_less [OF assms(1), of r x] assms(2)
    by (metis less_asym linorder_neqE_linordered_idom)+
qed

text \<open>
  Seen from the root: the ends lie on opposite sides (\<open>s\<close> says which), the new end has its value and the
  old one its value halved some times.
\<close>

definition around :: "(real \<Rightarrow> real) \<Rightarrow> real \<Rightarrow> real \<Rightarrow> real \<times> real \<times> real \<times> real \<Rightarrow> bool" where
  "around f r M = (\<lambda>(A, B, fA, fB). (A - r) * (B - r) \<le> 0 \<and> fB = f B \<and> (\<exists>k::nat. fA = f A / 2 ^ k)
     \<and> (\<forall>x. (x - A) * (x - B) \<le> 0 \<longrightarrow> \<bar>f x\<bar> \<le> M))"

lemma around_step:
  assumes "steep m f" "f r = 0" "around f r M (A, B, fA, fB)" "fA \<noteq> 0" "fB \<noteq> 0"
    and "illinois_step f (A, B, fA, fB) = (A', B', fA', fB')"
  defines "a \<equiv> \<bar>A - r\<bar>" and "b \<equiv> \<bar>B - r\<bar>" and "u \<equiv> \<bar>fA\<bar>" and "w \<equiv> \<bar>fB\<bar>"
  shows "around f r M (A', B', fA', fB')"
    and "\<bar>A' - r\<bar> = a \<and> \<bar>fA'\<bar> = u / 2 \<and> \<bar>B' - r\<bar> = b - (a + b) * w / (u + w)
       \<or> \<bar>A' - r\<bar> = b \<and> \<bar>fA'\<bar> = w \<and> \<bar>B' - r\<bar> = a - (a + b) * u / (u + w)"
proof -
  obtain k :: nat where k: "fA = f A / 2 ^ k" and fB: "fB = f B" and sides: "(A - r) * (B - r) \<le> 0"
    and M: "\<And>x. (x - A) * (x - B) \<le> 0 \<Longrightarrow> \<bar>f x\<bar> \<le> M"
    using assms(3) by (auto simp: around_def)
  have "f A \<noteq> 0" "f B \<noteq> 0" using assms(4,5) k fB by simp_all
  then have "A \<noteq> r" "B \<noteq> r" using assms(2) by auto
  define s :: real where "s = (if A < r then 1 else - 1)"
  have s: "s * s = 1" "s = 1 \<or> s = - 1" by (simp_all add: s_def)
  have ends: "A = r - s * a" "B = r + s * b" "0 < a" "0 < b"
    using sides \<open>A \<noteq> r\<close> \<open>B \<noteq> r\<close> by (auto simp: s_def a_def b_def mult_le_0_iff)
  have vals: "fA = s * u" "fB = - (s * w)" "0 < u" "0 < w"
    using steep_root(2,3) [OF assms(1,2), of A] steep_root(2,3) [OF assms(1,2), of B] ends assms(4,5) s(2)
    by (auto simp: u_def w_def k fB zero_less_divide_iff divide_less_0_iff abs_if)
  define t where "t = (a + b) * u / (u + w)"
  have t: "(a + b) * w / (u + w) = (a + b) - t" "0 < t" "t < a + b"
    using ends(3,4) vals(3,4) by (simp_all add: t_def field_simps add_pos_pos)
  define C where "C = A + (A - B) * fA / (fB - fA)"
  have "(A - B) * fA / (fB - fA) = s * t"
  proof -
    have "(A - B) * fA = - (s * s) * ((a + b) * u)" "fB - fA = - s * (u + w)"
      unfolding ends(1,2) vals(1,2) by (simp_all add: algebra_simps)
    then have "(A - B) * fA / (fB - fA) = - (s * s) * ((a + b) * u) / (- s * (u + w))" by (simp only:)
    then show ?thesis using s(2) by (auto simp: t_def)
  qed
  then have "C = A + s * t" by (simp only: C_def)
  then have C: "C = r + s * (t - a)" using ends(1) by (simp add: right_diff_distrib)
  have run: "illinois_step f (A, B, fA, fB) = (if f C * fB \<le> 0 then (B, C, fB, f C) else (A, C, fA / 2, f C))"
    by (simp only: illinois_step.simps Let_def C_def)
  have side: "f C * fB \<le> 0 \<longleftrightarrow> t \<le> a"
    using steep_root(2,3) [OF assms(1,2), of C] s(2) vals(2,4)
    by (auto simp: C mult_le_0_iff zero_le_mult_iff not_less not_le)
  have inside: "(C - A) * (C - B) \<le> 0"
  proof -
    have "(C - A) * (C - B) = (s * s) * (t * (t - (a + b)))" unfolding C ends(1,2) by (simp add: algebra_simps)
    then show ?thesis using t(2,3) s(1) by (simp add: mult_nonneg_nonpos)
  qed
  have M': "\<bar>f x\<bar> \<le> M" if "(x - A) * (x - C) \<le> 0 \<or> (x - B) * (x - C) \<le> 0" for x
    using that inside by (intro M) (auto simp: mult_le_0_iff)
  show "around f r M (A', B', fA', fB')"
  proof (cases "t \<le> a")
    case True
    with assms(6) side have new: "A' = B" "B' = C" "fA' = fB" "fB' = f C" unfolding run by auto
    have "(B - r) * (C - r) = (s * s) * (b * (t - a))" unfolding C ends(2) by (simp add: algebra_simps)
    then have "(B - r) * (C - r) \<le> 0" using True ends(4) s(1) by (simp add: mult_nonneg_nonpos)
    moreover have "\<exists>n::nat. f B = f B / 2 ^ n" by (rule exI [of _ 0]) simp
    ultimately show ?thesis using M' by (simp add: around_def new fB)
  next
    case False
    with assms(6) side have new: "A' = A" "B' = C" "fA' = fA / 2" "fB' = f C" unfolding run by auto
    have "(A - r) * (C - r) = - (s * s) * (a * (t - a))" unfolding C ends(1) by (simp add: algebra_simps)
    then have "(A - r) * (C - r) \<le> 0" using False ends(3) s(1) by simp
    moreover have "\<exists>n::nat. fA / 2 = f A / 2 ^ n" by (rule exI [of _ "Suc k"]) (simp add: k)
    ultimately show ?thesis using M' by (simp add: around_def new)
  qed
  have abs_s: "\<bar>s * x\<bar> = \<bar>x\<bar>" for x using s(2) by auto
  show "\<bar>A' - r\<bar> = a \<and> \<bar>fA'\<bar> = u / 2 \<and> \<bar>B' - r\<bar> = b - (a + b) * w / (u + w)
       \<or> \<bar>A' - r\<bar> = b \<and> \<bar>fA'\<bar> = w \<and> \<bar>B' - r\<bar> = a - (a + b) * u / (u + w)"
  proof (cases "t \<le> a")
    case True
    with assms(6) side have "A' = B" "B' = C" "fA' = fB" unfolding run by auto
    with True show ?thesis by (simp add: b_def w_def C abs_s t_def)
  next
    case False
    with assms(6) side have new: "A' = A" "B' = C" "fA' = fA / 2" unfolding run by auto
    have "\<bar>fA / 2\<bar> = u / 2" by (simp add: u_def)
    with False show ?thesis unfolding t(1) new by (simp add: a_def C abs_s)
  qed
qed

text \<open>Once an end meets the root the interval collapses.\<close>

lemma around_root:
  assumes "steep m f" "f r = 0" "around f r M (A, B, fA, fB)"
  shows "fB = 0 \<Longrightarrow> interval_length (illinois_step f (A, B, fA, fB)) = 0"
    and "fA = 0 \<Longrightarrow> fB \<noteq> 0 \<Longrightarrow> interval_length ((illinois_step f ^^ 2) (A, B, fA, fB)) = 0"
proof -
  obtain k :: nat where k: "fA = f A / 2 ^ k" and fB: "fB = f B" using assms(3) by (auto simp: around_def)
  have zero: "x = r" if "f x = 0" for x
    using steep_root(2,3) [OF assms(1,2), of x] that by (simp add: not_less)
  show "interval_length (illinois_step f (A, B, fA, fB)) = 0" if "fB = 0"
    using that zero [of A] zero [of B] by (cases "fA = 0") (simp_all add: Let_def k fB)
  show "interval_length ((illinois_step f ^^ 2) (A, B, fA, fB)) = 0" if "fA = 0" "fB \<noteq> 0"
  proof -
    have "A = r" using zero [of A] that k by simp
    then have "illinois_step f (A, B, fA, fB) = (B, r, fB, 0)" using that assms(2) by (simp add: Let_def)
    then show ?thesis using that assms(2) by (simp add: numeral_2_eq_2 Let_def)
  qed
qed

lemma illinois_shrinks:
  assumes "steep m f" "f r = 0" "around f r M s0" "0 < epsilon"
  shows "\<exists>n. interval_length ((illinois_step f ^^ n) s0) \<le> epsilon"
proof (rule ccontr)
  assume "\<not> ?thesis"
  then have long: "epsilon < interval_length ((illinois_step f ^^ n) s0)" for n by (simp add: not_le)
  define A where "A = (\<lambda>n. fst ((illinois_step f ^^ n) s0))"
  define B where "B = (\<lambda>n. fst (snd ((illinois_step f ^^ n) s0)))"
  define fA where "fA = (\<lambda>n. fst (snd (snd ((illinois_step f ^^ n) s0))))"
  define fB where "fB = (\<lambda>n. snd (snd (snd ((illinois_step f ^^ n) s0))))"
  have st: "(illinois_step f ^^ n) s0 = (A n, B n, fA n, fB n)" for n by (simp add: A_def B_def fA_def fB_def)
  have step: "illinois_step f (A n, B n, fA n, fB n) = (A (Suc n), B (Suc n), fA (Suc n), fB (Suc n))" for n
    using st [of "Suc n"] by (simp add: st)
  have nonzero: "fA n \<noteq> 0 \<and> fB n \<noteq> 0" if "around f r M (A n, B n, fA n, fB n)" for n
  proof
    show "fB n \<noteq> 0" using around_root(1) [OF assms(1,2) that] long [of "Suc n"] assms(4)
      by (auto simp: st simp del: illinois_step.simps)
    with around_root(2) [OF assms(1,2) that] long [of "Suc (Suc n)"] assms(4) show "fA n \<noteq> 0"
      by (auto simp: st numeral_2_eq_2 simp del: illinois_step.simps)
  qed
  have inv: "around f r M (A n, B n, fA n, fB n)" for n
  proof (induction n)
    case 0
    show ?case using assms(3) st [of 0] by simp
  next
    case (Suc n)
    show ?case by (rule around_step(1) [OF assms(1,2) Suc _ _ step]) (use nonzero [OF Suc] in simp_all)
  qed
  have one: "stays (\<lambda>n. \<bar>A n - r\<bar>) (\<lambda>n. \<bar>B n - r\<bar>) (\<lambda>n. \<bar>fA n\<bar>) (\<lambda>n. \<bar>fB n\<bar>) n
      \<or> switches (\<lambda>n. \<bar>A n - r\<bar>) (\<lambda>n. \<bar>B n - r\<bar>) (\<lambda>n. \<bar>fA n\<bar>) (\<lambda>n. \<bar>fB n\<bar>) n" for n
    using around_step(2) [OF assms(1,2) inv _ _ step, of n] nonzero [OF inv, of n] by (simp add: stays_def switches_def)
  have fBn: "fB n = f (B n)" for n using inv [of n] by (simp add: around_def)
  have bound: "\<bar>fA n\<bar> \<le> M" "\<bar>fB n\<bar> \<le> M" for n
  proof -
    obtain k :: nat where k: "fA n = f (A n) / 2 ^ k" using inv [of n] by (auto simp: around_def)
    have "\<bar>fA n\<bar> \<le> \<bar>f (A n)\<bar>" unfolding k by (simp add: abs_divide divide_le_eq mult_left_le_one_le [of "\<bar>f (A n)\<bar>"] mult_le_cancel_left1)
    moreover have "\<bar>f (A n)\<bar> \<le> M" "\<bar>f (B n)\<bar> \<le> M" using inv [of n] by (simp_all add: around_def)
    ultimately show "\<bar>fA n\<bar> \<le> M" "\<bar>fB n\<bar> \<le> M" using fBn by simp_all
  qed
  have m: "0 < m" using assms(1) by (simp add: steep_def)
  have "m * \<bar>B n - r\<bar> \<le> \<bar>fB n\<bar>" for n unfolding fBn by (rule steep_root(1) [OF assms(1,2)])
  from illinois_distances [OF _ _ _ _ bound m this one assms(4)] nonzero [OF inv]
  obtain n where "\<bar>A n - r\<bar> + \<bar>B n - r\<bar> \<le> epsilon" by auto
  then have "interval_length ((illinois_step f ^^ n) s0) \<le> epsilon" unfolding st by simp
  with long [of n] show False by linarith
qed

section \<open>The volatility's function falls steeply\<close>

text \<open>
  The first term of \<open>sigma_f\<close> as a function of the logarithm of the squared volatility rises at most by
  \<open>max D 0 / (8 * s)\<close>, where \<open>D\<close> is the excess of the squared difference over what was expected.
\<close>

lemma surprise_term_derivative:
  fixes D s :: real
  assumes "0 < s"
  shows "((\<lambda>x. exp x * (D - exp x) / (2 * (s + exp x)\<^sup>2)) has_real_derivative
     exp z * (D * s - D * exp z - 2 * exp z * s) / (2 * (s + exp z) ^ 3)) (at z)"
proof -
  have pos: "s + exp z \<noteq> 0" using assms add_pos_pos [of s "exp z"] by simp
  have d: "((\<lambda>x. exp x * (D - exp x) / (2 * (s + exp x)\<^sup>2)) has_real_derivative
     ((exp z * (D - exp z) + exp z * (- exp z)) * (2 * (s + exp z)\<^sup>2) - exp z * (D - exp z) * (2 * (2 * (s + exp z) * exp z)))
       / ((2 * (s + exp z)\<^sup>2) * (2 * (s + exp z)\<^sup>2))) (at z)"
    using pos by (auto intro!: derivative_eq_intros)
  have num: "(exp z * (D - exp z) + exp z * (- exp z)) * (2 * (s + exp z)\<^sup>2) - exp z * (D - exp z) * (2 * (2 * (s + exp z) * exp z))
      = (2 * (s + exp z)) * (exp z * (D * s - D * exp z - 2 * exp z * s))"
    by (simp add: power2_eq_square algebra_simps)
  have den: "(2 * (s + exp z)\<^sup>2) * (2 * (s + exp z)\<^sup>2) = (2 * (s + exp z)) * (2 * (s + exp z) ^ 3)"
    by (simp only: power2_eq_square power3_eq_cube mult_ac)
  have "2 * (s + exp z) \<noteq> 0" using pos by simp
  from d [unfolded num den nonzero_mult_divide_mult_cancel_left [OF this]] show ?thesis .
qed

lemma surprise_term_slope:
  fixes D s u :: real
  assumes "0 < s" "- s \<le> D" "0 < u"
  shows "u * (D * s - D * u - 2 * u * s) / (2 * (s + u) ^ 3) \<le> max D 0 / (8 * s)"
proof (cases "D \<le> 0")
  case True
  have "D * s \<le> 0" using True assms(1) by (simp add: mult_nonpos_nonneg)
  moreover have "- D * u - 2 * u * s \<le> 0"
  proof -
    have "u * (- D - 2 * s) \<le> 0" using assms by (intro mult_nonneg_nonpos) simp_all
    then show ?thesis by (simp add: algebra_simps)
  qed
  ultimately have "D * s - D * u - 2 * u * s \<le> 0" by linarith
  then have "u * (D * s - D * u - 2 * u * s) / (2 * (s + u) ^ 3) \<le> 0"
    using assms(1,3) by (intro divide_nonpos_nonneg mult_nonneg_nonpos) simp_all
  then show ?thesis using True by simp
next
  case False
  have "4 * (u * s) * s \<le> (s + u)\<^sup>2 * (s + u)"
  proof (rule mult_mono)
    have "0 \<le> (s - u)\<^sup>2" by simp
    then show "4 * (u * s) \<le> (s + u)\<^sup>2" by (simp add: power2_eq_square algebra_simps)
  qed (use assms in simp_all)
  then have cube: "4 * (u * s) * s \<le> (s + u) ^ 3" by (simp add: power2_eq_square power3_eq_cube)
  have "0 \<le> D * u" "0 \<le> 2 * u * s" using False assms by simp_all
  then have "D * s - D * u - 2 * u * s \<le> D * s" by linarith
  then have "u * (D * s - D * u - 2 * u * s) \<le> u * (D * s)" using assms(3) by (intro mult_left_mono) simp_all
  then have "u * (D * s - D * u - 2 * u * s) * (8 * s) \<le> u * (D * s) * (8 * s)" using assms(1) by (intro mult_right_mono) simp_all
  also have "\<dots> = D * (2 * (4 * (u * s) * s))" by simp
  also have "\<dots> \<le> D * (2 * (s + u) ^ 3)" using False cube by (intro mult_left_mono) simp_all
  finally show ?thesis using False assms by (simp add: frac_le_eq divide_le_eq le_divide_eq field_simps)
qed

text \<open>
  A result is in proportion when the squared difference exceeds the expected one by less than
  \<open>8 / tau\<^sup>2\<close> times, for the default \<open>tau\<close> by less than 32 times.
\<close>

definition in_proportion :: "real \<Rightarrow> real \<Rightarrow> real \<Rightarrow> real \<Rightarrow> bool" where
  "in_proportion phi delta v tau \<longleftrightarrow> tau * tau * (delta * delta - phi * phi - v) < 8 * (phi * phi + v)"

lemma sigma_f_steep:
  assumes "0 < v" "0 < tau" "in_proportion phi delta v tau"
  obtains m where "steep m (sigma_f real_math phi delta v tau a)"
proof -
  define s where "s = phi * phi + v"
  define D where "D = delta * delta - phi * phi - v"
  define g where "g = (\<lambda>x. exp x * (D - exp x) / (2 * (s + exp x)\<^sup>2))"
  have s: "0 < s" "- s \<le> D" using assms(1) by (simp_all add: s_def D_def add_nonneg_pos)
  have f: "sigma_f real_math phi delta v tau a x = g x - (x - a) / (tau * tau)" for x
  proof -
    have "(s + exp x) powr 2 = (s + exp x)\<^sup>2" using s(1) by (simp add: add_pos_pos powr_numeral)
    then show ?thesis by (simp add: sigma_f_real g_def s_def D_def)
  qed
  define m where "m = 1 / (tau * tau) - max D 0 / (8 * s)"
  have "0 < m"
  proof -
    have "tau * tau * max D 0 < 8 * s" using assms(3) s(1) by (auto simp: in_proportion_def D_def s_def max_def)
    then show ?thesis using s(1) assms(2) by (simp add: m_def divide_less_eq less_divide_eq mult.commute)
  qed
  moreover have "m * (y - x) \<le> sigma_f real_math phi delta v tau a x - sigma_f real_math phi delta v tau a y" if "x < y" for x y
  proof -
    let ?g' = "\<lambda>z. exp z * (D * s - D * exp z - 2 * exp z * s) / (2 * (s + exp z) ^ 3)"
    have "\<exists>z>x. z < y \<and> g y - g x = (y - x) * ?g' z"
      unfolding g_def by (rule MVT2 [OF that]) (rule surprise_term_derivative [OF s(1)])
    then obtain z where "g y - g x = (y - x) * ?g' z" by blast
    moreover have "(y - x) * ?g' z \<le> (y - x) * (max D 0 / (8 * s))"
      using that surprise_term_slope [OF s exp_gt_zero, of z] by (intro mult_left_mono) simp_all
    ultimately have "g y - g x \<le> (y - x) * (max D 0 / (8 * s))" by simp
    moreover have "(y - a) / (tau * tau) - (x - a) / (tau * tau) = (y - x) / (tau * tau)"
      by (simp add: diff_divide_distrib)
    moreover have "m * (y - x) = (y - x) / (tau * tau) - (y - x) * (max D 0 / (8 * s))"
      by (simp only: m_def left_diff_distrib [of "1 / (tau * tau)" "max D 0 / (8 * s)" "y - x"]) simp
    ultimately show ?thesis unfolding f by linarith
  qed
  ultimately show thesis by (intro that [of m]) (simp add: steep_def)
qed

section \<open>The search ends\<close>

lemma around_start:
  assumes "steep m f" "f r = 0" "f A * f B \<le> 0"
  shows "around f r (\<bar>f A\<bar> + \<bar>f B\<bar>) (A, B, f A, f B)"
proof -
  have sides: "(A - r) * (B - r) \<le> 0"
    using assms(3) steep_root(2,3) [OF assms(1,2), of A] steep_root(2,3) [OF assms(1,2), of B]
    by (auto simp: mult_le_0_iff not_less not_le)
  have falls: "f y \<le> f x" if "x \<le> y" for x y using steep_less [OF assms(1), of x y] that by (cases "x = y") auto
  have "\<bar>f x\<bar> \<le> \<bar>f A\<bar> + \<bar>f B\<bar>" if "(x - A) * (x - B) \<le> 0" for x
    using that falls [of A x] falls [of x B] falls [of B x] falls [of x A] by (auto simp: mult_le_0_iff)
  moreover have "\<exists>k::nat. f A = f A / 2 ^ k" by (rule exI [of _ 0]) simp
  ultimately show ?thesis using sides by (simp add: around_def)
qed

lemma solveSigmaPrime_returns:
  assumes "0 < sigma" "0 < v" "0 < tau" "tau \<le> 2" "0 < epsilon" "in_proportion phi delta v tau"
  shows "solveSigmaPrime real_math phi sigma delta v tau epsilon \<noteq> None"
proof -
  let ?a = "ln (sigma * sigma)" and ?f = "sigma_f real_math phi delta v tau (ln (sigma * sigma))"
  obtain B where B: "(if phi * phi + v < delta * delta then Some (ln (delta * delta - phi * phi - v))
      else find_bracket real_math ?f ?a tau 1) = Some B" "?f ?a * ?f B \<le> 0"
    by (rule sigma_interval [OF assms(1-4), where phi = phi and delta = delta])
  obtain r where r: "?f r = 0" using root_between [OF sigma_f_continuous [OF assms(2,3)] B(2)] by blast
  obtain m where m: "steep m ?f" by (rule sigma_f_steep [OF assms(2,3,6)])
  from illinois_shrinks [OF m r around_start [OF m r B(2)] assms(5)]
  have "illinois_loop real_math ?f epsilon ?a B (?f ?a) (?f B) \<noteq> None" by (blast dest: illinois_loop_returns)
  then show ?thesis using B(1) by (auto simp: solveSigmaPrime_def Let_def)
qed

lemma volatility_solution:
  assumes "0 < sigma" "0 < v" "0 < tau" "tau \<le> 2" "0 < epsilon" "in_proportion phi delta v tau"
  obtains sigma' where "solveSigmaPrime real_math phi sigma delta v tau epsilon = Some (Inr sigma')"
  using solveSigmaPrime_returns [OF assms] solveSigmaPrime_root [OF assms(1-5), of phi delta] by blast

text \<open>
  C20: In exact arithmetic, with tau at most 2, the search for the volatility never reports an error. Unless the
  result is out of all proportion to what was expected (beyond 32 times for the default tau), the search ends, and
  whenever it ends the volatility it returns is positive and within the tolerance of a root of the
  volatility's equation.
\<close>

theorem volatility_solves_its_equation:
  assumes "0 < sigma" "0 < v" "0 < tau" "tau \<le> 2" "0 < epsilon"
  shows "case solveSigmaPrime real_math phi sigma delta v tau epsilon of
      None \<Rightarrow> \<not> in_proportion phi delta v tau
    | Some res \<Rightarrow> \<exists>sigma' x. res = Inr sigma' \<and> 0 < sigma'
        \<and> sigma_f real_math phi delta v tau (ln (sigma * sigma)) x = 0 \<and> \<bar>x - ln (sigma' * sigma')\<bar> \<le> epsilon"
proof (cases "solveSigmaPrime real_math phi sigma delta v tau epsilon")
  case None
  then show ?thesis using solveSigmaPrime_returns [OF assms, of phi delta] by auto
next
  case (Some res)
  from solveSigmaPrime_root [OF assms Some] show ?thesis by (simp add: Some)
qed

text \<open>The default tolerance, for a player of the initial uncertainty who did better than expected.\<close>

lemma volatility_solves_its_equation_witness:
  "\<exists>sigma' x. solveSigmaPrime real_math 2 (6 / 100) 1 3 (1 / 2) (1 / 1000000) = Some (Inr sigma') \<and> 0 < sigma'
    \<and> sigma_f real_math 2 1 3 (1 / 2) (ln (6 / 100 * (6 / 100))) x = 0 \<and> \<bar>x - ln (sigma' * sigma')\<bar> \<le> 1 / 1000000"
proof -
  have "in_proportion 2 1 3 (1 / 2)" by (simp add: in_proportion_def)
  with volatility_solves_its_equation [of "6 / 100" 3 "1 / 2" "1 / 1000000" 2 1] show ?thesis
    by (cases "solveSigmaPrime real_math 2 (6 / 100) 1 3 (1 / 2) (1 / 1000000)") auto
qed

section \<open>The rating service\<close>

text \<open>Between players at most 500 points apart every result is in proportion.\<close>

lemma glicko_g_le_1: "glicko_g real_math phi \<le> 1"
proof -
  have "0 \<le> 3 * phi * phi / (pi * pi)" by (intro divide_nonneg_nonneg) (simp_all add: mult.assoc)
  then have "1 \<le> sqrt (1 + 3 * phi * phi / (pi * pi))" by simp
  then have "1 / sqrt (1 + 3 * phi * phi / (pi * pi)) \<le> 1 / 1" by (rule frac_le [rotated 3]) simp_all
  then show ?thesis by (simp only: glicko_g_def real_math_simps) simp
qed

lemma expected_score_range:
  assumes "\<bar>R - R'\<bar> \<le> 500"
  shows "1 / 28 \<le> glicko_E real_math (toMu real_math R) (toMu real_math R') phi"
    and "glicko_E real_math (toMu real_math R) (toMu real_math R') phi \<le> 27 / 28"
proof -
  define x where "x = glicko_g real_math phi * (toMu real_math R - toMu real_math R')"
  have E: "glicko_E real_math (toMu real_math R) (toMu real_math R') phi = 1 / (1 + exp (- x))"
    by (simp add: glicko_E_def x_def)
  define c :: real where "c = 1737178 / 10000"
  have c: "0 < c" "500 \<le> 3 * c" by (simp_all add: c_def)
  have "toMu real_math R - toMu real_math R' = (R - R') / c"
    by (simp add: toMu_def glickoScale_def c_def flip: diff_divide_distrib)
  then have "\<bar>toMu real_math R - toMu real_math R'\<bar> = \<bar>R - R'\<bar> / c" using c(1) by (simp add: abs_divide)
  also have "\<dots> \<le> 3" using assms c by (simp add: divide_le_eq)
  finally have d: "\<bar>toMu real_math R - toMu real_math R'\<bar> \<le> 3" .
  have "\<bar>x\<bar> = glicko_g real_math phi * \<bar>toMu real_math R - toMu real_math R'\<bar>"
    using glicko_g_pos [of phi] by (simp add: x_def abs_mult)
  also have "\<dots> \<le> 1 * 3" by (rule mult_mono) (use d glicko_g_le_1 in simp_all)
  finally have x: "\<bar>x\<bar> \<le> 3" by simp
  have e3: "exp 3 \<le> (27 :: real)"
  proof -
    have "exp (3 * 1) = (exp 1 :: real) ^ 3" using exp_of_nat_mult [of 3 "1 :: real"] by simp
    also have "\<dots> \<le> 3 ^ 3" by (rule power_mono) (simp_all add: exp_le)
    finally show ?thesis by simp
  qed
  have up: "exp (- x) \<le> 27" using x e3 order_trans [of "exp (- x)" "exp 3" 27] by simp
  then show "1 / 28 \<le> glicko_E real_math (toMu real_math R) (toMu real_math R') phi"
    unfolding E by (simp add: divide_simps add_pos_pos)
  have "exp x \<le> 27" using x e3 order_trans [of "exp x" "exp 3" 27] by simp
  then have "1 / 27 \<le> exp (- x)" by (simp add: exp_minus divide_simps)
  then show "glicko_E real_math (toMu real_math R) (toMu real_math R') phi \<le> 27 / 28"
    unfolding E by (simp add: divide_simps add_pos_pos)
qed

lemma surprise_of_a_game:
  fixes e s g phi :: real
  assumes "1 / 28 \<le> e" "e \<le> 27 / 28" "0 \<le> s" "s \<le> 1" "0 < g" "0 < phi"
  defines "v \<equiv> 1 / (g * g * e * (1 - e))"
  shows "in_proportion phi (v * (g * (s - e))) v (1 / 2)"
proof -
  have pos: "0 < e" "0 < 1 - e" using assms(1,2) by simp_all
  then have v: "0 < v" using assms(5) by (simp add: v_def)
  have "(s - e) * (s - e) \<le> 33 * (e * (1 - e))"
  proof (cases "e \<le> s")
    case True
    have "(s - e) * (s - e) \<le> (1 - e) * (1 - e)" using True assms(4) by (intro mult_mono) simp_all
    also have "\<dots> \<le> (33 * e) * (1 - e)" using assms(1) pos by (intro mult_right_mono) simp_all
    finally show ?thesis by simp
  next
    case False
    have "(e - s) * (e - s) \<le> e * e" using False assms(3) by (intro mult_mono) simp_all
    also have "\<dots> \<le> e * (33 * (1 - e))" using assms(2) pos by (intro mult_left_mono) simp_all
    finally show ?thesis by (simp add: algebra_simps)
  qed
  moreover have "(v * (g * (s - e))) * (v * (g * (s - e))) = v * ((s - e) * (s - e)) / (e * (1 - e))"
  proof -
    have "v * (g * g) = 1 / (e * (1 - e))" using assms(5) by (simp add: v_def mult.assoc)
    moreover have "(v * (g * (s - e))) * (v * (g * (s - e))) = v * (v * (g * g)) * ((s - e) * (s - e))"
      by (simp only: mult_ac)
    ultimately show ?thesis by simp
  qed
  ultimately have "(v * (g * (s - e))) * (v * (g * (s - e))) \<le> v * (33 * (e * (1 - e))) / (e * (1 - e))"
    using v pos by (simp only:) (intro divide_right_mono mult_left_mono, simp_all)
  also have "\<dots> = (33 * v) * (e * (1 - e)) / (e * (1 - e))" by (simp only: mult_ac)
  also have "\<dots> = 33 * v" by (rule nonzero_mult_div_cancel_right) (use pos in simp)
  finally have "(v * (g * (s - e))) * (v * (g * (s - e))) \<le> 33 * v" .
  moreover have "1 / 2 * (1 / 2) * (x - p - v) < 8 * (p + v)" if "x \<le> 33 * v" "0 < p" for x p
    using that by (simp add: algebra_simps)
  moreover have "0 < phi * phi" using assms(6) by simp
  ultimately show ?thesis unfolding in_proportion_def by blast
qed

text \<open>So the service takes every game between two valid players that close.\<close>

lemma Update_close_game:
  assumes "validateRating real_math r = None" "validateRating real_math (op_Opponent opp) = None"
    and "IsValid real_math (op_Score opp)" "\<bar>ra_R r - ra_R (op_Opponent opp)\<bar> \<le> 500"
  shows "\<exists>r'. Update real_math (DefaultConfig real_math) r [opp] = Some (Inr r')"
proof -
  let ?cfg = "DefaultConfig real_math"
  define e where "e = glicko_E real_math (toMu real_math (ra_R r)) (toMu real_math (ra_R (op_Opponent opp)))
    (toPhi real_math (ra_RD (op_Opponent opp)))"
  define g where "g = glicko_g real_math (toPhi real_math (ra_RD (op_Opponent opp)))"
  define phi where "phi = toPhi real_math (ra_RD r)"
  have range: "1 / 28 \<le> e" "e \<le> 27 / 28" unfolding e_def by (rule expected_score_range [OF assms(4)])+
  have g: "0 < g" by (simp add: g_def glicko_g_pos)
  have I: "0 < g * g * e * (1 - e)" using g range by (intro mult_pos_pos) linarith+
  have score: "0 \<le> op_Score opp" "op_Score opp \<le> 1"
    using assms(3) by (auto simp: IsValid_def ScoreLoss_def ScoreDraw_def ScoreWin_def)
  have rd: "0 < ra_RD r" "0 < ra_Sigma r" using assms(1) by (auto simp: validateRating_def split: if_splits)
  then have phi: "0 < phi" by (simp add: phi_def toPhi_def glickoScale_def)
  have cfg: "validateConfig real_math ?cfg = None" "gc_Tau ?cfg = 1 / 2" "gc_Epsilon ?cfg = 1 / 1000000"
    by (simp_all add: validateConfig_def DefaultConfig_def defaultRating_def validateRating_def)
  have sum: "add_opponent real_math (toMu real_math (ra_R r)) opp (0, 0) = (g * g * e * (1 - e), g * (op_Score opp - e))"
    by (simp add: add_opponent_def Let_def g_def e_def)
  define v where "v = 1 / (g * g * e * (1 - e))"
  have "in_proportion phi (v * (g * (op_Score opp - e))) v (1 / 2)"
    unfolding v_def by (rule surprise_of_a_game [OF range score g phi])
  moreover have "0 < v" using I by (simp add: v_def)
  ultimately obtain s' where s': "solveSigmaPrime real_math phi (ra_Sigma r) (v * (g * (op_Score opp - e))) v (1 / 2) (1 / 1000000)
      = Some (Inr s')"
    using volatility_solution [of "ra_Sigma r" v "1 / 2" "1 / 1000000" phi "v * (g * (op_Score opp - e))"] rd by auto
  have "\<exists>r'. update_rating real_math ?cfg r [opp] = Some (Inr r')"
    using I s' by (simp add: update_rating_def Let_def sum cfg phi_def [symmetric] v_def [symmetric] not_le)
  moreover have "\<not> no_rating real_math r" using rd by (simp add: no_rating_def)
  ultimately show ?thesis using assms(1-3) by (simp add: Update_def cfg(1))
qed

end
