(* ===== verification/Recording.thy ===== *)
theory Recording
  imports Archive Volatility
begin

text \<open>
  The live match and the archive together: what a match hands to the finalizer
  (\<^verbatim>\<open>internal/matchmaking/service.go\<close>) is what the archive (\<^verbatim>\<open>internal/storage/repositories.go\<close>) takes,
  keeps, and gives back to the replay runner; and what any calls of the archive keep of the seasons.
\<close>

section \<open>The seasons\<close>

lemma getOrCreateRatingTx_commits: "commits (seasons_ok D) (getOrCreateRatingTx M D pid season now)"
  by (rule keeps_commits [OF getOrCreateRatingTx_keeps])

lemma record_match_keeps_seasons: "keeps (seasons_ok D) (record_match M D createdAt params season scores entries news)"
proof -
  have tables: "keeps (seasons_ok D) (exec (insert_match m))" "keeps (seasons_ok D) (exec (insert_replay r))"
    "keeps (seasons_ok D) (exec (insert_replay_turn t))" "keeps (seasons_ok D) (exec (insert_result M q))" for m r t q
    by (rule keeps_exec; force simp: seasons_ok_def insert_match_def insert_replay_def insert_replay_turn_def
        insert_result_def split: if_splits)+
  show ?thesis
    unfolding record_match_def insertMatchTx_def insertMatchReplayTx_def insertMatchResultTx_def Let_def
    by (intro keeps_and_then keeps_give tables upsertRatingTx_keeps)
      (auto split: option.split intro!: keeps_and_then keeps_give tables keeps_do_all)
qed

lemma FinalizeMatch_keeps_seasons:
  assumes "timestamps_ok (sd_tz D)"
  shows "keeps (seasons_ok D) (FinalizeMatch M D rank sid mid clock params)"
proof -
  have "commits (seasons_ok D) (finalize_tx M D rank sid clock p scores)" for p scores
    unfolding finalize_tx_def
    by (intro commits_and_then ensureActiveSeasonTx_commits assms getOrCreateRatingTx_commits)
      (auto split: sum.split intro: keeps_commits keeps_fail record_match_keeps_seasons)
  then show ?thesis
    unfolding FinalizeMatch_def Let_def
    by (intro keeps_with_pool keeps_if keeps_fail) (auto split: sum.split intro!: keeps_fail commits_transaction)
qed

lemma CreateMatch_keeps_seasons: "keeps (seasons_ok D) (CreateMatch D clock mid m)"
proof -
  have "keeps (seasons_ok D) (insertMatchTx D m)" for m
    unfolding insertMatchTx_def
    by (rule keeps_exec) (auto simp: seasons_ok_def dest: insert_match_Inr)
  then show ?thesis
    unfolding CreateMatch_def Let_def by (intro keeps_with_pool keeps_if keeps_fail keeps_and_then keeps_give)
qed

lemma store_call_keeps_seasons:
  assumes "timestamps_ok (sd_tz D)"
  shows "keeps (seasons_ok D) (run_store_call M D rank c)"
  by (cases c) (auto intro!: keeps_and_then keeps_give FinalizeMatch_keeps_seasons CreateMatch_keeps_seasons assms
      EnsureActive_keeps GetOrCreateForActiveSeason_keeps Upsert_keeps)

lemma season_chain_numbers: "season_chain ss \<Longrightarrow> map sa_Number ss = map (\<lambda>i. int i + 1) [0..<length ss]"
  and season_chain_links: "season_chain ss \<Longrightarrow> Suc i < length ss \<Longrightarrow> sa_StartsAt (ss ! Suc i) = sa_EndsAt (ss ! i)"
  unfolding season_chain_def by blast+

text \<open>
  C13: The seasons stay in order, whatever calls the archive gets and whatever the connection does to them:
  they are numbered from 1 without a gap, each begins when the one before it ends, and all are closed
  but the last, which is the active season.
\<close>

theorem seasons_stay_in_order:
  assumes "timestamps_ok (sd_tz D)" "seasons_ok D d" "store_calls M D rank calls (d, rs) = (d', rs')"
  shows "map sa_Number (db_seasons d') = map (\<lambda>i. int i + 1) [0..<length (db_seasons d')]
    \<and> (\<forall>i. Suc i < length (db_seasons d') \<longrightarrow> sa_StartsAt (db_seasons d' ! Suc i) = sa_EndsAt (db_seasons d' ! i))
    \<and> filter is_active (db_seasons d') = (if db_seasons d' = [] then [] else [last (db_seasons d')])"
proof -
  have "seasons_ok D (fst (store_calls M D rank calls (d, rs)))"
    by (rule store_calls_keep [where I = "seasons_ok D"]) (simp_all add: store_call_keeps_seasons assms(1,2))
  then have chain: "season_chain (db_seasons d')" by (simp add: assms(3) seasons_ok_def)
  show ?thesis
    by (intro conjI allI impI season_chain_numbers [OF chain] season_chain_links [OF chain] season_chain_active [OF chain])
qed

text \<open>Two calls on an empty database, the first broken at its commit, the second past the end of a season.\<close>

lemma seasons_stay_in_order_witness:
  "\<exists>d' rs'. store_calls real_math (NewSQLRepositories True micros) (\<lambda>r _. Inr r)
      [CallEnsureActive ''s1'' 7000, CallEnsureActive ''s2'' 8000] (empty_database, [Works, Works, Works, Breaks]) = (d', rs')
    \<and> map sa_Number (db_seasons d') = map (\<lambda>i. int i + 1) [0..<length (db_seasons d')]"
proof -
  let ?D = "NewSQLRepositories True micros" and ?calls = "[CallEnsureActive ''s1'' 7000, CallEnsureActive ''s2'' 8000]"
  obtain d' rs' where run: "store_calls real_math ?D (\<lambda>r _. Inr r) ?calls (empty_database, [Works, Works, Works, Breaks])
      = (d', rs')" by (cases "store_calls real_math ?D (\<lambda>r _. Inr r) ?calls (empty_database, [Works, Works, Works, Breaks])")
  have "timestamps_ok (sd_tz ?D)" "seasons_ok ?D empty_database"
    using timestamps_ok_micros by (simp_all add: NewSQLRepositories_def seasons_ok_def season_chain_def empty_database_def)
  from seasons_stay_in_order [OF this run] run show ?thesis by blast
qed

section \<open>What a match records fits its rows\<close>

definition wide_input :: "turn_input \<Rightarrow> bool" where
  "wide_input i \<longleftrightarrow> action_code (ti_Action i) < 256 \<and> zone_code (ti_Target i) < 256 \<and> int64_ok (ti_DecisionMS i)"

lemma normalize_wide: "int64_ok (ti_DecisionMS i) \<Longrightarrow> wide_input (normalizeTurnInput i pid)"
  by (auto simp: wide_input_def normalizeTurnInput_def Let_def)

lemma idle_wide [simp]: "wide_input (idle_input pid)"
  by (simp add: wide_input_def int64_ok_def)

lemma milliseconds_int64: "int64_ok (Milliseconds (time_sub t u))"
proof -
  have b: "- (2 ^ 63) \<le> time_sub t u" "time_sub t u \<le> 2 ^ 63 - 1" by (simp_all add: time_sub_def)
  have "\<bar>time_sub t u sdiv 1000000\<bar> \<le> \<bar>time_sub t u\<bar> div 1000000"
    by (simp add: signed_divide_int_def abs_mult sgn_mult)
  also have "\<dots> \<le> 2 ^ 63 div 1000000" using b by (intro zdiv_mono1) auto
  finally show ?thesis by (simp add: Milliseconds_def int64_ok_def abs_le_iff)
qed

lemma wait_wide: "waitForTurnInput sess evs = Some res \<Longrightarrow> int64_ok (ti_DecisionMS (tir_input res))"
proof (induction sess evs rule: waitForTurnInput.induct)
  case (5 sess cmd now evs)
  then show ?case
    using milliseconds_int64 [of now "cmd_ReceivedAt cmd"] by (auto simp: Let_def int64_ok_def split: if_splits)
qed (auto simp: int64_ok_def zero_input_def)

lemma decide_wide: "decideNPCInput (Some (Decide NextInt)) m pid rng = (i, rng') \<Longrightarrow> wide_input i"
proof -
  assume run: "decideNPCInput (Some (Decide NextInt)) m pid rng = (i, rng')"
  have "int64_ok (ti_DecisionMS inp)" if "Decide NextInt m pid rng = (Inr inp, r)" for inp r
    using that
    by (auto simp: Decide_def decide_awake_def Let_def int64_ok_def split: if_splits option.splits sum.splits prod.splits)
  with run show ?thesis
    by (auto simp: decideNPCInput_def intro: normalize_wide split: prod.splits sum.splits)
qed

lemma start_collect_wide:
  "start_collect (Some (Decide NextInt)) m slot evs = (Some res, slot') \<Longrightarrow> int64_ok (ti_DecisionMS (tir_input res))"
  by (auto simp: start_collect_def wide_input_def dest: wait_wide decide_wide split: if_splits prod.splits)

lemma resolve_wide:
  assumes "resolveTurnInput (Some (Decide NextInt)) m slot res = (i, why, slot')" "int64_ok (ti_DecisionMS (tir_input res))"
  shows "wide_input i"
  using assms(1) normalize_wide [OF assms(2)]
  by (auto simp: resolveTurnInput_def slot_takeover_def Let_def dest: decide_wide
      split: turn_input_status.splits prod.splits if_splits)

lemma collect_wide:
  assumes "collectTurnInputs (Some (Decide NextInt)) m s1 s2 evs1 evs2 order = Some (Some ins, t1, t2, frames)" "slots_ok s1 s2"
  shows "list_all wide_input ins"
  using assms
proof (cases rule: collectTurnInputs_E)
  case (collected a b s1' s2' i1 i2 why1 why2)
  from resolve_wide [OF collected(5) start_collect_wide [OF collected(1)]]
    resolve_wide [OF collected(6) start_collect_wide [OF collected(2)]] collected(7)
  show ?thesis by simp
qed simp

lemma canonical_wide:
  assumes "CanonicalizeInputs st ins = Inr ord" "list_all wide_input ins"
  shows "list_all (\<lambda>i. wide_input i \<and> ti_PlayerID i \<in> player_ids st) ord"
proof -
  from assms(1) obtain byPlayer where by_player: "inputs_by_player Map.empty ins = Inr byPlayer"
    and ord: "ord = map (canonical_input byPlayer) (sort [fs_PlayerID (ms_P1 st), fs_PlayerID (ms_P2 st)])"
    by (auto simp: CanonicalizeInputs_def Let_def split: sum.splits if_splits)
  have found: "i \<in> set ins \<and> ti_PlayerID i = pid" if "byPlayer pid = Some i" for pid i
    using inputs_by_player_Inr [OF by_player] that by (auto split: option.splits dest: find_SomeD)
  have "wide_input (canonical_input byPlayer pid) \<and> ti_PlayerID (canonical_input byPlayer pid) = pid" for pid
    using found [of pid] assms(2)
    by (auto simp: canonical_input_def Let_def wide_input_def list_all_iff int64_ok_def split: option.splits)
  then show ?thesis by (auto simp: ord list_all_iff player_ids_def)
qed

definition turn_fits :: "session \<Rightarrow> session \<Rightarrow> replay_turn_write \<Rightarrow> bool" where
  "turn_fits sess1 sess2 t \<longleftrightarrow> 0 \<le> rt_RelativeMS t \<and> int64_ok (rt_RelativeMS t)
     \<and> list_all (\<lambda>i. wide_input i \<and> ti_PlayerID i \<in> {se_PlayerID sess1, se_PlayerID sess2}) (rt_Inputs t)"

lemma match_turn_fits:
  assumes "program_deps D" "sessions_ok sess1 sess2" "run_ok initial seed sess1 sess2 run"
    and "match_turn D cfg startedAt te sess1 sess2 run = Some (run', exit)"
    and "list_all (turn_fits sess1 sess2) (mr_replay run)"
  shows "list_all (turn_fits sess1 sess2) (mr_replay run')"
proof -
  let ?st = "State (mr_sim run)"
  have slots: "slots_ok (mr_slot1 run) (mr_slot2 run)" and ids: "player_ids ?st = {se_PlayerID sess1, se_PlayerID sess2}"
    using assms(2,3) by (simp_all add: run_ok_def sessions_ok_def slots_ok_def player_ids_def)
  consider "mr_replay run' = mr_replay run"
    | (played) ins slot1 slot2 frames ord where
      "collectTurnInputs (Some (Decide NextInt)) ?st (mr_slot1 run) (mr_slot2 run) (te_events1 te) (te_events2 te)
        (te_second_first te) = Some (Some ins, slot1, slot2, frames)"
      "CanonicalizeInputs ?st ins = Inr ord"
      "\<exists>t ck. mr_replay run' = mr_replay run @ [\<lparr>rt_Turn = t, rt_RelativeMS =
          (let ms = Milliseconds (time_sub (te_now te) startedAt) in if ms < 0 then 0 else ms),
         rt_Inputs = ord, rt_Checksums = ck\<rparr>]"
    using assms(1,4)
    by (auto simp: match_turn_def program_deps_def Let_def resolved_turn_def split_beta
        split: if_splits option.splits sum.splits prod.splits)
  then show ?thesis
  proof cases
    case played
    have "list_all (\<lambda>i. wide_input i \<and> ti_PlayerID i \<in> {se_PlayerID sess1, se_PlayerID sess2}) ord"
      using canonical_wide [OF played(2) collect_wide [OF played(1) slots]] by (simp only: ids)
    with played(3) milliseconds_int64 [of "te_now te" startedAt] assms(5) show ?thesis
      by (auto simp: turn_fits_def Let_def int64_ok_def)
  qed (use assms(5) in simp)
qed

lemma match_loop_fits:
  assumes "program_deps D" "sessions_ok sess1 sess2"
  shows "match_loop D cfg startedAt env sess1 sess2 turn run = Some (run', exit) \<Longrightarrow>
    run_ok initial seed sess1 sess2 run \<Longrightarrow> list_all (turn_fits sess1 sess2) (mr_replay run) \<Longrightarrow>
    list_all (turn_fits sess1 sess2) (mr_replay run')"
proof (induction "nat (md_MaxTurns D - turn)" arbitrary: turn run)
  case 0
  then show ?case by (subst (asm) match_loop.simps) auto
next
  case (Suc k)
  then have turn: "turn < md_MaxTurns D" by simp
  with Suc.prems(1) obtain run1 ex where one:
    "match_turn D cfg startedAt (env turn) sess1 sess2 run = Some (run1, ex)"
    and rest: "case ex of Some exit' \<Rightarrow> run' = run1 \<and> exit = exit'
      | None \<Rightarrow> match_loop D cfg startedAt env sess1 sess2 (turn + 1) run1 = Some (run', exit)"
    by (subst (asm) match_loop.simps) (auto split: option.splits prod.splits)
  note fits = match_turn_fits [OF assms Suc.prems(2) one Suc.prems(3)]
  show ?case
  proof (cases ex)
    case None
    with rest have "match_loop D cfg startedAt env sess1 sess2 (turn + 1) run1 = Some (run', exit)" by simp
    from Suc.hyps(1) [OF _ this match_turn_ok(1) [OF assms Suc.prems(2) one] fits] Suc.hyps(2) show ?thesis by simp
  qed (use rest fits in simp)
qed

text \<open>The replay that a match hands over, and its players.\<close>

lemma finalized_replay:
  assumes "program_deps D" "sessions_ok sess1 sess2"
    and "runMatch D env sess1 sess2 wait1 wait2 = Some (Some (run, exit), out)" "FinalizedMatch p \<in> set out"
  shows "fm_Replay p = Some \<lparr>rw_Seed = run_seed D env sess1 sess2, rw_InitialState = run_initial sess1 sess2,
      rw_Turns = mr_replay run\<rparr>"
    "list_all (turn_fits sess1 sess2) (mr_replay run)" "fm_StartedAt p = re_startedAt env" "fm_EndedAt p = re_endedAt env"
    "fm_MatchID p = md_match_id D"
proof -
  from runMatch_finalized [OF assms(3,4)] have p: "p = finalize_params D env sess1 sess2 (run_seed D env sess1 sess2)
      (run_initial sess1 sess2) run"
    and loop: "match_loop D (match_config D) (re_startedAt env) (re_turns env) sess1 sess2 0
      (new_run D (run_initial sess1 sess2) (run_seed D env sess1 sess2) sess1 sess2 False
        (opening_out D sess1 sess2 @ [RegisteredMatch (active_match_of D sess1 sess2)])) = Some (run, LoopDone)"
    by blast+
  show "list_all (turn_fits sess1 sess2) (mr_replay run)"
    by (rule match_loop_fits [OF assms(1,2) loop run_initial_ok]) (simp add: new_run_def)
  show "fm_Replay p = Some \<lparr>rw_Seed = run_seed D env sess1 sess2, rw_InitialState = run_initial sess1 sess2,
      rw_Turns = mr_replay run\<rparr>" "fm_StartedAt p = re_startedAt env" "fm_EndedAt p = re_endedAt env"
    "fm_MatchID p = md_match_id D"
    by (simp_all add: p finalize_params_def split_beta Let_def)
qed

lemma NewFighter_fits: "NewFighter pid arch = Inr f \<Longrightarrow> text_ok pid \<Longrightarrow> fighter_fits f"
  by (cases arch) (auto simp: NewFighter_def fighter_fits_def no_effects_def int64_ok_def HPMax_def StaminaMax_def)

lemma run_initial_fits:
  assumes "text_ok (se_PlayerID sess1)" "text_ok (se_PlayerID sess2)"
  shows "state_fits (run_initial sess1 sess2)"
proof -
  obtain f1 where f1: "NewFighter (se_PlayerID sess1) (pickArchetype (se_PlayerID sess1) 0) = Inr f1"
    using NewFighter_known by blast
  obtain f2 where f2: "NewFighter (se_PlayerID sess2) (pickArchetype (se_PlayerID sess2) 1) = Inr f2"
    using NewFighter_known by blast
  have "run_initial sess1 sess2 = NewMatchState f1 f2" by (simp add: run_initial_def f1 f2)
  with NewFighter_fits [OF f1 assms(1)] NewFighter_fits [OF f2 assms(2)] show ?thesis
    by (simp add: NewMatchState_def state_fits_def int64_ok_def no_outcome_def text_ok_def)
qed

lemma finalized_replay_fits:
  assumes "text_ok (se_PlayerID sess1)" "text_ok (se_PlayerID sess2)" "list_all (turn_fits sess1 sess2) ts"
  shows "replay_fits \<lparr>rw_Seed = seed, rw_InitialState = run_initial sess1 sess2, rw_Turns = ts\<rparr>"
proof -
  have "list_all input_fits (rt_Inputs t)" if "turn_fits sess1 sess2 t" for t
    using that assms(1,2) by (auto simp: turn_fits_def list_all_iff wide_input_def input_fits_def)
  then have "list_all (\<lambda>t. list_all input_fits (rt_Inputs t)) ts"
    using assms(3) by (rule list.pred_mono_strong [rotated])
  with run_initial_fits [OF assms(1,2)] show ?thesis by (simp add: replay_fits_def)
qed

section \<open>The match and its replay\<close>

lemma read_back_maps:
  "map (\<lambda>t. \<lparr>ie_Turn = me_Turn t, ie_RelativeMS = me_RelativeMS t, ie_Inputs = me_Inputs t\<rparr>) (map (\<lambda>t. read_back t c) ts)
    = map (\<lambda>t. \<lparr>ie_Turn = rt_Turn t, ie_RelativeMS = rt_RelativeMS t, ie_Inputs = rt_Inputs t\<rparr>) ts"
  "map me_Checksums (map (\<lambda>t. read_back t c) ts) = map rt_Checksums ts"
  "map me_Turn (map (\<lambda>t. read_back t c) ts) = map rt_Turn ts"
  by (induction ts) (simp_all add: read_back_def)

text \<open>
  C6: A finished match that the archive has confirmed can be replayed from the archive. Whatever calls the
  archive gets afterwards, the replay read under the match's identifier is the one of the match: its seed, the state it
  began in, and exactly its turns in order, each with its number, time, inputs and checksums. The replay runner plays it to the
  recorded turns and checksums and ends in the final state of the live match.
\<close>

theorem stored_match_replays:
  assumes "program_deps deps" "sessions_ok sess1 sess2"
    and "runMatch deps env sess1 sess2 wait1 wait2 = Some (Some (run, exit), out)"
    and "FinalizedMatch p \<in> set out"
    and "text_ok (se_PlayerID sess1)" "text_ok (se_PlayerID sess2)"
    and "archive_ok d" "FinalizeMatch M D rank sid mid clock p (d, rs) = (Inr fz, stored)" "match_id p mid \<noteq> []"
    and "store_calls M D rank calls stored = (d', rs')"
  shows "\<exists>r results. GetMatchReplay D (mt_ID (fz_Match fz)) (d', []) = (Inr r, (d', []))
    \<and> ml_Seed r = run_seed deps env sess1 sess2 \<and> ml_InitialState r = run_initial sess1 sess2
    \<and> map (\<lambda>t. (me_Turn t, me_RelativeMS t, me_Inputs t, me_Checksums t)) (ml_Turns r)
      = map (\<lambda>t. (rt_Turn t, rt_RelativeMS t, rt_Inputs t, rt_Checksums t)) (mr_replay run)
    \<and> Replay (Some det_resolver) \<lparr>rr_Seed = ml_Seed r, rr_Archetypes = archs, rr_Initial = ml_InitialState r,
        rr_Inputs = map (\<lambda>t. \<lparr>ie_Turn = me_Turn t, ie_RelativeMS = me_RelativeMS t, ie_Inputs = me_Inputs t\<rparr>) (ml_Turns r)\<rparr>
      = Inr results
    \<and> map tr_Checksums results = map me_Checksums (ml_Turns r)
    \<and> map (\<lambda>res. ms_Turn (tr_Next res)) results = map me_Turn (ml_Turns r)
    \<and> last (State (NewCombatSimulator (ml_InitialState r) (ml_Seed r)) # map tr_Next results) = State (mr_sim run)"
proof -
  note fin = finalized_replay [OF assms(1-4)]
  define w where "w = \<lparr>rw_Seed = run_seed deps env sess1 sess2, rw_InitialState = run_initial sess1 sess2,
    rw_Turns = mr_replay run\<rparr>"
  have w: "fm_Replay p = Some w" by (simp add: fin(1) w_def)
  have fits: "replay_fits w" unfolding w_def by (rule finalized_replay_fits [OF assms(5,6) fin(2)])
  from runMatch_recorded [OF assms(1-4) w, of archs] obtain results where played:
    "Replay (Some det_resolver) \<lparr>rr_Seed = rw_Seed w, rr_Archetypes = archs, rr_Initial = rw_InitialState w,
      rr_Inputs = map (\<lambda>t. \<lparr>ie_Turn = rt_Turn t, ie_RelativeMS = rt_RelativeMS t, ie_Inputs = rt_Inputs t\<rparr>) (rw_Turns w)\<rparr>
      = Inr results"
    "map tr_Checksums results = map rt_Checksums (rw_Turns w)"
    "map (\<lambda>r. ms_Turn (tr_Next r)) results = map rt_Turn (rw_Turns w)"
    "last (State (NewCombatSimulator (rw_InitialState w) (rw_Seed w)) # map tr_Next results) = State (mr_sim run)"
    "map rt_Turn (rw_Turns w) = map (\<lambda>k. int k + 1) [0..<length (rw_Turns w)]" by blast
  have increasing: "sorted (map rt_Turn (rw_Turns w))"
    unfolding played(5) by (simp add: sorted_iff_nth_mono)
  obtain d1 rs1 where stored: "stored = (d1, rs1)" by (cases stored)
  note rec = FinalizeMatch_new_replay [OF assms(7) assms(8) [unfolded stored] w]
  have "replay_on_record D (match_id p mid) w clock (fst (store_calls M D rank calls stored))"
    by (rule store_calls_keep [where I = "replay_on_record D (match_id p mid) w clock"])
      (simp_all add: store_call_keeps_replay rec(1) stored)
  then have "replay_on_record D (match_id p mid) w clock d'" by (simp add: assms(10))
  note got = GetMatchReplay_recorded [OF this fits increasing rec(3) assms(9)]
  let ?r = "\<lparr>ml_MatchID = match_id p mid, ml_Seed = rw_Seed w, ml_InitialState = rw_InitialState w,
    ml_Turns = map (\<lambda>t. read_back t (sd_tz D clock)) (rw_Turns w), ml_CreatedAt = sd_tz D clock\<rparr>"
  show ?thesis
  proof (rule exI [of _ ?r], rule exI [of _ results], intro conjI)
    show "ml_Seed ?r = run_seed deps env sess1 sess2" "ml_InitialState ?r = run_initial sess1 sess2" by (simp_all add: w_def)
    show "map (\<lambda>t. (me_Turn t, me_RelativeMS t, me_Inputs t, me_Checksums t)) (ml_Turns ?r)
      = map (\<lambda>t. (rt_Turn t, rt_RelativeMS t, rt_Inputs t, rt_Checksums t)) (mr_replay run)"
      by (simp add: w_def read_back_def)
    show "last (State (NewCombatSimulator (ml_InitialState ?r) (ml_Seed ?r)) # map tr_Next results) = State (mr_sim run)"
      using played(4) by (simp only: match_replay.select_convs)
    show "GetMatchReplay D (mt_ID (fz_Match fz)) (d', []) = (Inr ?r, (d', []))"
      using got by (simp only: rec(2))
    show "Replay (Some det_resolver) \<lparr>rr_Seed = ml_Seed ?r, rr_Archetypes = archs, rr_Initial = ml_InitialState ?r,
        rr_Inputs = map (\<lambda>t. \<lparr>ie_Turn = me_Turn t, ie_RelativeMS = me_RelativeMS t, ie_Inputs = me_Inputs t\<rparr>) (ml_Turns ?r)\<rparr>
      = Inr results"
      using played(1) by (simp only: match_replay.select_convs read_back_maps)
    show "map tr_Checksums results = map me_Checksums (ml_Turns ?r)"
      "map (\<lambda>res. ms_Turn (tr_Next res)) results = map me_Turn (ml_Turns ?r)"
      using played(2,3) by (simp_all only: match_replay.select_convs read_back_maps)
  qed
qed

section \<open>A played match is recorded\<close>

definition store_ready :: "store_deps \<Rightarrow> string \<Rightarrow> ('f, 'z) database_scheme \<Rightarrow> bool" where
  "store_ready D sid d \<longleftrightarrow> sd_pool D \<and> archive_ok d \<and> seasons_ok D d \<and> timestamps_ok (sd_tz D)
     \<and> 2000 \<le> sd_seasonDuration D \<and> sid \<notin> sa_ID ` set (db_seasons d) \<and> int4 (int (length (db_seasons d)) + 1)"

lemma finalized_params_ok:
  assumes "program_deps deps" "sessions_ok sess1 sess2"
    and "runMatch deps env sess1 sess2 wait1 wait2 = Some (Some (run, exit), out)" "FinalizedMatch p \<in> set out"
    and "known_player d (se_PlayerID sess1)" "known_player d (se_PlayerID sess2)"
    and "0 < re_startedAt env" "re_startedAt env \<le> re_endedAt env"
    and "re_endedAt env - re_startedAt env < 1000000 * 2 ^ 31" "length (mr_replay run) < 2 ^ 31"
  shows "params_ok M d p"
proof -
  note fin = finalized_replay [OF assms(1-4)] and outcome = runMatch_outcome [OF assms(1-4)]
  from runMatch_recorded [OF assms(1-4) fin(1)] have turns:
    "map rt_Turn (mr_replay run) = map (\<lambda>k. int k + 1) [0..<length (mr_replay run)]" by auto
  have turn: "int4 (rt_Turn t) \<and> 0 < rt_Turn t" if t: "t \<in> set (mr_replay run)" for t
  proof -
    from t have "rt_Turn t \<in> set (map rt_Turn (mr_replay run))" by simp
    then obtain k where "k < length (mr_replay run)" "rt_Turn t = int k + 1" unfolding turns by auto
    with assms(10) show ?thesis by (simp add: int4_def)
  qed
  have "distinct (map rt_Turn (mr_replay run))" unfolding turns by (simp add: distinct_map inj_on_def)
  with turn fin(2) have "turns_ok (mr_replay run)" by (auto simp: turns_ok_def list_all_iff turn_fits_def)
  moreover have "int4 (int (length (mr_replay run)))" using assms(10) by (simp add: int4_def)
  ultimately have "pred_option replay_ok (fm_Replay p)" by (simp add: fin(1) replay_ok_def)
  moreover have "\<exists>scores. scoresForResult M p = Inr scores"
    using outcome by (auto simp: scoresForResult_def split: option.splits)
  ultimately show ?thesis
    using assms(2,5-9) outcome by (simp add: params_ok_def fin(3,4) sessions_ok_def)
qed

text \<open>
  C15: The archive takes every match that the server plays to its end and can be rated. With both players known, a sane clock,
  a connection that works and fresh identifiers, the finalizer accepts what the match hands it, and the
  match is on record with its results and ratings; the one exception is that the rating service itself refuses the result
  for the ratings of the two players, which are the default, one that the player has, or one reset for the new season. Then
  that is the error reported and the archive is left as it was.
\<close>

theorem played_match_is_recorded:
  assumes "program_deps deps" "sessions_ok sess1 sess2"
    and "runMatch deps env sess1 sess2 wait1 wait2 = Some (Some (run, exit), out)" "FinalizedMatch p \<in> set out"
    and "known_player d (se_PlayerID sess1)" "known_player d (se_PlayerID sess2)"
    and "0 < re_startedAt env" "re_startedAt env \<le> re_endedAt env"
    and "re_endedAt env - re_startedAt env < 1000000 * 2 ^ 31" "length (mr_replay run) < 2 ^ 31"
    and "store_ready D sid d" "match_id p mid \<notin> mt_ID ` set (db_matches d)"
    and "scores_valid M"
  shows "\<exists>res d'. FinalizeMatch M D rank sid mid clock p (d, []) = (res, (d', [])) \<and> (case res of
      Inr fz \<Rightarrow> match_on_record M rank p (match_id p mid) d' \<and> mt_ID (fz_Match fz) = match_id p mid
    | Inl err \<Rightarrow> err = ErrRankingFailed \<and> d' = d \<and> (\<exists>r1 r2 scores e.
        may_start M (own_entries d (se_PlayerID sess1)) r1 \<and> may_start M (own_entries d (se_PlayerID sess2)) r2
        \<and> scoresForResult M p = Inr scores \<and> rate_players rank r1 r2 scores = Inl e))"
proof -
  note ready = assms(11) [unfolded store_ready_def]
  have ok: "params_ok M d p" by (rule finalized_params_ok [OF assms(1-10)])
  have ids: "fm_Player1ID p = se_PlayerID sess1" "fm_Player2ID p = se_PlayerID sess2"
    using runMatch_outcome [OF assms(1-4)] by blast+
  have store: "archive_ok d" "seasons_ok D d" "timestamps_ok (sd_tz D)" "2000 \<le> sd_seasonDuration D" "sd_pool D"
    "sid \<notin> sa_ID ` set (db_seasons d)" "int4 (int (length (db_seasons d)) + 1)" using ready by blast+
  show ?thesis
  proof (rule FinalizeMatch_healthy [OF ok store assms(12,13), of rank clock])
    fix fz d'
    assume run: "FinalizeMatch M D rank sid mid clock p (d, []) = (Inr fz, (d', []))"
    from FinalizeMatch_record [OF store(1) run] run show ?thesis by auto
  next
    fix r1 r2 scores err
    assume "FinalizeMatch M D rank sid mid clock p (d, []) = (Inl ErrRankingFailed, (d, []))"
      "may_start M (own_entries d (fm_Player1ID p)) r1" "may_start M (own_entries d (fm_Player2ID p)) r2"
      "scoresForResult M p = Inr scores" "rate_players rank r1 r2 scores = Inl err"
    then show ?thesis unfolding ids by (intro exI [of _ "Inl ErrRankingFailed"] exI [of _ d]) auto
  qed
qed

section \<open>The program's own rating service\<close>

text \<open>
  \<^verbatim>\<open>Update\<close> of \<^verbatim>\<open>internal/ranking/glicko2.go\<close> with the default configuration, in exact arithmetic, as the finalizer's service.
  Between players of valid ratings that are at most 500 points apart it refuses no result.
\<close>

definition exact_rank :: "real rank_service" where
  "exact_rank r games = (case Update real_math (DefaultConfig real_math) r games of
     Some res \<Rightarrow> res | None \<Rightarrow> Inl ErrSigmaResult)"

lemma exact_rank_close:
  assumes "validateRating real_math r1 = None" "validateRating real_math r2 = None" "\<bar>ra_R r1 - ra_R r2\<bar> \<le> 500"
    and "IsValid real_math (fst scores)" "IsValid real_math (snd scores)"
  shows "\<exists>news. rate_players exact_rank r1 r2 scores = Inr news"
proof -
  obtain new1 where "Update real_math (DefaultConfig real_math) r1 [\<lparr>op_Opponent = r2, op_Score = fst scores\<rparr>] = Some (Inr new1)"
    using Update_close_game [of r1 "\<lparr>op_Opponent = r2, op_Score = fst scores\<rparr>"] assms by auto
  moreover obtain new2 where
    "Update real_math (DefaultConfig real_math) r2 [\<lparr>op_Opponent = r1, op_Score = snd scores\<rparr>] = Some (Inr new2)"
    using Update_close_game [of r2 "\<lparr>op_Opponent = r1, op_Score = snd scores\<rparr>"] assms by (auto simp: abs_minus_commute)
  ultimately show ?thesis by (simp add: rate_players_def exact_rank_def)
qed

text \<open>Two newcomers both have the default rating.\<close>

lemma newcomers_are_rated:
  assumes "may_start real_math [] r1" "may_start real_math [] r2" "scoresForResult real_math p = Inr scores"
  shows "\<exists>news. rate_players exact_rank r1 r2 scores = Inr news"
proof -
  have scores: "scores_valid real_math" by (simp add: scores_valid_def IsValid_def ScoreLoss_def ScoreDraw_def ScoreWin_def)
  have "r1 = defaultRating real_math" "r2 = defaultRating real_math"
    using assms(1,2) by (simp_all add: may_start_def DefaultConfig_def)
  then show ?thesis
    using scores scoresForResult_Inr(1) [OF assms(3)]
    by (intro exact_rank_close) (auto simp: validateRating_def defaultRating_def scores_valid_def)
qed

section \<open>An example\<close>

definition live_env :: run_env where
  "live_env = demo_env\<lparr>re_startedAt := 1, re_endedAt := 2000000\<rparr>"

lemma live_run:
  obtains run out p where "runMatch demo_deps live_env (demo_session ''ana'') (demo_session ''bo'') 0 0
      = Some (Some (run, LoopDone), out)" "FinalizedMatch p \<in> set out" "length (mr_replay run) \<le> 2" "mr_replay run \<noteq> []"
proof -
  let ?a = "demo_session ''ana''" and ?b = "demo_session ''bo''"
  let ?new = "new_run demo_deps (run_initial ?a ?b) (run_seed demo_deps live_env ?a ?b) ?a ?b False
    (opening_out demo_deps ?a ?b @ [RegisteredMatch (active_match_of demo_deps ?a ?b)])"
  have calm: "\<forall>t. uninterrupted (re_turns live_env t)" using demo_run_ok(3) by (simp add: live_env_def)
  obtain run where loop: "match_loop demo_deps (match_config demo_deps) (re_startedAt live_env) (re_turns live_env)
      ?a ?b 0 ?new = Some (run, LoopDone)"
    using match_loop_returns [OF demo_run_ok(1,2) calm run_initial_ok] by blast
  have "int (length (mr_replay run)) \<le> int (length (mr_replay ?new)) + max 0 (md_MaxTurns demo_deps - 0)"
    using match_loop_ok [OF demo_run_ok(1,2) loop run_initial_ok] by blast
  then have short: "length (mr_replay run) \<le> 2" by (simp add: new_run_def demo_deps_def)
  have some: "mr_replay run \<noteq> []"
  proof
    assume none: "mr_replay run = []"
    have ok: "run_ok (run_initial ?a ?b) (run_seed demo_deps live_env ?a ?b) ?a ?b run"
      and over: "mo_Finished (ms_Outcome (State (mr_sim run)))
        \<or> int (length (mr_replay run)) = int (length (mr_replay ?new)) + max 0 (md_MaxTurns demo_deps - 0)"
      using match_loop_ok [OF demo_run_ok(1,2) loop run_initial_ok] by blast+
    from ok none have "mr_sim run = NewCombatSimulator (run_initial ?a ?b) (run_seed demo_deps live_env ?a ?b)"
      by (simp add: run_ok_def sim_after_def)
    then have "\<not> mo_Finished (ms_Outcome (State (mr_sim run)))"
      using NewFighter_known [of "se_PlayerID ?a" "se_PlayerID ?a" 0] NewFighter_known [of "se_PlayerID ?b" "se_PlayerID ?b" 1]
      by (auto simp: NewCombatSimulator_def State_def Let_def run_initial_def NewMatchState_def no_outcome_def)
    with over none show False by (simp add: demo_deps_def)
  qed
  from runMatch_finalizes [OF loop, of 0 0] short some that show thesis by (auto simp: demo_deps_def)
qed

definition two_players :: "real database" where
  "two_players = empty_database\<lparr>db_players := [\<lparr>pl_ID = ''ana'', pl_Handle = ''ana'', pl_CreatedAt = 0, pl_UpdatedAt = 0\<rparr>,
     \<lparr>pl_ID = ''bo'', pl_Handle = ''bo'', pl_CreatedAt = 0, pl_UpdatedAt = 0\<rparr>]\<rparr>"

definition demo_store :: store_deps where
  "demo_store = NewSQLRepositories True micros"

lemma demo_store_ready:
  "store_ready demo_store ''s1'' two_players" "scores_valid real_math" "own_entries two_players q = []"
  "known_player two_players (se_PlayerID (demo_session ''ana''))" "known_player two_players (se_PlayerID (demo_session ''bo''))"
  "match_id p ''m9'' \<notin> mt_ID ` set (db_matches two_players)" "match_id p ''m9'' \<noteq> []"
  "text_ok (se_PlayerID (demo_session ''ana''))" "text_ok (se_PlayerID (demo_session ''bo''))" "sd_pool demo_store"
proof -
  show "store_ready demo_store ''s1'' two_players" "sd_pool demo_store"
    using timestamps_ok_micros
    by (simp_all add: store_ready_def demo_store_def NewSQLRepositories_def archive_ok_def seasons_ok_def season_chain_def
        two_players_def empty_database_def int4_def)
  show "text_ok (se_PlayerID (demo_session ''ana''))" "text_ok (se_PlayerID (demo_session ''bo''))" by code_simp+
qed (simp_all add: scores_valid_def IsValid_def ScoreLoss_def ScoreDraw_def ScoreWin_def own_entries_def known_player_def
    two_players_def empty_database_def demo_session_def match_id_def)

text \<open>Two newcomers play their first match, and the archive takes it with the ratings of the program's own service.\<close>

lemma played_match_is_recorded_witness:
  "\<exists>p fz d'. FinalizeMatch real_math demo_store exact_rank ''s1'' ''m9'' 7000 p (two_players, []) = (Inr fz, (d', []))
    \<and> match_on_record real_math exact_rank p (match_id p ''m9'') d' \<and> mt_ID (fz_Match fz) = match_id p ''m9''"
proof -
  obtain run out p where run: "runMatch demo_deps live_env (demo_session ''ana'') (demo_session ''bo'') 0 0
      = Some (Some (run, LoopDone), out)" "FinalizedMatch p \<in> set out" "length (mr_replay run) \<le> 2" by (rule live_run)
  have "length (mr_replay run) < 2 ^ 31" "0 < re_startedAt live_env" "re_startedAt live_env \<le> re_endedAt live_env"
    "re_endedAt live_env - re_startedAt live_env < 1000000 * 2 ^ 31" using run(3) by (simp_all add: live_env_def)
  from played_match_is_recorded [OF demo_run_ok(1,2) run(1,2) demo_store_ready(4,5) this(2-4,1) demo_store_ready(1,6,2),
      of exact_rank 7000]
  obtain res d' where fin: "FinalizeMatch real_math demo_store exact_rank ''s1'' ''m9'' 7000 p (two_players, []) = (res, (d', []))"
    and outcome: "case res of
      Inr fz \<Rightarrow> match_on_record real_math exact_rank p (match_id p ''m9'') d' \<and> mt_ID (fz_Match fz) = match_id p ''m9''
    | Inl err \<Rightarrow> err = ErrRankingFailed \<and> d' = two_players \<and> (\<exists>r1 r2 scores e.
        may_start real_math [] r1 \<and> may_start real_math [] r2
        \<and> scoresForResult real_math p = Inr scores \<and> rate_players exact_rank r1 r2 scores = Inl e)"
    unfolding demo_store_ready(3) by blast
  show ?thesis
  proof (cases res)
    case (Inl err)
    with outcome newcomers_are_rated show ?thesis by fastforce
  next
    case (Inr fz)
    with fin outcome show ?thesis by auto
  qed
qed

lemma live_match_finalized:
  obtains run out p fz d' where "runMatch demo_deps live_env (demo_session ''ana'') (demo_session ''bo'') 0 0
      = Some (Some (run, LoopDone), out)" "FinalizedMatch p \<in> set out" "mr_replay run \<noteq> []"
    "FinalizeMatch real_math demo_store exact_rank ''s1'' ''m9'' 7000 p (two_players, []) = (Inr fz, (d', []))"
proof -
  obtain run out p where run: "runMatch demo_deps live_env (demo_session ''ana'') (demo_session ''bo'') 0 0
      = Some (Some (run, LoopDone), out)" "FinalizedMatch p \<in> set out" "length (mr_replay run) \<le> 2" "mr_replay run \<noteq> []"
    by (rule live_run)
  have "length (mr_replay run) < 2 ^ 31" using run(3) by simp
  then have ok: "params_ok real_math two_players p"
    by (intro finalized_params_ok [OF demo_run_ok(1,2) run(1,2) demo_store_ready(4,5)]) (simp_all add: live_env_def)
  note ready = demo_store_ready(1) [unfolded store_ready_def]
  have store: "archive_ok two_players" "seasons_ok demo_store two_players" "timestamps_ok (sd_tz demo_store)"
    "2000 \<le> sd_seasonDuration demo_store" "sd_pool demo_store"
    "''s1'' \<notin> sa_ID ` set (db_seasons two_players)" "int4 (int (length (db_seasons two_players)) + 1)" using ready by blast+
  show thesis
  proof (rule FinalizeMatch_healthy [OF ok store demo_store_ready(6,2), of exact_rank 7000])
    fix r1 r2 scores err
    assume "may_start real_math (own_entries two_players (fm_Player1ID p)) r1"
      "may_start real_math (own_entries two_players (fm_Player2ID p)) r2"
      "scoresForResult real_math p = Inr scores" "rate_players exact_rank r1 r2 scores = Inl err"
    with newcomers_are_rated show thesis by (fastforce simp: demo_store_ready(3))
  qed (rule that [OF run(1,2,4)])
qed

text \<open>The match is stored with at least one turn, the next season begins, and the replay is read.\<close>

lemma stored_match_replays_witness:
  "\<exists>mid d' r results. GetMatchReplay demo_store mid (d' :: real database, []) = (Inr r, (d', [])) \<and> ml_Turns r \<noteq> []
    \<and> Replay (Some det_resolver) \<lparr>rr_Seed = ml_Seed r, rr_Archetypes = Map.empty, rr_Initial = ml_InitialState r,
        rr_Inputs = map (\<lambda>t. \<lparr>ie_Turn = me_Turn t, ie_RelativeMS = me_RelativeMS t, ie_Inputs = me_Inputs t\<rparr>) (ml_Turns r)\<rparr>
      = Inr results \<and> map tr_Checksums results = map me_Checksums (ml_Turns r)"
proof -
  obtain run out p fz d1 where run: "runMatch demo_deps live_env (demo_session ''ana'') (demo_session ''bo'') 0 0
      = Some (Some (run, LoopDone), out)" "FinalizedMatch p \<in> set out" "mr_replay run \<noteq> []"
    and fin: "FinalizeMatch real_math demo_store exact_rank ''s1'' ''m9'' 7000 p (two_players, []) = (Inr fz, (d1, []))"
    by (rule live_match_finalized)
  let ?calls = "[CallEnsureActive ''s2'' 6000000000000000]"
  obtain d' rs' where later: "store_calls real_math demo_store exact_rank ?calls (d1, []) = (d', rs')" by fastforce
  have "archive_ok two_players" using demo_store_ready(1) by (simp add: store_ready_def)
  from stored_match_replays [OF demo_run_ok(1,2) run(1,2) demo_store_ready(8,9) this fin demo_store_ready(7) later, of Map.empty]
  obtain r results where "GetMatchReplay demo_store (mt_ID (fz_Match fz)) (d', []) = (Inr r, (d', []))"
    "map (\<lambda>t. (me_Turn t, me_RelativeMS t, me_Inputs t, me_Checksums t)) (ml_Turns r)
      = map (\<lambda>t. (rt_Turn t, rt_RelativeMS t, rt_Inputs t, rt_Checksums t)) (mr_replay run)"
    "Replay (Some det_resolver) \<lparr>rr_Seed = ml_Seed r, rr_Archetypes = Map.empty, rr_Initial = ml_InitialState r,
        rr_Inputs = map (\<lambda>t. \<lparr>ie_Turn = me_Turn t, ie_RelativeMS = me_RelativeMS t, ie_Inputs = me_Inputs t\<rparr>) (ml_Turns r)\<rparr>
      = Inr results" "map tr_Checksums results = map me_Checksums (ml_Turns r)" by blast
  moreover from this(2) run(3) have "ml_Turns r \<noteq> []" by auto
  ultimately show ?thesis by blast
qed

lemma finalize_is_all_or_nothing_witness:
  "\<exists>p res d' rs'. FinalizeMatch real_math demo_store exact_rank ''s1'' ''m9'' 7000 p (two_players, [Works, Works, Works, Breaks])
      = (res, (d', rs')) \<and> ((\<exists>e. res = Inl e) \<and> d' = two_players
        \<or> match_on_record real_math exact_rank p (match_id p ''m9'') d')"
proof -
  obtain run out p where run: "runMatch demo_deps live_env (demo_session ''ana'') (demo_session ''bo'') 0 0
      = Some (Some (run, LoopDone), out)" "FinalizedMatch p \<in> set out" "length (mr_replay run) \<le> 2" by (rule live_run)
  obtain res d' rs' where fin: "FinalizeMatch real_math demo_store exact_rank ''s1'' ''m9'' 7000 p
      (two_players, [Works, Works, Works, Breaks]) = (res, (d', rs'))" by (metis prod_cases3)
  have "archive_ok two_players" using demo_store_ready(1) by (simp add: store_ready_def)
  from finalize_is_all_or_nothing [OF this fin] fin show ?thesis by blast
qed

end
