(* ===== verification/MatchRecord.thy ===== *)
theory MatchRecord
  imports EventStore Recording
begin

text \<open>
  The telemetry of a match in its table: what \<open>runMatch\<close> (theory MatchLoop) collects turn by turn, and
  \<open>InsertTurnTelemetryBatch\<close> (theory EventStore) that writes it in one transaction after the match.
\<close>

section \<open>The rows of a turn\<close>

definition row_numbers :: "('a) match_turn_telemetry_scheme \<Rightarrow> int list" where
  "row_numbers row = [mtt_HPBefore row, mtt_HPAfter row, mtt_StaminaBefore row, mtt_StaminaAfter row,
     mtt_MomentumBefore row, mtt_MomentumAfter row]"

lemma wf_fighter_int4: "wf_fighter f \<Longrightarrow> int4 (fs_HP f) \<and> int4 (fs_Stamina f) \<and> int4 (fs_Momentum f)"
  by (simp add: wf_fighter_def int4_def)

lemma row_numbers_int4:
  assumes "wf_match b" "wf_match a" "fightersBeforeAfterByID b a pid = Some (bf, af, other)"
  shows "list_all int4 (row_numbers (telemetry_row F mid b a events slot1 slot2 eps inp bf af other))"
proof -
  have "wf_fighter bf" "wf_fighter af" using assms by (auto simp: fightersBeforeAfterByID_def wf_match_def split: if_splits)
  then show ?thesis using wf_fighter_int4 by (simp add: telemetry_row_def row_numbers_def Let_def split_beta)
qed

lemma telemetry_row_fields:
  "mtt_MatchID (telemetry_row F mid b a events slot1 slot2 eps inp bf af other) = mid"
  "mtt_Turn (telemetry_row F mid b a events slot1 slot2 eps inp bf af other) = ms_Turn a"
  "mtt_PlayerID (telemetry_row F mid b a events slot1 slot2 eps inp bf af other) = ti_PlayerID inp"
  "0 \<le> mtt_DecisionMS (telemetry_row F mid b a events slot1 slot2 eps inp bf af other)"
  by (simp_all add: telemetry_row_def Let_def split_beta ms_maxInt_def)

text \<open>One row for every input of a fighter, in the order of the inputs.\<close>

lemma build_rows:
  assumes "wf_match b" "wf_match a"
  shows "map mtt_PlayerID (fst (buildTurnTelemetryRows F mid b a ins events slot1 slot2 eps))
      = filter (\<lambda>p. p \<in> player_ids b) (map ti_PlayerID ins)
    \<and> (\<forall>row \<in> set (fst (buildTurnTelemetryRows F mid b a ins events slot1 slot2 eps)).
        mtt_MatchID row = mid \<and> mtt_Turn row = ms_Turn a \<and> 0 \<le> mtt_DecisionMS row \<and> list_all int4 (row_numbers row))"
proof (induction ins)
  case (Cons inp ins)
  show ?case
  proof (cases "fightersBeforeAfterByID b a (ti_PlayerID inp)")
    case None
    then have "ti_PlayerID inp \<notin> player_ids b" by (auto simp: fightersBeforeAfterByID_def player_ids_def split: if_splits)
    with Cons None show ?thesis by (simp add: split_beta)
  next
    case (Some r)
    obtain bf af other where r: "r = (bf, af, other)" by (metis prod_cases3)
    have "ti_PlayerID inp \<in> player_ids b" using Some by (auto simp: fightersBeforeAfterByID_def player_ids_def split: if_splits)
    with Cons Some r row_numbers_int4 [OF assms Some [unfolded r]] show ?thesis
      by (simp add: split_beta Let_def telemetry_row_fields)
  qed
qed simp

section \<open>The rows of a match\<close>

definition row_place :: "('a) match_turn_telemetry_scheme \<Rightarrow> int \<times> string" where
  "row_place row = (mtt_Turn row, mtt_PlayerID row)"

text \<open>Two rows for every turn played so far, with numbers that fit the columns.\<close>

definition rows_ok :: "string \<Rightarrow> session \<Rightarrow> session \<Rightarrow> int \<Rightarrow> match_turn_telemetry list \<Rightarrow> bool" where
  "rows_ok mid sess1 sess2 n rows \<longleftrightarrow> distinct (map row_place rows)
     \<and> row_place ` set rows = {1..n} \<times> {se_PlayerID sess1, se_PlayerID sess2}
     \<and> (\<forall>row \<in> set rows. mtt_MatchID row = mid \<and> 0 \<le> mtt_DecisionMS row \<and> list_all int4 (row_numbers row))"

lemma rows_ok_append:
  assumes "rows_ok mid sess1 sess2 n rows" "0 \<le> n" "se_PlayerID sess1 \<noteq> se_PlayerID sess2"
    and "set (map mtt_PlayerID new) = {se_PlayerID sess1, se_PlayerID sess2}" "distinct (map mtt_PlayerID new)"
    and "\<forall>row \<in> set new. mtt_MatchID row = mid \<and> mtt_Turn row = n + 1 \<and> 0 \<le> mtt_DecisionMS row \<and> list_all int4 (row_numbers row)"
  shows "rows_ok mid sess1 sess2 (n + 1) (rows @ new)"
proof -
  have place: "map row_place new = map (Pair (n + 1)) (map mtt_PlayerID new)"
    using assms(6) by (simp add: row_place_def)
  have "row_place ` set new = set (map row_place new)" by simp
  also have "\<dots> = Pair (n + 1) ` set (map mtt_PlayerID new)" by (simp only: place set_map)
  finally have new: "row_place ` set new = {n + 1} \<times> {se_PlayerID sess1, se_PlayerID sess2}"
    unfolding assms(4) by auto
  have old: "row_place ` set rows = {1..n} \<times> {se_PlayerID sess1, se_PlayerID sess2}" "distinct (map row_place rows)"
    using assms(1) by (simp_all add: rows_ok_def)
  have "{1..n + 1} = {1..n} \<union> {n + 1}" using assms(2) by auto
  then have all: "row_place ` set (rows @ new) = {1..n + 1} \<times> {se_PlayerID sess1, se_PlayerID sess2}"
    by (simp only: set_append image_Un old(1) new Sigma_Un_distrib1)
  have "distinct (map row_place new)"
    unfolding place using assms(5) by (simp add: distinct_map inj_on_def)
  moreover have "row_place ` set rows \<inter> row_place ` set new = {}" unfolding old(1) new by auto
  ultimately have "distinct (map row_place (rows @ new))" using old(2) by simp
  with all show ?thesis using assms(1,6) unfolding rows_ok_def by (simp add: ball_Un)
qed

text \<open>A turn after which the match goes on, or is over.\<close>

lemma match_turn_goes_on:
  assumes "match_turn D cfg startedAt te sess1 sess2 run = Some (run', exit)" "exit = None \<or> exit = Some LoopDone"
  obtains (over) "run' = run" "exit = Some LoopDone"
  | (played) ins slot1 slot2 frames ord res sim where
      "collectTurnInputs (md_engine D) (State (mr_sim run)) (mr_slot1 run) (mr_slot2 run) (te_events1 te) (te_events2 te)
        (te_second_first te) = Some (Some ins, slot1, slot2, frames)"
      "CanonicalizeInputs (State (mr_sim run)) ins = Inr ord" "Step (md_resolver D) (mr_sim run) ord = (Inr res, sim)"
      "resolved_turn D cfg startedAt te sess1 sess2 (State (mr_sim run)) ord res sim
        (run\<lparr>mr_slot1 := slot1, mr_slot2 := slot2, mr_out := mr_out run @ sent_out frames\<rparr>) = (run', exit)"
  using assms
  by (auto simp: match_turn_def Let_def split: if_splits option.splits sum.splits prod.splits)

lemma resolved_turn_rows:
  assumes "resolved_turn D cfg startedAt te sess1 sess2 state ins res sim run = (run', exit)" "exit = None \<or> exit = Some LoopDone"
  shows "tl_rows (mr_tally run') = tl_rows (mr_tally run) @ fst (buildTurnTelemetryRows (md_float D) (md_match_id D) state
    (tr_Next res) ins (tr_Events res) (mr_slot1 run) (mr_slot2 run) (ac_OptimalityEpsilon cfg))"
  using assms by (auto simp: resolved_turn_def tally_turn_def Let_def split_beta split: if_splits)

definition tally_ok :: "'f match_deps \<Rightarrow> session \<Rightarrow> session \<Rightarrow> 'f match_run \<Rightarrow> bool" where
  "tally_ok D sess1 sess2 run \<longleftrightarrow> ms_Turn (State (mr_sim run)) = int (length (mr_replay run))
     \<and> rows_ok (md_match_id D) sess1 sess2 (int (length (mr_replay run))) (tl_rows (mr_tally run))"

lemma match_turn_tally:
  assumes "program_deps D" "sessions_ok sess1 sess2" "run_ok initial seed sess1 sess2 run"
    and "match_turn D cfg startedAt te sess1 sess2 run = Some (run', exit)" "exit = None \<or> exit = Some LoopDone"
    and "tally_ok D sess1 sess2 run"
  shows "tally_ok D sess1 sess2 run'"
proof -
  let ?st = "State (mr_sim run)"
  have wf: "wf_match ?st" and ids: "player_ids ?st = {se_PlayerID sess1, se_PlayerID sess2}"
    using assms(3) by (simp_all add: run_ok_def player_ids_def)
  from assms(4,5) show ?thesis
  proof (cases rule: match_turn_goes_on)
    case over
    with assms(6) show ?thesis by simp
  next
    case (played ins s1 s2 frames ord res sim)
    then have "mr_sim run' = sim" "length (mr_replay run') = Suc (length (mr_replay run))"
      using resolved_turn_cases(1,4) [OF played(4)] by auto
    note resolved = this resolved_turn_rows [OF played(4) assms(5)]
    have step: "Step det_resolver (mr_sim run) ord = (Inr res, sim)" using played(3) assms(1) by (simp add: program_deps_def)
    then have next_ok: "tr_Next res = State sim" "ms_Turn (State sim) = ms_Turn ?st + 1" "wf_match (State sim)"
      using wf by (cases rule: go.step_cases [of "mr_sim run" ord]; auto)+
    note rows = build_rows [OF wf next_ok(3), of "md_float D" "md_match_id D" ord "tr_Events res" s1 s2
        "ac_OptimalityEpsilon cfg", folded next_ok(1)]
    have "set (map ti_PlayerID ord) = player_ids ?st" "distinct (map ti_PlayerID ord)"
      using CanonicalizeInputs_distinct [OF played(2)] by simp_all
    moreover from this(1) have "filter (\<lambda>p. p \<in> player_ids ?st) (map ti_PlayerID ord) = map ti_PlayerID ord"
      by (intro filter_True) blast
    ultimately have "rows_ok (md_match_id D) sess1 sess2 (int (length (mr_replay run)) + 1) (tl_rows (mr_tally run'))"
      using assms(2,6) rows next_ok ids resolved(3) by (simp, intro rows_ok_append) (auto simp: tally_ok_def sessions_ok_def)
    with resolved(1,2) next_ok(2) assms(6) show ?thesis by (simp add: tally_ok_def algebra_simps)
  qed
qed

lemma match_loop_tally:
  assumes "program_deps D" "sessions_ok sess1 sess2"
  shows "match_loop D cfg startedAt env sess1 sess2 turn run = Some (run', LoopDone) \<Longrightarrow>
    run_ok initial seed sess1 sess2 run \<Longrightarrow> tally_ok D sess1 sess2 run \<Longrightarrow> tally_ok D sess1 sess2 run'"
proof (induction "nat (md_MaxTurns D - turn)" arbitrary: turn run)
  case 0
  then show ?case by (subst (asm) match_loop.simps) auto
next
  case (Suc k)
  then have turn: "turn < md_MaxTurns D" by simp
  with Suc.prems(1) obtain run1 ex where one:
    "match_turn D cfg startedAt (env turn) sess1 sess2 run = Some (run1, ex)"
    and rest: "case ex of Some exit' \<Rightarrow> run' = run1 \<and> exit' = LoopDone
      | None \<Rightarrow> match_loop D cfg startedAt env sess1 sess2 (turn + 1) run1 = Some (run', LoopDone)"
    by (subst (asm) match_loop.simps) (auto split: option.splits prod.splits)
  from rest have "ex = None \<or> ex = Some LoopDone" by (cases ex) simp_all
  note tally = match_turn_tally [OF assms Suc.prems(2) one this Suc.prems(3)]
  show ?case
  proof (cases ex)
    case None
    with rest have "match_loop D cfg startedAt env sess1 sess2 (turn + 1) run1 = Some (run', LoopDone)" by simp
    from Suc.hyps(1) [OF _ this match_turn_ok(1) [OF assms Suc.prems(2) one] tally] Suc.hyps(2) show ?thesis by simp
  qed (use rest tally in simp)
qed

lemma runMatch_tally:
  assumes "program_deps D" "sessions_ok sess1 sess2" "runMatch D env sess1 sess2 w1 w2 = Some (Some (run, LoopDone), out)"
  shows "rows_ok (md_match_id D) sess1 sess2 (int (length (mr_replay run))) (tl_rows (mr_tally run))"
    "int (length (mr_replay run)) \<le> max 0 (md_MaxTurns D)"
proof -
  let ?new = "new_run D (run_initial sess1 sess2) (run_seed D env sess1 sess2) sess1 sess2 False
    (opening_out D sess1 sess2 @ [RegisteredMatch (active_match_of D sess1 sess2)])"
  from assms(3) have loop: "match_loop D (match_config D) (re_startedAt env) (re_turns env) sess1 sess2 0 ?new = Some (run, LoopDone)"
    unfolding runMatch_eq by (auto simp: Let_def)
  have "tally_ok D sess1 sess2 ?new"
    using run_initial_state [of sess1 sess2]
    by (simp add: tally_ok_def rows_ok_def new_run_def no_tally_def NewCombatSimulator_def State_def Let_def)
  with match_loop_tally [OF assms(1,2) loop run_initial_ok]
  show "rows_ok (md_match_id D) sess1 sess2 (int (length (mr_replay run))) (tl_rows (mr_tally run))"
    by (simp add: tally_ok_def)
  from match_loop_ok [OF assms(1,2) loop run_initial_ok]
  show "int (length (mr_replay run)) \<le> max 0 (md_MaxTurns D)" by (simp add: new_run_def)
qed

text \<open>The rows in the outputs of the match are these rows.\<close>

lemma inserted_rows:
  assumes "runMatch D env sess1 sess2 w1 w2 = Some (Some (run, exit), out)" "TurnRowsInserted rows \<in> set out"
  shows "rows = tl_rows (mr_tally run)"
proof -
  from assms obtain run1 where "Some (run, exit) = Some (run1, LoopDone)" "TurnRowsInserted rows \<in> set (close_match D (match_config D)
      env sess1 sess2 w1 w2 (run_seed D env sess1 sess2) (run_initial sess1 sess2) run1)"
    by (rule runMatch_closing) simp
  then show ?thesis
    using closing_out [of "TurnRowsInserted rows"]
    by (auto simp: close_match_def finalize_out_def persistMatchTelemetry_def player_flag_def Let_def split_beta
        split: option.splits if_splits)
qed

section \<open>The batch\<close>

definition new_turn :: "match_turn_telemetry \<Rightarrow> turn_telemetry" where
  "new_turn row = match_turn_telemetry.extend row \<lparr>xt_CreatedAt = 0\<rparr>"

lemma new_turn_fields [simp]:
  "turn_key (new_turn row) = (mtt_MatchID row, row_place row)" "row_numbers (new_turn row) = row_numbers row"
  "mtt_MatchID (new_turn row) = mtt_MatchID row" "mtt_Turn (new_turn row) = mtt_Turn row"
  "mtt_PlayerID (new_turn row) = mtt_PlayerID row" "mtt_DecisionMS (new_turn row) = mtt_DecisionMS row"
  by (simp_all add: new_turn_def match_turn_telemetry.defs turn_key_def row_place_def row_numbers_def)

definition stored_turn :: "store_deps \<Rightarrow> time \<Rightarrow> turn_telemetry \<Rightarrow> turn_telemetry" where
  "stored_turn S clock row = row\<lparr>xt_CreatedAt := sd_tz S (or_now clock (xt_CreatedAt row))\<rparr>"

definition short_decision :: "('a) match_turn_telemetry_scheme \<Rightarrow> bool" where
  "short_decision row \<longleftrightarrow> mtt_DecisionMS row < 2 ^ 31"

lemma short_decision_new [simp]: "short_decision (new_turn row) = short_decision row"
  by (simp add: short_decision_def)

text \<open>All that the table asks of a row but the size of its decision time.\<close>

definition turn_fits_table :: "('f, 'z) event_database_scheme \<Rightarrow> turn_telemetry \<Rightarrow> bool" where
  "turn_fits_table d row \<longleftrightarrow> mtt_MatchID row \<noteq> [] \<and> mtt_PlayerID row \<noteq> [] \<and> known_match d (mtt_MatchID row)
     \<and> known_player d (mtt_PlayerID row) \<and> 0 < mtt_Turn row \<and> int4 (mtt_Turn row) \<and> 0 \<le> mtt_DecisionMS row
     \<and> list_all int4 (row_numbers row)"

lemma insert_one_row:
  assumes "turn_fits_table d row" "turn_key row \<notin> turn_key ` set (dt_turns d)"
  shows "insert_batch_row S clock row (d, []) = (if short_decision row
    then (Inr (), (d\<lparr>dt_turns := dt_turns d @ [stored_turn S clock row]\<rparr>, []))
    else (Inl (ErrCheckFailed ''decision_ms''), (d, [])))"
  using assms
  by (simp add: insert_batch_row_def insert_turn_def query_simps turn_fits_table_def stored_turn_def row_numbers_def
      turn_key_def count4_def int4_def short_decision_def)

lemma insert_rows:
  "list_all (turn_fits_table d) rows \<Longrightarrow> distinct (map turn_key rows) \<Longrightarrow>
   turn_key ` set rows \<inter> turn_key ` set (dt_turns d) = {} \<Longrightarrow>
   if list_all short_decision rows
   then do_all (map (insert_batch_row S clock) rows) (d, [])
     = (Inr (), (d\<lparr>dt_turns := dt_turns d @ map (stored_turn S clock) rows\<rparr>, []))
   else \<exists>d'. do_all (map (insert_batch_row S clock) rows) (d, []) = (Inl (ErrCheckFailed ''decision_ms''), (d', []))"
proof (induction rows arbitrary: d)
  case (Cons row rows)
  let ?d = "d\<lparr>dt_turns := dt_turns d @ [stored_turn S clock row]\<rparr>"
  have key: "turn_key (stored_turn S clock row) = turn_key row" by (simp add: stored_turn_def turn_key_def)
  have fits: "turn_fits_table ?d = turn_fits_table d"
    by (simp add: fun_eq_iff turn_fits_table_def known_match_def known_player_def)
  have one: "insert_batch_row S clock row (d, []) = (if short_decision row
      then (Inr (), (?d, [])) else (Inl (ErrCheckFailed ''decision_ms''), (d, [])))"
    using Cons.prems by (intro insert_one_row) auto
  have rest: "if list_all short_decision rows
    then do_all (map (insert_batch_row S clock) rows) (?d, []) = (Inr (), (?d\<lparr>dt_turns := dt_turns ?d @ map (stored_turn S clock) rows\<rparr>, []))
    else \<exists>d'. do_all (map (insert_batch_row S clock) rows) (?d, []) = (Inl (ErrCheckFailed ''decision_ms''), (d', []))"
    using Cons.prems key fits by (intro Cons.IH) auto
  show ?case
  proof (cases "short_decision row")
    case True
    with one have "do_all (map (insert_batch_row S clock) (row # rows)) (d, []) = do_all (map (insert_batch_row S clock) rows) (?d, [])"
      by (simp add: query_simps)
    with rest True show ?thesis by simp
  next
    case False
    with one show ?thesis by (simp add: query_simps)
  qed
qed (simp add: query_simps)

text \<open>A batch of rows that fit is written as a whole, or, if one decision does not fit its column, not at all.\<close>

lemma InsertTurnTelemetryBatch_rows:
  assumes "list_all (turn_fits_table d) rows" "distinct (map turn_key rows)"
    and "turn_key ` set rows \<inter> turn_key ` set (dt_turns d) = {}" "sd_pool S"
  shows "InsertTurnTelemetryBatch S clock rows (d, []) = (if list_all short_decision rows
    then (Inr (), (d\<lparr>dt_turns := dt_turns d @ map (stored_turn S clock) rows\<rparr>, []))
    else (Inl (ErrCheckFailed ''decision_ms''), (d, [])))"
proof (cases "list_all short_decision rows")
  case True
  with insert_rows [OF assms(1-3), of S clock] show ?thesis
    using assms(4) by (auto simp: InsertTurnTelemetryBatch_def with_pool_def query_simps transaction_def)
next
  case False
  then have "rows \<noteq> []" by auto
  with False insert_rows [OF assms(1-3), of S clock] show ?thesis
    using assms(4) by (auto simp: InsertTurnTelemetryBatch_def with_pool_def transaction_def)
qed

text \<open>
  C16: The telemetry of a match is complete and its table takes it. When a match has been played to its
  end and is on record, the rows it hands to the store are written in one transaction, and the table then
  holds exactly one row for each of its two players in each of its turns and nothing else of the match;
  only a decision that took 24 days does not fit its column, and then none of the rows is written.
\<close>

theorem match_telemetry_is_complete:
  assumes "program_deps D" "sessions_ok sess1 sess2"
    and "runMatch D env sess1 sess2 w1 w2 = Some (Some (run, exit), out)" "TurnRowsInserted rows \<in> set out"
    and "md_match_id D \<noteq> []" "md_MaxTurns D < 2 ^ 31"
    and "sd_pool S" "known_match d (md_match_id D)" "known_player d (se_PlayerID sess1)" "known_player d (se_PlayerID sess2)"
    and "md_match_id D \<notin> mtt_MatchID ` set (dt_turns d)"
  shows "if list_all short_decision rows
    then \<exists>d'. InsertTurnTelemetryBatch S clock (map new_turn rows) (d, []) = (Inr (), (d', []))
      \<and> (let new = filter (\<lambda>row. mtt_MatchID row = md_match_id D) (dt_turns d') in
          distinct (map row_place new)
          \<and> set (map row_place new) = {1..int (length (mr_replay run))} \<times> {se_PlayerID sess1, se_PlayerID sess2})
    else InsertTurnTelemetryBatch S clock (map new_turn rows) (d, []) = (Inl (ErrCheckFailed ''decision_ms''), (d, []))"
proof -
  from assms(3,4) obtain run1 where "Some (run, exit) = Some (run1, LoopDone)" by (rule runMatch_closing) simp
  then have "exit = LoopDone" by simp
  note tally = runMatch_tally [OF assms(1,2) assms(3) [unfolded this], folded inserted_rows [OF assms(3,4)]]
  note rows = tally(1) [unfolded rows_ok_def]
  let ?rows = "map new_turn rows" and ?d = "d\<lparr>dt_turns := dt_turns d @ map (stored_turn S clock) (map new_turn rows)\<rparr>"
  have keys: "map turn_key ?rows = map (Pair (md_match_id D)) (map row_place rows)" using rows by simp
  have place: "row_place row \<in> {1..int (length (mr_replay run))} \<times> {se_PlayerID sess1, se_PlayerID sess2}"
    if "row \<in> set rows" for row using rows that by blast
  have "turn_fits_table d (new_turn row)" if "row \<in> set rows" for row
    using place [OF that] rows that assms(2,5,6,8-10) tally(2)
    by (auto simp: turn_fits_table_def row_place_def sessions_ok_def int4_def)
  then have fits: "list_all (turn_fits_table d) ?rows" by (simp add: list_all_iff)
  have dist: "distinct (map turn_key ?rows)"
    unfolding keys using rows by (simp only: distinct_map) (auto simp: inj_on_def)
  have fresh: "turn_key ` set ?rows \<inter> turn_key ` set (dt_turns d) = {}"
  proof (rule Int_emptyI)
    fix k assume "k \<in> turn_key ` set ?rows" "k \<in> turn_key ` set (dt_turns d)"
    from this(1) have "fst k = md_match_id D" using rows by auto
    moreover from \<open>k \<in> turn_key ` set (dt_turns d)\<close> have "fst k \<in> mtt_MatchID ` set (dt_turns d)"
      by (auto simp: turn_key_def)
    ultimately show False using assms(11) by simp
  qed
  have others: "\<forall>row \<in> set (dt_turns d). mtt_MatchID row \<noteq> md_match_id D"
    using assms(11) by (metis imageI)
  have short: "list_all short_decision ?rows \<longleftrightarrow> list_all short_decision rows" by (simp add: list_all_iff)
  note batch = InsertTurnTelemetryBatch_rows [OF fits dist fresh assms(7), of clock, unfolded short]
  have new: "filter (\<lambda>row. mtt_MatchID row = md_match_id D) (dt_turns ?d) = map (stored_turn S clock) ?rows"
    using others rows by (auto simp: filter_empty_conv stored_turn_def intro!: filter_True)
  have "map row_place (map (stored_turn S clock) ?rows) = map row_place rows"
    by (simp add: row_place_def stored_turn_def)
  moreover have "set (map row_place rows) = {1..int (length (mr_replay run))} \<times> {se_PlayerID sess1, se_PlayerID sess2}"
    "distinct (map row_place rows)" using rows by simp_all
  ultimately show ?thesis
    using batch new by (cases "list_all short_decision rows") (simp_all only: if_True if_False Let_def, metis)
qed

text \<open>A match whose telemetry is stored.\<close>

definition telemetry_deps :: "rat option match_deps" where
  "telemetry_deps = demo_deps\<lparr>md_store := Some None, md_finalizer := Some (\<lambda>p. Some \<lparr>fd_MatchID = fm_MatchID p,
     fd_SeasonID = ''s1'', fd_Player1ID = fm_Player1ID p, fd_Player2ID = fm_Player2ID p, fd_WinnerID = fm_WinnerID p,
     fd_ResultType = fm_ResultType p, fd_DurationMS = 0\<rparr>)\<rparr>"

definition telemetry_database :: "rat option event_database" where
  "telemetry_database = demo_event_database\<lparr>
     db_players := [\<lparr>pl_ID = ''ana'', pl_Handle = ''ana'', pl_CreatedAt = 1, pl_UpdatedAt = 1\<rparr>,
       \<lparr>pl_ID = ''bo'', pl_Handle = ''bo'', pl_CreatedAt = 1, pl_UpdatedAt = 1\<rparr>],
     db_matches := [\<lparr>mt_ID = ''m1'', mt_SeasonID = ''s1'', mt_Player1ID = ''ana'', mt_Player2ID = ''bo'', mt_WinnerID = None,
       mt_ResultType = MatchResultDraw, mt_StartedAt = 1, mt_EndedAt = 2, mt_DurationMS = 0, mt_CreatedAt = 2\<rparr>]\<rparr>"

lemma telemetry_run:
  obtains run out rows where "runMatch telemetry_deps demo_env (demo_session ''ana'') (demo_session ''bo'') 0 0
      = Some (Some (run, LoopDone), out)" "TurnRowsInserted rows \<in> set out" "rows \<noteq> []"
proof -
  let ?a = "demo_session ''ana''" and ?b = "demo_session ''bo''" and ?D = telemetry_deps
  let ?new = "new_run ?D (run_initial ?a ?b) (run_seed ?D demo_env ?a ?b) ?a ?b False
    (opening_out ?D ?a ?b @ [RegisteredMatch (active_match_of ?D ?a ?b)])"
  have D: "program_deps ?D" using demo_run_ok(1) by (simp add: program_deps_def telemetry_deps_def)
  obtain run where loop: "match_loop ?D (match_config ?D) (re_startedAt demo_env) (re_turns demo_env) ?a ?b 0 ?new
      = Some (run, LoopDone)"
    using match_loop_returns [OF D demo_run_ok(2,3) run_initial_ok] by blast
  note ok = match_loop_ok [OF D demo_run_ok(2) loop run_initial_ok]
  have "mr_replay run \<noteq> []"
  proof
    assume none: "mr_replay run = []"
    with ok have "State (mr_sim run) = State (NewCombatSimulator (run_initial ?a ?b) (run_seed ?D demo_env ?a ?b))"
      by (simp add: run_ok_def sim_after_def)
    then have "\<not> mo_Finished (ms_Outcome (State (mr_sim run)))"
      using NewFighter_known [of "se_PlayerID ?a" "se_PlayerID ?a" 0] NewFighter_known [of "se_PlayerID ?b" "se_PlayerID ?b" 1]
      by (auto simp: NewCombatSimulator_def State_def Let_def run_initial_def NewMatchState_def no_outcome_def)
    with ok none show False by (simp add: new_run_def telemetry_deps_def demo_deps_def)
  qed
  from loop obtain out where out: "runMatch ?D demo_env ?a ?b 0 0 = Some (Some (run, LoopDone), out)"
    "out = mr_out run @ close_match ?D (match_config ?D) demo_env ?a ?b 0 0 (run_seed ?D demo_env ?a ?b) (run_initial ?a ?b) run
       @ [UnregisteredMatch (active_match_of ?D ?a ?b), InputDrained (se_PlayerID ?b), InputDrained (se_PlayerID ?a)]"
    unfolding runMatch_eq by (auto simp: Let_def)
  have "rows_ok (md_match_id ?D) ?a ?b (int (length (mr_replay run))) (tl_rows (mr_tally run))"
    by (rule runMatch_tally [OF D demo_run_ok(2) out(1)])
  moreover have "(1, se_PlayerID ?a) \<in> {1..int (length (mr_replay run))} \<times> {se_PlayerID ?a, se_PlayerID ?b}"
    using \<open>mr_replay run \<noteq> []\<close> by (cases "mr_replay run") auto
  ultimately have "tl_rows (mr_tally run) \<noteq> []" unfolding rows_ok_def by (metis empty_iff image_empty list.set(1))
  moreover from this have "TurnRowsInserted (tl_rows (mr_tally run)) \<in> set out"
    by (simp add: out(2) close_match_def finalize_out_def persistMatchTelemetry_def telemetry_deps_def Let_def split_beta)
  ultimately show thesis using out(1) that by blast
qed

lemma match_telemetry_is_complete_witness:
  "\<exists>rows d'. rows \<noteq> [] \<and> (InsertTurnTelemetryBatch (NewSQLRepositories True micros) 5 rows (telemetry_database, []) = (Inr (), (d', []))
    \<or> InsertTurnTelemetryBatch (NewSQLRepositories True micros) 5 rows (telemetry_database, []) = (Inl (ErrCheckFailed ''decision_ms''), (d', [])))"
proof -
  obtain run out rows where run: "runMatch telemetry_deps demo_env (demo_session ''ana'') (demo_session ''bo'') 0 0
      = Some (Some (run, LoopDone), out)" "TurnRowsInserted rows \<in> set out" "rows \<noteq> []" by (rule telemetry_run)
  have D: "program_deps telemetry_deps" using demo_run_ok(1) by (simp add: program_deps_def telemetry_deps_def)
  have known: "known_match telemetry_database ''m1''" "known_player telemetry_database ''ana''"
    "known_player telemetry_database ''bo''" "dt_turns telemetry_database = []"
    by (simp_all add: telemetry_database_def demo_event_database_def database.defs known_match_def known_player_def)
  have "if list_all short_decision rows
    then \<exists>d'. InsertTurnTelemetryBatch (NewSQLRepositories True micros) 5 (map new_turn rows) (telemetry_database, []) = (Inr (), (d', []))
    else InsertTurnTelemetryBatch (NewSQLRepositories True micros) 5 (map new_turn rows) (telemetry_database, [])
      = (Inl (ErrCheckFailed ''decision_ms''), (telemetry_database, []))"
    using match_telemetry_is_complete [OF D demo_run_ok(2) run(1,2), of "NewSQLRepositories True micros" telemetry_database 5] known
    by (auto simp: telemetry_deps_def demo_deps_def demo_session_def NewSQLRepositories_def)
  with run(3) show ?thesis by (intro exI [of _ "map new_turn rows"]) (auto split: if_splits)
qed

end
