(* ===== verification/Migrations.thy ===== *)
theory Migrations
  imports SessionText
begin

text \<open>
  The schema migrations, \<^verbatim>\<open>internal/storage/migrations.go\<close>: reading the files of a directory
  (\<open>parseMigrationFile\<close>, \<open>loadMigrations\<close>) and applying the ones a database has not seen
  (\<open>ApplyMigrations\<close>). A directory is its list of entries, a file its text; the digest of a text is a
  parameter, since nothing reads it back. Of the database the model keeps the rows of
  \<^verbatim>\<open>schema_migrations\<close> and the SQL committed, in order; how each transaction fares is an argument. A
  transaction that fails leaves nothing behind.
\<close>

section \<open>Files\<close>

record migration_file =
  mf_Version :: int
  mf_Name :: string
  mf_Path :: string
  mf_UpSQL :: string
  mf_DownSQL :: string
  mf_Checksum :: string

datatype migration_error = ErrReadDir | ErrInvalidVersion string | ErrParseMigration string parse_file_error
  | ErrDuplicateVersion int | ErrNilPool | ErrNoDir | ErrEnsureTable | ErrLoadApplied
  | ErrBegin int | ErrExec int | ErrRecord int | ErrCommit int
and parse_file_error = ErrOpen | ErrScan | ErrMissingUp | ErrEmptyUp

definition markerUp :: string where "markerUp = ''-- +twl Up''"

definition markerDown :: string where "markerDown = ''-- +twl Down''"

text \<open>
  \<^verbatim>\<open>bufio.ScanLines\<close> over a whole file: the lines without their end, a final empty one not counted;
  \<open>None\<close> when a line fills the buffer.
\<close>

definition drop_CR :: "string \<Rightarrow> string" where
  "drop_CR l = (if l \<noteq> [] \<and> last l = CR then butlast l else l)"

definition file_lines :: "string \<Rightarrow> string list option" where
  "file_lines content = (let ls = split_at LF content; ls = (if last ls = [] then butlast ls else ls) in
     if list_ex (\<lambda>l. length l \<ge> MaxScanTokenSize) ls then None else Some (map drop_CR ls))"

datatype file_section = NoSection | UpSection | DownSection

fun collect_sections :: "string list \<Rightarrow> file_section \<Rightarrow> string list \<Rightarrow> string list \<Rightarrow> string list \<times> string list" where
  "collect_sections [] sec up down = (up, down)"
| "collect_sections (line # lines) sec up down =
     (if TrimText line = markerUp then collect_sections lines UpSection up down
      else if TrimText line = markerDown then collect_sections lines DownSection up down
      else case sec of
        UpSection \<Rightarrow> collect_sections lines sec (up @ [line]) down
      | DownSection \<Rightarrow> collect_sections lines sec up (down @ [line])
      | NoSection \<Rightarrow> collect_sections lines sec up down)"

definition parseMigrationFile :: "string option \<Rightarrow> parse_file_error + string \<times> string" where
  "parseMigrationFile file = (case file of
     None \<Rightarrow> Inl ErrOpen
   | Some content \<Rightarrow> (case file_lines content of
       None \<Rightarrow> Inl ErrScan
     | Some lines \<Rightarrow> (let (upLines, downLines) = collect_sections lines NoSection [] [] in
         if upLines = [] then Inl ErrMissingUp
         else let up = TrimText (join_with [LF] upLines); down = TrimText (join_with [LF] downLines) in
           if up = [] then Inl ErrEmptyUp else Inr (up, down))))"

text \<open>
  The pattern of the names: digits, an underscore, letters, digits, underscores or hyphens, and
  \<^verbatim>\<open>.sql\<close>; the two groups.
\<close>

definition name_char :: "char \<Rightarrow> bool" where
  "name_char c \<longleftrightarrow> is_digit c \<or> c = CHR ''_'' \<or> c = CHR ''-'' \<or> (CHR ''A'' \<le> c \<and> c \<le> CHR ''Z'') \<or> (CHR ''a'' \<le> c \<and> c \<le> CHR ''z'')"

definition match_name :: "string \<Rightarrow> (string \<times> string) option" where
  "match_name s = (let digits = takeWhile is_digit s in
     case dropWhile is_digit s of
       [] \<Rightarrow> None
     | c # t \<Rightarrow> let name = takeWhile name_char t in
         if digits \<noteq> [] \<and> c = CHR ''_'' \<and> name \<noteq> [] \<and> dropWhile name_char t = ''.sql''
         then Some (digits, name) else None)"

text \<open>The path is that of \<^verbatim>\<open>filepath.Join\<close> for a directory without redundant elements.\<close>

fun load_entries :: "(string \<Rightarrow> string) \<Rightarrow> (string \<Rightarrow> string option) \<Rightarrow> string \<Rightarrow> (string \<times> bool) list
    \<Rightarrow> migration_error + migration_file list" where
  "load_entries digest files dir [] = Inr []"
| "load_entries digest files dir ((name, is_dir) # entries) =
     (if is_dir then load_entries digest files dir entries
      else case match_name name of
        None \<Rightarrow> load_entries digest files dir entries
      | Some (digits, label) \<Rightarrow> (case ParseInt digits of
          None \<Rightarrow> Inl (ErrInvalidVersion name)
        | Some version \<Rightarrow> (case parseMigrationFile (files (dir @ ''/'' @ name)) of
            Inl err \<Rightarrow> Inl (ErrParseMigration name err)
          | Inr (upSQL, downSQL) \<Rightarrow> (case load_entries digest files dir entries of
              Inl err \<Rightarrow> Inl err
            | Inr migrations \<Rightarrow> Inr (\<lparr>mf_Version = version, mf_Name = label, mf_Path = dir @ ''/'' @ name,
                mf_UpSQL = upSQL, mf_DownSQL = downSQL, mf_Checksum = digest upSQL\<rparr> # migrations)))))"

text \<open>The first version, in ascending order, that comes twice.\<close>

fun find_duplicate :: "migration_file list \<Rightarrow> int option" where
  "find_duplicate (a # b # ms) = (if mf_Version b = mf_Version a then Some (mf_Version b) else find_duplicate (b # ms))"
| "find_duplicate _ = None"

definition loadMigrations :: "(string \<Rightarrow> string) \<Rightarrow> (string \<Rightarrow> string option) \<Rightarrow> (string \<Rightarrow> (string \<times> bool) list option)
    \<Rightarrow> string \<Rightarrow> migration_error + migration_file list" where
  "loadMigrations digest files ReadDir dir = (case ReadDir dir of
     None \<Rightarrow> Inl ErrReadDir
   | Some entries \<Rightarrow> (case load_entries digest files dir entries of
       Inl err \<Rightarrow> Inl err
     | Inr migrations \<Rightarrow> (let migrations = sort_key mf_Version migrations in
         case find_duplicate migrations of
           Some v \<Rightarrow> Inl (ErrDuplicateVersion v)
         | None \<Rightarrow> Inr migrations)))"

section \<open>Applying them\<close>

record migration_db =
  db_rows :: "(int \<times> string \<times> string) list"
  db_sql :: "string list"

text \<open>A commit whose reply is lost (\<open>TxReplyLost\<close>) took effect, though the program sees an error.\<close>

datatype tx_outcome = TxCommitted | TxBeginFails | TxExecFails | TxRecordFails | TxCommitFails | TxReplyLost

definition run_migration :: "tx_outcome \<Rightarrow> migration_file \<Rightarrow> migration_db \<Rightarrow> migration_error option \<times> migration_db" where
  "run_migration outcome m db =
    (let migrated = \<lparr>db_rows = db_rows db @ [(mf_Version m, mf_Name m, mf_Checksum m)],
           db_sql = db_sql db @ [mf_UpSQL m]\<rparr>
     in case outcome of
     TxCommitted \<Rightarrow> (None, migrated)
   | TxBeginFails \<Rightarrow> (Some (ErrBegin (mf_Version m)), db)
   | TxExecFails \<Rightarrow> (Some (ErrExec (mf_Version m)), db)
   | TxRecordFails \<Rightarrow> (Some (ErrRecord (mf_Version m)), db)
   | TxCommitFails \<Rightarrow> (Some (ErrCommit (mf_Version m)), db)
   | TxReplyLost \<Rightarrow> (Some (ErrCommit (mf_Version m)), migrated))"

fun apply_pending :: "int set \<Rightarrow> (int \<Rightarrow> tx_outcome) \<Rightarrow> migration_file list \<Rightarrow> migration_db
    \<Rightarrow> migration_error option \<times> migration_db" where
  "apply_pending applied tx [] db = (None, db)"
| "apply_pending applied tx (m # ms) db =
     (if mf_Version m \<in> applied then apply_pending applied tx ms db
      else case run_migration (tx (mf_Version m)) m db of
        (Some err, db) \<Rightarrow> (Some err, db)
      | (None, db) \<Rightarrow> apply_pending applied tx ms db)"

text \<open>\<open>loaded\<close> is the result of \<open>loadMigrations\<close>; the two flags say whether the two statements before the
  loop succeed.\<close>

definition ApplyMigrations :: "string \<Rightarrow> migration_error + migration_file list \<Rightarrow> bool \<Rightarrow> bool \<Rightarrow> (int \<Rightarrow> tx_outcome)
    \<Rightarrow> migration_db option \<Rightarrow> migration_error option \<times> migration_db option" where
  "ApplyMigrations migrationsDir loaded ensured queried tx pool = (case pool of
     None \<Rightarrow> (Some ErrNilPool, None)
   | Some db \<Rightarrow>
       if migrationsDir = '''' then (Some ErrNoDir, Some db)
       else case loaded of
         Inl err \<Rightarrow> (Some err, Some db)
       | Inr migrations \<Rightarrow>
           if migrations = [] then (None, Some db)
           else if \<not> ensured then (Some ErrEnsureTable, Some db)
           else if \<not> queried then (Some ErrLoadApplied, Some db)
           else let (err, db) = apply_pending (fst ` set (db_rows db)) tx migrations db in (err, Some db))"

section \<open>Lemmas\<close>

definition strictly_ascending :: "migration_file list \<Rightarrow> bool" where
  "strictly_ascending ms \<longleftrightarrow> sorted_wrt (<) (map mf_Version ms)"

lemma find_duplicate_None:
  "sorted (map mf_Version ms) \<Longrightarrow> find_duplicate ms = None \<longleftrightarrow> strictly_ascending ms"
  by (induction ms rule: find_duplicate.induct) (auto simp: strictly_ascending_def)

lemma loadMigrations_ascending:
  assumes "loadMigrations digest files ReadDir dir = Inr ms"
  shows "strictly_ascending ms"
proof -
  from assms obtain ms' where "ms = sort_key mf_Version ms'" "find_duplicate ms = None"
    by (auto simp: loadMigrations_def Let_def split: option.splits sum.splits)
  then show ?thesis using find_duplicate_None [of ms] by simp
qed

abbreviation versions :: "migration_db \<Rightarrow> int set" where
  "versions db \<equiv> fst ` set (db_rows db)"

definition row_of :: "migration_file \<Rightarrow> int \<times> string \<times> string" where
  "row_of m = (mf_Version m, mf_Name m, mf_Checksum m)"

definition pending :: "migration_file list \<Rightarrow> migration_db \<Rightarrow> migration_file list" where
  "pending ms db = filter (\<lambda>m. mf_Version m \<notin> versions db) ms"

definition after_all :: "migration_file list \<Rightarrow> migration_db \<Rightarrow> migration_db" where
  "after_all ms db = \<lparr>db_rows = db_rows db @ map row_of (pending ms db), db_sql = db_sql db @ map mf_UpSQL (pending ms db)\<rparr>"

text \<open>A run applies a prefix of the pending migrations, all of them if it reports no error.\<close>

lemma run_migration_cases:
  assumes "run_migration outcome m db = (e, db')"
  obtains (made) "db_rows db' = db_rows db @ [row_of m]" "db_sql db' = db_sql db @ [mf_UpSQL m]"
      "e = None \<longleftrightarrow> outcome = TxCommitted"
  | (kept) "db' = db" "e \<noteq> None" "outcome \<noteq> TxCommitted"
  using assms by (cases outcome) (auto simp: run_migration_def Let_def row_of_def)

lemma apply_pending_prefix:
  "apply_pending applied tx ms db = (err, db') \<Longrightarrow>
     \<exists>made. (\<exists>rest. filter (\<lambda>m. mf_Version m \<notin> applied) ms = made @ rest \<and> (err = None \<longrightarrow> rest = []))
       \<and> ((\<forall>v. tx v = TxCommitted) \<longrightarrow> err = None)
       \<and> db_rows db' = db_rows db @ map row_of made \<and> db_sql db' = db_sql db @ map mf_UpSQL made"
proof (induction applied tx ms db rule: apply_pending.induct)
  case (2 applied tx m ms db)
  show ?case
  proof (cases "mf_Version m \<in> applied")
    case True
    with 2 show ?thesis by simp
  next
    case False
    let ?pending = "filter (\<lambda>m. mf_Version m \<notin> applied)"
    obtain e db1 where run: "run_migration (tx (mf_Version m)) m db = (e, db1)" by force
    then show ?thesis
    proof (cases rule: run_migration_cases)
      case made
      show ?thesis
      proof (cases e)
        case None
        have "apply_pending applied tx ms db1 = (err, db')" using "2.prems" False run None by simp
        from "2.IH"(2) [OF False run [symmetric] None this] obtain ds rest where "?pending ms = ds @ rest" "err = None \<longrightarrow> rest = []"
          "(\<forall>v. tx v = TxCommitted) \<longrightarrow> err = None"
          "db_rows db' = db_rows db1 @ map row_of ds" "db_sql db' = db_sql db1 @ map mf_UpSQL ds"
          by (elim exE conjE) (rule that)
        with False made show ?thesis by (intro exI [of _ "m # ds"] conjI exI [of _ rest]) simp_all
      next
        case (Some x)
        with made have "tx (mf_Version m) \<noteq> TxCommitted" by simp
        moreover from Some False run "2.prems" have "err = Some x" "db' = db1" by simp_all
        ultimately show ?thesis using False made
          by (intro exI [of _ "[m]"] conjI exI [of _ "?pending ms"]) auto
      qed
    next
      case kept
      moreover from kept False run "2.prems" have "err = e" "db' = db" by auto
      ultimately show ?thesis
        by (intro exI [of _ "[]"] conjI exI [of _ "?pending (m # ms)"]) auto
    qed
  qed
qed simp

lemma ApplyMigrations_prefix:
  assumes "ApplyMigrations dir (Inr ms) ensured queried tx (Some db) = (err, db'')"
  obtains db' made rest where "db'' = Some db'" "pending ms db = made @ rest" "err = None \<longrightarrow> dir \<noteq> [] \<and> rest = []"
    "db' = \<lparr>db_rows = db_rows db @ map row_of made, db_sql = db_sql db @ map mf_UpSQL made\<rparr>"
    "dir \<noteq> [] \<longrightarrow> ensured \<longrightarrow> queried \<longrightarrow> (\<forall>v. tx v = TxCommitted) \<longrightarrow> err = None"
proof (cases "dir = [] \<or> ms = [] \<or> \<not> ensured \<or> \<not> queried")
  case True
  with assms show thesis
    by (intro that [of db "[]" "pending ms db"])
      (auto simp: ApplyMigrations_def pending_def split: if_splits)
next
  case False
  obtain e d where run: "apply_pending (versions db) tx ms db = (e, d)" by force
  with assms False have res: "err = e" "db'' = Some d" by (auto simp: ApplyMigrations_def)
  from apply_pending_prefix [OF run] obtain made rest where
    "filter (\<lambda>m. mf_Version m \<notin> versions db) ms = made @ rest" "e = None \<longrightarrow> rest = []"
    "(\<forall>v. tx v = TxCommitted) \<longrightarrow> e = None"
    "db_rows d = db_rows db @ map row_of made" "db_sql d = db_sql db @ map mf_UpSQL made"
    by (elim exE conjE) (rule that)
  with False res show thesis by (intro that [of d made rest]) (simp_all add: pending_def)
qed

lemma pending_after:
  assumes "strictly_ascending ms" "pending ms db = made @ rest"
    and "versions db' = versions db \<union> mf_Version ` set made"
  shows "pending ms db' = rest"
proof -
  have "sorted_wrt (<) (map mf_Version (pending ms db))"
    using assms(1) unfolding strictly_ascending_def pending_def sorted_wrt_map
    by (rule sorted_wrt_filter)
  then have "mf_Version m \<notin> mf_Version ` set made" if "m \<in> set rest" for m
    using that unfolding assms(2) by (fastforce simp: sorted_wrt_append)
  then have "filter (\<lambda>m. mf_Version m \<notin> mf_Version ` set made) (made @ rest) = rest" by simp
  moreover have "pending ms db' = filter (\<lambda>m. mf_Version m \<notin> mf_Version ` set made) (pending ms db)"
    using assms(3) by (simp add: pending_def conj_commute)
  ultimately show ?thesis using assms(2) by simp
qed

section \<open>Properties\<close>

text \<open>
  C35: However the application of the migrations of a directory fares, it commits, in ascending order,
  a prefix of those the database has not seen, each once and with its row, and all of them when it
  reports no error. A later run that meets no error brings the database to where one uninterrupted
  run would have, and every further run changes nothing.
\<close>

theorem migrations_resume:
  assumes "loadMigrations digest files ReadDir dir = Inr ms" "dir \<noteq> []"
    and "ApplyMigrations dir (Inr ms) ensured queried tx (Some db) = (err, Some db')"
  shows "\<exists>made rest. pending ms db = made @ rest \<and> (err = None \<longrightarrow> rest = []) \<and> sorted_wrt (<) (map mf_Version made)
    \<and> db' = \<lparr>db_rows = db_rows db @ map row_of made, db_sql = db_sql db @ map mf_UpSQL made\<rparr>
    \<and> ApplyMigrations dir (Inr ms) True True (\<lambda>_. TxCommitted) (Some db') = (None, Some (after_all ms db))
    \<and> (\<forall>tx'. ApplyMigrations dir (Inr ms) True True tx' (Some (after_all ms db)) = (None, Some (after_all ms db)))"
proof -
  have asc: "strictly_ascending ms" by (rule loadMigrations_ascending [OF assms(1)])
  from assms(3) obtain made rest where made: "pending ms db = made @ rest" "err = None \<longrightarrow> rest = []"
    "db' = \<lparr>db_rows = db_rows db @ map row_of made, db_sql = db_sql db @ map mf_UpSQL made\<rparr>"
    by (rule ApplyMigrations_prefix) auto
  have left: "pending ms db' = rest"
    by (rule pending_after [OF asc made(1)]) (simp add: made(3) row_of_def image_Un image_image)
  have all: "pending ms (after_all ms db) = []"
    by (rule pending_after [OF asc, of db "pending ms db"]) (simp_all add: after_all_def row_of_def image_Un image_image)
  have "ApplyMigrations dir (Inr ms) True True (\<lambda>_. TxCommitted) (Some db') = (None, Some (after_all ms db))"
  proof -
    obtain e d where run: "ApplyMigrations dir (Inr ms) True True (\<lambda>_. TxCommitted) (Some db') = (e, d)" by force
    then obtain d' made' rest' where r: "d = Some d'" "pending ms db' = made' @ rest'" "e = None \<longrightarrow> dir \<noteq> [] \<and> rest' = []"
      "d' = \<lparr>db_rows = db_rows db' @ map row_of made', db_sql = db_sql db' @ map mf_UpSQL made'\<rparr>"
      "dir \<noteq> [] \<longrightarrow> True \<longrightarrow> True \<longrightarrow> (\<forall>v::int. TxCommitted = TxCommitted) \<longrightarrow> e = None"
      by (rule ApplyMigrations_prefix)
    then have "e = None" "made' = rest" using assms(2) left by simp_all
    then show ?thesis using run r(1,4) by (simp add: after_all_def made(1)) (simp add: made(3))
  qed
  moreover have "ApplyMigrations dir (Inr ms) True True tx' (Some (after_all ms db)) = (None, Some (after_all ms db))" for tx'
  proof (cases "ms = []")
    case False
    have "apply_pending applied tx' ms d = (None, d)"
      if "\<forall>m \<in> set ms. mf_Version m \<in> applied" for applied ms and d :: migration_db
      using that by (induction ms) auto
    with False all assms(2) show ?thesis by (auto simp: ApplyMigrations_def pending_def filter_empty_conv)
  qed (use assms(2) in \<open>simp add: ApplyMigrations_def\<close>)
  moreover have "sorted_wrt (<) (map mf_Version (pending ms db))"
    using asc unfolding strictly_ascending_def pending_def sorted_wrt_map by (rule sorted_wrt_filter)
  then have "sorted_wrt (<) (map mf_Version made)" by (simp add: made(1) sorted_wrt_append)
  ultimately show ?thesis using made by blast
qed

text \<open>Two files, of which the second fails: the first is kept, and a later run applies the second.\<close>

definition demo_files :: "string \<Rightarrow> string option" where
  "demo_files path =
     (if path = ''d/01_a.sql'' then Some (''-- +twl Up'' @ [LF] @ ''A'' @ [LF] @ ''-- +twl Down'' @ [LF] @ ''B'')
      else if path = ''d/2_b.sql'' then Some (''-- +twl Up'' @ [LF] @ ''C'' @ [CR, LF])
      else None)"

abbreviation demo_dir :: "string \<Rightarrow> (string \<times> bool) list option" where
  "demo_dir \<equiv> (\<lambda>_. Some [(''2_b.sql'', False), (''01_a.sql'', False), (''README'', False)])"

definition demo_migrations :: "migration_file list" where
  "demo_migrations =
    [\<lparr>mf_Version = 1, mf_Name = ''a'', mf_Path = ''d/01_a.sql'', mf_UpSQL = ''A'', mf_DownSQL = ''B'', mf_Checksum = ''A''\<rparr>,
     \<lparr>mf_Version = 2, mf_Name = ''b'', mf_Path = ''d/2_b.sql'', mf_UpSQL = ''C'', mf_DownSQL = [], mf_Checksum = ''C''\<rparr>]"

lemmas demo_text = TrimText_def trim_runes_def runes.simps rune_len_def rune_space_def markerUp_def markerDown_def

lemma demo_sql:
  "parseMigrationFile (demo_files ''d/01_a.sql'') = Inr (''A'', ''B'')"
  "parseMigrationFile (demo_files ''d/2_b.sql'') = Inr (''C'', [])"
proof -
  have "file_lines (''-- +twl Up'' @ [LF] @ ''A'' @ [LF] @ ''-- +twl Down'' @ [LF] @ ''B'')
      = Some [''-- +twl Up'', ''A'', ''-- +twl Down'', ''B'']"
    "file_lines (''-- +twl Up'' @ [LF] @ ''C'' @ [CR, LF]) = Some [''-- +twl Up'', ''C'']"
    by (simp_all add: file_lines_def LF_def CR_def drop_CR_def MaxScanTokenSize_def)
  then show "parseMigrationFile (demo_files ''d/01_a.sql'') = Inr (''A'', ''B'')"
    "parseMigrationFile (demo_files ''d/2_b.sql'') = Inr (''C'', [])"
    by (simp_all add: demo_files_def parseMigrationFile_def demo_text)
qed

lemma demo_loaded: "loadMigrations id demo_files demo_dir ''d'' = Inr demo_migrations"
  using demo_sql
  by (simp add: loadMigrations_def match_name_def name_char_def is_digit_def ParseInt_def digits_value_def
      int64_ok_def demo_migrations_def)

lemma migrations_resume_witness:
  "ApplyMigrations ''d'' (Inr demo_migrations) True True (\<lambda>v. if v = 2 then TxExecFails else TxCommitted)
      (Some \<lparr>db_rows = [], db_sql = []\<rparr>) = (Some (ErrExec 2), Some \<lparr>db_rows = [(1, ''a'', ''A'')], db_sql = [''A'']\<rparr>)
    \<and> ApplyMigrations ''d'' (Inr demo_migrations) True True (\<lambda>_. TxCommitted)
        (Some \<lparr>db_rows = [(1, ''a'', ''A'')], db_sql = [''A'']\<rparr>)
      = (None, Some (after_all demo_migrations \<lparr>db_rows = [], db_sql = []\<rparr>))"
proof -
  have run: "ApplyMigrations ''d'' (Inr demo_migrations) True True (\<lambda>v. if v = 2 then TxExecFails else TxCommitted)
      (Some \<lparr>db_rows = [], db_sql = []\<rparr>) = (Some (ErrExec 2), Some \<lparr>db_rows = [(1, ''a'', ''A'')], db_sql = [''A'']\<rparr>)"
    by (simp add: ApplyMigrations_def run_migration_def Let_def demo_migrations_def)
  from migrations_resume [OF demo_loaded _ run] run show ?thesis by blast
qed

end
