(* ===== verification/Metrics.thy ===== *)
theory Metrics
  imports Lobby
begin

text \<open>
  The counters and timers of \<^verbatim>\<open>internal/telemetry/metrics.go\<close>, and the settings of the database connection,
  \<^verbatim>\<open>internal/storage/config.go\<close> and \<^verbatim>\<open>db.go\<close>.

  The collector is two maps; a name without an entry reads as zero. A count is a \<open>u64\<close> and a sum of
  durations wraps at 64 bits. Its methods hold a lock, so concurrent calls are calls in some order.
\<close>

section \<open>Counters and timers\<close>

record duration_stat =
  du_Count :: u64
  du_Sum :: duration
  du_Max :: duration

record collector =
  co_counters :: "string \<Rightarrow> u64"
  co_durations :: "string \<Rightarrow> duration_stat"

definition no_durations :: duration_stat where
  "no_durations = \<lparr>du_Count = 0, du_Sum = 0, du_Max = 0\<rparr>"

definition NewInMemoryCollector :: collector where
  "NewInMemoryCollector = \<lparr>co_counters = (\<lambda>_. 0), co_durations = (\<lambda>_. no_durations)\<rparr>"

definition IncCounter :: "string \<Rightarrow> collector \<Rightarrow> collector" where
  "IncCounter name c = (if name = [] then c
     else c\<lparr>co_counters := (co_counters c)(name := co_counters c name + 1)\<rparr>)"

text \<open>The addition of two durations, which are \<^verbatim>\<open>int64\<close>.\<close>

definition add_duration :: "duration \<Rightarrow> duration \<Rightarrow> duration" where
  "add_duration d e = sint (word_of_int (d + e) :: u64)"

definition ObserveDuration :: "string \<Rightarrow> duration \<Rightarrow> collector \<Rightarrow> collector" where
  "ObserveDuration name d c = (if name = [] \<or> d < 0 then c
     else let st = co_durations c name;
         st = st\<lparr>du_Count := du_Count st + 1, du_Sum := add_duration (du_Sum st) d\<rparr>;
         st = (if d > du_Max st then st\<lparr>du_Max := d\<rparr> else st)
       in c\<lparr>co_durations := (co_durations c)(name := st)\<rparr>)"

definition Counter :: "string \<Rightarrow> collector \<Rightarrow> u64" where
  "Counter name c = co_counters c name"

definition Duration :: "string \<Rightarrow> collector \<Rightarrow> u64 \<times> duration \<times> duration" where
  "Duration name c = (let st = co_durations c name in (du_Count st, du_Sum st, du_Max st))"

section \<open>What the readings mean\<close>

datatype metric_call = CallInc string | CallObserve string duration

fun run_metric_call :: "metric_call \<Rightarrow> collector \<Rightarrow> collector" where
  "run_metric_call (CallInc name) = IncCounter name"
| "run_metric_call (CallObserve name d) = ObserveDuration name d"

definition collect :: "metric_call list \<Rightarrow> collector" where
  "collect calls = fold run_metric_call calls NewInMemoryCollector"

text \<open>The durations observed under a name.\<close>

fun observed :: "string \<Rightarrow> metric_call list \<Rightarrow> duration list" where
  "observed name [] = []"
| "observed name (CallInc n # calls) = observed name calls"
| "observed name (CallObserve n d # calls) = (if n = name \<and> 0 \<le> d then d # observed name calls else observed name calls)"

lemma observed_append [simp]: "observed name (calls @ calls') = observed name calls @ observed name calls'"
  by (induction name calls rule: observed.induct) simp_all

lemma add_duration_wrap: "add_duration (sint (word_of_int s :: u64)) d = sint (word_of_int (s + d) :: u64)"
proof -
  have "word_of_int (sint (word_of_int s :: u64) + d) = (word_of_int (s + d) :: u64)"
    by (simp add: wi_hom_add [symmetric])
  then show ?thesis by (simp add: add_duration_def)
qed

lemma foldr_max_snoc: "0 \<le> d \<Longrightarrow> foldr max (xs @ [d]) (0 :: int) = (if foldr max xs 0 < d then d else foldr max xs 0)"
  by (induction xs) (auto simp: max_def)

text \<open>
  A reading of the collector is a plain statistic of the calls so far, whatever their order. A counter is
  the number of its increments, a timer the number, the sum and the largest of the durations observed under
  its name, the number and the sum up to 64 bits; calls without a name and negative durations count nothing.
\<close>

theorem collector_counts_calls:
  "Counter name (collect calls) = (if name = [] then 0 else of_nat (count_list calls (CallInc name)))
   \<and> Duration name (collect calls) = (if name = [] then (0, 0, 0)
       else (of_nat (length (observed name calls)), sint (word_of_int (sum_list (observed name calls)) :: u64),
         foldr max (observed name calls) 0))"
proof (induction calls rule: rev_induct)
  case Nil
  show ?case by (simp add: collect_def NewInMemoryCollector_def Counter_def Duration_def no_durations_def)
next
  case (snoc call calls)
  have step: "collect (calls @ [call]) = run_metric_call call (collect calls)" by (simp add: collect_def)
  show ?case
  proof (cases call)
    case (CallInc n)
    with snoc step show ?thesis by (auto simp: IncCounter_def Counter_def Duration_def Let_def)
  next
    case (CallObserve n d)
    show ?thesis
    proof (cases "n = name \<and> name \<noteq> [] \<and> 0 \<le> d")
      case True
      with snoc have "du_Count (co_durations (collect calls) name) = of_nat (length (observed name calls))"
        "du_Sum (co_durations (collect calls) name) = sint (word_of_int (sum_list (observed name calls)) :: u64)"
        "du_Max (co_durations (collect calls) name) = foldr max (observed name calls) 0"
        by (simp_all add: Duration_def Let_def)
      with True CallObserve snoc step show ?thesis
        by (simp add: ObserveDuration_def Counter_def Duration_def Let_def add_duration_wrap foldr_max_snoc del: foldr_append)
    next
      case False
      with CallObserve snoc step show ?thesis
        by (auto simp: ObserveDuration_def Counter_def Duration_def Let_def)
    qed
  qed
qed

section \<open>The connection pool\<close>

record pool_config =
  pc_DatabaseURL :: string
  pc_MaxConns :: int
  pc_MinConns :: int
  pc_MaxConnLifetime :: duration
  pc_MaxConnIdleTime :: duration
  pc_HealthCheckPeriod :: duration

definition withDefaults :: "pool_config \<Rightarrow> pool_config" where
  "withDefaults c =
     (let cfg = c;
          cfg = (if pc_MaxConns cfg \<le> 0 then cfg\<lparr>pc_MaxConns := 8\<rparr> else cfg);
          cfg = (if pc_MinConns cfg < 0 then cfg\<lparr>pc_MinConns := 0\<rparr> else cfg);
          cfg = (if pc_MaxConnLifetime cfg \<le> 0 then cfg\<lparr>pc_MaxConnLifetime := 30 * 60 * 1000000000\<rparr> else cfg);
          cfg = (if pc_MaxConnIdleTime cfg \<le> 0 then cfg\<lparr>pc_MaxConnIdleTime := 5 * 60 * 1000000000\<rparr> else cfg);
          cfg = (if pc_HealthCheckPeriod cfg \<le> 0 then cfg\<lparr>pc_HealthCheckPeriod := 30 * 1000000000\<rparr> else cfg)
      in cfg)"

datatype pool_error = ErrURLRequired | ErrMaxBelowMin | ErrParseConfig | ErrCreatePool | ErrPing

definition validate :: "pool_config \<Rightarrow> pool_error option" where
  "validate c = (if pc_DatabaseURL c = [] then Some ErrURLRequired
     else if pc_MaxConns c < pc_MinConns c then Some ErrMaxBelowMin
     else None)"

text \<open>
  The settings of \<^verbatim>\<open>pgxpool\<close> the code writes. The library is an argument: \<open>parse\<close> of the URL, \<open>new\<close> and
  \<open>ping\<close>. The result comes with whether a pool was closed.
\<close>

record pool_settings =
  ps_MaxConns :: int
  ps_MinConns :: int
  ps_MaxConnLifetime :: duration
  ps_MaxConnIdleTime :: duration
  ps_HealthCheckPeriod :: duration

record 'p pgx_pool =
  px_parse :: "string \<Rightarrow> pool_settings option"
  px_new :: "pool_settings \<Rightarrow> 'p option"
  px_ping :: "'p \<Rightarrow> bool"

definition pool_settings_of :: "pool_config \<Rightarrow> pool_settings \<Rightarrow> pool_settings" where
  "pool_settings_of cfg poolCfg = poolCfg\<lparr>ps_MaxConns := pc_MaxConns cfg, ps_MinConns := pc_MinConns cfg,
     ps_MaxConnLifetime := pc_MaxConnLifetime cfg, ps_MaxConnIdleTime := pc_MaxConnIdleTime cfg,
     ps_HealthCheckPeriod := pc_HealthCheckPeriod cfg\<rparr>"

definition NewPool :: "'p pgx_pool \<Rightarrow> pool_config \<Rightarrow> (pool_error + 'p) \<times> 'p list" where
  "NewPool X c =
     (let cfg = withDefaults c in
      case validate cfg of
        Some err \<Rightarrow> (Inl err, [])
      | None \<Rightarrow> (case px_parse X (pc_DatabaseURL cfg) of
          None \<Rightarrow> (Inl ErrParseConfig, [])
        | Some poolCfg \<Rightarrow> (case px_new X (pool_settings_of cfg poolCfg) of
            None \<Rightarrow> (Inl ErrCreatePool, [])
          | Some pool \<Rightarrow> if px_ping X pool then (Inr pool, []) else (Inl ErrPing, [pool]))))"

text \<open>A pool is made with settings that make sense, and one that does not answer is closed.\<close>

lemma withDefaults_positive:
  "0 < pc_MaxConns (withDefaults c)" "0 \<le> pc_MinConns (withDefaults c)" "0 < pc_MaxConnLifetime (withDefaults c)"
  "0 < pc_MaxConnIdleTime (withDefaults c)" "0 < pc_HealthCheckPeriod (withDefaults c)"
  by (simp_all add: withDefaults_def Let_def)

lemma NewPool_settings:
  assumes "NewPool X c = (res, closed)" "pool \<in> set closed \<or> res = Inr pool"
  shows "\<exists>s. px_new X s = Some pool \<and> 0 < ps_MaxConns s \<and> 0 \<le> ps_MinConns s \<and> ps_MinConns s \<le> ps_MaxConns s
      \<and> 0 < ps_MaxConnLifetime s \<and> 0 < ps_MaxConnIdleTime s \<and> 0 < ps_HealthCheckPeriod s"
    and "px_ping X pool \<longleftrightarrow> res = Inr pool"
proof -
  let ?c = "withDefaults c"
  from assms obtain poolCfg where "validate ?c = None" "px_new X (pool_settings_of ?c poolCfg) = Some pool"
    and ping: "px_ping X pool \<longleftrightarrow> res = Inr pool"
    by (auto simp: NewPool_def Let_def split: option.splits if_splits)
  then show "\<exists>s. px_new X s = Some pool \<and> 0 < ps_MaxConns s \<and> 0 \<le> ps_MinConns s \<and> ps_MinConns s \<le> ps_MaxConns s
      \<and> 0 < ps_MaxConnLifetime s \<and> 0 < ps_MaxConnIdleTime s \<and> 0 < ps_HealthCheckPeriod s"
    using withDefaults_positive [of c]
    by (intro exI [of _ "pool_settings_of ?c poolCfg"]) (auto simp: pool_settings_of_def validate_def split: if_splits)
  show "px_ping X pool \<longleftrightarrow> res = Inr pool" by (rule ping)
qed

text \<open>The server's own call sets only the URL.\<close>

lemma NewPool_defaults:
  "withDefaults \<lparr>pc_DatabaseURL = url, pc_MaxConns = 0, pc_MinConns = 0, pc_MaxConnLifetime = 0,
     pc_MaxConnIdleTime = 0, pc_HealthCheckPeriod = 0\<rparr>
   = \<lparr>pc_DatabaseURL = url, pc_MaxConns = 8, pc_MinConns = 0, pc_MaxConnLifetime = 1800000000000,
      pc_MaxConnIdleTime = 300000000000, pc_HealthCheckPeriod = 30000000000\<rparr>"
  by (simp add: withDefaults_def)

end
