(* ===== verification/Server.thy ===== *)
theory Server
  imports Migrations Metrics Session
begin

text \<open>
  The server itself: what \<^verbatim>\<open>cmd/server/main.go\<close> starts and in which order, and how
  \<^verbatim>\<open>cmd/server/ssh_server.go\<close> gets from a listening socket to the shells of the theory Session
  (\<open>newSSHServer\<close>, \<open>Start\<close>, \<open>Stop\<close>, \<open>handleConn\<close>, \<open>handleSessionChannel\<close>).

  The SSH library is an argument: the handshake decides, from a connection and what the password callback
  answered, whether there is a session and of which user. The network is the list of what \<open>Accept\<close>
  returns. Connections and channels run beside each other: the calls of the password callback on other
  connections that come between two of one connection are its environment's (\<open>pt_others\<close>), and the outputs
  of a connection are one list per channel, which may interleave.
\<close>

section \<open>Connections\<close>

record 'f password_try =
  pt_others :: "'f limiter \<Rightarrow> 'f limiter"
  pt_attempt :: login_attempt

text \<open>A channel a client asks for: its type, whether \<open>Accept\<close> succeeds, and the types of its requests.\<close>

record channel_request =
  cr_type :: string
  cr_accepts :: bool
  cr_requests :: "string list"

record 'f connection =
  cn_addr :: string
  cn_tries :: "'f password_try list"
  cn_channels :: "channel_request list"

datatype channel_output = RejectedChannel string | ReplyTo bool | RunShell string string | ClosedChannel

text \<open>The requests of a session channel up to the shell; no request after it is read.\<close>

fun session_requests :: "string list \<Rightarrow> channel_output list \<times> bool" where
  "session_requests [] = ([], False)"
| "session_requests (req # reqs) =
     (if req = ''pty-req'' then (let (out, ready) = session_requests reqs in (ReplyTo True # out, ready))
      else if req = ''shell'' then ([ReplyTo True], True)
      else (let (out, ready) = session_requests reqs in (ReplyTo False # out, ready)))"

definition handleSessionChannel :: "string \<Rightarrow> string \<Rightarrow> string list \<Rightarrow> channel_output list" where
  "handleSessionChannel user addr requests =
     (let (out, shellReady) = session_requests requests in
      out @ (if \<not> shellReady then [] else [RunShell user addr]) @ [ClosedChannel])"

definition serve_channel :: "string \<Rightarrow> string \<Rightarrow> channel_request \<Rightarrow> channel_output list" where
  "serve_channel user addr ch =
     (if cr_type ch \<noteq> ''session'' then [RejectedChannel ''unknown channel type'']
      else if \<not> cr_accepts ch then []
      else handleSessionChannel user addr (cr_requests ch))"

text \<open>The answers of the password callback on one connection, with the counters it advances.\<close>

fun try_passwords :: "'f float64 \<Rightarrow> server_config \<Rightarrow> bool \<Rightarrow> 'f password_try list \<Rightarrow> 'f limiter
    \<Rightarrow> login_error option list \<times> string list \<times> 'f limiter" where
  "try_passwords F cfg telemetry [] l = ([], [], l)"
| "try_passwords F cfg telemetry (t # ts) l =
     (let (res, out, l) = passwordCallback F cfg telemetry (pt_attempt t) (pt_others t l);
          (ress, outs, l) = try_passwords F cfg telemetry ts l
      in (res # ress, out @ outs, l))"

type_synonym 'f handshake = "'f connection \<Rightarrow> login_error option list \<Rightarrow> string option"

definition handleConn :: "'f float64 \<Rightarrow> 'f handshake \<Rightarrow> server_config \<Rightarrow> bool \<Rightarrow> 'f connection \<Rightarrow> 'f limiter
    \<Rightarrow> string list \<times> channel_output list list \<times> 'f limiter" where
  "handleConn F handshake cfg telemetry c l =
     (let (ress, counted, l) = try_passwords F cfg telemetry (cn_tries c) l in
      case handshake c ress of
        None \<Rightarrow> (counted, [], l)
      | Some user \<Rightarrow> (counted, map (serve_channel user (cn_addr c)) (cn_channels c), l))"

fun handle_conns :: "'f float64 \<Rightarrow> 'f handshake \<Rightarrow> server_config \<Rightarrow> bool \<Rightarrow> 'f connection list \<Rightarrow> 'f limiter
    \<Rightarrow> string list \<times> channel_output list list \<times> 'f limiter" where
  "handle_conns F handshake cfg telemetry [] l = ([], [], l)"
| "handle_conns F handshake cfg telemetry (c # cs) l =
     (let (counted, channels, l) = handleConn F handshake cfg telemetry c l;
          (counted', channels', l) = handle_conns F handshake cfg telemetry cs l
      in (counted @ counted', channels @ channels', l))"

section \<open>The listening loop\<close>

text \<open>A failed \<open>Accept\<close>: whether the context is done by then, and what the error is.\<close>

record accept_error =
  ae_ctx_done :: bool
  ae_closed :: bool
  ae_temporary :: bool
  ae_canceled :: bool

datatype 'c accepted = AcceptedConn 'c | AcceptFails accept_error

datatype start_error = ErrListen | ErrAccept accept_error

text \<open>What the loop returns, \<open>None\<close> while it still waits, and the connections it handed on.\<close>

fun accept_loop :: "'c accepted list \<Rightarrow> start_error option option \<times> 'c list" where
  "accept_loop [] = (None, [])"
| "accept_loop (AcceptedConn c # rest) = (let (res, cs) = accept_loop rest in (res, c # cs))"
| "accept_loop (AcceptFails e # rest) =
     (if ae_ctx_done e then (Some None, [])
      else if ae_closed e then (Some None, [])
      else if ae_temporary e then accept_loop rest
      else (Some (Some (ErrAccept e)), []))"

text \<open>The result comes with the life cycle of the matchmaker, \<open>None\<close> if stopping it panicked.\<close>

definition StartServer :: "bool \<Rightarrow> 'c accepted list \<Rightarrow> lifecycle
    \<Rightarrow> start_error option option \<times> 'c list \<times> lifecycle option" where
  "StartServer listening accepts lc =
     (if \<not> listening then (Some (Some ErrListen), [], Some lc)
      else let lc = StartService lc; (res, conns) = accept_loop accepts in
        case res of
          None \<Rightarrow> (None, conns, Some lc)
        | Some err \<Rightarrow> (Some err, conns, StopService lc))"

text \<open>\<open>listener\<close> is the result of closing the listener, if there is one.\<close>

definition StopServer :: "'e option option \<Rightarrow> lifecycle \<Rightarrow> 'e option \<times> lifecycle option" where
  "StopServer listener lc = ((case listener of Some res \<Rightarrow> res | None \<Rightarrow> None), StopService lc)"

section \<open>Making the server\<close>

record 'f ssh_server =
  sr_cfg :: server_config
  sr_loginLimiter :: "'f limiter"
  sr_queueLimiter :: "'f limiter"
  sr_actionLimiter :: "'f limiter"
  sr_sessions :: "string \<rightharpoonup> session"

datatype server_error = ErrMissingService | ErrGenerateHostKey | ErrCreateHostSigner

definition generateHostSigner :: "bool \<Rightarrow> bool \<Rightarrow> server_error option" where
  "generateHostSigner key_ok signer_ok = (if \<not> key_ok then Some ErrGenerateHostKey
     else if \<not> signer_ok then Some ErrCreateHostSigner else None)"

definition newSSHServer :: "'f float64 \<Rightarrow> server_config \<Rightarrow> bool \<Rightarrow> bool \<Rightarrow> bool \<Rightarrow> server_error option
    \<Rightarrow> server_error + 'f ssh_server" where
  "newSSHServer F cfg has_lobby has_matcher has_ensurer hostKey =
     (if \<not> has_lobby \<or> \<not> has_matcher \<or> \<not> has_ensurer then Inl ErrMissingService
      else case hostKey of
        Some err \<Rightarrow> Inl err
      | None \<Rightarrow> Inr \<lparr>sr_cfg = cfg, sr_loginLimiter = newTokenBucketLimiter F 5 3,
          sr_queueLimiter = newTokenBucketLimiter F 10 10, sr_actionLimiter = newTokenBucketLimiter F 30 30,
          sr_sessions = Map.empty\<rparr>)"

text \<open>The limits of matches, with the defaults \<open>NewInMemoryService\<close> puts in.\<close>

record matcher_config =
  mk_QueueTimeout :: duration
  mk_TurnTimeout :: duration
  mk_MaxTurns :: int

definition matcher_defaults :: "matcher_config \<Rightarrow> matcher_config" where
  "matcher_defaults c =
     (let cfg = c;
          cfg = (if mk_QueueTimeout cfg \<le> 0 then cfg\<lparr>mk_QueueTimeout := 45 * 1000000000\<rparr> else cfg);
          cfg = (if mk_TurnTimeout cfg \<le> 0 then cfg\<lparr>mk_TurnTimeout := 5 * 1000000000\<rparr> else cfg);
          cfg = (if mk_MaxTurns cfg \<le> 0 then cfg\<lparr>mk_MaxTurns := 120\<rparr> else cfg)
      in cfg)"

section \<open>The program\<close>

text \<open>
  What \<open>main\<close> meets: the environment variables, the database library and the database, the directory
  of migrations, and the network.
\<close>

record ('f, 'p) main_env =
  mn_Getenv :: "string \<Rightarrow> string"
  mn_pgx :: "'p pgx_pool"
  mn_db :: migration_db
  mn_digest :: "string \<Rightarrow> string"
  mn_files :: "string \<Rightarrow> string option"
  mn_ReadDir :: "string \<Rightarrow> (string \<times> bool) list option"
  mn_ensured :: bool
  mn_queried :: bool
  mn_tx :: "int \<Rightarrow> tx_outcome"
  mn_key_ok :: bool
  mn_signer_ok :: bool
  mn_listening :: bool
  mn_accepts :: "'f connection accepted list"
  mn_handshake :: "'f handshake"

datatype fatal_error = FatalConfig config_error | FatalDatabase pool_error | FatalMigrations migration_error
  | FatalServer server_error | FatalStopped start_error | FatalPanic

text \<open>
  How the program ends, \<open>None\<close> while it runs; the migrated database; the matchmaker's limits once there is
  one; the outputs of the channels; whether the pool is closed, which the deferred call does unless the
  program exits before it.
\<close>

record main_run =
  mr_exit :: "fatal_error option option"
  mr_db :: migration_db
  mr_matcher :: "matcher_config option"
  mr_channels :: "channel_output list list"
  mr_pool_closed :: bool

definition fatal :: "fatal_error \<Rightarrow> migration_db \<Rightarrow> main_run" where
  "fatal err db = \<lparr>mr_exit = Some (Some err), mr_db = db, mr_matcher = None, mr_channels = [], mr_pool_closed = False\<rparr>"

text \<open>How the program ends after \<open>Start\<close>, and whether the pool is closed by then.\<close>

fun server_exit :: "start_error option option \<Rightarrow> lifecycle option \<Rightarrow> fatal_error option option \<times> bool" where
  "server_exit None lc = (None, False)"
| "server_exit (Some err) None = (Some (Some FatalPanic), True)"
| "server_exit (Some None) (Some lc) = (Some None, True)"
| "server_exit (Some (Some ErrListen)) (Some lc) = (Some (Some (FatalStopped ErrListen)), False)"
| "server_exit (Some (Some (ErrAccept e))) (Some lc) =
     (if ae_canceled e then (Some None, True) else (Some (Some (FatalStopped (ErrAccept e))), False))"

definition run_server :: "'f float64 \<Rightarrow> ('f, 'p) main_env \<Rightarrow> 'f ssh_server \<Rightarrow> matcher_config \<Rightarrow> migration_db \<Rightarrow> main_run" where
  "run_server F M srv matcher db =
     (let (res, conns, lc) = StartServer (mn_listening M) (mn_accepts M) new_lifecycle;
          (counted, channels, l) = handle_conns F (mn_handshake M) (sr_cfg srv) True conns (sr_loginLimiter srv);
          (exit, closed) = server_exit res lc
      in \<lparr>mr_exit = exit, mr_db = db, mr_matcher = Some matcher, mr_channels = channels, mr_pool_closed = closed\<rparr>)"

definition database_config :: "server_config \<Rightarrow> pool_config" where
  "database_config cfg = \<lparr>pc_DatabaseURL = cf_DatabaseURL cfg, pc_MaxConns = 0, pc_MinConns = 0,
     pc_MaxConnLifetime = 0, pc_MaxConnIdleTime = 0, pc_HealthCheckPeriod = 0\<rparr>"

definition migrations_dir :: string where "migrations_dir = ''db/migrations''"

definition matcher_config_of :: "server_config \<Rightarrow> matcher_config" where
  "matcher_config_of cfg = matcher_defaults \<lparr>mk_QueueTimeout = cf_QueueTimeout cfg,
     mk_TurnTimeout = cf_TurnTimeout cfg, mk_MaxTurns = cf_MaxTurns cfg\<rparr>"

text \<open>What \<open>loadMigrations\<close> finds in the directory.\<close>

definition found_migrations :: "('f, 'p) main_env \<Rightarrow> migration_error + migration_file list" where
  "found_migrations M = loadMigrations (mn_digest M) (mn_files M) (mn_ReadDir M) migrations_dir"

definition main_program :: "'f float64 \<Rightarrow> ('f, 'p) main_env \<Rightarrow> main_run" where
  "main_program F M = (case LoadConfigFromEnv (mn_Getenv M) of
     Inl err \<Rightarrow> fatal (FatalConfig err) (mn_db M)
   | Inr cfg \<Rightarrow>
      (case fst (NewPool (mn_pgx M) (database_config cfg)) of
        Inl err \<Rightarrow> fatal (FatalDatabase err) (mn_db M)
      | Inr pool \<Rightarrow>
         (let (err, dbs) = ApplyMigrations migrations_dir (found_migrations M) (mn_ensured M) (mn_queried M) (mn_tx M)
                (Some (mn_db M));
              db = (case dbs of Some db \<Rightarrow> db | None \<Rightarrow> mn_db M)
          in case err of
            Some err \<Rightarrow> fatal (FatalMigrations err) db
          | None \<Rightarrow>
             (let matcher = matcher_config_of cfg in
              case newSSHServer F cfg True True True (generateHostSigner (mn_key_ok M) (mn_signer_ok M)) of
                Inl err \<Rightarrow> (fatal (FatalServer err) db)\<lparr>mr_matcher := Some matcher\<rparr>
              | Inr srv \<Rightarrow> run_server F M srv matcher db))))"

section \<open>Channels\<close>

text \<open>What a session channel does, whatever is asked of it.\<close>

lemma session_requests_eq:
  "session_requests reqs = (let asked = takeWhile (\<lambda>r. r \<noteq> ''shell'') reqs; ready = ''shell'' \<in> set reqs
     in (map (\<lambda>r. ReplyTo (r = ''pty-req'')) asked @ (if ready then [ReplyTo True] else []), ready))"
  by (induction reqs rule: session_requests.induct) (simp_all add: Let_def)

lemma one_shell_per_channel:
  "handleSessionChannel user addr reqs = map (\<lambda>r. ReplyTo (r = ''pty-req'')) (takeWhile (\<lambda>r. r \<noteq> ''shell'') reqs)
     @ (if ''shell'' \<in> set reqs then [ReplyTo True, RunShell user addr] else []) @ [ClosedChannel]"
  by (simp add: handleSessionChannel_def session_requests_eq Let_def)

text \<open>A request that comes after the shell was granted, a change of the window's size say, is never answered.\<close>

lemma requests_after_the_shell_are_unanswered:
  "handleSessionChannel user addr (reqs @ ''shell'' # later) = handleSessionChannel user addr (reqs @ [''shell''])"
  by (simp add: one_shell_per_channel takeWhile_tail)

lemma serve_channel_shell:
  "RunShell u a \<in> set (serve_channel user addr ch) \<Longrightarrow> u = user \<and> a = addr
     \<and> cr_type ch = ''session'' \<and> ''shell'' \<in> set (cr_requests ch)"
  by (auto simp: serve_channel_def one_shell_per_channel split: if_splits)

section \<open>Logging in\<close>

lemma try_passwords_sound:
  "try_passwords F cfg telemetry tries l = (ress, counted, l') \<Longrightarrow>
     list_all2 (\<lambda>t res. res = None \<longrightarrow>
       map_of (cf_SSHUsers cfg) (la_user (pt_attempt t)) = Some (la_password (pt_attempt t))) tries ress"
proof (induction tries arbitrary: l ress counted l')
  case (Cons t ts)
  obtain res out l1 where one: "passwordCallback F cfg telemetry (pt_attempt t) (pt_others t l) = (res, out, l1)"
    by (metis prod_cases3)
  obtain ress2 outs l2 where rest: "try_passwords F cfg telemetry ts l1 = (ress2, outs, l2)" by (metis prod_cases3)
  from Cons.prems one rest have "ress = res # ress2" by simp
  moreover from one have "res = None \<longrightarrow>
      map_of (cf_SSHUsers cfg) (la_user (pt_attempt t)) = Some (la_password (pt_attempt t))"
    by (auto simp: passwordCallback_def Let_def split: prod.splits if_splits)
  ultimately show ?case using Cons.IH [OF rest] by simp
qed simp

text \<open>
  What \<^verbatim>\<open>ssh.NewServerConn\<close> promises of a configuration whose only method is a password callback: there is a
  session only if the callback accepted a password, and its user is the one the password was for.
\<close>

definition authenticating :: "'f handshake \<Rightarrow> bool" where
  "authenticating handshake \<longleftrightarrow> (\<forall>c ress user. handshake c ress = Some user \<longrightarrow>
     (\<exists>i < length ress. ress ! i = None \<and> la_user (pt_attempt (cn_tries c ! i)) = user))"

lemma authenticatingD:
  assumes "authenticating handshake" "handshake c ress = Some user"
  obtains i where "i < length ress" "ress ! i = None" "la_user (pt_attempt (cn_tries c ! i)) = user"
  using assms unfolding authenticating_def by metis

lemma handleConn_shell:
  assumes "handleConn F handshake cfg telemetry c l = (counted, channels, l')" "authenticating handshake"
    and "outs \<in> set channels" "RunShell user addr \<in> set outs"
  shows "addr = cn_addr c \<and> (\<exists>t \<in> set (cn_tries c). la_user (pt_attempt t) = user
    \<and> map_of (cf_SSHUsers cfg) user = Some (la_password (pt_attempt t)))"
proof -
  obtain ress counted1 l1 where tries: "try_passwords F cfg telemetry (cn_tries c) l = (ress, counted1, l1)"
    by (metis prod_cases3)
  with assms(1,3) obtain u ch where u: "handshake c ress = Some u" "outs = serve_channel u (cn_addr c) ch"
    by (auto simp: handleConn_def split: option.splits)
  from serve_channel_shell [OF assms(4) [unfolded u(2)]] have "addr = cn_addr c" "user = u" by simp_all
  note u = u(1) this
  from assms(2) u(1) obtain i where i: "i < length ress" "ress ! i = None" "la_user (pt_attempt (cn_tries c ! i)) = u"
    by (rule authenticatingD)
  have ok: "list_all2 (\<lambda>t res. res = None \<longrightarrow>
      map_of (cf_SSHUsers cfg) (la_user (pt_attempt t)) = Some (la_password (pt_attempt t))) (cn_tries c) ress"
    by (rule try_passwords_sound [OF tries])
  then have "i < length (cn_tries c)" using i(1) by (simp add: list_all2_lengthD)
  moreover from list_all2_nthD2 [OF ok i(1)] i(2,3)
  have "map_of (cf_SSHUsers cfg) u = Some (la_password (pt_attempt (cn_tries c ! i)))" by simp
  ultimately show ?thesis using u(2,3) i(3) by (auto intro!: bexI [of _ "cn_tries c ! i"])
qed

lemma handle_conns_shell:
  "handle_conns F handshake cfg telemetry cs l = (counted, channels, l') \<Longrightarrow> authenticating handshake
     \<Longrightarrow> outs \<in> set channels \<Longrightarrow> RunShell user addr \<in> set outs \<Longrightarrow>
     \<exists>c \<in> set cs. addr = cn_addr c \<and> (\<exists>t \<in> set (cn_tries c). la_user (pt_attempt t) = user
       \<and> map_of (cf_SSHUsers cfg) user = Some (la_password (pt_attempt t)))"
proof (induction cs arbitrary: l counted channels l')
  case (Cons c cs)
  obtain k1 ch1 l1 where one: "handleConn F handshake cfg telemetry c l = (k1, ch1, l1)" by (metis prod_cases3)
  obtain k2 ch2 l2 where rest: "handle_conns F handshake cfg telemetry cs l1 = (k2, ch2, l2)" by (metis prod_cases3)
  from Cons.prems(1) one rest have "channels = ch1 @ ch2" by simp
  with Cons.prems(3) consider "outs \<in> set ch1" | "outs \<in> set ch2" by auto
  then show ?case
  proof cases
    case 1
    from handleConn_shell [OF one Cons.prems(2) 1 Cons.prems(4)] show ?thesis by auto
  next
    case 2
    from Cons.IH [OF rest Cons.prems(2) 2 Cons.prems(4)] show ?thesis by auto
  qed
qed simp

section \<open>Listening\<close>

lemma accept_loop_conns: "accept_loop accepts = (res, conns) \<Longrightarrow> c \<in> set conns \<Longrightarrow> AcceptedConn c \<in> set accepts"
  by (induction accepts arbitrary: res conns rule: accept_loop.induct) (auto split: prod.splits if_splits)

lemma StartServer_conns:
  "StartServer listening accepts lc = (res, conns, lc') \<Longrightarrow> c \<in> set conns \<Longrightarrow> AcceptedConn c \<in> set accepts"
  by (auto simp: StartServer_def Let_def split: if_splits prod.splits option.splits intro: accept_loop_conns)

text \<open>Temporary failures lose no connection; whatever comes after the last one that is not is not accepted.\<close>

fun tolerated :: "'c accepted \<Rightarrow> bool" where
  "tolerated (AcceptedConn c) = True"
| "tolerated (AcceptFails e) = (ae_temporary e \<and> \<not> ae_closed e \<and> \<not> ae_ctx_done e)"

lemma accept_loop_temporary:
  "list_all tolerated accepts \<Longrightarrow> accept_loop accepts = (None, [c. AcceptedConn c \<leftarrow> accepts])"
  by (induction accepts rule: accept_loop.induct) simp_all

text \<open>A new server's matchmaker is stopped when its loop returns, and stopping the server after that changes nothing.\<close>

lemma StartServer_stops_the_matchmaker:
  assumes "StartServer True accepts new_lifecycle = (Some err, conns, lc)"
  shows "\<exists>l. lc = Some l \<and> \<not> loop_lives l \<and> snd (StopServer listener l) = Some l"
proof -
  obtain res cs where "accept_loop accepts = (res, cs)" by force
  with assms have "lc = StopService (StartService new_lifecycle)"
    by (cases res) (simp_all add: StartServer_def)
  then show ?thesis
    by (simp add: StopServer_def StartService_def StopService_def new_lifecycle_def loop_lives_def)
qed

section \<open>Properties\<close>

text \<open>The migrations are all applied when \<open>ApplyMigrations\<close> reports no error.\<close>

lemma ApplyMigrations_all:
  assumes "ApplyMigrations dir loaded ensured queried tx (Some db) = (None, dbs)"
  shows "\<exists>ms. loaded = Inr ms \<and> dbs = Some (after_all ms db)"
proof -
  from assms obtain ms where ms: "loaded = Inr ms" by (auto simp: ApplyMigrations_def split: if_splits sum.splits)
  from assms [unfolded ms] obtain db' made rest where "dbs = Some db'" "pending ms db = made @ rest"
    "(None :: migration_error option) = None \<longrightarrow> dir \<noteq> [] \<and> rest = []"
    "db' = \<lparr>db_rows = db_rows db @ map row_of made, db_sql = db_sql db @ map mf_UpSQL made\<rparr>"
    by (rule ApplyMigrations_prefix)
  with ms show ?thesis by (simp add: after_all_def)
qed

lemma run_server_outputs:
  assumes "StartServer (mn_listening M) (mn_accepts M) new_lifecycle = (res, conns, lc)"
    and "handle_conns F (mn_handshake M) cfg True conns (sr_loginLimiter srv) = (counted, channels, l)" "sr_cfg srv = cfg"
  shows "mr_channels (run_server F M srv matcher db) = channels \<and> mr_db (run_server F M srv matcher db) = db"
  using assms by (simp add: run_server_def split_beta)

text \<open>The way to the listening socket.\<close>

lemma main_program_reaches_server:
  assumes "mr_channels (main_program F M) \<noteq> []"
  obtains cfg ms srv where "LoadConfigFromEnv (mn_Getenv M) = Inr cfg" "found_migrations M = Inr ms" "sr_cfg srv = cfg"
    "main_program F M = run_server F M srv (matcher_config_of cfg) (after_all ms (mn_db M))"
proof (cases "LoadConfigFromEnv (mn_Getenv M)")
  case (Inr cfg)
  note cfg = Inr
  show thesis
  proof (cases "fst (NewPool (mn_pgx M) (database_config cfg))")
    case (Inr pool)
    obtain err dbs where app: "ApplyMigrations migrations_dir (found_migrations M) (mn_ensured M) (mn_queried M) (mn_tx M)
        (Some (mn_db M)) = (err, dbs)" by force
    then have err: "err = None" using assms cfg Inr by (cases err) (simp_all add: main_program_def fatal_def)
    from ApplyMigrations_all [OF app [unfolded err]]
    obtain ms where ms: "found_migrations M = Inr ms" "dbs = Some (after_all ms (mn_db M))" by auto
    have "mn_key_ok M \<and> mn_signer_ok M"
      using assms cfg Inr app err ms
      by (auto simp: main_program_def fatal_def newSSHServer_def generateHostSigner_def split: if_splits)
    then obtain srv where "newSSHServer F cfg True True True (generateHostSigner (mn_key_ok M) (mn_signer_ok M)) = Inr srv"
      "sr_cfg srv = cfg" by (simp add: newSSHServer_def generateHostSigner_def)
    then show thesis using that [OF cfg ms(1)] cfg Inr app err ms by (simp add: main_program_def)
  qed (use assms cfg in \<open>simp add: main_program_def fatal_def\<close>)
qed (use assms in \<open>simp add: main_program_def fatal_def\<close>)

text \<open>The matchmaker's limits are positive, though a configured timeout may have wrapped around.\<close>

lemma matcher_config_positive:
  "0 < mk_QueueTimeout (matcher_config_of cfg)" "0 < mk_TurnTimeout (matcher_config_of cfg)"
  "0 < mk_MaxTurns (matcher_config_of cfg)"
  by (simp_all add: matcher_config_of_def matcher_defaults_def Let_def)

text \<open>
  C9: A shell opens only on a server that has read its configuration and brought the database up to the last
  of the migrations of its directory, and only for a configured user, on a connection on which that user's
  password was given. Which users, is decided by the environment variables alone.
\<close>

theorem shells_open_only_after_login_and_migrations:
  assumes "authenticating (mn_handshake M)" "outs \<in> set (mr_channels (main_program F M))" "RunShell user addr \<in> set outs"
  shows "\<exists>cfg ms c t. LoadConfigFromEnv (mn_Getenv M) = Inr cfg
    \<and> found_migrations M = Inr ms \<and> mr_db (main_program F M) = after_all ms (mn_db M)
    \<and> AcceptedConn c \<in> set (mn_accepts M) \<and> cn_addr c = addr
    \<and> t \<in> set (cn_tries c) \<and> la_user (pt_attempt t) = user
    \<and> map_of (cf_SSHUsers cfg) user = Some (la_password (pt_attempt t))"
proof -
  from assms(2) have "mr_channels (main_program F M) \<noteq> []" by auto
  then obtain cfg ms srv where server: "LoadConfigFromEnv (mn_Getenv M) = Inr cfg" "found_migrations M = Inr ms"
    "sr_cfg srv = cfg" "main_program F M = run_server F M srv (matcher_config_of cfg) (after_all ms (mn_db M))"
    by (rule main_program_reaches_server)
  obtain res conns lc where start: "StartServer (mn_listening M) (mn_accepts M) new_lifecycle = (res, conns, lc)"
    by (metis prod_cases3)
  obtain counted channels l where conns: "handle_conns F (mn_handshake M) cfg True conns (sr_loginLimiter srv)
      = (counted, channels, l)" by (metis prod_cases3)
  have run: "mr_channels (main_program F M) = channels \<and> mr_db (main_program F M) = after_all ms (mn_db M)"
    using start conns server(3) unfolding server(4) by (rule run_server_outputs)
  from handle_conns_shell [OF conns assms(1) _ assms(3)] assms(2) run obtain c t where "c \<in> set conns" "addr = cn_addr c"
    "t \<in> set (cn_tries c)" "la_user (pt_attempt t) = user"
    "map_of (cf_SSHUsers cfg) user = Some (la_password (pt_attempt t))" by auto
  with StartServer_conns [OF start] server(1,2) run show ?thesis by blast
qed

text \<open>Two clients, of which one guesses wrong, and a directory with one migration.\<close>

definition demo_handshake :: "'f handshake" where
  "demo_handshake c ress = map_option (\<lambda>(t, res). la_user (pt_attempt t)) (find (\<lambda>(t, res). res = None) (zip (cn_tries c) ress))"

lemma demo_handshake_authenticating: "authenticating demo_handshake"
  by (auto simp: authenticating_def demo_handshake_def find_Some_iff split_beta)

definition demo_try :: "string \<Rightarrow> rat option password_try" where
  "demo_try password = \<lparr>pt_others = (\<lambda>l. l),
     pt_attempt = \<lparr>la_now = 7, la_addr = ''10.0.0.1:99'', la_user = ''ana'', la_password = password\<rparr>\<rparr>"

definition demo_connection :: "string list \<Rightarrow> rat option connection" where
  "demo_connection passwords = \<lparr>cn_addr = ''10.0.0.1:99'', cn_tries = map demo_try passwords,
     cn_channels = [\<lparr>cr_type = ''x11'', cr_accepts = True, cr_requests = []\<rparr>,
       \<lparr>cr_type = ''session'', cr_accepts = True, cr_requests = [''pty-req'', ''env'', ''shell'', ''window-change'']\<rparr>]\<rparr>"

definition demo_main :: "(rat option, unit) main_env" where
  "demo_main = \<lparr>mn_Getenv = (\<lambda>name. if name = ''TWL_DATABASE_URL'' then ''db''
       else if name = ''TWL_SSH_USERS'' then ''ana:pw'' else []),
     mn_pgx = \<lparr>px_parse = (\<lambda>_. Some \<lparr>ps_MaxConns = 0, ps_MinConns = 0, ps_MaxConnLifetime = 0, ps_MaxConnIdleTime = 0,
       ps_HealthCheckPeriod = 0\<rparr>), px_new = (\<lambda>_. Some ()), px_ping = (\<lambda>_. True)\<rparr>,
     mn_db = \<lparr>db_rows = [], db_sql = []\<rparr>, mn_digest = id,
     mn_files = (\<lambda>_. Some (''-- +twl Up'' @ [LF] @ ''A'')), mn_ReadDir = (\<lambda>_. Some [(''1_a.sql'', False)]),
     mn_ensured = True, mn_queried = True, mn_tx = (\<lambda>_. TxCommitted), mn_key_ok = True, mn_signer_ok = True,
     mn_listening = True, mn_accepts = [AcceptedConn (demo_connection [''no'']),
       AcceptFails \<lparr>ae_ctx_done = False, ae_closed = False, ae_temporary = True, ae_canceled = False\<rparr>,
       AcceptedConn (demo_connection [''no'', ''pw''])],
     mn_handshake = demo_handshake\<rparr>"

definition demo_main_config :: server_config where
  "demo_main_config = \<lparr>cf_DatabaseURL = ''db'', cf_SSHAddr = '':2222'', cf_SSHUsers = [(''ana'', ''pw'')],
     cf_QueueTimeout = 45000000000, cf_TurnTimeout = 5000000000, cf_MaxTurns = 120,
     cf_WatchWaitTimeout = 120000000000, cf_SpectatorMaxPerMatch = 20\<rparr>"

lemma demo_main_config: "LoadConfigFromEnv (mn_Getenv demo_main) = Inr demo_main_config"
proof -
  note trim = TrimText_def trim_runes_def runes.simps rune_len_def rune_space_def
  have "TrimText ''db'' = ''db''" "TrimText ''ana:pw'' = ''ana:pw''" "TrimText [] = []" by (simp_all add: trim)
  moreover have "parseUsers ''ana:pw'' = Inr [(''ana'', ''pw'')]"
    using parseUsers_reads_back [of "[(''ana'', ''pw'')]"] by (simp add: plain_user_def user_entry_def trim)
  moreover have "seconds 45 = 45000000000" "seconds 5 = 5000000000" "seconds 120 = 120000000000"
    by (simp_all add: seconds_exact)
  ultimately show ?thesis
    by (simp add: LoadConfigFromEnv_def parseIntEnvDefault_def demo_main_config_def demo_main_def)
qed

lemma demo_main_migrations: "found_migrations demo_main = Inr
    [\<lparr>mf_Version = 1, mf_Name = ''a'', mf_Path = ''db/migrations/1_a.sql'', mf_UpSQL = ''A'', mf_DownSQL = [], mf_Checksum = ''A''\<rparr>]"
proof -
  have "file_lines (''-- +twl Up'' @ [LF] @ ''A'') = Some [''-- +twl Up'', ''A'']"
    by (simp add: file_lines_def LF_def CR_def drop_CR_def MaxScanTokenSize_def)
  then have "parseMigrationFile (Some (''-- +twl Up'' @ [LF] @ ''A'')) = Inr (''A'', [])"
    by (simp add: parseMigrationFile_def demo_text)
  then show ?thesis
    by (simp add: found_migrations_def demo_main_def migrations_dir_def loadMigrations_def match_name_def name_char_def is_digit_def
        ParseInt_def digits_value_def int64_ok_def)
qed

lemma demo_main_clients:
  "fst (snd (handle_conns exact_float demo_handshake demo_main_config True
     [demo_connection [''no''], demo_connection [''no'', ''pw'']] (newTokenBucketLimiter exact_float 5 3))) =
    [[RejectedChannel ''unknown channel type''],
     [ReplyTo True, ReplyTo False, ReplyTo True, RunShell ''ana'' ''10.0.0.1:99'', ClosedChannel]]"
proof -
  have host: "remote_host ''10.0.0.1:99'' = ''10.0.0.1''" by (simp add: remote_host_def SplitHostPort_def)
  have buckets: "Allow exact_float 7 ''10.0.0.1'' \<lparr>li_rate = r, li_burst = Some 3, li_state = st, li_ttl = 900000000000\<rparr>
      = (True, \<lparr>li_rate = r, li_burst = Some 3, li_state = st(''10.0.0.1'' \<mapsto> \<lparr>rb_tokens = Some (t - 1), rb_last = 7\<rparr>),
          li_ttl = 900000000000\<rparr>)"
    if "st = Map.empty \<and> t = 3 \<or> st = [''10.0.0.1'' \<mapsto> \<lparr>rb_tokens = Some t, rb_last = 7\<rparr>]" "1 \<le> t" for r st t
    using that by (auto simp: Allow_def forget_idle_def dur_seconds_def time_sub_def exact_float_def exact_op_def fun_eq_iff)
  have "newTokenBucketLimiter exact_float 5 3 = \<lparr>li_rate = Some (5 / 60), li_burst = Some 3, li_state = Map.empty,
      li_ttl = 900000000000\<rparr>"
    by (simp add: newTokenBucketLimiter_def exact_float_def exact_op_def)
  then show ?thesis
    by (simp add: handleConn_def passwordCallback_def demo_connection_def demo_try_def demo_main_config_def demo_handshake_def
        host buckets [where t = 3] buckets [where t = 2] buckets [where t = 1] serve_channel_def handleSessionChannel_def)
qed

lemma demo_main_channels: "mr_channels (main_program exact_float demo_main) =
    [[RejectedChannel ''unknown channel type''],
     [ReplyTo True, ReplyTo False, ReplyTo True, RunShell ''ana'' ''10.0.0.1:99'', ClosedChannel]]"
proof -
  have "fst (NewPool (mn_pgx demo_main) (database_config demo_main_config)) = Inr ()"
    by (simp add: NewPool_def withDefaults_def validate_def database_config_def demo_main_config_def demo_main_def)
  moreover have "mn_listening demo_main" "mn_handshake demo_main = demo_handshake" "mn_key_ok demo_main" "mn_signer_ok demo_main"
    "accept_loop (mn_accepts demo_main) = (None, [demo_connection [''no''], demo_connection [''no'', ''pw'']])"
    by (simp_all add: demo_main_def)
  moreover have "fst (ApplyMigrations migrations_dir (found_migrations demo_main) (mn_ensured demo_main) (mn_queried demo_main)
      (mn_tx demo_main) (Some (mn_db demo_main))) = None"
    unfolding demo_main_migrations by (simp add: ApplyMigrations_def migrations_dir_def demo_main_def run_migration_def Let_def)
  ultimately show ?thesis
    using demo_main_clients
    by (simp add: main_program_def demo_main_config split_beta newSSHServer_def generateHostSigner_def run_server_def
        StartServer_def)
qed

lemma shells_open_only_after_login_and_migrations_witness:
  "\<exists>cfg ms c t. LoadConfigFromEnv (mn_Getenv demo_main) = Inr cfg
    \<and> found_migrations demo_main = Inr ms \<and> mr_db (main_program exact_float demo_main) = after_all ms (mn_db demo_main)
    \<and> AcceptedConn c \<in> set (mn_accepts demo_main) \<and> cn_addr c = ''10.0.0.1:99''
    \<and> t \<in> set (cn_tries c) \<and> la_user (pt_attempt t) = ''ana''
    \<and> map_of (cf_SSHUsers cfg) ''ana'' = Some (la_password (pt_attempt t))"
proof (rule shells_open_only_after_login_and_migrations)
  show "authenticating (mn_handshake demo_main)"
    by (simp add: demo_main_def demo_handshake_authenticating)
  show "[ReplyTo True, ReplyTo False, ReplyTo True, RunShell ''ana'' ''10.0.0.1:99'', ClosedChannel]
      \<in> set (mr_channels (main_program exact_float demo_main))"
    unfolding demo_main_channels by simp
  show "RunShell ''ana'' ''10.0.0.1:99'' \<in> set [ReplyTo True, ReplyTo False, ReplyTo True,
      RunShell ''ana'' ''10.0.0.1:99'', ClosedChannel]" by simp
qed

end
