(* ===== verification/Spec2Isabelle.thy ===== *)
theory Spec2Isabelle
  imports TurnGrip StateHash Accounts MatchRecord Server
begin

text \<open>
  A verification library of Terminal Wrestling League, a turn-based wrestling game that players reach
  over SSH. The program is a Go server: a session reads a player's lines, the lobby keeps the players
  who wait, the matchmaker pairs them and runs their match turn by turn, a deterministic resolver
  computes each turn, a renderer turns it into frames, a hub passes the frames on to spectators, and
  the result is stored with a replay from which the match can be computed again.

  \<^bold>\<open>Layout.\<close> A type, field, function and constant keeps its name in the source; a field carries the prefix
  of its record. Go's \<^verbatim>\<open>int\<close> is \<^typ>\<open>int\<close> where the numbers are proved to stay small, \<^verbatim>\<open>uint64\<close> is
  \<open>64 word\<close>; a Go string is a list of bytes; an error is the left summand of a sum; a map is a function to
  an option type, or an association list where its size matters; time is a number of nanoseconds.

  \<^item> \<open>Prelude\<close>, \<open>GoStrings\<close>, \<open>GoText\<close>: truncating division, the FNV hashes, encoders, and the
    functions of the packages \<^verbatim>\<open>strings\<close>, \<^verbatim>\<open>strconv\<close>, \<^verbatim>\<open>unicode/utf8\<close> that the program calls.
  \<^item> \<open>CombatTypes\<close>, \<open>CombatRules\<close>, \<open>CombatOrder\<close>, \<open>Resolver\<close>: the package \<^verbatim>\<open>internal/combat\<close>. A turn
    is \<open>ResolveTurn\<close>: canonical order of the inputs, preparation of both fighters, the action of each, the
    end of the turn. \<open>turn_acc\<close> is what the body of the Go function mutates.
  \<^item> \<open>TurnSteps\<close>, \<open>TurnInvariants\<close>, \<open>TurnFlow\<close>, \<open>TurnRolls\<close>, \<open>TurnTheorems\<close>, \<open>TurnEffects\<close>, \<open>TurnGrip\<close>,
    \<open>StateHash\<close>: the theorems on a turn. \<open>turn_step\<close> is the relation of its elementary changes; an
    invariant of the steps is one of every turn (\<open>resolve_inputs_induct\<close>). They cover the ranges of all
    numbers, health, stamina, stuns and zone penalties, the grip, the random numbers drawn and the
    two checksums of a turn.
  \<^item> \<open>Rng\<close>, \<open>Simulator\<close>: \<^verbatim>\<open>internal/engine\<close> and \<^verbatim>\<open>internal/replay\<close>. The locale \<open>bounded_source\<close>, and
    \<open>turn_resolver\<close>, the contract of the resolver a simulator is given, state what a client needs.
  \<^item> \<open>Npc\<close>: \<^verbatim>\<open>internal/npc\<close>, the opponent that plays by itself. \<open>Lobby\<close>: \<^verbatim>\<open>internal/lobby\<close>, refined to
    the list of waiting players. \<open>Renderer\<close>: \<^verbatim>\<open>internal/animation\<close>. \<open>Spectator\<close>: \<^verbatim>\<open>internal/spectator\<close>.
  \<^item> \<open>TurnInputs\<close>, \<open>Telemetry\<close>, \<open>MatchLoop\<close>, \<open>Practice\<close>, \<open>Matchmaking\<close>: \<^verbatim>\<open>internal/matchmaking\<close>. How a
    turn gets its two inputs, what a turn records, \<open>runMatch\<close>, practice and tutorial, and the coordinator
    with its lock. \<open>Telemetry\<close> has the anti-bot rules of \<^verbatim>\<open>internal/telemetry\<close> too.
    \<open>Watching\<close> is the life of a watcher, \<open>WatchByHandle\<close>, and the start and stop of the coordinator.
  \<^item> \<open>SessionText\<close>, \<open>Shell\<close>, \<open>Session\<close>, \<open>ServerConfig\<close>, \<open>RateLimit\<close>: \<^verbatim>\<open>cmd/server\<close>. The text of a
    session, its commands and the tutorial, login and the session from its start to its cleanup
    (\<open>runShell\<close>), the configuration and the token buckets. A session yields the list of what it does.
  \<^item> \<open>Database\<close>, \<open>Accounts\<close>, \<open>Seasons\<close>, \<open>ReplayJson\<close>, \<open>Archive\<close>, \<open>EventStore\<close>: \<^verbatim>\<open>internal/storage\<close>. A
    repository operation is a function of the tables and of the replies of the connection; an
    \<^verbatim>\<open>INSERT\<close> checks the keys, references and conditions of \<^verbatim>\<open>db/migrations\<close>. Players and profiles with the
    lookup of \<^verbatim>\<open>cmd/server/player_ensurer.go\<close> (locale \<open>player_directory\<close>), seasons and ratings, the JSON of
    replays, matches and their replays, the telemetry tables with the writer of
    \<^verbatim>\<open>internal/telemetry/sql_writer.go\<close> (locale \<open>telemetry_store\<close>). \<open>Migrations\<close> applies the files.
  \<^item> \<open>Ranking\<close>: \<^verbatim>\<open>internal/ranking\<close>, Glicko-2 over a record of functions on floats; \<open>Illinois\<close> and \<open>Volatility\<close>:
    the search for the new volatility ends. \<open>Metrics\<close>: the counters and
    timers, and the settings of the connection pool.
  \<^item> \<open>Server\<close>: \<^verbatim>\<open>main.go\<close> and the listening side of \<^verbatim>\<open>ssh_server.go\<close>, from the environment variables over
    the migrations to connections, channels and the shells of \<open>Session\<close>.
  \<^item> \<open>Recording\<close>, \<open>MatchRecord\<close>: the match loop and the repositories together.

  \<^bold>\<open>What the theorems show.\<close> For the core: a turn keeps every match well formed and is a function of the
  match, the set of inputs and the random source, however the inputs arrive; it draws at most six
  numbers, and the roll hash commits to all of them. A match that is not interrupted always completes;
  whatever it records as a replay reproduces, by the replay runner, its turns and checksums; its result
  is the one of its final state. For the services: no player is in two matches, no player is lost by
  the queue (but see \<open>partner_of_busy_player_is_dropped\<close>), the computer takes over exactly after a
  disconnect or two timeouts in a row, the hub never closes a channel twice (but a broadcast may
  send to a closed one, \<open>broadcast_can_panic\<close>), a key is never granted more than its burst, migrations
  interrupted anywhere resume, the non-empty lines of a session do not depend on how the network cuts them, a
  session leaves nothing behind and plays nothing before its tutorial, and a watcher always leaves. For
  the data: a match is recorded all or not at all; whatever the calls, the seasons stay one chain and a
  stored match is read back turn by turn and replayed to its final state; the archive takes every match the server
  plays to its end unless the rating service refuses the result, which it never does between players of valid ratings
  at most 500 points apart (\<open>exact_rank_close\<close>); there is one row of telemetry per player and turn, and the tables take every event of a
  session but those of spectators of a live match (\<open>session_events_are_stored\<close>); the search for the
  volatility finds a root and a rating moves with the result. A shell opens only after the migrations,
  and for a configured user whose password was given.

  \<^bold>\<open>Concurrency.\<close> An operation that holds a lock from its start to its end is one step. Where the code
  releases the lock in between, the locked sections are steps of a relation (\<open>svc_step\<close>, \<open>hub_step\<close>) over
  the state and the multiset of operations under way, and the theorems are about all its runs. What a
  \<^verbatim>\<open>select\<close> picks is a list of events given as an argument. The statements of one transaction run without
  those of another between them; between the statements of an operation without a transaction other
  sessions may act where a theorem says so (\<open>ensure_finds_or_makes_the_player\<close>).

  \<^bold>\<open>Termination and bounds.\<close> No definition uses fuel. The match and practice loops recurse on the turns left
  of \<^verbatim>\<open>MaxTurns\<close>, the tutorial on those left of 8; the scanner recurses on the bytes not yet returned and
  the command loop on the lines not yet read. The search for the volatility may not end on floats: it
  is a partial function. In exact arithmetic it is shown to end when the result is in proportion to what was expected
  (\<open>in_proportion\<close>, \<open>solveSigmaPrime_returns\<close>); for results beyond that nothing is shown.
  A wait for input returns when its events contain the end of the timer, which the theorems on
  completion assume of every turn (\<open>uninterrupted\<close>).

  \<^bold>\<open>Parameters.\<close> A clock reading is an argument. Floating-point arithmetic is the record \<open>float64\<close>; what a
  theorem needs of it is a hypothesis (\<open>float_order\<close>, \<open>counting_float\<close>) met by exact rationals with
  minus infinity; the square root, exponential and logarithm of \<open>math64\<close> are met by the real ones.
  Identifiers, digests and the text of a time stamp are parameters, and so are the replies of the
  connection and what a \<^verbatim>\<open>TIMESTAMPTZ\<close> column keeps of a time.

  \<^bold>\<open>Not modelled.\<close> The handshake of the SSH library, the sockets, signals and log output are
  I/O of libraries; the model takes what they return as arguments. Of the database, the syntax of a
  \<^verbatim>\<open>UUID\<close>, the encodings of text columns and deletion; of JSON, its text: a document is a tree. \<^verbatim>\<open>scoresForResult\<close> has no unsupported result type, since the
  type of results has only the four constants. Floating point is not IEEE arithmetic: the theorems on
  ratings are about exact numbers, those on averages about any arithmetic with the stated laws.
\<close>

end
